(* ===== verification/Prelude.thy ===== *)
theory Prelude
  imports Main "HOL-Library.Word" "HOL-Library.Finite_Map" "HOL-Library.Sublist"
    "HOL-Library.Char_ord" "HOL-Library.List_Lexorder"
begin

text \<open>
  Shared vocabulary of the development: instants and durations, machine words, Go maps and the
  order in which a \<open>range\<close> loop visits them, decimal printing, and the lemmas about them that
  several components use. A Go \<open>map\<close> is a finite map (\<open>('k, 'v) fmap\<close>); where the code ranges
  over one, the definition takes the visiting order as an argument, because Go leaves it
  unspecified, and \<open>iter_order\<close> says which lists are such orders.
\<close>

section \<open>Types\<close>

text \<open>
  Instants are nanoseconds since Go's zero time, so \<open>time.Time.IsZero\<close> is \<open>t = 0\<close>. Durations are
  nanoseconds as well.
\<close>

type_synonym instant = int
type_synonym duration = int
type_synonym byte = "8 word"
type_synonym u16 = "16 word"
type_synonym u32 = "32 word"

abbreviation (input) is_zero :: "instant \<Rightarrow> bool" where
  "is_zero t \<equiv> t = 0"

abbreviation (input) seconds :: "int \<Rightarrow> duration" where
  "seconds n \<equiv> n * 1000000000"

abbreviation (input) minutes :: "int \<Rightarrow> duration" where
  "minutes n \<equiv> seconds (n * 60)"

named_theorems model_defs "definitions of the modelled operations"
named_theorems keeps "preservation lemmas of the components' invariants"

section \<open>Finite maps as Go maps\<close>

abbreviation (input) has_key :: "('k, 'v) fmap \<Rightarrow> 'k \<Rightarrow> bool" where
  "has_key m k \<equiv> fmlookup m k \<noteq> None"

abbreviation (input) map_len :: "('k, 'v) fmap \<Rightarrow> nat" where
  "map_len m \<equiv> fcard (fmdom m)"

definition iter_order :: "'k list \<Rightarrow> ('k, 'v) fmap \<Rightarrow> bool" where
  "iter_order ks m \<longleftrightarrow> distinct ks \<and> fset_of_list ks = fmdom m"

lemma iter_order_set: "iter_order ks m \<Longrightarrow> set ks = fmdom' m"
  by (metis iter_order_def fmdom'_alt_def fset_of_list.rep_eq)

lemma iter_order_mem: "iter_order ks m \<Longrightarrow> k \<in> set ks \<longleftrightarrow> (\<exists>v. fmlookup m k = Some v)"
  by (simp add: iter_order_set fmlookup_dom'_iff)

lemma iter_order_distinct: "iter_order ks m \<Longrightarrow> distinct ks"
  by (simp add: iter_order_def)

lemma iter_order_length: "iter_order ks m \<Longrightarrow> length ks = map_len m"
  by (metis distinct_card fcard.rep_eq fset_of_list.rep_eq iter_order_def)

lemma iter_order_exists: "\<exists>ks. iter_order ks m"
proof -
  obtain ks where "set ks = fset (fmdom m)" "distinct ks"
    using finite_distinct_list [of "fset (fmdom m)"] by auto
  then show ?thesis
    by (metis iter_order_def fset_inverse fset_of_list.rep_eq)
qed

lemma fcard_fempty [simp]: "fcard {||} = 0"
  by (simp add: fcard.rep_eq)

lemma fcard_finsert_if [simp]: "fcard (finsert x A) = (if x |\<in>| A then fcard A else Suc (fcard A))"
  by (simp add: fcard.rep_eq card_insert_if)

lemma map_len_upd:
  "map_len (fmupd k v m) = (if has_key m k then map_len m else Suc (map_len m))"
  by (auto simp: fmdomI fmdom_notI)

lemma map_len_drop:
  "map_len (fmdrop k m) = (if has_key m k then map_len m - 1 else map_len m)"
  by (auto simp: fmdomI fmdom_notI)

section \<open>Decimal printing (\<open>strconv.Itoa\<close>)\<close>

definition digit_char :: "nat \<Rightarrow> char" where
  "digit_char d = char_of (48 + d)"

fun nat_digits :: "nat \<Rightarrow> string" where
  "nat_digits n = (if n < 10 then [digit_char n] else nat_digits (n div 10) @ [digit_char (n mod 10)])"

declare nat_digits.simps [simp del]

definition itoa :: "int \<Rightarrow> string" where
  "itoa i = (if i < 0 then CHR ''-'' # nat_digits (nat (- i)) else nat_digits (nat i))"

lemma of_digit_char: "d < 10 \<Longrightarrow> (of_char (digit_char d) :: nat) = 48 + d"
  by (simp add: digit_char_def)

lemma digit_char_inj: "a < 10 \<Longrightarrow> b < 10 \<Longrightarrow> digit_char a = digit_char b \<Longrightarrow> a = b"
  by (metis add_left_cancel of_digit_char)

lemma digit_char_not_minus: "d < 10 \<Longrightarrow> digit_char d \<noteq> CHR ''-''"
proof
  assume "d < 10" and "digit_char d = CHR ''-''"
  then have "48 + d = (of_char CHR ''-'' :: nat)" using of_digit_char [of d] by (simp only:)
  then show False by simp
qed

lemma digit_char_not_colon: "d < 10 \<Longrightarrow> digit_char d \<noteq> CHR '':''"
proof
  assume "d < 10" and "digit_char d = CHR '':''"
  then have "48 + d = (of_char CHR '':'' :: nat)" using of_digit_char [of d] by (simp only:)
  with \<open>d < 10\<close> show False by simp
qed

lemma nat_digits_nonempty [simp]: "nat_digits n \<noteq> []"
  by (subst nat_digits.simps) simp

lemma nat_digits_chars: "c \<in> set (nat_digits n) \<Longrightarrow> \<exists>d < 10. c = digit_char d"
proof (induction n rule: nat_digits.induct)
  case (1 n)
  then show ?case
    by (subst (asm) (2) nat_digits.simps) (auto split: if_splits intro: exI [of _ "n mod 10"])
qed

lemma nat_digits_inj: "nat_digits m = nat_digits n \<Longrightarrow> m = n"
proof (induction m arbitrary: n rule: nat_digits.induct)
  case (1 m)
  show ?case
  proof (cases "m < 10 \<or> n < 10")
    case True
    with "1.prems" show ?thesis
      by (subst (asm) nat_digits.simps, subst (asm) (2) nat_digits.simps)
        (auto split: if_splits dest: digit_char_inj sym)
  next
    case False
    with "1.prems" have "nat_digits (m div 10) = nat_digits (n div 10)"
      and "digit_char (m mod 10) = digit_char (n mod 10)"
      by (subst (asm) nat_digits.simps, subst (asm) (2) nat_digits.simps, simp)+
    with False "1.IH" [of "n div 10"] have "m div 10 = n div 10" "m mod 10 = n mod 10"
      by (auto intro: digit_char_inj)
    then show ?thesis by (metis div_mult_mod_eq)
  qed
qed

lemma itoa_inj: "itoa i = itoa j \<longleftrightarrow> i = j"
proof
  assume eq: "itoa i = itoa j"
  have neg: "CHR ''-'' \<notin> set (nat_digits n)" for n
    using nat_digits_chars digit_char_not_minus by metis
  show "i = j"
    using eq neg [of "nat i"] neg [of "nat j"]
    by (cases "i < 0"; cases "j < 0")
      (auto simp: itoa_def dest: nat_digits_inj, (metis list.set_intros(1))+)
qed simp

lemma itoa_no_colon: "CHR '':'' \<notin> set (itoa i)"
  using nat_digits_chars digit_char_not_colon unfolding itoa_def
  by (auto split: if_splits) metis+

end
