(* ===== verification/Network.thy ===== *)
theory Network
  imports Prelude
begin

text \<open>
  The data that flows between the components. The types \<open>ParsedNetworkTraffic\<close> and
  \<open>ParsedNetworkContent\<close> belong to the library akita-libs (akinet), not to this repository: the
  records and the datatype below carry exactly the constructors and fields that the code under
  src/ constructs, matches on or reads. IP comparison, header lookup and header canonicalisation
  are the Go standard library's (\<open>net.IP.Equal\<close>, \<open>http.Header.Get\<close>, \<open>http.CanonicalHeaderKey\<close>).
\<close>

section \<open>IP addresses\<close>

type_synonym ip = "byte list"

definition v4_in_v6_prefix :: "byte list" where
  "v4_in_v6_prefix = [0, 0, 0, 0, 0, 0, 0, 0, 0, 0, 255, 255]"

definition ip_equal :: "ip \<Rightarrow> ip \<Rightarrow> bool" where
  "ip_equal a b =
     (if length a = length b then a = b
      else if length a = 4 \<and> length b = 16 then take 12 b = v4_in_v6_prefix \<and> a = drop 12 b
      else if length a = 16 \<and> length b = 4 then take 12 a = v4_in_v6_prefix \<and> drop 12 a = b
      else False)"

lemma ip_equal_refl [simp]: "ip_equal a a"
  by (simp add: ip_equal_def)

lemma ip_equal_sym: "ip_equal a b \<longleftrightarrow> ip_equal b a"
  by (auto simp: ip_equal_def)

section \<open>HTTP headers\<close>

type_synonym header = "(string, string list) fmap"

definition char_code :: "char \<Rightarrow> nat" where
  "char_code c = of_char c"

definition upper_char :: "char \<Rightarrow> char" where
  "upper_char c = (if 97 \<le> char_code c \<and> char_code c \<le> 122 then char_of (char_code c - 32) else c)"

definition lower_char :: "char \<Rightarrow> char" where
  "lower_char c = (if 65 \<le> char_code c \<and> char_code c \<le> 90 then char_of (char_code c + 32) else c)"

definition token_char :: "char \<Rightarrow> bool" where
  "token_char c \<longleftrightarrow>
     (let n = char_code c in
      (48 \<le> n \<and> n \<le> 57) \<or> (65 \<le> n \<and> n \<le> 90) \<or> (97 \<le> n \<and> n \<le> 122)
      \<or> c \<in> set ''!#$%&*+-.^_|~'' \<or> n = 39 \<or> n = 96)"

fun canonical_from :: "bool \<Rightarrow> string \<Rightarrow> string" where
  "canonical_from up [] = []"
| "canonical_from up (c # cs) =
     (if up then upper_char c else lower_char c) # canonical_from (c = CHR ''-'') cs"

definition canonical_header_key :: "string \<Rightarrow> string" where
  "canonical_header_key k = (if list_all token_char k then canonical_from True k else k)"

definition header_get :: "header \<Rightarrow> string \<Rightarrow> string" where
  "header_get h k =
     (case fmlookup h (canonical_header_key k) of
        Some (v # _) \<Rightarrow> v
      | _ \<Rightarrow> [])"

section \<open>Parsed content\<close>

type_synonym uuid = string
type_synonym conn_id = string

record http_url =
  u_host :: string
  u_path :: string
  u_query :: "(string, string list) fmap"

record http_request =
  rq_stream :: uuid
  rq_seq :: int
  rq_method :: string
  rq_url :: "http_url option"
  rq_host :: string
  rq_header :: header
  rq_cookies :: "(string \<times> string) list"
  rq_body :: "byte list"
  rq_decompressed :: bool

record http_response =
  rs_stream :: uuid
  rs_seq :: int
  rs_status :: int
  rs_header :: header
  rs_cookies :: "(string \<times> string) list"
  rs_body :: "byte list"
  rs_decompressed :: bool

record tcp_packet =
  tp_conn :: conn_id
  tp_syn :: bool
  tp_ack :: bool
  tp_fin :: bool
  tp_rst :: bool
  tp_payload_len :: int

datatype tcp_initiator = UnknownInitiator | SourceInitiator | DestInitiator

datatype tcp_end_state = ConnectionOpen | ConnectionClosed | ConnectionReset

record tcp_connection =
  tc_conn :: conn_id
  tc_initiator :: tcp_initiator
  tc_end :: tcp_end_state

record client_hello =
  ch_conn :: conn_id
  ch_hostname :: "string option"

record server_hello =
  sh_conn :: conn_id
  sh_dns_names :: "string list"

record tls_handshake =
  th_conn :: conn_id
  th_version :: string
  th_sni :: string
  th_supported :: "string list"
  th_selected :: string
  th_alt_names :: "string list"

datatype content =
    HTTPRequest http_request
  | HTTPResponse http_response
  | TCPPacketMetadata tcp_packet
  | TCPConnectionMetadata tcp_connection
  | TLSClientHello client_hello
  | TLSServerHello server_hello
  | TLSHandshakeMetadata tls_handshake
  | HTTP2ConnectionPreface
  | QUICHandshakeMetadata
  | DroppedBytes int

record traffic =
  src_ip :: ip
  src_port :: int
  dst_ip :: ip
  dst_port :: int
  content :: content
  interface_name :: string
  observation_time :: instant
  final_packet_time :: instant

section \<open>Request and response pairing keys\<close>

text \<open>
  A request and its response carry the same stream identifier and sequence number; \<open>exchange_key\<close>
  is that pair, \<open>None\<close> for content that belongs to no HTTP exchange.
\<close>

fun exchange_key :: "content \<Rightarrow> (uuid \<times> int) option" where
  "exchange_key (HTTPRequest r) = Some (rq_stream r, rq_seq r)"
| "exchange_key (HTTPResponse r) = Some (rs_stream r, rs_seq r)"
| "exchange_key _ = None"

fun is_request :: "content \<Rightarrow> bool" where
  "is_request (HTTPRequest _) = True"
| "is_request _ = False"

fun is_response :: "content \<Rightarrow> bool" where
  "is_response (HTTPResponse _) = True"
| "is_response _ = False"

text \<open>
  \<open>learn.ToWitnessID\<close>: the version-5 UUID of the string \<open>stream:seq\<close>. The hash is the uuid
  library's, the parameter \<open>sha1_uuid\<close>; the string that is hashed is the repository's.
\<close>

definition witness_name :: "uuid \<Rightarrow> int \<Rightarrow> string" where
  "witness_name stream n = stream @ '':'' @ itoa n"

definition ToWitnessID :: "(string \<Rightarrow> 'id) \<Rightarrow> uuid \<Rightarrow> int \<Rightarrow> 'id" where
  "ToWitnessID sha1_uuid stream n = sha1_uuid (witness_name stream n)"

lemma witness_name_inj:
  "witness_name s m = witness_name s' n \<longleftrightarrow> s = s' \<and> m = n"
proof
  assume eq: "witness_name s m = witness_name s' n"
  have split: "takeWhile (\<lambda>c. c \<noteq> CHR '':'') (rev (witness_name x k)) = rev (itoa k)"
    "dropWhile (\<lambda>c. c \<noteq> CHR '':'') (rev (witness_name x k)) = CHR '':'' # rev x" for x k
    using itoa_no_colon [of k]
    by (auto simp: witness_name_def takeWhile_append dropWhile_append)
  from eq split [of s m] split [of s' n] have "rev (itoa m) = rev (itoa n)" "rev s = rev s'"
    by (metis, metis list.inject)
  then show "s = s' \<and> m = n" by (simp add: itoa_inj)
qed simp

text \<open>Concrete packets for the witnesses.\<close>

definition sample_traffic :: "content \<Rightarrow> traffic" where
  "sample_traffic c =
     \<lparr>src_ip = [10, 0, 0, 1], src_port = 40000, dst_ip = [10, 0, 0, 2], dst_port = 80, content = c,
      interface_name = ''eth0'', observation_time = 1000, final_packet_time = 2000\<rparr>"

definition sample_request :: "uuid \<Rightarrow> int \<Rightarrow> http_request" where
  "sample_request stream n =
     \<lparr>rq_stream = stream, rq_seq = n, rq_method = ''GET'', rq_url = None, rq_host = ''example.com'',
      rq_header = fmempty, rq_cookies = [], rq_body = [], rq_decompressed = False\<rparr>"

definition sample_response :: "uuid \<Rightarrow> int \<Rightarrow> http_response" where
  "sample_response stream n =
     \<lparr>rs_stream = stream, rs_seq = n, rs_status = 200, rs_header = fmempty, rs_cookies = [],
      rs_body = [], rs_decompressed = False\<rparr>"

lemma sample_simps [simp]:
  "content (sample_traffic c) = c"
  "src_port (sample_traffic c) = 40000" "dst_port (sample_traffic c) = 80"
  "interface_name (sample_traffic c) = ''eth0''"
  "observation_time (sample_traffic c) = 1000"
  "rq_stream (sample_request s n) = s" "rq_seq (sample_request s n) = n"
  "rs_stream (sample_response s n) = s" "rs_seq (sample_response s n) = n"
  by (simp_all add: sample_traffic_def sample_request_def sample_response_def)

end
