(* ===== verification/Packet_Stats.thy ===== *)
theory Packet_Stats
  imports Network "HOL-Library.Product_Lexorder" "HOL-Library.Multiset"
begin

text \<open>
  The packet statistics of trace/stats.go: \<open>BoundedPacketCounter\<close>, which tracks at most \<open>limit\<close>
  keys and sums everything else into an overflow counter, and \<open>PacketCounter\<close>, which keeps a total
  and one bounded counter per port, interface and host. The record \<open>PacketCounts\<close> and its method
  \<open>Add\<close> are the client_telemetry library's: the record has the fields this repository uses, and
  \<open>Add\<close> is the parameter \<open>add\<close>, of which \<open>adds_counts\<close> states the documented behaviour (every
  counter is added, the identifying fields are kept).
\<close>

section \<open>Packet counts\<close>

record packet_counts =
  pc_interface :: string
  pc_src_host :: string
  pc_dst_host :: string
  pc_src_port :: int
  pc_dst_port :: int
  pc_tcp :: int
  pc_http_req :: int
  pc_http_resp :: int
  pc_tls :: int
  pc_http2 :: int
  pc_quic :: int
  pc_unparsed :: int
  pc_oversized :: int

definition zero_counts :: packet_counts where
  "zero_counts =
     \<lparr>pc_interface = [], pc_src_host = [], pc_dst_host = [], pc_src_port = 0, pc_dst_port = 0,
      pc_tcp = 0, pc_http_req = 0, pc_http_resp = 0, pc_tls = 0, pc_http2 = 0, pc_quic = 0,
      pc_unparsed = 0, pc_oversized = 0\<rparr>"

definition counters :: "(packet_counts \<Rightarrow> int) list" where
  "counters = [pc_tcp, pc_http_req, pc_http_resp, pc_tls, pc_http2, pc_quic, pc_unparsed, pc_oversized]"

type_synonym adder = "packet_counts \<Rightarrow> packet_counts \<Rightarrow> packet_counts"

definition adds_counts :: "adder \<Rightarrow> bool" where
  "adds_counts add \<longleftrightarrow>
     (\<forall>a d. (\<forall>f \<in> set counters. f (add a d) = f a + f d)
        \<and> pc_interface (add a d) = pc_interface a \<and> pc_src_host (add a d) = pc_src_host a
        \<and> pc_dst_host (add a d) = pc_dst_host a \<and> pc_src_port (add a d) = pc_src_port a
        \<and> pc_dst_port (add a d) = pc_dst_port a)"

lemma adds_countsD: "adds_counts add \<Longrightarrow> f \<in> set counters \<Longrightarrow> f (add a d) = f a + f d"
  by (simp add: adds_counts_def)

lemma counters_zero:
  "f \<in> set counters \<Longrightarrow>
     f (zero_counts\<lparr>pc_interface := i, pc_src_host := h, pc_dst_host := h', pc_src_port := p, pc_dst_port := q\<rparr>) = 0"
  by (auto simp: counters_def zero_counts_def)

lemma counters_zero_label:
  "f \<in> set counters \<Longrightarrow> f zero_counts = 0"
  "f \<in> set counters \<Longrightarrow> f (zero_counts\<lparr>pc_interface := i\<rparr>) = 0"
  "f \<in> set counters \<Longrightarrow> f (zero_counts\<lparr>pc_interface := i, pc_src_port := p\<rparr>) = 0"
  "f \<in> set counters \<Longrightarrow> f (zero_counts\<lparr>pc_interface := i, pc_src_host := h\<rparr>) = 0"
  "f \<in> set counters \<Longrightarrow> f (zero_counts\<lparr>pc_interface := i, pc_src_port := p, pc_dst_port := q\<rparr>) = 0"
  by (auto simp: counters_def zero_counts_def)

text \<open>A concrete \<open>Add\<close> for the witnesses.\<close>

definition sum_counts :: adder where
  "sum_counts a d = a\<lparr>pc_tcp := pc_tcp a + pc_tcp d, pc_http_req := pc_http_req a + pc_http_req d,
     pc_http_resp := pc_http_resp a + pc_http_resp d, pc_tls := pc_tls a + pc_tls d,
     pc_http2 := pc_http2 a + pc_http2 d, pc_quic := pc_quic a + pc_quic d,
     pc_unparsed := pc_unparsed a + pc_unparsed d, pc_oversized := pc_oversized a + pc_oversized d\<rparr>"

lemma adds_counts_sum_counts: "adds_counts sum_counts"
  by (simp add: adds_counts_def sum_counts_def counters_def)

section \<open>Bounded counters\<close>

record 'k bounded_counter =
  bc_limit :: int
  bc_overflow :: packet_counts
  bc_m :: "('k, packet_counts) fmap"

definition NewBoundedPacketCounter :: "int \<Rightarrow> 'k bounded_counter" where
  "NewBoundedPacketCounter limit =
     \<lparr>bc_limit = limit,
      bc_overflow = zero_counts\<lparr>pc_interface := ''*'', pc_src_port := 0, pc_dst_port := 0\<rparr>,
      bc_m = fmempty\<rparr>"

definition HasReachedLimit :: "'k bounded_counter \<Rightarrow> bool" where
  "HasReachedLimit bc \<longleftrightarrow> bc_limit bc \<le> int (map_len (bc_m bc))"

definition AddOrInsert ::
  "adder \<Rightarrow> 'k \<Rightarrow> packet_counts \<Rightarrow> (packet_counts \<Rightarrow> packet_counts) \<Rightarrow> 'k bounded_counter \<Rightarrow> 'k bounded_counter"
where
  "AddOrInsert add key c makeNew bc =
     (case fmlookup (bc_m bc) key of
        Some prev \<Rightarrow> bc\<lparr>bc_m := fmupd key (add prev c) (bc_m bc)\<rparr>
      | None \<Rightarrow>
          if HasReachedLimit bc then bc\<lparr>bc_overflow := add (bc_overflow bc) c\<rparr>
          else bc\<lparr>bc_m := fmupd key (makeNew c) (bc_m bc)\<rparr>)"

definition bc_Get :: "'k bounded_counter \<Rightarrow> 'k \<Rightarrow> packet_counts option" where
  "bc_Get bc key = fmlookup (bc_m bc) key"

definition GetOverflow :: "'k bounded_counter \<Rightarrow> packet_counts option" where
  "GetOverflow bc = (if HasReachedLimit bc then Some (bc_overflow bc) else None)"

definition bc_Len :: "'k bounded_counter \<Rightarrow> nat" where
  "bc_Len bc = map_len (bc_m bc)"

text \<open>
  \<open>TopN\<close> collects the entries in the map's visiting order, sorts them by descending projection and
  ascending key, and keeps the first \<open>n\<close>. The comparison is a strict total order on entries with
  distinct keys, so the sorting algorithm is immaterial: \<open>sort_key\<close> on \<open>(- projection, key)\<close>.
\<close>

definition entries :: "'k list \<Rightarrow> ('k, packet_counts) fmap \<Rightarrow> ('k \<times> packet_counts) list" where
  "entries order m = List.map_filter (\<lambda>k. map_option (Pair k) (fmlookup m k)) order"

definition top_pairs ::
  "('k::linorder) list \<Rightarrow> int \<Rightarrow> (packet_counts \<Rightarrow> int) \<Rightarrow> 'k bounded_counter \<Rightarrow> ('k \<times> packet_counts) list"
where
  "top_pairs order n project bc =
     take (nat n) (sort_key (\<lambda>(k, v). (- project v, k)) (entries order (bc_m bc)))"

definition TopN ::
  "('k::linorder) list \<Rightarrow> int \<Rightarrow> (packet_counts \<Rightarrow> int) \<Rightarrow> 'k bounded_counter
     \<Rightarrow> ('k, packet_counts) fmap \<times> packet_counts option"
where
  "TopN order n project bc = (fmap_of_list (top_pairs order n project bc), GetOverflow bc)"

lemmas bounded_defs =
  NewBoundedPacketCounter_def HasReachedLimit_def AddOrInsert_def bc_Get_def GetOverflow_def bc_Len_def

section \<open>The packet counter\<close>

record packet_counter =
  ps_total :: packet_counts
  ps_by_port :: "int bounded_counter"
  ps_by_interface :: "string bounded_counter"
  ps_by_host :: "string bounded_counter"

definition maxKeys :: int where
  "maxKeys = 10000"

definition NewPacketCounter :: packet_counter where
  "NewPacketCounter =
     \<lparr>ps_total = zero_counts,
      ps_by_port = NewBoundedPacketCounter maxKeys,
      ps_by_interface = NewBoundedPacketCounter maxKeys,
      ps_by_host = NewBoundedPacketCounter maxKeys\<rparr>"

definition new_host :: "adder \<Rightarrow> string \<Rightarrow> packet_counts \<Rightarrow> packet_counts" where
  "new_host add h c = add (zero_counts\<lparr>pc_interface := ''*'', pc_src_host := h\<rparr>) c"

definition new_port :: "adder \<Rightarrow> int \<Rightarrow> packet_counts \<Rightarrow> packet_counts" where
  "new_port add p c = add (zero_counts\<lparr>pc_interface := ''*'', pc_src_port := p, pc_dst_port := 0\<rparr>) c"

definition new_interface :: "adder \<Rightarrow> packet_counts \<Rightarrow> packet_counts" where
  "new_interface add c =
     add (zero_counts\<lparr>pc_interface := pc_interface c, pc_src_port := 0, pc_dst_port := 0\<rparr>) c"

definition Update :: "adder \<Rightarrow> packet_counts \<Rightarrow> packet_counter \<Rightarrow> packet_counter" where
  "Update add c s =
     (let h1 = (if pc_src_host c \<noteq> []
                then AddOrInsert add (pc_src_host c) c (new_host add (pc_src_host c)) (ps_by_host s)
                else ps_by_host s);
          h2 = (if pc_dst_host c \<noteq> []
                then AddOrInsert add (pc_dst_host c) c (new_host add (pc_dst_host c)) h1
                else h1);
          p1 = AddOrInsert add (pc_src_port c) c (new_port add (pc_src_port c)) (ps_by_port s);
          p2 = AddOrInsert add (pc_dst_port c) c (new_port add (pc_dst_port c)) p1;
          i1 = AddOrInsert add (pc_interface c) c (new_interface add) (ps_by_interface s)
      in s\<lparr>ps_by_host := h2, ps_by_port := p2, ps_by_interface := i1, ps_total := add (ps_total s) c\<rparr>)"

definition TotalOnInterface :: "packet_counter \<Rightarrow> string \<Rightarrow> packet_counts" where
  "TotalOnInterface s name =
     (case bc_Get (ps_by_interface s) name of
        Some cnt \<Rightarrow> cnt
      | None \<Rightarrow> zero_counts\<lparr>pc_interface := name\<rparr>)"

definition TotalOnPort :: "packet_counter \<Rightarrow> int \<Rightarrow> packet_counts" where
  "TotalOnPort s port =
     (case bc_Get (ps_by_port s) port of
        Some cnt \<Rightarrow> cnt
      | None \<Rightarrow> zero_counts\<lparr>pc_interface := ''*'', pc_src_port := port\<rparr>)"

definition TotalOnHost :: "packet_counter \<Rightarrow> string \<Rightarrow> packet_counts" where
  "TotalOnHost s host =
     (case bc_Get (ps_by_host s) host of
        Some cnt \<Rightarrow> cnt
      | None \<Rightarrow> zero_counts\<lparr>pc_interface := ''*'', pc_src_host := host\<rparr>)"

definition AllPorts :: "int list \<Rightarrow> packet_counter \<Rightarrow> packet_counts list" where
  "AllPorts order s = map snd (entries order (bc_m (ps_by_port s)))"

record packet_count_summary =
  sm_total :: packet_counts
  sm_top_by_port :: "(int, packet_counts) fmap"
  sm_top_by_interface :: "(string, packet_counts) fmap"
  sm_top_by_host :: "(string, packet_counts) fmap"
  sm_overflow_limit :: int
  sm_port_overflow :: "packet_counts option"
  sm_interface_overflow :: "packet_counts option"
  sm_host_overflow :: "packet_counts option"

definition Summary ::
  "int list \<Rightarrow> string list \<Rightarrow> string list \<Rightarrow> int \<Rightarrow> packet_counter \<Rightarrow> packet_count_summary" where
  "Summary ports interfaces hosts n s =
     (let (topByPort, byPortOverflow) = TopN ports n pc_tcp (ps_by_port s);
          (topByInterface, byInterfaceOverflow) = TopN interfaces n pc_tcp (ps_by_interface s);
          (topByHost, byHostOverflow) = TopN hosts n (\<lambda>c. pc_http_req c + pc_tls c) (ps_by_host s)
      in \<lparr>sm_total = ps_total s,
          sm_top_by_port = topByPort, sm_top_by_interface = topByInterface, sm_top_by_host = topByHost,
          sm_overflow_limit = maxKeys,
          sm_port_overflow = byPortOverflow, sm_interface_overflow = byInterfaceOverflow,
          sm_host_overflow = byHostOverflow\<rparr>)"

section \<open>Sequences of additions to one bounded counter\<close>

text \<open>
  \<open>Update\<close> feeds each bounded counter a list of (key, counts) additions. The lemmas below are about
  any such list, with \<open>mk k\<close> the constructor used for the first addition of key \<open>k\<close>.
\<close>

definition add_events ::
  "adder \<Rightarrow> ('k \<Rightarrow> packet_counts \<Rightarrow> packet_counts) \<Rightarrow> ('k \<times> packet_counts) list
     \<Rightarrow> 'k bounded_counter \<Rightarrow> 'k bounded_counter"
where
  "add_events add mk evs bc = fold (\<lambda>(k, c). AddOrInsert add k c (mk k)) evs bc"

definition event_sum :: "(packet_counts \<Rightarrow> int) \<Rightarrow> 'k \<Rightarrow> ('k \<times> packet_counts) list \<Rightarrow> int" where
  "event_sum f k evs = (\<Sum>(k', c) \<leftarrow> evs. if k' = k then f c else 0)"

definition tracked_sum :: "(packet_counts \<Rightarrow> int) \<Rightarrow> 'k bounded_counter \<Rightarrow> int" where
  "tracked_sum f bc =
     (\<Sum>k \<in> fset (fmdom (bc_m bc)). f (the (fmlookup (bc_m bc) k))) + f (bc_overflow bc)"

definition counts_new :: "(packet_counts \<Rightarrow> int) \<Rightarrow> ('k \<Rightarrow> packet_counts \<Rightarrow> packet_counts) \<Rightarrow> bool" where
  "counts_new f mk \<longleftrightarrow> (\<forall>k c. f (mk k c) = f c)"

lemma add_events_Nil [simp]: "add_events add mk [] bc = bc"
  by (simp add: add_events_def)

lemma add_events_append:
  "add_events add mk (evs @ evs') bc = add_events add mk evs' (add_events add mk evs bc)"
  by (simp add: add_events_def)

lemma add_events_snoc [simp]:
  "add_events add mk (evs @ [(k, c)]) bc = AddOrInsert add k c (mk k) (add_events add mk evs bc)"
  by (simp add: add_events_def)

lemma event_sum_simps [simp]:
  "event_sum f k [] = 0"
  "event_sum f k ((k', c) # evs) = (if k' = k then f c else 0) + event_sum f k evs"
  "event_sum f k (evs @ evs') = event_sum f k evs + event_sum f k evs'"
  by (simp_all add: event_sum_def)

lemma AddOrInsert_limit [simp]: "bc_limit (AddOrInsert add k c mk bc) = bc_limit bc"
  by (auto simp: AddOrInsert_def split: option.splits)

lemma add_events_limit [simp]: "bc_limit (add_events add mk evs bc) = bc_limit bc"
  by (induction evs rule: rev_induct) auto

lemma AddOrInsert_bound [keeps]:
  "int (bc_Len bc) \<le> max 0 (bc_limit bc) \<Longrightarrow>
     int (bc_Len (AddOrInsert add k c mk bc)) \<le> max 0 (bc_limit bc)"
  by (auto simp: AddOrInsert_def bc_Len_def HasReachedLimit_def map_len_upd
      simp del: fmdom_fmupd split: option.splits)

lemma add_events_bound:
  "int (bc_Len bc) \<le> max 0 (bc_limit bc) \<Longrightarrow>
     int (bc_Len (add_events add mk evs bc)) \<le> max 0 (bc_limit bc)"
proof (induction evs rule: rev_induct)
  case (snoc e evs)
  then show ?case
    using AddOrInsert_bound [of "add_events add mk evs bc"] by (cases e) simp
qed simp

lemma AddOrInsert_reached:
  "HasReachedLimit bc \<Longrightarrow> HasReachedLimit (AddOrInsert add k c mk bc)"
  by (auto simp: AddOrInsert_def HasReachedLimit_def map_len_upd
      simp del: fmdom_fmupd split: option.splits)

lemma AddOrInsert_tracked_sum:
  assumes add: "\<And>a d. f (add a d) = f a + f d" and mk: "f (mk c) = f c"
  shows "tracked_sum f (AddOrInsert add k c mk bc) = tracked_sum f bc + f c"
proof (cases "fmlookup (bc_m bc) k")
  case None
  then have "k |\<notin>| fmdom (bc_m bc)" by (simp add: fmdom_notI)
  then show ?thesis
    using None add mk
    by (auto simp: AddOrInsert_def tracked_sum_def intro!: sum.cong)
next
  case (Some v)
  then have k: "k |\<in>| fmdom (bc_m bc)" by (simp add: fmdomI)
  let ?D = "fset (fmdom (bc_m bc))" and ?m = "bc_m bc"
  have "(\<Sum>j \<in> ?D. f (the (fmlookup (fmupd k (add v c) ?m) j))) =
        (\<Sum>j \<in> ?D. f (the (fmlookup ?m j)) + (if j = k then f c else 0))"
    using Some add by (intro sum.cong) auto
  also have "\<dots> = (\<Sum>j \<in> ?D. f (the (fmlookup ?m j))) + f c"
    using k by (simp add: sum.distrib)
  finally show ?thesis
    using Some k by (simp add: AddOrInsert_def tracked_sum_def insert_absorb)
qed

lemma add_events_tracked_sum:
  assumes "\<And>a d. f (add a d) = f a + f d" and "counts_new f mk"
  shows "tracked_sum f (add_events add mk evs bc) = tracked_sum f bc + (\<Sum>(k, c) \<leftarrow> evs. f c)"
proof (induction evs rule: rev_induct)
  case (snoc e evs)
  then show ?case
    using assms by (cases e) (simp add: AddOrInsert_tracked_sum counts_new_def)
qed simp

text \<open>A tracked key has every addition ever made to it; an untracked one was refused at the limit.\<close>

lemma add_events_exact:
  fixes evs :: "('k \<times> packet_counts) list" and limit :: int
  assumes add: "\<And>a d. f (add a d) = f a + f d" and mk: "counts_new f mk"
  defines "B \<equiv> \<lambda>evs. add_events add mk evs (NewBoundedPacketCounter limit)"
  shows "(\<forall>k v. bc_Get (B evs) k = Some v \<longrightarrow> f v = event_sum f k evs)
       \<and> (\<forall>k. bc_Get (B evs) k = None \<and> k \<in> fst ` set evs \<longrightarrow> HasReachedLimit (B evs))"
proof (induction evs rule: rev_induct)
  case Nil
  then show ?case by (simp add: B_def bounded_defs)
next
  case (snoc e evs)
  obtain k c where e: "e = (k, c)" by (cases e)
  have step: "B (evs @ [(k, c)]) = AddOrInsert add k c (mk k) (B evs)"
    by (simp add: B_def)
  have unseen: "event_sum f k evs = 0" if "k \<notin> fst ` set evs"
    using that by (induction evs) (auto simp: event_sum_def)
  have zero: "event_sum f k evs = 0" if "fmlookup (bc_m (B evs)) k = None" "\<not> HasReachedLimit (B evs)"
    using that snoc unseen unfolding bc_Get_def by blast
  show ?case
  proof (intro conjI allI impI)
    fix j v
    assume v: "bc_Get (B (evs @ [e])) j = Some v"
    show "f v = event_sum f j (evs @ [e])"
      using v snoc zero add mk e
      by (auto simp: step AddOrInsert_def bc_Get_def counts_new_def split: option.splits if_splits)
  next
    fix j
    assume new: "bc_Get (B (evs @ [e])) j = None \<and> j \<in> fst ` set (evs @ [e])"
    show "HasReachedLimit (B (evs @ [e]))"
    proof (cases "HasReachedLimit (B evs)")
      case True
      then show ?thesis by (simp add: e step AddOrInsert_reached)
    next
      case False
      with new have "j \<noteq> k" "bc_Get (B evs) j = None"
        by (auto simp: e step AddOrInsert_def bc_Get_def split: option.splits if_splits)
      moreover from new e \<open>j \<noteq> k\<close> have "j \<in> fst ` set evs" by auto
      ultimately show ?thesis using snoc False by blast
    qed
  qed
qed

section \<open>The bounded counters of a packet counter\<close>

fun port_events :: "packet_counts \<Rightarrow> (int \<times> packet_counts) list" where
  "port_events c = [(pc_src_port c, c), (pc_dst_port c, c)]"

fun interface_events :: "packet_counts \<Rightarrow> (string \<times> packet_counts) list" where
  "interface_events c = [(pc_interface c, c)]"

definition host_events :: "packet_counts \<Rightarrow> (string \<times> packet_counts) list" where
  "host_events c =
     (if pc_src_host c \<noteq> [] then [(pc_src_host c, c)] else [])
     @ (if pc_dst_host c \<noteq> [] then [(pc_dst_host c, c)] else [])"

lemma Update_parts:
  "ps_by_port (Update add c s) = add_events add (new_port add) (port_events c) (ps_by_port s)"
  "ps_by_interface (Update add c s) =
     add_events add (\<lambda>_. new_interface add) (interface_events c) (ps_by_interface s)"
  "ps_by_host (Update add c s) = add_events add (new_host add) (host_events c) (ps_by_host s)"
  "ps_total (Update add c s) = add (ps_total s) c"
  by (simp_all add: Update_def add_events_def host_events_def Let_def)

lemma fold_Update_parts:
  "ps_by_port (fold (Update add) cs s) =
     add_events add (new_port add) (concat (map port_events cs)) (ps_by_port s)"
  "ps_by_interface (fold (Update add) cs s) =
     add_events add (\<lambda>_. new_interface add) (concat (map interface_events cs)) (ps_by_interface s)"
  "ps_by_host (fold (Update add) cs s) =
     add_events add (new_host add) (concat (map host_events cs)) (ps_by_host s)"
  "ps_total (fold (Update add) cs s) = foldl add (ps_total s) cs"
  by (induction cs arbitrary: s) (simp_all add: Update_parts add_events_append del: port_events.simps interface_events.simps)

lemma counts_new_constructors:
  assumes "adds_counts add" "f \<in> set counters"
  shows "counts_new f (new_port add)" "counts_new f (\<lambda>_. new_interface add)"
    "counts_new f (new_host add)"
  using assms
  by (simp_all add: counts_new_def new_port_def new_interface_def new_host_def adds_countsD
      counters_zero_label)

lemma foldl_add_counter:
  assumes "adds_counts add" "f \<in> set counters"
  shows "f (foldl add a cs) = f a + sum_list (map f cs)"
  by (induction cs arbitrary: a) (simp_all add: adds_countsD [OF assms])

lemma sum_port_events: "(\<Sum>(k, c) \<leftarrow> concat (map port_events cs). f c) = 2 * sum_list (map f cs)"
  for f :: "packet_counts \<Rightarrow> int"
  by (induction cs) simp_all

lemma sum_interface_events:
  "(\<Sum>(k, c) \<leftarrow> concat (map interface_events cs). f c) = sum_list (map f cs)"
  for f :: "packet_counts \<Rightarrow> int"
  by (induction cs) simp_all

lemma tracked_sum_new: "f \<in> set counters \<Longrightarrow> tracked_sum f (NewBoundedPacketCounter n) = 0"
  by (simp add: tracked_sum_def NewBoundedPacketCounter_def counters_zero_label)

section \<open>Selecting the top entries\<close>

lemma entries_set:
  "iter_order order m \<Longrightarrow> (k, v) \<in> set (entries order m) \<longleftrightarrow> fmlookup m k = Some v"
  by (force simp: entries_def List.map_filter_def iter_order_mem)

lemma entries_keys: "iter_order order m \<Longrightarrow> map fst (entries order m) = order"
proof -
  assume ord: "iter_order order m"
  have "map fst (entries ks m) = ks" if "set ks \<subseteq> set order" for ks
    using that iter_order_mem [OF ord]
    by (induction ks) (auto simp: entries_def map_filter_simps split: option.splits)
  then show ?thesis by simp
qed

lemma entries_mset:
  assumes "iter_order o1 m" "iter_order o2 m"
  shows "mset (entries o1 m) = mset (entries o2 m)"
proof -
  have "distinct (entries o1 m)" "distinct (entries o2 m)"
    by (metis assms distinct_map entries_keys iter_order_distinct)+
  moreover have "set (entries o1 m) = set (entries o2 m)"
    using assms by (auto simp: entries_set)
  ultimately show ?thesis by (metis set_eq_iff_mset_eq_distinct)
qed

lemma rank_inj: "iter_order order m \<Longrightarrow> inj_on (\<lambda>(k, v). (- g v, k)) (set (entries order m))"
  for g :: "packet_counts \<Rightarrow> int"
  by (auto simp: inj_on_def entries_set)

lemma top_pairs_order:
  assumes "iter_order o1 (bc_m bc)" "iter_order o2 (bc_m bc)"
  shows "top_pairs o1 n project bc = top_pairs o2 n project bc"
proof -
  have "sort_key (\<lambda>(k, v). (- project v, k)) (entries o1 (bc_m bc)) =
        sort_key (\<lambda>(k, v). (- project v, k)) (entries o2 (bc_m bc))"
    by (rule sort_key_inj_key_eq)
      (use assms rank_inj in \<open>simp_all add: entries_mset [OF assms] sorted_sort_key\<close>)
  then show ?thesis by (simp add: top_pairs_def)
qed

lemma distinct_top_keys:
  assumes "iter_order order (bc_m bc)"
  shows "distinct (map fst (top_pairs order n project bc))"
proof -
  let ?sorted = "sort_key (\<lambda>(k, v). (- project v, k)) (entries order (bc_m bc))"
  have "distinct (map fst (entries order (bc_m bc)))"
    using assms by (simp add: entries_keys iter_order_distinct)
  then have "distinct (map fst ?sorted)"
    by (metis distinct_map mset_eq_imp_distinct_iff mset_map mset_sort)
  then show ?thesis by (simp add: top_pairs_def take_map [symmetric])
qed

lemma top_pairs_lookup:
  assumes "iter_order order (bc_m bc)"
  shows "fmlookup (fst (TopN order n project bc)) k = Some v \<longleftrightarrow> (k, v) \<in> set (top_pairs order n project bc)"
  using distinct_top_keys [OF assms] by (simp add: TopN_def fmlookup_of_list)

lemma top_pairs_dominate:
  assumes ord: "iter_order order (bc_m bc)"
    and sel: "(k, v) \<in> set (top_pairs order n project bc)"
    and rest: "fmlookup (bc_m bc) k' = Some v'" "(k', v') \<notin> set (top_pairs order n project bc)"
  shows "project v' < project v \<or> project v' = project v \<and> k < k'"
proof -
  let ?rank = "\<lambda>(k, v). (- project v, k)"
  let ?s = "sort_key ?rank (entries order (bc_m bc))"
  have "(k', v') \<in> set ?s" using rest(1) ord by (simp add: entries_set)
  moreover have "?s = top_pairs order n project bc @ drop (nat n) ?s"
    by (simp add: top_pairs_def)
  ultimately have "(k', v') \<in> set (drop (nat n) ?s)"
    using rest(2) by (metis Un_iff set_append)
  moreover have "sorted (map ?rank (top_pairs order n project bc @ drop (nat n) ?s))"
    by (metis \<open>?s = top_pairs order n project bc @ drop (nat n) ?s\<close> sorted_sort_key)
  ultimately have "?rank (k, v) \<le> ?rank (k', v')"
    using sel by (fastforce simp: sorted_append)
  moreover have "?rank (k, v) \<noteq> ?rank (k', v')"
    using sel rest by auto (metis ord entries_set in_set_takeD option.inject set_sort top_pairs_def)
  ultimately show ?thesis by (auto simp: less_eq_prod_def)
qed

lemma top_pairs_length: "length (top_pairs order n project bc) = min (nat n) (length (entries order (bc_m bc)))"
  by (simp add: top_pairs_def min.commute)

lemma top_pairs_size:
  assumes "iter_order order (bc_m bc)"
  shows "map_len (fmap_of_list (top_pairs order n project bc)) = min (nat n) (map_len (bc_m bc))"
proof -
  let ?ps = "top_pairs order n project bc"
  have "map_len (fmap_of_list ?ps) = card (set (map fst ?ps))"
    by (simp add: fcard.rep_eq fset_of_list.rep_eq)
  also have "\<dots> = length ?ps"
    using distinct_top_keys [OF assms] by (metis distinct_card length_map)
  finally show ?thesis
    using iter_order_length [OF assms] entries_keys [OF assms]
    by (metis length_map top_pairs_length)
qed

section \<open>The consumer interface\<close>

text \<open>
  \<open>PacketCountConsumer\<close>: what accepts packet counts. Its clients (the packet-counting collector, the
  report buffer, the packet observer of the capture loop) only call \<open>Update\<close>; the contract says that
  the consumer's total is the sum of all updates.
\<close>

locale packet_count_consumer =
  fixes add :: adder
    and update :: "packet_counts \<Rightarrow> 'c \<Rightarrow> 'c"
    and total :: "'c \<Rightarrow> packet_counts"
  assumes total_update: "total (update c s) = add (total s) c"
begin

lemma total_fold: "total (fold update cs s) = foldl add (total s) cs"
  by (induction cs arbitrary: s) (simp_all add: total_update)

lemma total_counter:
  assumes "adds_counts add" "f \<in> set counters"
  shows "f (total (fold update cs s)) = f (total s) + sum_list (map f cs)"
  by (simp add: total_fold foldl_add_counter [OF assms])

end

interpretation packet_counter: packet_count_consumer add "Update add" ps_total for add
  by unfold_locales (simp add: Update_parts)

section \<open>Properties\<close>

text \<open>
  Conservation of the statistics. After any sequence of updates the total of each counter is the
  sum of the updates; the per-interface counters together with their overflow hold that same sum,
  and the per-port counters with their overflow hold it twice (a packet is counted at its source and
  at its destination port). Nothing is lost when the limit on keys is reached.
\<close>

lemma counts_conserved:
  assumes "adds_counts add" "f \<in> set counters"
  shows "f (ps_total (fold (Update add) cs NewPacketCounter)) = sum_list (map f cs)
    \<and> tracked_sum f (ps_by_interface (fold (Update add) cs NewPacketCounter)) = sum_list (map f cs)
    \<and> tracked_sum f (ps_by_port (fold (Update add) cs NewPacketCounter)) = 2 * sum_list (map f cs)"
proof (intro conjI)
  show "f (ps_total (fold (Update add) cs NewPacketCounter)) = sum_list (map f cs)"
    using packet_counter.total_counter [OF assms] assms(2)
    by (simp add: NewPacketCounter_def counters_zero_label)
qed (use assms in \<open>simp_all add: fold_Update_parts add_events_tracked_sum adds_countsD counts_new_constructors
    NewPacketCounter_def tracked_sum_new sum_port_events sum_interface_events
    del: port_events.simps interface_events.simps\<close>)

lemma counts_conserved_witness:
  "pc_tcp (ps_total (fold (Update sum_counts)
      [zero_counts\<lparr>pc_interface := ''eth0'', pc_src_port := 80, pc_tcp := 3\<rparr>] NewPacketCounter)) = 3
    \<and> tracked_sum pc_tcp (ps_by_port (fold (Update sum_counts)
      [zero_counts\<lparr>pc_interface := ''eth0'', pc_src_port := 80, pc_tcp := 3\<rparr>] NewPacketCounter)) = 6"
  using counts_conserved [OF adds_counts_sum_counts, of pc_tcp
      "[zero_counts\<lparr>pc_interface := ''eth0'', pc_src_port := 80, pc_tcp := 3\<rparr>]"]
  by (simp add: counters_def)

text \<open>
  A per-port total is never partial. For every port, \<open>TotalOnPort\<close> is the exact sum of all the
  updates with that source or destination port, or the port was refused altogether because the
  limit on tracked ports had been reached before it was first seen.
\<close>

lemma port_totals_exact:
  assumes "adds_counts add" "f \<in> set counters"
  shows "f (TotalOnPort (fold (Update add) cs NewPacketCounter) p) =
      (\<Sum>c \<leftarrow> cs. (if pc_src_port c = p then f c else 0) + (if pc_dst_port c = p then f c else 0))
    \<or> bc_Get (ps_by_port (fold (Update add) cs NewPacketCounter)) p = None
      \<and> HasReachedLimit (ps_by_port (fold (Update add) cs NewPacketCounter))"
proof -
  let ?evs = "concat (map port_events cs)"
  let ?bc = "add_events add (new_port add) ?evs (NewBoundedPacketCounter maxKeys)"
  have sum: "event_sum f p ?evs =
      (\<Sum>c \<leftarrow> cs. (if pc_src_port c = p then f c else 0) + (if pc_dst_port c = p then f c else 0))"
    by (induction cs) simp_all
  have unseen: "event_sum f p ?evs = 0" if "p \<notin> fst ` set ?evs"
    using that unfolding sum by (induction cs) auto
  have bc: "ps_by_port (fold (Update add) cs NewPacketCounter) = ?bc"
    by (simp add: fold_Update_parts NewPacketCounter_def)
  have exact: "(\<forall>k v. bc_Get ?bc k = Some v \<longrightarrow> f v = event_sum f k ?evs)
      \<and> (\<forall>k. bc_Get ?bc k = None \<and> k \<in> fst ` set ?evs \<longrightarrow> HasReachedLimit ?bc)"
    using assms by (intro add_events_exact) (simp_all add: adds_countsD counts_new_constructors)
  show ?thesis
  proof (cases "bc_Get ?bc p")
    case None
    then have "p \<notin> fst ` set ?evs \<or> HasReachedLimit ?bc" using exact by blast
    with None unseen assms(2) show ?thesis
      by (auto simp: bc sum TotalOnPort_def counters_zero_label simp del: port_events.simps)
  next
    case (Some v)
    with exact show ?thesis by (simp add: bc sum TotalOnPort_def)
  qed
qed

lemma port_totals_exact_witness:
  "pc_tcp (TotalOnPort (fold (Update sum_counts)
      [zero_counts\<lparr>pc_src_port := 80, pc_tcp := 3\<rparr>, zero_counts\<lparr>pc_dst_port := 80, pc_tcp := 4\<rparr>]
      NewPacketCounter) 80) = 7"
  using port_totals_exact [OF adds_counts_sum_counts, of pc_tcp
      "[zero_counts\<lparr>pc_src_port := 80, pc_tcp := 3\<rparr>, zero_counts\<lparr>pc_dst_port := 80, pc_tcp := 4\<rparr>]" 80]
  by (simp add: counters_def zero_counts_def) code_simp

text \<open>
  Bounded memory. However many packets are counted, at most \<open>maxKeys\<close> ports, interfaces and hosts
  are tracked individually.
\<close>

lemma tracked_keys_bounded:
  "int (bc_Len (ps_by_port (fold (Update add) cs NewPacketCounter))) \<le> maxKeys
    \<and> int (bc_Len (ps_by_interface (fold (Update add) cs NewPacketCounter))) \<le> maxKeys
    \<and> int (bc_Len (ps_by_host (fold (Update add) cs NewPacketCounter))) \<le> maxKeys"
proof -
  have bound: "int (bc_Len (add_events add mk evs (NewBoundedPacketCounter maxKeys))) \<le> maxKeys"
    for mk and evs :: "('k \<times> packet_counts) list"
    using add_events_bound [of "NewBoundedPacketCounter maxKeys" add mk evs]
    by (simp add: NewBoundedPacketCounter_def bc_Len_def maxKeys_def)
  show ?thesis
    by (simp add: fold_Update_parts NewPacketCounter_def bound)
qed

text \<open>
  \<open>TopN\<close> is deterministic and selects the largest entries. Whatever order Go visits the map in,
  the result is the same; it has \<open>min n len\<close> entries, each with its tracked value, and every
  tracked entry left out has a smaller projection than every selected one, or an equal one and a
  larger key (ties go to the smallest key).
\<close>

lemma TopN_selects_largest:
  assumes "iter_order o1 (bc_m bc)" "iter_order o2 (bc_m bc)"
  shows "TopN o1 n project bc = TopN o2 n project bc
    \<and> map_len (fst (TopN o1 n project bc)) = min (nat n) (bc_Len bc)
    \<and> (\<forall>k v. fmlookup (fst (TopN o1 n project bc)) k = Some v \<longrightarrow>
          fmlookup (bc_m bc) k = Some v
          \<and> (\<forall>k' v'. fmlookup (bc_m bc) k' = Some v' \<and> \<not> has_key (fst (TopN o1 n project bc)) k' \<longrightarrow>
                project v' < project v \<or> project v' = project v \<and> k < k'))"
proof (intro conjI allI impI)
  show "TopN o1 n project bc = TopN o2 n project bc"
    using top_pairs_order [OF assms] by (simp add: TopN_def)
  show "map_len (fst (TopN o1 n project bc)) = min (nat n) (bc_Len bc)"
    using top_pairs_size [OF assms(1)] by (simp add: TopN_def bc_Len_def)
next
  fix k v
  assume "fmlookup (fst (TopN o1 n project bc)) k = Some v"
  then have sel: "(k, v) \<in> set (top_pairs o1 n project bc)"
    by (simp add: top_pairs_lookup [OF assms(1)])
  then show "fmlookup (bc_m bc) k = Some v"
    by (metis assms(1) entries_set in_set_takeD set_sort top_pairs_def)
  fix k' v'
  assume rest: "fmlookup (bc_m bc) k' = Some v' \<and> \<not> has_key (fst (TopN o1 n project bc)) k'"
  then have "(k', v') \<notin> set (top_pairs o1 n project bc)"
    using top_pairs_lookup [OF assms(1)] by blast
  then show "project v' < project v \<or> project v' = project v \<and> k < k'"
    using top_pairs_dominate [OF assms(1) sel] rest by blast
qed

lemma TopN_selects_largest_witness:
  "TopN [80, 443] 1 pc_tcp
     (AddOrInsert sum_counts 443 (zero_counts\<lparr>pc_tcp := 9\<rparr>) id
       (AddOrInsert sum_counts (80::int) (zero_counts\<lparr>pc_tcp := 2\<rparr>) id (NewBoundedPacketCounter 5)))
   = TopN [443, 80] 1 pc_tcp
     (AddOrInsert sum_counts 443 (zero_counts\<lparr>pc_tcp := 9\<rparr>) id
       (AddOrInsert sum_counts 80 (zero_counts\<lparr>pc_tcp := 2\<rparr>) id (NewBoundedPacketCounter 5)))"
  by (rule conjunct1 [OF TopN_selects_largest])
    (auto simp: iter_order_def bounded_defs)

end
