(* ===== verification/Collectors.thy ===== *)
theory Collectors
  imports Packet_Stats Complex_Main
begin

text \<open>
  The \<open>Collector\<close> interface of trace/collector.go and the collectors that wrap another one:
  sampling, the removal of the agent's own traffic, packet counting, the request filters of
  trace/filters.go, the tee and the dummy. A collector with state \<open>'s\<close> is its \<open>Process\<close> method, a
  function from a packet and the state to the new state and an optional error; a wrapper with a
  state of its own works on the pair of its state and the wrapped collector's.
\<close>

section \<open>The interface\<close>

type_synonym ('s, 'e) downstream = "traffic \<Rightarrow> 's \<Rightarrow> 's \<times> 'e option"
type_synonym ('s, 'e) closer = "'s \<Rightarrow> 's \<times> 'e option"

text \<open>
  \<open>feed\<close> is the capture loop of pcap.Collect: packets are handed to \<open>Process\<close> one after the other,
  and the first error ends the loop.
\<close>

fun feed :: "('i \<Rightarrow> 's \<Rightarrow> 's \<times> 'e option) \<Rightarrow> 'i list \<Rightarrow> 's \<Rightarrow> 's \<times> 'e option" where
  "feed process [] s = (s, None)"
| "feed process (t # ts) s =
     (case process t s of
        (s', Some err) \<Rightarrow> (s', Some err)
      | (s', None) \<Rightarrow> feed process ts s')"

text \<open>A collector that keeps every packet it receives, to observe what a wrapper hands on.\<close>

definition record_sink :: "(traffic list, 'e) downstream" where
  "record_sink t xs = (xs @ [t], None)"

definition keep_going :: "('i \<Rightarrow> 's \<Rightarrow> 's \<times> 'e option) \<Rightarrow> bool" where
  "keep_going process \<longleftrightarrow> (\<forall>t s. snd (process t s) = None)"

lemma keep_goingD: "keep_going process \<Longrightarrow> process t s = (s', err) \<Longrightarrow> err = None"
  by (metis keep_going_def snd_conv)

lemma keep_going_record_sink [simp]: "keep_going record_sink"
  by (simp add: keep_going_def record_sink_def)

lemma feed_keep_going:
  "keep_going process \<Longrightarrow> feed process ts s = (fold (\<lambda>t s. fst (process t s)) ts s, None)"
  by (induction ts arbitrary: s) (auto dest: keep_goingD split: prod.splits option.splits)

lemma fold_record_sink: "fold (\<lambda>t s. fst (record_sink t s)) ts xs = xs @ ts"
  by (induction ts arbitrary: xs) (simp_all add: record_sink_def)

lemma feed_record_sink [simp]: "feed record_sink ts xs = (xs @ ts, None)"
  by (simp add: feed_keep_going fold_record_sink)

lemma feed_append:
  "feed process (ts @ us) s =
     (case feed process ts s of (s', Some err) \<Rightarrow> (s', Some err) | (s', None) \<Rightarrow> feed process us s')"
  by (induction ts arbitrary: s) (auto split: prod.splits option.splits)

lemma nths_cong_positions:
  "(\<And>n. n < length xs \<Longrightarrow> n \<in> A \<longleftrightarrow> n \<in> B) \<Longrightarrow> nths xs A = nths xs B"
proof (induction xs arbitrary: A B)
  case (Cons x xs)
  have "nths xs {j. Suc j \<in> A} = nths xs {j. Suc j \<in> B}"
    using Cons.prems by (intro Cons.IH) force
  moreover have "0 \<in> A \<longleftrightarrow> 0 \<in> B" using Cons.prems by simp
  ultimately show ?case by (simp add: nths_Cons)
qed simp

section \<open>Gates: wrappers that hand on some of the packets\<close>

text \<open>\<open>passed\<close> lists the inputs a gate admits while its own state advances.\<close>

fun passed :: "('g \<Rightarrow> 'i \<Rightarrow> bool) \<Rightarrow> ('g \<Rightarrow> 'i \<Rightarrow> 'g) \<Rightarrow> 'g \<Rightarrow> 'i list \<Rightarrow> 'i list" where
  "passed admits advance g [] = []"
| "passed admits advance g (i # is) =
     (if admits g i then i # passed admits advance (advance g i) is
      else passed admits advance (advance g i) is)"

lemma subseq_passed: "subseq (passed admits advance g is) is"
  by (induction "is" arbitrary: g) auto

lemma passed_snoc:
  "passed admits advance g (is @ [i]) =
     passed admits advance g is @ (if admits (foldl advance g is) i then [i] else [])"
  by (induction "is" arbitrary: g) simp_all

text \<open>The inputs a gate admits, by position: what counts is the state the earlier inputs lead to.\<close>

lemma passed_nths:
  "passed admits advance g is =
     nths is {n. n < length is \<and> admits (foldl advance g (take n is)) (is ! n)}"
proof (induction "is" rule: rev_induct)
  case (snoc i "is")
  have "nths is {n. n < length (is @ [i]) \<and> admits (foldl advance g (take n (is @ [i]))) ((is @ [i]) ! n)}
      = nths is {n. n < length is \<and> admits (foldl advance g (take n is)) (is ! n)}"
    by (rule nths_cong_positions) (auto simp: nth_append)
  with snoc show ?case
    by (simp add: passed_snoc nths_append)
qed simp

text \<open>
  The contract the wrappers share: a wrapper calls the wrapped collector at most once per packet,
  whether it does depends on its own state and the packet, and its own state does not depend on the
  wrapped collector. \<open>payload\<close> is what is handed on, \<open>relay\<close> what becomes of the wrapped collector's
  error.
\<close>

locale gate =
  fixes process :: "('s, 'e) downstream \<Rightarrow> 'i \<Rightarrow> 'g \<times> 's \<Rightarrow> ('g \<times> 's) \<times> 'e option"
    and payload :: "'i \<Rightarrow> traffic"
    and admits :: "'g \<Rightarrow> 'i \<Rightarrow> bool"
    and advance :: "'g \<Rightarrow> 'i \<Rightarrow> 'g"
    and relay :: "'e option \<Rightarrow> 'e option"
  assumes process_eq:
      "process next i (g, s) =
         (if admits g i
          then (case next (payload i) s of (s', err) \<Rightarrow> ((advance g i, s'), relay err))
          else ((advance g i, s), None))"
    and relay_None: "relay None = None"
begin

lemma keep_going_process: "keep_going next \<Longrightarrow> keep_going (process next)"
  unfolding keep_going_def [of "process next"]
  by (auto simp: process_eq relay_None dest: keep_goingD split: prod.splits)

lemma feed_gate:
  assumes "keep_going next"
  shows "feed (process next) is (g, s) =
    ((foldl advance g is,
      fold (\<lambda>t s. fst (next t s)) (map payload (passed admits advance g is)) s), None)"
  using assms
  by (induction "is" arbitrary: g s)
    (auto simp: process_eq relay_None dest: keep_goingD split: prod.splits option.splits)

end

text \<open>A gate that reports the wrapped collector's error to its caller.\<close>

locale strict_gate = gate +
  assumes relay_id: "relay err = err"
begin

lemma feed_fusion:
  "(case feed (process next) is (g, s) of ((g', s'), err) \<Rightarrow> (s', err)) =
   feed next (map payload (passed admits advance g is)) s"
proof (induction "is" arbitrary: g s)
  case (Cons i "is")
  show ?case
    using Cons [of "advance g i"]
    by (cases "next (payload i) s") (auto simp: process_eq relay_id split: option.splits)
qed simp

end

text \<open>A strict gate whose own state never changes: it hands on a fixed part of its input.\<close>

locale stateless_gate = strict_gate +
  assumes advance_id: "advance g i = g"
begin

lemma passed_filter: "passed admits advance g is = filter (admits g) is"
  by (induction "is") (simp_all add: advance_id)

lemma feed_filter:
  "(case feed (process next) is (g, s) of ((g', s'), err) \<Rightarrow> (s', err)) =
   feed next (map payload (filter (admits g) is)) s"
  by (simp add: feed_fusion passed_filter)

end

definition pass_close :: "('s, 'e) closer \<Rightarrow> ('g \<times> 's, 'e) closer" where
  "pass_close close gs = (case gs of (g, s) \<Rightarrow> case close s of (s', err) \<Rightarrow> ((g, s'), err))"

section \<open>Sampling\<close>

text \<open>
  \<open>SamplingCollector\<close>: its state is the threshold. The 32-bit hash is the xxhash library's,
  parameter \<open>hash\<close>; thresholds are exact rationals (the code computes them in float64).
\<close>

definition includeSample :: "(string \<Rightarrow> u32) \<Rightarrow> rat \<Rightarrow> string \<Rightarrow> bool" where
  "includeSample hash threshold key \<longleftrightarrow> of_nat (unat (hash key)) < threshold"

fun sample_key :: "content \<Rightarrow> string" where
  "sample_key (HTTPRequest c) = rq_stream c @ itoa (rq_seq c)"
| "sample_key (HTTPResponse c) = rs_stream c @ itoa (rs_seq c)"
| "sample_key (TCPConnectionMetadata c) = tc_conn c"
| "sample_key (TLSHandshakeMetadata c) = th_conn c"
| "sample_key _ = []"

definition sampling_process ::
  "(string \<Rightarrow> u32) \<Rightarrow> ('s, 'e) downstream \<Rightarrow> traffic \<Rightarrow> rat \<times> 's \<Rightarrow> (rat \<times> 's) \<times> 'e option" where
  "sampling_process hash next t sc =
     (case sc of (threshold, s) \<Rightarrow>
        if includeSample hash threshold (sample_key (content t))
        then (case next t s of (s', err) \<Rightarrow> ((threshold, s'), err))
        else ((threshold, s), None))"

definition max_uint32 :: rat where
  "max_uint32 = 4294967295"

text \<open>\<open>NewSamplingCollector\<close> returns the wrapped collector itself at rate 1.\<close>

definition NewSamplingCollector ::
  "(string \<Rightarrow> u32) \<Rightarrow> rat \<Rightarrow> ('s, 'e) downstream \<Rightarrow> ('s, 'e) downstream" where
  "NewSamplingCollector hash sampleRate next t s =
     (if sampleRate = 1 then next t s
      else case sampling_process hash next t (max_uint32 * sampleRate, s) of
             ((_, s'), err) \<Rightarrow> (s', err))"

interpretation sampling: stateless_gate
  "sampling_process hash" id "\<lambda>thr t. includeSample hash thr (sample_key (content t))"
  "\<lambda>thr t. thr" id for hash
  by unfold_locales (simp_all add: sampling_process_def)

section \<open>The agent's own traffic\<close>

text \<open>
  \<open>util.ContainsCLITraffic\<close>: a message is the agent's own when it carries one of the marker headers
  (the names are constants of the spec_util library, parameter \<open>markers\<close>).
\<close>

definition ContainsCLITraffic :: "string list \<Rightarrow> traffic \<Rightarrow> bool" where
  "ContainsCLITraffic markers t =
     (case content t of
        HTTPRequest r \<Rightarrow> list_ex (\<lambda>k. header_get (rq_header r) k \<noteq> []) markers
      | HTTPResponse r \<Rightarrow> list_ex (\<lambda>k. header_get (rs_header r) k \<noteq> []) markers
      | _ \<Rightarrow> False)"

definition user_traffic_process ::
  "string list \<Rightarrow> ('s, 'e) downstream \<Rightarrow> traffic \<Rightarrow> unit \<times> 's \<Rightarrow> (unit \<times> 's) \<times> 'e option" where
  "user_traffic_process markers next t sc =
     (case sc of (u, s) \<Rightarrow>
        if \<not> ContainsCLITraffic markers t
        then (case next t s of (s', err) \<Rightarrow> ((u, s'), err))
        else ((u, s), None))"

interpretation user_traffic: stateless_gate
  "user_traffic_process markers" id "\<lambda>_ t. \<not> ContainsCLITraffic markers t" "\<lambda>u t. u" id for markers
  by unfold_locales (simp_all add: user_traffic_process_def)

section \<open>Request filters\<close>

text \<open>
  \<open>genericRequestFilter\<close>: the state is \<open>filteredIDs\<close>, nil until the first request is filtered out.
  The regular expressions of the constructors are the regexp library's; a matcher is its
  \<open>MatchString\<close> method, a parameter. So is \<open>trackers.IsTrackerDomain\<close>.
\<close>

definition request_filter_process ::
  "(string \<Rightarrow> 'id) \<Rightarrow> (http_request \<Rightarrow> bool) option \<Rightarrow> ('s, 'e) downstream
     \<Rightarrow> traffic \<Rightarrow> 'id fset option \<times> 's \<Rightarrow> ('id fset option \<times> 's) \<times> 'e option"
where
  "request_filter_process sha filterFunc next t sc =
     (case sc of (filteredIDs, s) \<Rightarrow>
        let (include, filteredIDs) =
          (case content t of
             HTTPRequest c \<Rightarrow>
               (case filterFunc of
                  Some f \<Rightarrow>
                    if \<not> f c
                    then (False, Some (finsert (ToWitnessID sha (rq_stream c) (rq_seq c))
                                         (case filteredIDs of None \<Rightarrow> {||} | Some m \<Rightarrow> m)))
                    else (True, filteredIDs)
                | None \<Rightarrow> (True, filteredIDs))
           | HTTPResponse c \<Rightarrow>
               (case filteredIDs of
                  Some m \<Rightarrow> (ToWitnessID sha (rs_stream c) (rs_seq c) |\<notin>| m, filteredIDs)
                | None \<Rightarrow> (True, filteredIDs))
           | _ \<Rightarrow> (True, filteredIDs))
        in if include
           then (case next t s of (s', err) \<Rightarrow> ((filteredIDs, s'), err))
           else ((filteredIDs, s), None))"

type_synonym matcher = "string \<Rightarrow> bool"

definition path_filter :: "matcher list \<Rightarrow> http_request \<Rightarrow> bool" where
  "path_filter matchers r =
     (case rq_url r of
        Some url \<Rightarrow> \<not> list_ex (\<lambda>m. m (u_path url)) matchers
      | None \<Rightarrow> True)"

definition host_filter :: "matcher list \<Rightarrow> http_request \<Rightarrow> bool" where
  "host_filter matchers r = (\<not> list_ex (\<lambda>m. m (rq_host r)) matchers)"

definition path_allowlist :: "matcher list \<Rightarrow> http_request \<Rightarrow> bool" where
  "path_allowlist matchers r =
     (case rq_url r of
        Some url \<Rightarrow> list_ex (\<lambda>m. m (u_path url)) matchers
      | None \<Rightarrow> False)"

definition host_allowlist :: "matcher list \<Rightarrow> http_request \<Rightarrow> bool" where
  "host_allowlist matchers r = list_ex (\<lambda>m. m (rq_host r)) matchers"

definition tracker_filter :: "(string \<Rightarrow> bool) \<Rightarrow> http_request \<Rightarrow> bool" where
  "tracker_filter isTrackerDomain r =
     (case rq_url r of Some url \<Rightarrow> \<not> isTrackerDomain (u_host url) | None \<Rightarrow> True)"

definition NewHTTPPathFilterCollector where
  "NewHTTPPathFilterCollector sha matchers next =
     request_filter_process sha (Some (path_filter matchers)) next"

definition NewHTTPHostFilterCollector where
  "NewHTTPHostFilterCollector sha matchers next =
     request_filter_process sha (Some (host_filter matchers)) next"

definition NewHTTPPathAllowlistCollector where
  "NewHTTPPathAllowlistCollector sha matchers next =
     request_filter_process sha (Some (path_allowlist matchers)) next"

definition NewHTTPHostAllowlistCollector where
  "NewHTTPHostAllowlistCollector sha matchers next =
     request_filter_process sha (Some (host_allowlist matchers)) next"

definition New3PTrackerFilterCollector where
  "New3PTrackerFilterCollector sha isTrackerDomain next =
     request_filter_process sha (Some (tracker_filter isTrackerDomain)) next"

text \<open>The filter as a gate.\<close>

fun rejected :: "(http_request \<Rightarrow> bool) option \<Rightarrow> content \<Rightarrow> bool" where
  "rejected (Some f) (HTTPRequest c) = (\<not> f c)"
| "rejected _ _ = False"

definition message_id :: "(string \<Rightarrow> 'id) \<Rightarrow> content \<Rightarrow> 'id" where
  "message_id sha c = (case the (exchange_key c) of (stream, n) \<Rightarrow> ToWitnessID sha stream n)"

definition filter_admits :: "(string \<Rightarrow> 'id) \<Rightarrow> (http_request \<Rightarrow> bool) option \<Rightarrow> 'id fset option \<Rightarrow> traffic \<Rightarrow> bool" where
  "filter_admits sha f ids t \<longleftrightarrow>
     \<not> rejected f (content t)
     \<and> \<not> (is_response (content t) \<and> (\<exists>m \<in> set_option ids. message_id sha (content t) |\<in>| m))"

definition filter_advance ::
  "(string \<Rightarrow> 'id) \<Rightarrow> (http_request \<Rightarrow> bool) option \<Rightarrow> 'id fset option \<Rightarrow> traffic \<Rightarrow> 'id fset option" where
  "filter_advance sha f ids t =
     (if rejected f (content t)
      then Some (finsert (message_id sha (content t)) (case ids of None \<Rightarrow> {||} | Some m \<Rightarrow> m))
      else ids)"

interpretation request_filter: strict_gate
  "request_filter_process sha f" id "filter_admits sha f" "filter_advance sha f" id for sha f
  by unfold_locales
    (auto simp: request_filter_process_def filter_admits_def filter_advance_def message_id_def
      split: content.splits option.splits)

lemma filtered_ids:
  "(\<exists>m \<in> set_option (foldl (filter_advance sha f) None ts). x |\<in>| m) \<longleftrightarrow>
     (\<exists>t \<in> set ts. rejected f (content t) \<and> message_id sha (content t) = x)"
  by (induction ts rule: rev_induct) (auto simp: filter_advance_def split: option.splits)

section \<open>Packet counting\<close>

text \<open>
  \<open>PacketCountCollector\<close>: the state is the \<open>PacketCountConsumer\<close>'s (its \<open>Update\<close> the argument
  \<open>update\<close>). The DNS names of a TLS Server Hello are sorted in the slice of the packet, so the packet
  that is handed on carries them sorted. \<open>domain\<close> is \<open>rest.Domain\<close>, \<open>dogfood\<close> the flag of that name.
\<close>

definition HostnameUnavailable :: string where
  "HostnameUnavailable = ''(hosts without available names)''"

definition IncludeHostName :: "string \<Rightarrow> bool \<Rightarrow> string \<Rightarrow> bool" where
  "IncludeHostName domain dogfood tlsName = (if tlsName = domain then dogfood else True)"

definition counts_for :: "traffic \<Rightarrow> packet_counts" where
  "counts_for t = zero_counts\<lparr>pc_interface := interface_name t, pc_src_port := src_port t, pc_dst_port := dst_port t\<rparr>"

definition counted :: "string \<Rightarrow> bool \<Rightarrow> traffic \<Rightarrow> packet_counts option" where
  "counted domain dogfood t =
     (case content t of
        HTTPRequest c \<Rightarrow> Some ((counts_for t)\<lparr>pc_dst_host := rq_host c, pc_http_req := 1\<rparr>)
      | HTTPResponse c \<Rightarrow> Some ((counts_for t)\<lparr>pc_http_resp := 1\<rparr>)
      | TLSClientHello c \<Rightarrow>
          (let dstHost = (case ch_hostname c of Some h \<Rightarrow> h | None \<Rightarrow> HostnameUnavailable)
           in if IncludeHostName domain dogfood dstHost
              then Some ((counts_for t)\<lparr>pc_dst_host := dstHost, pc_tls := 1\<rparr>) else None)
      | TLSServerHello c \<Rightarrow>
          (let dstHost = (if sh_dns_names c \<noteq> [] then last (sort (sh_dns_names c)) else HostnameUnavailable)
           in if IncludeHostName domain dogfood dstHost
              then Some ((counts_for t)\<lparr>pc_dst_host := dstHost, pc_tls := 1\<rparr>) else None)
      | TCPPacketMetadata _ \<Rightarrow> None
      | TCPConnectionMetadata _ \<Rightarrow> None
      | TLSHandshakeMetadata _ \<Rightarrow> None
      | HTTP2ConnectionPreface \<Rightarrow> Some ((counts_for t)\<lparr>pc_http2 := 1\<rparr>)
      | QUICHandshakeMetadata \<Rightarrow> Some ((counts_for t)\<lparr>pc_quic := 1\<rparr>)
      | DroppedBytes _ \<Rightarrow> Some ((counts_for t)\<lparr>pc_unparsed := 1\<rparr>))"

definition sort_dns_names :: "traffic \<Rightarrow> traffic" where
  "sort_dns_names t =
     (case content t of
        TLSServerHello c \<Rightarrow> t\<lparr>content := TLSServerHello (c\<lparr>sh_dns_names := sort (sh_dns_names c)\<rparr>)\<rparr>
      | _ \<Rightarrow> t)"

definition packet_count_process ::
  "string \<Rightarrow> bool \<Rightarrow> (packet_counts \<Rightarrow> 'c \<Rightarrow> 'c) \<Rightarrow> ('s, 'e) downstream
     \<Rightarrow> traffic \<Rightarrow> 'c \<times> 's \<Rightarrow> ('c \<times> 's) \<times> 'e option"
where
  "packet_count_process domain dogfood update next t sc =
     (case sc of (pc, s) \<Rightarrow>
        let pc = (case counted domain dogfood t of Some c \<Rightarrow> update c pc | None \<Rightarrow> pc)
        in case next (sort_dns_names t) s of (s', err) \<Rightarrow> ((pc, s'), err))"

definition count_advance ::
  "string \<Rightarrow> bool \<Rightarrow> (packet_counts \<Rightarrow> 'c \<Rightarrow> 'c) \<Rightarrow> 'c \<Rightarrow> traffic \<Rightarrow> 'c" where
  "count_advance domain dogfood update pc t =
     (case counted domain dogfood t of Some c \<Rightarrow> update c pc | None \<Rightarrow> pc)"

interpretation packet_count: strict_gate
  "packet_count_process domain dogfood update" sort_dns_names "\<lambda>_ _. True"
  "count_advance domain dogfood update" id for domain dogfood update
  by unfold_locales (simp_all add: packet_count_process_def count_advance_def Let_def)

lemma foldl_count_advance:
  "foldl (count_advance domain dogfood update) pc ts =
     fold update (List.map_filter (counted domain dogfood) ts) pc"
  by (induction ts arbitrary: pc) (auto simp: count_advance_def map_filter_simps split: option.splits)

section \<open>Tee, dummy and closing\<close>

text \<open>
  \<open>TeeCollector\<close> gives every packet to both collectors, also when the first one fails, and reports
  the first error. The wrappers above close by closing the wrapped collector: \<open>pass_close\<close>.
\<close>

definition tee_process ::
  "('s, 'e) downstream \<Rightarrow> ('r, 'e) downstream \<Rightarrow> ('s \<times> 'r, 'e) downstream" where
  "tee_process dst1 dst2 t sr =
     (let (s, err1) = dst1 t (fst sr); (r, err2) = dst2 t (snd sr)
      in ((s, r), if err1 \<noteq> None then err1 else err2))"

definition tee_close :: "('s, 'e) closer \<Rightarrow> ('r, 'e) closer \<Rightarrow> ('s \<times> 'r, 'e) closer" where
  "tee_close close1 close2 sr =
     (let (s, err1) = close1 (fst sr); (r, err2) = close2 (snd sr)
      in ((s, r), if err1 \<noteq> None then err1 else err2))"

definition dummy_process :: "(unit, 'e) downstream" where
  "dummy_process t s = ((), None)"

definition dummy_close :: "(unit, 'e) closer" where
  "dummy_close s = ((), None)"

lemma keep_going_dummy [simp]: "keep_going dummy_process"
  by (simp add: keep_going_def dummy_process_def)

lemma keep_going_tee [simp]:
  "keep_going dst1 \<Longrightarrow> keep_going dst2 \<Longrightarrow> keep_going (tee_process dst1 dst2)"
  unfolding keep_going_def by (simp add: tee_process_def split: prod.split)
    (metis snd_conv)

lemma feed_tee:
  assumes "keep_going dst1" "keep_going dst2"
  shows "feed (tee_process dst1 dst2) ts (s, r) =
    ((fst (feed dst1 ts s), fst (feed dst2 ts r)), None)"
  using assms
  by (induction ts arbitrary: s r)
    (auto simp: tee_process_def dest: keep_goingD split: prod.splits option.splits)

section \<open>HAR output\<close>

text \<open>
  \<open>HARCollector.Process\<close> hands requests and responses to the martian HAR logger under their witness
  id, with their first and last packet times; the logger is the parameters \<open>record_request\<close> and
  \<open>record_response\<close>.
\<close>

definition har_process ::
  "(string \<Rightarrow> 'id) \<Rightarrow> ('id \<Rightarrow> http_request \<Rightarrow> instant \<times> instant \<Rightarrow> 'l \<Rightarrow> 'l)
     \<Rightarrow> ('id \<Rightarrow> http_response \<Rightarrow> instant \<times> instant \<Rightarrow> 'l \<Rightarrow> 'l) \<Rightarrow> ('l, 'e) downstream"
where
  "har_process sha record_request record_response t logger =
     (case content t of
        HTTPRequest c \<Rightarrow>
          (record_request (ToWitnessID sha (rq_stream c) (rq_seq c)) c
             (observation_time t, final_packet_time t) logger, None)
      | HTTPResponse c \<Rightarrow>
          (record_response (ToWitnessID sha (rs_stream c) (rs_seq c)) c
             (observation_time t, final_packet_time t) logger, None)
      | _ \<Rightarrow> (logger, None))"

section \<open>Properties\<close>

lemma same_exchange_sample_key:
  "exchange_key c = exchange_key d \<Longrightarrow> exchange_key c \<noteq> None \<Longrightarrow> sample_key c = sample_key d"
  by (cases c; cases d) auto

lemma feed_NewSamplingCollector:
  "feed (NewSamplingCollector hash r record_sink) ts xs =
     (xs @ filter (\<lambda>t. r = 1 \<or> includeSample hash (max_uint32 * r) (sample_key (content t))) ts, None)"
  by (induction ts arbitrary: xs)
    (auto simp: NewSamplingCollector_def sampling_process_def record_sink_def)

lemma hash_bound: "(of_nat (unat (h :: u32)) :: rat) \<le> max_uint32"
proof -
  have "unat h < 2 ^ LENGTH(32)" by (rule unsigned_less)
  then have "unat h \<le> 4294967295" by simp
  then have "(of_nat (unat h) :: rat) \<le> of_nat 4294967295" by (subst of_nat_le_iff)
  then show ?thesis by (simp add: max_uint32_def)
qed

lemma includeSample_mono:
  assumes "r1 \<le> r2" "includeSample hash (max_uint32 * r1) k" 
  shows "includeSample hash (max_uint32 * r2) k"
  using assms mult_left_mono [of r1 r2 max_uint32] by (simp add: includeSample_def max_uint32_def)

lemma includeSample_0 [simp]: "\<not> includeSample hash 0 k"
  unfolding includeSample_def not_less by (rule of_nat_0_le_iff)

lemma includeSample_above_1: "1 < r \<Longrightarrow> includeSample hash (max_uint32 * r) k"
  using hash_bound [of "hash k"] by (simp add: includeSample_def max_uint32_def)

text \<open>
  Sampling keeps an exchange whole. Of two captured messages of one HTTP exchange (same stream
  and sequence number) either both or neither reach the wrapped collector; rate 1 hands on all the
  packets, rate 0 none, and raising the rate only adds packets, in the order of capture.
\<close>

lemma sampling_keeps_exchanges_whole:
  assumes "r1 \<le> r2"
  shows "subseq (fst (feed (NewSamplingCollector hash r1 record_sink) ts []))
      (fst (feed (NewSamplingCollector hash r2 record_sink) ts []))
    \<and> feed (NewSamplingCollector hash 1 record_sink) ts [] = (ts, None)
    \<and> feed (NewSamplingCollector hash 0 record_sink) ts [] = ([], None)
    \<and> (\<forall>t u. t \<in> set ts \<and> u \<in> set ts
          \<and> exchange_key (content t) \<noteq> None \<and> exchange_key (content t) = exchange_key (content u) \<longrightarrow>
          (t \<in> set (fst (feed (NewSamplingCollector hash r1 record_sink) ts []))
            \<longleftrightarrow> u \<in> set (fst (feed (NewSamplingCollector hash r1 record_sink) ts []))))"
proof -
  have mono: "r2 = 1 \<or> includeSample hash (max_uint32 * r2) k"
    if "r1 = 1 \<or> includeSample hash (max_uint32 * r1) k" for k
    using that assms includeSample_mono [of r1 r2] includeSample_above_1 [of r2] by force
  have sub: "subseq (filter P ts) (filter Q ts)" if "\<And>t. P t \<Longrightarrow> Q t" for P Q :: "traffic \<Rightarrow> bool"
  proof -
    have "filter P ts = filter P (filter Q ts)" using that by (induction ts) auto
    then show ?thesis by (metis subseq_filter_left)
  qed
  show ?thesis
  proof (intro conjI)
    show "subseq (fst (feed (NewSamplingCollector hash r1 record_sink) ts []))
        (fst (feed (NewSamplingCollector hash r2 record_sink) ts []))"
      unfolding feed_NewSamplingCollector fst_conv append_Nil by (rule sub) (rule mono)
    show "\<forall>t u. t \<in> set ts \<and> u \<in> set ts
          \<and> exchange_key (content t) \<noteq> None \<and> exchange_key (content t) = exchange_key (content u) \<longrightarrow>
          (t \<in> set (fst (feed (NewSamplingCollector hash r1 record_sink) ts []))
            \<longleftrightarrow> u \<in> set (fst (feed (NewSamplingCollector hash r1 record_sink) ts [])))"
      unfolding feed_NewSamplingCollector fst_conv append_Nil set_filter mem_Collect_eq
      using same_exchange_sample_key by metis
  qed (simp_all add: feed_NewSamplingCollector)
qed

lemma sampling_keeps_exchanges_whole_witness:
  "subseq (fst (feed (NewSamplingCollector (\<lambda>_. 7) (1/2) record_sink) [sample_traffic HTTP2ConnectionPreface] []))
     (fst (feed (NewSamplingCollector (\<lambda>_. 7) 1 record_sink) [sample_traffic HTTP2ConnectionPreface] []))"
  by (rule conjunct1 [OF sampling_keeps_exchanges_whole]) simp

text \<open>The hashed names of the exchanges of a packet sequence.\<close>

definition message_names :: "traffic list \<Rightarrow> string set" where
  "message_names ts = {witness_name stream n | stream n. \<exists>t \<in> set ts. exchange_key (content t) = Some (stream, n)}"

lemma message_id_eq:
  assumes "inj_on sha (message_names ts)" "t \<in> set ts" "u \<in> set ts"
    "exchange_key (content t) \<noteq> None" "exchange_key (content u) \<noteq> None"
  shows "message_id sha (content t) = message_id sha (content u) \<longleftrightarrow>
    exchange_key (content t) = exchange_key (content u)"
proof -
  obtain a i b j where
    keys: "exchange_key (content t) = Some (a, i)" "exchange_key (content u) = Some (b, j)"
    using assms(4,5) by auto
  have names: "witness_name a i \<in> message_names ts" "witness_name b j \<in> message_names ts"
    using assms(2,3) keys by (auto simp: message_names_def)
  show ?thesis
    using inj_on_eq_iff [OF assms(1) names] keys
    by (simp add: message_id_def ToWitnessID_def witness_name_inj)
qed

lemma rejected_request: "rejected f c \<Longrightarrow> exchange_key c \<noteq> None"
  by (cases "(f, c)" rule: rejected.cases) auto

lemma response_exchange: "is_response c \<Longrightarrow> exchange_key c \<noteq> None"
  by (cases c) auto

text \<open>
  C10: request filters are exact. A filter hands on, in order, every packet that is neither a request
  its function rejects nor a response to an earlier rejected request; with no error of its own.
  The hypothesis excludes collisions of the uuid hash between the exchanges captured.
\<close>

lemma request_filter_exact:
  assumes "inj_on sha (message_names ts)"
  shows "snd (fst (feed (request_filter_process sha f record_sink) ts (None, []))) =
      nths ts {n. n < length ts \<and> \<not> rejected f (content (ts ! n))
        \<and> \<not> (is_response (content (ts ! n))
             \<and> (\<exists>m < n. rejected f (content (ts ! m))
                    \<and> exchange_key (content (ts ! m)) = exchange_key (content (ts ! n))))}
    \<and> snd (feed (request_filter_process sha f record_sink) ts (None, [])) = None"
proof -
  have "(\<exists>u \<in> set (take n ts). rejected f (content u) \<and> message_id sha (content u) = message_id sha (content (ts ! n)))
    \<longleftrightarrow> (\<exists>m < n. rejected f (content (ts ! m)) \<and> exchange_key (content (ts ! m)) = exchange_key (content (ts ! n)))"
    if n: "n < length ts" and resp: "is_response (content (ts ! n))" for n
  proof -
    have "message_id sha (content (ts ! m)) = message_id sha (content (ts ! n)) \<longleftrightarrow>
        exchange_key (content (ts ! m)) = exchange_key (content (ts ! n))"
      if "m < n" "rejected f (content (ts ! m))" for m
      using that n resp
      by (intro message_id_eq [OF assms]) (auto dest: rejected_request response_exchange)
    then show ?thesis using n by (auto simp: Bex_def in_set_conv_nth)
  qed
  then have "nths ts {n. n < length ts \<and> filter_admits sha f (foldl (filter_advance sha f) None (take n ts)) (ts ! n)} =
    nths ts {n. n < length ts \<and> \<not> rejected f (content (ts ! n)) \<and> \<not> (is_response (content (ts ! n))
      \<and> (\<exists>m < n. rejected f (content (ts ! m)) \<and> exchange_key (content (ts ! m)) = exchange_key (content (ts ! n))))}"
    by (intro nths_cong_positions) (auto simp: filter_admits_def filtered_ids)
  then show ?thesis
    by (simp add: request_filter.feed_gate fold_record_sink passed_nths)
qed

lemma request_filter_exact_witness:
  "snd (fst (feed (request_filter_process id (Some (path_allowlist [])) (record_sink :: (traffic list, string) downstream))
      [sample_traffic (HTTPRequest (sample_request ''a'' 1)), sample_traffic (HTTPResponse (sample_response ''a'' 1)),
       sample_traffic (HTTPResponse (sample_response ''a'' 2))] (None, [])))
   = [sample_traffic (HTTPResponse (sample_response ''a'' 2))]"
  by (rule trans [OF conjunct1 [OF request_filter_exact]])
    (auto simp: nths_Cons path_allowlist_def sample_request_def less_Suc_eq)

text \<open>
  The agent's own traffic is invisible, and only that. Whatever the wrapped collector does, errors
  included, it is in the state it would be in had the packets with a marker header not been captured,
  and the capture loop ends with the same error.
\<close>

lemma own_traffic_invisible:
  "(case feed (user_traffic_process markers next) ts ((), s) of ((_, s'), err) \<Rightarrow> (s', err)) =
     feed next (filter (\<lambda>t. \<not> ContainsCLITraffic markers t) ts) s"
  using user_traffic.feed_filter [of markers "next" ts "()" s] by simp



end
