(* ===== verification/Rate_Limit.thy ===== *)
theory Rate_Limit
  imports Collectors
begin

text \<open>
  trace/rate_limit.go: the rate limit shared by the collectors of all interfaces
  (\<open>SharedRateLimit\<close>), its epochs and sample intervals, and the collector that enforces it. The
  operations are functions on the state behind the lock; the goroutine \<open>run\<close> and the callers are the
  step relation \<open>rl_step\<close>, one locked section per step. The estimate is computed with exact
  rationals (the code uses float64). A channel with a buffer of one is an optional value.
\<close>

section \<open>State\<close>

record rl_config =
  rl_epoch :: duration
  rl_max_duration :: duration
  rl_alpha :: rat

definition default_config :: rl_config where
  "default_config = \<lparr>rl_epoch = minutes 5, rl_max_duration = minutes 10, rl_alpha = 3/10\<rparr>"

record rate_limit =
  rl_epoch_start :: instant
  rl_interval_start :: instant
  rl_active :: bool
  rl_count :: int
  rl_timer :: "instant option"
  rl_per_epoch :: int
  rl_estimate :: duration
  rl_first :: bool
  rl_children :: "nat list"
  rl_chan :: "(nat, instant) fmap"

text \<open>\<open>NewRateLimit\<close>, with the interval timer \<open>run\<close> starts at once.\<close>

definition NewRateLimit :: "rl_config \<Rightarrow> rat \<Rightarrow> instant \<Rightarrow> rate_limit" where
  "NewRateLimit cfg witnessesPerMinute now =
     (let witnessLimit = witnessesPerMinute * (of_int (rl_epoch cfg) / of_int (minutes 1));
          witnessLimit = (if witnessLimit < 1 then 1 else witnessLimit)
      in \<lparr>rl_epoch_start = now, rl_interval_start = 0, rl_active = False, rl_count = 0,
          rl_timer = Some now, rl_per_epoch = \<lfloor>witnessLimit\<rfloor>, rl_estimate = 0, rl_first = True,
          rl_children = [], rl_chan = fmempty\<rparr>)"

section \<open>Operations\<close>

definition startInterval :: "instant \<Rightarrow> rate_limit \<Rightarrow> rate_limit" where
  "startInterval start r = r\<lparr>rl_interval_start := start, rl_count := 0, rl_active := True\<rparr>"

definition IntervalStarted :: "rate_limit \<Rightarrow> bool" where
  "IntervalStarted r = rl_active r"

definition endInterval :: "rl_config \<Rightarrow> instant \<Rightarrow> rate_limit \<Rightarrow> rate_limit" where
  "endInterval cfg end r =
     (let intervalLength = end - rl_interval_start r;
          r = r\<lparr>rl_active := False, rl_count := 0\<rparr>
      in if rl_first r then r\<lparr>rl_estimate := intervalLength, rl_first := False\<rparr>
         else r\<lparr>rl_estimate :=
                  \<lfloor>(1 - rl_alpha cfg) * of_int (rl_estimate r) + rl_alpha cfg * of_int intervalLength\<rfloor>\<rparr>)"

text \<open>
  \<open>startNewEpoch\<close>: \<open>rand_int63n\<close> is \<open>rand.Int63n\<close>, which panics (\<open>None\<close>) unless its argument is
  positive. The nonblocking send reaches the children whose channel is empty.
\<close>

definition notify_children :: "instant \<Rightarrow> rate_limit \<Rightarrow> rate_limit" where
  "notify_children threshold r =
     r\<lparr>rl_chan := fold (\<lambda>c ch. if has_key ch c then ch else fmupd c threshold ch) (rl_children r) (rl_chan r)\<rparr>"

definition startNewEpoch ::
  "rl_config \<Rightarrow> (int \<Rightarrow> int) \<Rightarrow> instant \<Rightarrow> instant \<Rightarrow> rate_limit \<Rightarrow> rate_limit option"
where
  "startNewEpoch cfg rand_int63n epochStart now r =
     (let r = r\<lparr>rl_epoch_start := now, rl_timer := None\<rparr>;
          threshold = epochStart - rl_max_duration cfg
      in if rl_first r then Some (notify_children threshold (r\<lparr>rl_timer := Some now\<rparr>))
         else let upperBound = rl_epoch cfg - rl_estimate r
              in if upperBound \<le> 0 then None
                 else Some (notify_children threshold (r\<lparr>rl_timer := Some (now + rand_int63n upperBound)\<rparr>)))"

definition AllowHTTPRequest :: "rl_config \<Rightarrow> instant \<Rightarrow> rate_limit \<Rightarrow> rate_limit \<times> bool" where
  "AllowHTTPRequest cfg now r =
     (if \<not> rl_active r then (r, False)
      else let r = r\<lparr>rl_count := rl_count r + 1\<rparr>
           in (if rl_per_epoch r \<le> rl_count r then endInterval cfg now r else r, True))"

definition AllowOther :: "rate_limit \<Rightarrow> bool" where
  "AllowOther r = rl_active r"

definition NewCollector :: "nat \<Rightarrow> rate_limit \<Rightarrow> rate_limit" where
  "NewCollector c r = r\<lparr>rl_children := rl_children r @ [c]\<rparr>"

definition onCollectorClose :: "nat \<Rightarrow> rate_limit \<Rightarrow> rate_limit" where
  "onCollectorClose c r = r\<lparr>rl_children := remove1 c (rl_children r)\<rparr>"

section \<open>The collector\<close>

type_synonym arrivals = "(uuid \<times> int, instant) fmap"

definition expireRequests :: "instant \<Rightarrow> arrivals \<Rightarrow> arrivals" where
  "expireRequests threshold m =
     fmfilter (\<lambda>k. \<not> (case fmlookup m k of Some v \<Rightarrow> v < threshold | None \<Rightarrow> False)) m"

definition poll_epoch :: "nat \<Rightarrow> rate_limit \<Rightarrow> arrivals \<Rightarrow> rate_limit \<times> arrivals" where
  "poll_epoch c r m =
     (case fmlookup (rl_chan r) c of
        Some epochStart \<Rightarrow> (r\<lparr>rl_chan := fmdrop c (rl_chan r)\<rparr>, expireRequests epochStart m)
      | None \<Rightarrow> (r, m))"

definition rate_limit_process ::
  "rl_config \<Rightarrow> nat \<Rightarrow> ('s, 'e) downstream \<Rightarrow> instant \<Rightarrow> traffic
     \<Rightarrow> rate_limit \<times> arrivals \<times> 's \<Rightarrow> (rate_limit \<times> arrivals \<times> 's) \<times> 'e option"
where
  "rate_limit_process cfg c next now t w =
     (case w of (r, m, s) \<Rightarrow>
        let (r, m, s) =
          (case content t of
             HTTPRequest q \<Rightarrow>
               (case AllowHTTPRequest cfg now r of (r, ok) \<Rightarrow>
                  if ok then (r, fmupd (rq_stream q, rq_seq q) (observation_time t) m, fst (next t s))
                  else (r, m, s))
           | HTTPResponse q \<Rightarrow>
               if has_key m (rs_stream q, rs_seq q)
               then (r, fmdrop (rs_stream q, rs_seq q) m, fst (next t s))
               else (r, m, s)
           | _ \<Rightarrow> if AllowOther r then (r, m, fst (next t s)) else (r, m, s))
        in case poll_epoch c r m of (r, m) \<Rightarrow> ((r, m, s), None))"

definition rate_limit_close :: "nat \<Rightarrow> ('s, 'e) closer \<Rightarrow> (rate_limit \<times> arrivals \<times> 's, 'e) closer" where
  "rate_limit_close c close w =
     (case w of (r, m, s) \<Rightarrow>
        case close s of (s', err) \<Rightarrow> ((onCollectorClose c r, m, s'), err))"

section \<open>The steps of the shared rate limit\<close>

text \<open>
  The events of \<open>run\<close> (\<open>EpochTick epochStart now offset\<close>, \<open>IntervalFires now\<close>) and of the collectors
  (\<open>RequestAt now allowed\<close> is a call of \<open>AllowHTTPRequest\<close> with its answer). The timer fires not
  before the time it is set to.
\<close>

datatype rl_event =
    EpochTick instant instant int
  | IntervalFires instant
  | RequestAt instant bool
  | Register nat
  | Unregister nat

inductive rl_step :: "rl_config \<Rightarrow> rate_limit \<Rightarrow> rl_event \<Rightarrow> rate_limit \<Rightarrow> bool" for cfg where
  tick: "startNewEpoch cfg (\<lambda>_. offset) epochStart now r = Some r'
     \<Longrightarrow> rl_first r \<or> 0 \<le> offset \<and> offset < rl_epoch cfg - rl_estimate r
     \<Longrightarrow> rl_step cfg r (EpochTick epochStart now offset) r'"
| fires: "rl_timer r = Some due \<Longrightarrow> due \<le> now
     \<Longrightarrow> rl_step cfg r (IntervalFires now) (startInterval now (r\<lparr>rl_timer := None\<rparr>))"
| request: "AllowHTTPRequest cfg now r = (r', ok) \<Longrightarrow> rl_step cfg r (RequestAt now ok) r'"
| register: "rl_step cfg r (Register c) (NewCollector c r)"
| unregister: "rl_step cfg r (Unregister c) (onCollectorClose c r)"

inductive_cases rl_stepE: "rl_step cfg r ev r'"
inductive_simps rl_step_tick: "rl_step cfg r (EpochTick epochStart now offset) r'"
inductive_simps rl_step_fires: "rl_step cfg r (IntervalFires now) r'"
inductive_simps rl_step_request: "rl_step cfg r (RequestAt now ok) r'"

inductive rl_run :: "rl_config \<Rightarrow> rate_limit \<Rightarrow> rl_event list \<Rightarrow> rate_limit \<Rightarrow> bool" for cfg where
  start: "rl_run cfg r [] r"
| step: "rl_run cfg r evs r' \<Longrightarrow> rl_step cfg r' ev r'' \<Longrightarrow> rl_run cfg r (evs @ [ev]) r''"

fun is_allowed :: "rl_event \<Rightarrow> bool" where
  "is_allowed (RequestAt _ ok) = ok"
| "is_allowed _ = False"

fun is_request_event :: "rl_event \<Rightarrow> bool" where
  "is_request_event (RequestAt _ _) = True"
| "is_request_event _ = False"

fun is_tick :: "rl_event \<Rightarrow> bool" where
  "is_tick (EpochTick _ _ _) = True"
| "is_tick _ = False"

lemmas rl_defs =
  startInterval_def endInterval_def AllowHTTPRequest_def NewCollector_def onCollectorClose_def
  startNewEpoch_def notify_children_def

lemma rl_run_Nil [simp]: "rl_run cfg r [] r' \<longleftrightarrow> r' = r"
  by (auto elim: rl_run.cases intro: rl_run.start)

lemma rl_run_Cons_I: "rl_run cfg q evs r'' \<Longrightarrow> rl_step cfg r ev q \<Longrightarrow> rl_run cfg r (ev # evs) r''"
proof (induction rule: rl_run.induct)
  case (start q)
  then show ?case using rl_run.step [OF rl_run.start] by fastforce
next
  case (step q evs q' ev' q'')
  then show ?case using rl_run.step [of cfg r "ev # evs" q' ev' q''] by simp
qed

lemma rl_run_Cons_D: "rl_run cfg r evs' r'' \<Longrightarrow> evs' = ev # evs \<Longrightarrow> \<exists>q. rl_step cfg r ev q \<and> rl_run cfg q evs r''"
proof (induction arbitrary: evs rule: rl_run.induct)
  case (step r evs0 q ev0 r'')
  show ?case
  proof (cases evs0)
    case Nil
    with step show ?thesis by simp
  next
    case (Cons x xs)
    with step show ?thesis by (auto intro: rl_run.step)
  qed
qed simp

lemma rl_run_Cons: "rl_run cfg r (ev # evs) r'' \<longleftrightarrow> (\<exists>q. rl_step cfg r ev q \<and> rl_run cfg q evs r'')"
  using rl_run_Cons_I rl_run_Cons_D by blast

section \<open>Invariants of the shared rate limit\<close>

definition rl_ok :: "rate_limit \<Rightarrow> bool" where
  "rl_ok r \<longleftrightarrow> 1 \<le> rl_per_epoch r \<and> 0 \<le> rl_count r \<and> rl_count r < rl_per_epoch r"

definition remaining :: "rate_limit \<Rightarrow> int" where
  "remaining r = (if rl_active r then rl_per_epoch r - rl_count r else 0)"

definition pending :: "rate_limit \<Rightarrow> int" where
  "pending r = (if rl_timer r = None then 0 else 1)"

lemma rl_ok_new [keeps]: "rl_ok (NewRateLimit cfg w now)"
  by (simp add: rl_ok_def NewRateLimit_def Let_def)

lemma rl_step_per_epoch: "rl_step cfg r ev r' \<Longrightarrow> rl_per_epoch r' = rl_per_epoch r"
  by (auto elim!: rl_stepE simp: rl_defs Let_def split: if_splits)

lemma rl_step_ok [keeps]: "rl_step cfg r ev r' \<Longrightarrow> rl_ok r \<Longrightarrow> rl_ok r'"
  by (auto elim!: rl_stepE simp: rl_ok_def rl_defs Let_def split: if_splits)

lemma rl_run_per_epoch: "rl_run cfg r evs r' \<Longrightarrow> rl_per_epoch r' = rl_per_epoch r"
  by (induction rule: rl_run.induct) (auto dest: rl_step_per_epoch)

lemma rl_run_ok [keeps]: "rl_run cfg r evs r' \<Longrightarrow> rl_ok r \<Longrightarrow> rl_ok r'"
  by (induction rule: rl_run.induct) (auto intro: rl_step_ok)

lemma rl_step_request_effect:
  "rl_step cfg r (RequestAt now ok) r' \<Longrightarrow> rl_ok r \<Longrightarrow>
     (ok \<longleftrightarrow> rl_active r) \<and> remaining r' = remaining r - (if ok then 1 else 0) \<and> pending r' = pending r"
  by (auto simp: rl_step_request rl_ok_def remaining_def pending_def rl_defs Let_def split: if_splits)

lemma rl_step_fires_effect:
  "rl_step cfg r (IntervalFires now) r' \<Longrightarrow>
     pending r = 1 \<and> pending r' = 0 \<and> remaining r' = rl_per_epoch r"
  by (auto simp: rl_step_fires remaining_def pending_def rl_defs)

lemma rl_step_other_effect:
  "rl_step cfg r ev r' \<Longrightarrow> \<not> is_request_event ev \<Longrightarrow> (\<forall>now. ev \<noteq> IntervalFires now) \<Longrightarrow>
     remaining r' = remaining r \<and> pending r' \<le> pending r + (if is_tick ev then 1 else 0)"
  by (auto elim!: rl_stepE simp: remaining_def pending_def rl_defs Let_def split: if_splits)

definition n_allowed :: "rl_event list \<Rightarrow> int" where
  "n_allowed evs = int (length (filter is_allowed evs))"

definition n_requests :: "rl_event list \<Rightarrow> int" where
  "n_requests evs = int (length (filter is_request_event evs))"

definition n_ticks :: "rl_event list \<Rightarrow> int" where
  "n_ticks evs = int (length (filter is_tick evs))"

lemma n_snoc [simp]:
  "n_allowed (evs @ [ev]) = n_allowed evs + (if is_allowed ev then 1 else 0)"
  "n_requests (evs @ [ev]) = n_requests evs + (if is_request_event ev then 1 else 0)"
  "n_ticks (evs @ [ev]) = n_ticks evs + (if is_tick ev then 1 else 0)"
  "n_allowed [] = 0" "n_requests [] = 0" "n_ticks [] = 0"
  by (simp_all add: n_allowed_def n_requests_def n_ticks_def)

lemma budget_run:
  assumes "rl_run cfg r evs r'" "rl_ok r"
  shows "n_allowed evs + remaining r' + rl_per_epoch r * pending r'
    \<le> remaining r + rl_per_epoch r * (pending r + n_ticks evs)"
  using assms
proof (induction rule: rl_run.induct)
  case (step r evs r' ev r'')
  note eff = rl_run_ok [OF step.hyps(1) step.prems] rl_run_per_epoch [OF step.hyps(1)]
  have pos: "0 \<le> rl_per_epoch r" using step.prems by (simp add: rl_ok_def)
  consider (request) now ok where "ev = RequestAt now ok" | (fires) now where "ev = IntervalFires now"
    | (other) "\<not> is_request_event ev" "\<forall>now. ev \<noteq> IntervalFires now"
    by (cases ev) auto
  then show ?case
  proof cases
    case (request now ok)
    then show ?thesis
      using step.IH [OF step.prems] rl_step_request_effect [of cfg r' now ok r''] step.hyps eff by auto
  next
    case (fires now)
    then show ?thesis
      using step.IH [OF step.prems] rl_step_fires_effect [of cfg r' now r''] step.hyps eff
      by (auto simp: remaining_def rl_ok_def split: if_splits)
  next
    case other
    then have same: "remaining r'' = remaining r'"
      and le: "pending r'' \<le> pending r' + (if is_tick ev then 1 else 0)"
      using rl_step_other_effect [OF step.hyps(2)] by simp_all
    have "rl_per_epoch r * pending r'' \<le> rl_per_epoch r * (pending r' + (if is_tick ev then 1 else 0))"
      using le pos by (rule mult_left_mono)
    moreover have "\<not> is_allowed ev" using other by (cases ev) simp_all
    ultimately show ?thesis
      using step.IH [OF step.prems] same by (simp add: algebra_simps split: if_splits)
  qed
qed simp

lemma quota_run:
  assumes "rl_run cfg r evs r'" "rl_ok r" "\<forall>ev \<in> set evs. \<forall>now. ev \<noteq> IntervalFires now"
  shows "n_allowed evs = min (n_requests evs) (remaining r) \<and> remaining r' = remaining r - n_allowed evs"
  using assms
proof (induction rule: rl_run.induct)
  case (start r)
  then show ?case by (simp add: remaining_def rl_ok_def)
next
  case (step r evs r' ev r'')
  have ok: "rl_ok r'" using rl_run_ok [OF step.hyps(1) step.prems(1)] .
  have IH: "n_allowed evs = min (n_requests evs) (remaining r) \<and> remaining r' = remaining r - n_allowed evs"
    using step by simp
  have active: "rl_active r' \<longleftrightarrow> 0 < remaining r'" using ok by (simp add: remaining_def rl_ok_def)
  show ?case
  proof (cases "is_request_event ev")
    case True
    then obtain now allowed where ev: "ev = RequestAt now allowed" by (cases ev) auto
    then show ?thesis
      using IH active rl_step_request_effect [of cfg r' now allowed r''] step.hyps ok by (auto simp: min_def)
  next
    case False
    then have "remaining r'' = remaining r'"
      using rl_step_other_effect [OF step.hyps(2)] step.prems(2) by simp
    moreover have "\<not> is_allowed ev" using False by (cases ev) simp_all
    ultimately show ?thesis using IH False by simp
  qed
qed

section \<open>The estimate of the sample interval\<close>

lemma ema_below:
  fixes a :: rat and est len T :: int
  assumes a: "0 < a" "a < 1/2" and est: "est < T" and len: "len < 2 * T - est"
  shows "\<lfloor>(1 - a) * of_int est + a * of_int len\<rfloor> < T"
proof -
  have "(of_int len :: rat) < 2 * of_int T - of_int est"
    using len by (metis of_int_diff of_int_less_iff of_int_mult of_int_numeral)
  then have "a * of_int len < a * (2 * of_int T - of_int est)"
    using a by (intro mult_strict_left_mono) simp_all
  then have "(1 - a) * of_int est + a * of_int len < (1 - 2 * a) * of_int est + 2 * a * of_int T"
    by (simp add: algebra_simps)
  also have "(1 - 2 * a) * of_int est + 2 * a * of_int T \<le> (1 - 2 * a) * of_int T + 2 * a * (of_int T :: rat)"
    using a est by (intro add_right_mono mult_left_mono) simp_all
  also have "\<dots> = of_int T" by (simp add: algebra_simps)
  finally show ?thesis by (simp add: floor_less_iff)
qed

text \<open>
  The timing under which the estimate stays below the length of an epoch: a sample interval ends before
  the next one starts, and that is less than two epochs less the estimate after its own start.
\<close>

fun timely :: "rl_config \<Rightarrow> rate_limit \<Rightarrow> rl_event \<Rightarrow> bool" where
  "timely cfg r (RequestAt now _) \<longleftrightarrow>
     now - rl_interval_start r < (if rl_first r then rl_epoch cfg else 2 * rl_epoch cfg - rl_estimate r)"
| "timely cfg r _ \<longleftrightarrow> True"

inductive rl_timely_run :: "rl_config \<Rightarrow> rate_limit \<Rightarrow> rl_event list \<Rightarrow> rate_limit \<Rightarrow> bool" for cfg where
  start: "rl_timely_run cfg r [] r"
| step: "rl_timely_run cfg r evs r' \<Longrightarrow> timely cfg r' ev \<Longrightarrow> rl_step cfg r' ev r''
     \<Longrightarrow> rl_timely_run cfg r (evs @ [ev]) r''"

definition estimate_ok :: "rl_config \<Rightarrow> rate_limit \<Rightarrow> bool" where
  "estimate_ok cfg r \<longleftrightarrow> rl_first r \<or> rl_estimate r < rl_epoch cfg"

lemma endInterval_estimate_ok:
  assumes "0 < rl_alpha cfg" "rl_alpha cfg < 1/2" "estimate_ok cfg r" "timely cfg r (RequestAt now True)"
    "rl_first q = rl_first r" "rl_estimate q = rl_estimate r" "rl_interval_start q = rl_interval_start r"
  shows "estimate_ok cfg (endInterval cfg now q)"
  using assms ema_below [of "rl_alpha cfg" "rl_estimate r" "rl_epoch cfg" "now - rl_interval_start r"]
  by (auto simp: estimate_ok_def endInterval_def Let_def split: if_splits)

lemma rl_step_estimate_ok [keeps]:
  assumes "0 < rl_alpha cfg" "rl_alpha cfg < 1/2" "estimate_ok cfg r" "timely cfg r ev" "rl_step cfg r ev r'"
  shows "estimate_ok cfg r'"
proof (cases "is_request_event ev")
  case True
  then obtain now ok where "ev = RequestAt now ok" by (cases ev) auto
  with assms endInterval_estimate_ok [of cfg r now "r\<lparr>rl_count := rl_count r + 1\<rparr>"] show ?thesis
    by (auto simp: rl_step_request AllowHTTPRequest_def Let_def estimate_ok_def split: if_splits)
next
  case False
  with assms(3,5) show ?thesis
    by (auto elim!: rl_stepE simp: estimate_ok_def rl_defs Let_def split: if_splits)
qed

lemma timely_run_estimate_ok:
  assumes "rl_timely_run cfg r evs r'" "0 < rl_alpha cfg" "rl_alpha cfg < 1/2" "estimate_ok cfg r"
  shows "estimate_ok cfg r'"
  using assms by (induction rule: rl_timely_run.induct) (auto intro: rl_step_estimate_ok)

lemma startNewEpoch_panics_iff:
  "startNewEpoch cfg rand epochStart now r = None \<longleftrightarrow> \<not> estimate_ok cfg r"
  by (auto simp: startNewEpoch_def Let_def estimate_ok_def)

section \<open>The collector under interleaving\<close>

text \<open>
  One collector among several: its own state \<open>(arrivals, wrapped collector)\<close> between two packets is its
  own, but the shared state may have been changed by the other goroutines in any way. So a packet comes
  with the shared state it finds.
\<close>

definition rl_handle ::
  "rl_config \<Rightarrow> nat \<Rightarrow> ('s, 'e) downstream \<Rightarrow> rate_limit \<times> instant \<times> traffic
     \<Rightarrow> arrivals \<times> 's \<Rightarrow> (arrivals \<times> 's) \<times> 'e option"
where
  "rl_handle cfg c next i w =
     (case i of (r, now, t) \<Rightarrow> case w of (m, s) \<Rightarrow>
        case rate_limit_process cfg c next now t (r, m, s) of ((_, m', s'), err) \<Rightarrow> ((m', s'), err))"

definition messages :: "(content \<Rightarrow> bool) \<Rightarrow> uuid \<times> int \<Rightarrow> traffic list \<Rightarrow> nat" where
  "messages P k ts = length (filter (\<lambda>t. P (content t) \<and> exchange_key (content t) = Some k) ts)"

lemma messages_simps [simp]:
  "messages P k [] = 0"
  "messages P k (ts @ us) = messages P k ts + messages P k us"
  "messages P k [t] = (if P (content t) \<and> exchange_key (content t) = Some k then 1 else 0)"
  by (simp_all add: messages_def)

lemma poll_epoch_subset: "poll_epoch c r m = (r', m') \<Longrightarrow> has_key m' k \<Longrightarrow> has_key m k"
  by (auto simp: poll_epoch_def expireRequests_def split: option.splits if_splits)

lemma keep_going_rl_handle [simp]: "keep_going (rl_handle cfg c next)"
  by (simp add: keep_going_def rl_handle_def rate_limit_process_def split: prod.splits)

text \<open>What one packet does, before the channel is polled.\<close>

definition hands_on :: "rate_limit \<Rightarrow> arrivals \<Rightarrow> traffic \<Rightarrow> bool" where
  "hands_on r m t =
     (case content t of
        HTTPResponse q \<Rightarrow> has_key m (rs_stream q, rs_seq q)
      | _ \<Rightarrow> rl_active r)"

definition arrivals_after :: "rate_limit \<Rightarrow> arrivals \<Rightarrow> traffic \<Rightarrow> arrivals" where
  "arrivals_after r m t =
     (case content t of
        HTTPRequest q \<Rightarrow> if rl_active r then fmupd (rq_stream q, rq_seq q) (observation_time t) m else m
      | HTTPResponse q \<Rightarrow> fmdrop (rs_stream q, rs_seq q) m
      | _ \<Rightarrow> m)"

lemma rl_handle_eq:
  "\<exists>m'. fst (rl_handle cfg c next (r, now, t) (m, s)) = (m', if hands_on r m t then fst (next t s) else s)
      \<and> (\<forall>k. has_key m' k \<longrightarrow> has_key (arrivals_after r m t) k)"
proof -
  have drop: "fmdrop k m = m" if "fmlookup m k = None" for k
    by (rule fmap_ext) (use that in auto)
  show ?thesis
    by (cases "content t")
      (auto simp: rl_handle_def rate_limit_process_def hands_on_def arrivals_after_def AllowHTTPRequest_def
        AllowOther_def drop Let_def split: prod.splits dest: poll_epoch_subset)
qed

abbreviation log_sink :: "(traffic list, unit) downstream" where
  "log_sink \<equiv> record_sink"

text \<open>The invariant of a collector whose wrapped collector records: an open arrival is a request handed
  on that no response handed on has answered.\<close>

definition paired :: "traffic list \<Rightarrow> bool" where
  "paired xs \<longleftrightarrow> (\<forall>n k. messages is_response k (take n xs) \<le> messages is_request k (take n xs))"

definition answers_ok :: "arrivals \<Rightarrow> traffic list \<Rightarrow> bool" where
  "answers_ok m xs \<longleftrightarrow> (\<forall>k. messages is_response k xs + (if has_key m k then 1 else 0) \<le> messages is_request k xs)"

lemma paired_snoc:
  "paired xs \<Longrightarrow> (\<And>k. messages is_response k (xs @ [t]) \<le> messages is_request k (xs @ [t])) \<Longrightarrow> paired (xs @ [t])"
  unfolding paired_def
proof (intro allI)
  fix n k
  assume "\<forall>n k. messages is_response k (take n xs) \<le> messages is_request k (take n xs)"
    and "\<And>k. messages is_response k (xs @ [t]) \<le> messages is_request k (xs @ [t])"
  moreover have "take n (xs @ [t]) = take n xs \<or> take n (xs @ [t]) = xs @ [t]"
    by (cases "n \<le> length xs") simp_all
  ultimately show "messages is_response k (take n (xs @ [t])) \<le> messages is_request k (take n (xs @ [t]))"
    by metis
qed

lemma answers_ok_step:
  assumes "answers_ok m xs"
  shows "answers_ok (arrivals_after r m t) (if hands_on r m t then xs @ [t] else xs)"
proof -
  have step: "messages is_response k ys + (if has_key (arrivals_after r m t) k then 1 else 0) \<le> messages is_request k ys"
    if "ys = (if hands_on r m t then xs @ [t] else xs)" for k ys
  proof -
    have k: "messages is_response k xs + (if has_key m k then 1 else 0) \<le> messages is_request k xs"
      using assms by (simp only: answers_ok_def)
    show ?thesis
    proof (cases "content t")
      case (HTTPRequest q)
      then show ?thesis
        using k that by (cases "k = (rq_stream q, rq_seq q)") (auto simp: hands_on_def arrivals_after_def)
    next
      case (HTTPResponse q)
      then show ?thesis
        using k that by (cases "k = (rs_stream q, rs_seq q)") (auto simp: hands_on_def arrivals_after_def)
    qed (use k that in \<open>simp_all add: hands_on_def arrivals_after_def\<close>)
  qed
  then show ?thesis by (simp only: answers_ok_def) blast
qed

lemma answers_ok_paired_snoc:
  "answers_ok m xs \<Longrightarrow> (\<And>k. messages is_response k xs \<le> messages is_request k xs)"
  by (metis add_leE answers_ok_def)

lemma rl_handle_paired:
  "fst (rl_handle cfg c log_sink i (m, xs)) = (m', ys) \<Longrightarrow> answers_ok m xs \<Longrightarrow> paired xs
     \<Longrightarrow> answers_ok m' ys \<and> paired ys"
proof -
  obtain r now t where i: "i = (r, now, t)" by (cases i)
  assume step: "fst (rl_handle cfg c log_sink i (m, xs)) = (m', ys)" and ok: "answers_ok m xs" "paired xs"
  obtain m2 where eff: "fst (rl_handle cfg c log_sink (r, now, t) (m, xs)) =
        (m2, if hands_on r m t then fst (log_sink t xs) else xs)"
      and m2: "\<forall>k. has_key m2 k \<longrightarrow> has_key (arrivals_after r m t) k"
    using rl_handle_eq [of cfg c log_sink r now t m xs] by blast
  from step eff have ys: "ys = (if hands_on r m t then xs @ [t] else xs)" and "m' = m2"
    by (auto simp: i record_sink_def)
  with m2 have m': "has_key m' k \<Longrightarrow> has_key (arrivals_after r m t) k" for k by blast
  have after: "answers_ok (arrivals_after r m t) ys" using answers_ok_step [OF ok(1)] by (simp add: ys)
  then have "answers_ok m' ys"
    unfolding answers_ok_def
  proof (intro allI)
    fix k
    assume "\<forall>k. messages is_response k ys + (if has_key (arrivals_after r m t) k then 1 else 0) \<le> messages is_request k ys"
    from spec [OF this, of k] show "messages is_response k ys + (if has_key m' k then 1 else 0) \<le> messages is_request k ys"
      using m' [of k] by (auto split: if_splits)
  qed
  moreover have "paired ys"
    using ok(2) answers_ok_paired_snoc [OF after] paired_snoc [of xs t] by (auto simp: ys)
  ultimately show ?thesis by simp
qed

definition rl_handled :: "rl_config \<Rightarrow> nat \<Rightarrow> (rate_limit \<times> instant \<times> traffic) list \<Rightarrow> traffic list" where
  "rl_handled cfg c ins = snd (fst (feed (rl_handle cfg c log_sink) ins (fmempty, [])))"

lemma feed_rl_handle_snoc:
  "fst (feed (rl_handle cfg c next) (ins @ [i]) w) =
     fst (rl_handle cfg c next i (fst (feed (rl_handle cfg c next) ins w)))"
  by (simp add: feed_keep_going)

lemma rl_handled_paired:
  "fst (feed (rl_handle cfg c log_sink) ins (fmempty, [])) = (m, xs) \<Longrightarrow> answers_ok m xs \<and> paired xs"
proof (induction ins arbitrary: m xs rule: rev_induct)
  case Nil
  then show ?case by (simp add: answers_ok_def paired_def)
next
  case (snoc i ins)
  obtain m0 xs0 where "fst (feed (rl_handle cfg c log_sink) ins (fmempty, [])) = (m0, xs0)"
    by fastforce
  with snoc show ?case
    by (metis feed_rl_handle_snoc rl_handle_paired)
qed

lemma rl_handled_requests:
  "filter (\<lambda>t. is_request (content t)) (rl_handled cfg c ins)
     = map (snd \<circ> snd) (filter (\<lambda>(r, now, t). rl_active r \<and> is_request (content t)) ins)"
  unfolding rl_handled_def
proof (induction ins rule: rev_induct)
  case (snoc i ins)
  obtain r now t where i: "i = (r, now, t)" by (cases i)
  obtain m xs where w: "fst (feed (rl_handle cfg c log_sink) ins (fmempty, [])) = (m, xs)"
    by fastforce
  have "hands_on r m t = rl_active r" if "is_request (content t)"
    using that by (cases "content t") (simp_all add: hands_on_def)
  moreover obtain m2 where "fst (rl_handle cfg c log_sink (r, now, t) (m, xs)) =
      (m2, if hands_on r m t then fst (log_sink t xs) else xs)"
    using rl_handle_eq [of cfg c log_sink r now t m xs] by blast
  ultimately show ?case
    using snoc by (simp add: feed_rl_handle_snoc w i) (auto simp: record_sink_def)
qed simp

section \<open>Properties\<close>

text \<open>
  C6: the witness budget. In any run of the shared rate limit, whatever the interleaving of its
  collectors, at most \<open>WitnessesPerEpoch\<close> requests are let through per epoch started, the initial one
  included.
\<close>

lemma witness_budget:
  assumes "rl_run cfg (NewRateLimit cfg w t0) evs r"
  shows "n_allowed evs \<le> rl_per_epoch (NewRateLimit cfg w t0) * (1 + n_ticks evs)"
proof -
  have "remaining (NewRateLimit cfg w t0) = 0" "pending (NewRateLimit cfg w t0) = 1"
    by (simp_all add: remaining_def pending_def NewRateLimit_def Let_def)
  moreover have "0 \<le> remaining r + rl_per_epoch (NewRateLimit cfg w t0) * pending r"
    using rl_run_ok [OF assms rl_ok_new] rl_run_per_epoch [OF assms]
    by (auto simp: remaining_def pending_def rl_ok_def)
  ultimately show ?thesis
    using budget_run [OF assms rl_ok_new] by simp
qed

lemma witness_budget_witness:
  "n_allowed [IntervalFires 0, RequestAt 1 True, RequestAt 2 False] \<le> 1 * (1 + 0)"
proof -
  define evs where "evs = [IntervalFires 0, RequestAt 1 True, RequestAt 2 False]"
  have "\<exists>r. rl_run default_config (NewRateLimit default_config (1/5) 0) evs r"
    by (simp add: evs_def rl_run_Cons rl_step_fires rl_step_request NewRateLimit_def default_config_def rl_defs Let_def)
  then obtain r where "rl_run default_config (NewRateLimit default_config (1/5) 0) evs r" by blast
  from witness_budget [OF this] show ?thesis
    by (simp add: evs_def n_ticks_def NewRateLimit_def default_config_def Let_def)
qed

text \<open>
  A sample interval admits exactly its quota. From any reachable state, until the next interval
  starts, the requests admitted are the first ones to arrive up to what is left of the interval's
  quota of \<open>WitnessesPerEpoch\<close>, and none when no interval is active.
\<close>

lemma interval_quota_exact:
  assumes "rl_run cfg (NewRateLimit cfg w t0) pre r" "rl_run cfg r evs r'"
    "\<forall>ev \<in> set evs. \<forall>now. ev \<noteq> IntervalFires now"
  shows "n_allowed evs =
    min (n_requests evs) (if rl_active r then rl_per_epoch (NewRateLimit cfg w t0) - rl_count r else 0)"
  using quota_run [OF assms(2) _ assms(3)] rl_run_ok [OF assms(1) rl_ok_new] rl_run_per_epoch [OF assms(1)]
  by (simp add: remaining_def)

lemma interval_quota_exact_witness:
  "n_allowed [RequestAt 1 True, RequestAt 2 False] = 1"
proof -
  let ?c = default_config
  let ?r0 = "NewRateLimit ?c (1/5) 0"
  let ?r1 = "startInterval 0 (?r0\<lparr>rl_timer := None\<rparr>)"
  have pre: "rl_run ?c ?r0 [IntervalFires 0] ?r1"
    by (simp add: rl_run_Cons rl_step_fires NewRateLimit_def Let_def)
  have "\<exists>r'. rl_run ?c ?r1 [RequestAt 1 True, RequestAt 2 False] r'"
    by (simp add: rl_run_Cons rl_step_request NewRateLimit_def default_config_def rl_defs Let_def)
  then obtain r' where "rl_run ?c ?r1 [RequestAt 1 True, RequestAt 2 False] r'" by blast
  from interval_quota_exact [OF pre this] show ?thesis
    by (simp add: n_requests_def startInterval_def NewRateLimit_def default_config_def Let_def)
qed

text \<open>
  Starting an epoch does not panic when the timers are prompt. If every request arrives less than
  \<open>2 * epoch - estimate\<close> after the start of its interval (less than an epoch for the first estimate),
  which holds when intervals start within their epochs, then the moving average stays below the epoch
  and \<open>rand.Int63n\<close> gets a positive argument.
\<close>

lemma prompt_timers_no_panic:
  assumes "rl_timely_run cfg (NewRateLimit cfg w t0) evs r" "0 < rl_alpha cfg" "rl_alpha cfg < 1/2"
  shows "startNewEpoch cfg rand epochStart now r \<noteq> None"
proof -
  have "estimate_ok cfg (NewRateLimit cfg w t0)" by (simp add: estimate_ok_def NewRateLimit_def Let_def)
  with timely_run_estimate_ok [OF assms] show ?thesis by (simp add: startNewEpoch_panics_iff)
qed

lemma prompt_timers_no_panic_witness:
  "startNewEpoch default_config id 5 5 (NewRateLimit default_config 3 0) \<noteq> None"
  by (rule prompt_timers_no_panic [OF rl_timely_run.start]) (simp_all add: default_config_def)

text \<open>
  Without prompt timers it does panic. There is a run of the default configuration, in which the
  requests that complete the first interval arrive one nanosecond after the second epoch began and
  before its interval timer is served, after which the third epoch's start panics.
\<close>

lemma late_interval_epoch_panics:
  "\<exists>evs r. rl_run default_config (NewRateLimit default_config (2/5) 0) evs r
     \<and> startNewEpoch default_config rand (minutes 10) (minutes 10) r = None"
proof -
  let ?evs = "[IntervalFires 0, EpochTick (minutes 5) (minutes 5) 0,
      RequestAt (minutes 5 + 1) True, RequestAt (minutes 5 + 1) True, IntervalFires (minutes 5 + 2)]"
  have "\<exists>r. rl_run default_config (NewRateLimit default_config (2/5) 0) ?evs r
     \<and> startNewEpoch default_config rand (minutes 10) (minutes 10) r = None"
    by (simp add: rl_run_Cons rl_step_fires rl_step_request rl_step_tick NewRateLimit_def
        default_config_def rl_defs Let_def)
  then show ?thesis by blast
qed

text \<open>
  C29: sampled exchanges are whole. Whatever the other goroutines do to the shared state between two
  packets, the requests a collector hands on are exactly those that find an interval active; at any
  time it has handed on at most one response per request handed on, so no response goes on without its
  request; and it never reports an error, not even that of the wrapped collector.
\<close>

lemma rate_limit_pairs_responses:
  "filter (\<lambda>t. is_request (content t)) (rl_handled cfg c ins)
     = map (snd \<circ> snd) (filter (\<lambda>(r, now, t). rl_active r \<and> is_request (content t)) ins)
   \<and> messages is_response k (take n (rl_handled cfg c ins)) \<le> messages is_request k (take n (rl_handled cfg c ins))
   \<and> snd (feed (rl_handle cfg c next) ins w) = None"
proof (intro conjI)
  obtain m xs where w: "fst (feed (rl_handle cfg c log_sink) ins (fmempty, [])) = (m, xs)"
    by fastforce
  then have "paired xs" using rl_handled_paired by blast
  then show "messages is_response k (take n (rl_handled cfg c ins)) \<le> messages is_request k (take n (rl_handled cfg c ins))"
    unfolding rl_handled_def w snd_conv paired_def by blast
qed (simp_all add: rl_handled_requests feed_keep_going)

text \<open>
  A response is handed on exactly when its request is remembered, and remembering it ends there; a
  request that finds an active interval is remembered with its arrival time unless it is expired at once.
  Expiry removes exactly the requests older than the threshold.
\<close>

lemma rate_limit_response_iff:
  assumes "content t = HTTPResponse q" "k = (rs_stream q, rs_seq q)"
  shows "(\<exists>m'. rl_handle cfg c next (r, now, t) (m, s) = ((m', if has_key m k then fst (next t s) else s), None)
            \<and> fmlookup m' k = None)
    \<and> (fmlookup (expireRequests threshold m) k' = Some v \<longleftrightarrow> fmlookup m k' = Some v \<and> threshold \<le> v)"
proof
  obtain r1 m1 where p1: "poll_epoch c r (fmdrop k m) = (r1, m1)" by fastforce
  obtain r2 m2 where p2: "poll_epoch c r m = (r2, m2)" by fastforce
  have "fmlookup m1 k = None" using poll_epoch_subset [OF p1] by fastforce
  moreover have "fmlookup m2 k = None" if "fmlookup m k = None" using poll_epoch_subset [OF p2] that by fastforce
  ultimately show "\<exists>m'. rl_handle cfg c next (r, now, t) (m, s) =
      ((m', if has_key m k then fst (next t s) else s), None) \<and> fmlookup m' k = None"
    using assms p1 p2 by (auto simp: rl_handle_def rate_limit_process_def)
qed (auto simp: expireRequests_def)

lemma rate_limit_response_iff_witness:
  "\<exists>m'. rl_handle default_config 0 log_sink
       (NewRateLimit default_config 1 0, 9, sample_traffic (HTTPResponse (sample_response ''a'' 1)))
       (fmupd (''a'', 1) 5 fmempty, [])
     = ((m', [sample_traffic (HTTPResponse (sample_response ''a'' 1))]), None)"
  using conjunct1 [OF rate_limit_response_iff [OF _ refl, of "sample_traffic (HTTPResponse (sample_response ''a'' 1))"
      "sample_response ''a'' 1" default_config 0 log_sink "NewRateLimit default_config 1 0" 9 "fmupd (''a'', 1) 5 fmempty" "[]"]]
  by (auto simp: record_sink_def)

end
