(* ===== verification/Tracker.thy ===== *)
theory Tracker
  imports Collectors
begin

text \<open>
  What the TCP and the TLS connection tracker have in common: both keep a map of active connections,
  open an entry when a packet of an unknown connection arrives, and hand on a report about a connection
  when they drop its entry. The contract is an account: a step may add a report for a connection only
  against an entry that it drops or that it has just opened.
\<close>

section \<open>Events\<close>

text \<open>
  A tracker is called with packets and by the timers of its connections, one critical section after
  the other. A timer that has fired waits for the lock, so its callback may run after the entry has
  been replaced: \<open>Timer\<close> events may come at any time, for any connection.
\<close>

datatype tracker_event = Packet instant traffic | Timer conn_id

section \<open>The account of a tracker\<close>

text \<open>How often a run of events opens an entry for a connection.\<close>

fun opened :: "('ev \<Rightarrow> 'st \<Rightarrow> 'st) \<Rightarrow> ('ev \<Rightarrow> 'st \<Rightarrow> bool) \<Rightarrow> 'ev list \<Rightarrow> 'st \<Rightarrow> nat" where
  "opened step opens [] st = 0"
| "opened step opens (ev # evs) st = of_bool (opens ev st) + opened step opens evs (step ev st)"

locale tracker =
  fixes step :: "'ev \<Rightarrow> 'st \<Rightarrow> 'st"
    and reports :: "conn_id \<Rightarrow> 'st \<Rightarrow> nat"
    and active :: "conn_id \<Rightarrow> 'st \<Rightarrow> bool"
    and opens :: "conn_id \<Rightarrow> 'ev \<Rightarrow> 'st \<Rightarrow> bool"
    and inv :: "'st \<Rightarrow> bool"
  assumes inv_step: "inv st \<Longrightarrow> inv (step ev st)"
    and account:
    "inv st \<Longrightarrow> reports k (step ev st) + of_bool (active k (step ev st)) \<le> reports k st + of_bool (active k st) + of_bool (opens k ev st)"
begin

lemma inv_run: "inv st \<Longrightarrow> inv (fold step evs st)"
  by (induction evs arbitrary: st) (simp_all add: inv_step)

lemma account_run:
  "inv st \<Longrightarrow> reports k (fold step evs st) + of_bool (active k (fold step evs st))
     \<le> reports k st + of_bool (active k st) + opened step (opens k) evs st"
proof (induction evs arbitrary: st)
  case (Cons ev evs)
  show ?case using Cons.IH [of "step ev st"] Cons.prems account [of st k ev] inv_step by simp
qed simp

lemma reports_bounded: "inv st \<Longrightarrow> reports k (fold step evs st) \<le> reports k st + of_bool (active k st) + opened step (opens k) evs st"
  using account_run [of st k evs] by simp

end

text \<open>A tracker that never drops an entry without a report.\<close>

locale lossless_tracker = tracker +
  assumes balance:
    "inv st \<Longrightarrow> reports k st + of_bool (active k st) + of_bool (opens k ev st) \<le> reports k (step ev st) + of_bool (active k (step ev st))"
begin

lemma balance_run:
  "inv st \<Longrightarrow> reports k (fold step evs st) + of_bool (active k (fold step evs st))
     = reports k st + of_bool (active k st) + opened step (opens k) evs st"
proof (induction evs arbitrary: st)
  case (Cons ev evs)
  show ?case
    using Cons.IH [of "step ev st"] Cons.prems account [of st k ev] balance [of st k ev] inv_step by simp
qed simp

end

end
