(* ===== verification/Tcp_Tracker.thy ===== *)
theory Tcp_Tracker
  imports Tracker
begin

text \<open>
  tcp_conn_tracker/tcp_conn_tracker.go: TCP packets are summarised into one report per connection,
  handed on when the connection has been idle for \<open>connectionTimeout\<close> or the collector is closed.
  Timers are their due times.
\<close>

section \<open>State and operations\<close>

definition connectionTimeout :: duration where
  "connectionTimeout = seconds 30"

record tcp_info =
  ti_src_ip :: ip
  ti_src_port :: int
  ti_dst_ip :: ip
  ti_dst_port :: int
  ti_first :: instant
  ti_last :: instant
  ti_meta :: tcp_connection
  ti_timeout :: instant

record tcp_collector =
  tk_closed :: bool
  tk_active :: "(conn_id, tcp_info) fmap"

definition NewTcpCollector :: tcp_collector where
  "NewTcpCollector = \<lparr>tk_closed = False, tk_active = fmempty\<rparr>"

definition tcp_report :: "tcp_info \<Rightarrow> traffic" where
  "tcp_report info =
     \<lparr>src_ip = ti_src_ip info, src_port = ti_src_port info, dst_ip = ti_dst_ip info,
      dst_port = ti_dst_port info, content = TCPConnectionMetadata (ti_meta info), interface_name = [],
      observation_time = ti_first info, final_packet_time = ti_last info\<rparr>"

definition new_tcp_info :: "instant \<Rightarrow> traffic \<Rightarrow> tcp_packet \<Rightarrow> tcp_info" where
  "new_tcp_info now packet tcp =
     \<lparr>ti_src_ip = src_ip packet, ti_src_port = src_port packet, ti_dst_ip = dst_ip packet,
      ti_dst_port = dst_port packet, ti_first = observation_time packet, ti_last = observation_time packet,
      ti_meta = \<lparr>tc_conn = tp_conn tcp, tc_initiator = UnknownInitiator, tc_end = ConnectionOpen\<rparr>,
      ti_timeout = now + connectionTimeout\<rparr>"

definition infer_initiator :: "tcp_info \<Rightarrow> traffic \<Rightarrow> tcp_packet \<Rightarrow> tcp_initiator \<Rightarrow> tcp_initiator" where
  "infer_initiator info packet tcp old =
     (if old = UnknownInitiator \<and> tp_syn tcp
      then if tp_ack tcp
           then (if ip_equal (ti_src_ip info) (src_ip packet) \<and> ti_src_port info = src_port packet
                 then DestInitiator else SourceInitiator)
           else (if ip_equal (ti_src_ip info) (src_ip packet) \<and> ti_src_port info = src_port packet
                 then SourceInitiator else DestInitiator)
      else old)"

definition next_end_state :: "tcp_packet \<Rightarrow> tcp_end_state \<Rightarrow> tcp_end_state" where
  "next_end_state tcp st =
     (let st = (if tp_fin tcp \<and> st = ConnectionOpen then ConnectionClosed else st)
      in if tp_rst tcp then ConnectionReset else st)"

definition augmentWith :: "instant \<Rightarrow> traffic \<Rightarrow> tcp_packet \<Rightarrow> tcp_info \<Rightarrow> tcp_info" where
  "augmentWith now packet tcp info =
     (let info = (if observation_time packet < ti_first info
                  then info\<lparr>ti_first := observation_time packet\<rparr> else info);
          info = (if ti_last info < observation_time packet
                  then info\<lparr>ti_last := observation_time packet\<rparr> else info);
          meta = ti_meta info;
          meta = meta\<lparr>tc_initiator := infer_initiator info packet tcp (tc_initiator meta)\<rparr>;
          meta = meta\<lparr>tc_end := next_end_state tcp (tc_end meta)\<rparr>
      in info\<lparr>ti_meta := meta, ti_timeout := now + connectionTimeout\<rparr>)"

definition bare_ack :: "tcp_packet \<Rightarrow> bool" where
  "bare_ack tcp \<longleftrightarrow> tp_payload_len tcp = 0 \<and> tp_ack tcp \<and> \<not> (tp_fin tcp \<or> tp_rst tcp \<or> tp_syn tcp)"

definition tcp_process ::
  "('s, 'e) downstream \<Rightarrow> instant \<Rightarrow> traffic \<Rightarrow> tcp_collector \<times> 's \<Rightarrow> (tcp_collector \<times> 's) \<times> 'e option"
where
  "tcp_process next now packet w =
     (case w of (c, s) \<Rightarrow>
        (case content packet of
           TCPPacketMetadata tcp \<Rightarrow>
             if tk_closed c then ((c, s), None)
             else (case fmlookup (tk_active c) (tp_conn tcp) of
                     None \<Rightarrow>
                       if bare_ack tcp then ((c, s), None)
                       else if tp_rst tcp then ((c, s), None)
                       else ((c\<lparr>tk_active := fmupd (tp_conn tcp) (new_tcp_info now packet tcp) (tk_active c)\<rparr>, s), None)
                   | Some info \<Rightarrow>
                       (case next packet s of (s', err) \<Rightarrow>
                          ((c\<lparr>tk_active := fmupd (tp_conn tcp) (augmentWith now packet tcp info) (tk_active c)\<rparr>, s'), err)))
         | _ \<Rightarrow> (case next packet s of (s', err) \<Rightarrow> ((c, s'), err))))"

definition tcp_flushConnection ::
  "('s, 'e) downstream \<Rightarrow> conn_id \<Rightarrow> tcp_collector \<times> 's \<Rightarrow> (tcp_collector \<times> 's) \<times> bool \<times> 'e option"
where
  "tcp_flushConnection next k w =
     (case w of (c, s) \<Rightarrow>
        (case fmlookup (tk_active c) k of
           None \<Rightarrow> ((c, s), False, None)
         | Some info \<Rightarrow>
             (case next (tcp_report info) s of (s', err) \<Rightarrow>
                ((c\<lparr>tk_active := fmdrop k (tk_active c)\<rparr>, s'), True, err))))"

text \<open>
  \<open>close\<close> reports every active connection, in the visiting order \<open>order\<close> of the map, collecting the
  errors; \<open>Close\<close> then closes the wrapped collector. \<open>sampled\<close> makes one error of several
  (\<open>sampled_err.Errors\<close>).
\<close>

fun flush_all :: "('s, 'e) downstream \<Rightarrow> tcp_info list \<Rightarrow> 's \<Rightarrow> 's \<times> 'e list" where
  "flush_all next [] s = (s, [])"
| "flush_all next (info # infos) s =
     (case next (tcp_report info) s of (s', err) \<Rightarrow>
        case flush_all next infos s' of (s'', errs) \<Rightarrow>
          (s'', (case err of Some e \<Rightarrow> e # errs | None \<Rightarrow> errs)))"

definition tcp_close ::
  "('e list \<Rightarrow> 'e) \<Rightarrow> ('s, 'e) downstream \<Rightarrow> ('s, 'e) closer \<Rightarrow> conn_id list
     \<Rightarrow> (tcp_collector \<times> 's, 'e) closer"
where
  "tcp_close sampled next close order w =
     (case w of (c, s) \<Rightarrow>
        let (s, errs) = flush_all next (List.map_filter (fmlookup (tk_active c)) order) s;
            c = c\<lparr>tk_closed := True, tk_active := fmempty\<rparr>;
            (s, closeErr) = close s;
            errs = (case closeErr of Some e \<Rightarrow> errs @ [e] | None \<Rightarrow> errs)
        in ((c, s), if errs = [] then None else Some (sampled errs)))"

text \<open>The events of the tracker; errors of a timer's flush are dropped, as in the callback.\<close>

fun tcp_step :: "('s, 'e) downstream \<Rightarrow> tracker_event \<Rightarrow> tcp_collector \<times> 's \<Rightarrow> tcp_collector \<times> 's" where
  "tcp_step next (Packet now t) w = fst (tcp_process next now t w)"
| "tcp_step next (Timer k) w = fst (tcp_flushConnection next k w)"

lemmas tcp_defs =
  tcp_process_def tcp_flushConnection_def tcp_report_def new_tcp_info_def bare_ack_def

section \<open>The account\<close>

abbreviation tcp_sink :: "(traffic list, unit) downstream" where
  "tcp_sink \<equiv> record_sink"

definition is_report_of :: "conn_id \<Rightarrow> traffic \<Rightarrow> bool" where
  "is_report_of k t \<longleftrightarrow> (case content t of TCPConnectionMetadata m \<Rightarrow> tc_conn m = k | _ \<Rightarrow> False)"

definition tcp_reports :: "conn_id \<Rightarrow> tcp_collector \<times> traffic list \<Rightarrow> nat" where
  "tcp_reports k w = length (filter (is_report_of k) (snd w))"

definition tcp_is_active :: "conn_id \<Rightarrow> tcp_collector \<times> traffic list \<Rightarrow> bool" where
  "tcp_is_active k w \<longleftrightarrow> has_key (tk_active (fst w)) k"

text \<open>
  A packet opens an entry when its connection is unknown and it is neither a bare acknowledgement nor
  a reset.
\<close>

definition opens_packet :: "tcp_packet \<Rightarrow> bool" where
  "opens_packet tcp \<longleftrightarrow> \<not> bare_ack tcp \<and> \<not> tp_rst tcp"

fun tcp_opens :: "conn_id \<Rightarrow> tracker_event \<Rightarrow> tcp_collector \<times> traffic list \<Rightarrow> bool" where
  "tcp_opens k (Packet now t) w \<longleftrightarrow>
     (case content t of
        TCPPacketMetadata tcp \<Rightarrow>
          tp_conn tcp = k \<and> \<not> tk_closed (fst w) \<and> \<not> has_key (tk_active (fst w)) k \<and> opens_packet tcp
      | TCPConnectionMetadata m \<Rightarrow> tc_conn m = k
      | _ \<Rightarrow> False)"
| "tcp_opens k (Timer _) w \<longleftrightarrow> False"

definition tcp_inv :: "tcp_collector \<times> 's \<Rightarrow> bool" where
  "tcp_inv w \<longleftrightarrow> (\<forall>k info. fmlookup (tk_active (fst w)) k = Some info \<longrightarrow>
     tc_conn (ti_meta info) = k \<and> ti_first info \<le> ti_last info)"

lemma augmentWith_simps [simp]:
  "tc_conn (ti_meta (augmentWith now packet tcp info)) = tc_conn (ti_meta info)"
  "ti_first (augmentWith now packet tcp info) = min (ti_first info) (observation_time packet)"
  "ti_last (augmentWith now packet tcp info) = max (ti_last info) (observation_time packet)"
  "tc_initiator (ti_meta (augmentWith now packet tcp info)) =
     infer_initiator info packet tcp (tc_initiator (ti_meta info))"
  "tc_end (ti_meta (augmentWith now packet tcp info)) = next_end_state tcp (tc_end (ti_meta info))"
  by (auto simp: augmentWith_def Let_def infer_initiator_def min_def max_def)

lemma augmentWith_endpoints [simp]:
  "ti_src_ip (augmentWith now packet tcp info) = ti_src_ip info"
  "ti_src_port (augmentWith now packet tcp info) = ti_src_port info"
  "ti_dst_ip (augmentWith now packet tcp info) = ti_dst_ip info"
  "ti_dst_port (augmentWith now packet tcp info) = ti_dst_port info"
  by (simp_all add: augmentWith_def Let_def)

lemma tcp_inv_step [keeps]: "tcp_inv w \<Longrightarrow> tcp_inv (tcp_step next ev w)"
  by (cases w; cases ev)
    (auto simp: tcp_inv_def tcp_process_def tcp_flushConnection_def new_tcp_info_def
      split: content.splits option.splits prod.splits if_splits)

lemma is_report_of_simps [simp]:
  "content t = TCPPacketMetadata tcp \<Longrightarrow> \<not> is_report_of k t"
  "is_report_of k (tcp_report info) \<longleftrightarrow> tc_conn (ti_meta info) = k"
  by (simp_all add: is_report_of_def tcp_report_def)

lemma tcp_balance:
  assumes "tcp_inv w"
  shows "tcp_reports k (tcp_step tcp_sink ev w) + of_bool (tcp_is_active k (tcp_step tcp_sink ev w))
    = tcp_reports k w + of_bool (tcp_is_active k w) + of_bool (tcp_opens k ev w)"
proof (cases ev)
  case (Timer j)
  then show ?thesis
    using assms
    by (cases w) (auto simp: tcp_flushConnection_def tcp_reports_def tcp_is_active_def tcp_inv_def
        record_sink_def split: option.splits)
next
  case (Packet now t)
  then show ?thesis
    by (cases w; cases "content t")
      (auto simp: tcp_process_def tcp_reports_def tcp_is_active_def opens_packet_def record_sink_def
        is_report_of_def split: option.splits)
qed

interpretation tcp_tracker: lossless_tracker "tcp_step tcp_sink" tcp_reports tcp_is_active tcp_opens tcp_inv
  by unfold_locales (simp_all add: tcp_inv_step tcp_balance)

section \<open>The summary of a connection\<close>

text \<open>What a report should say, from the packets of the connection alone.\<close>

definition same_direction :: "traffic \<Rightarrow> traffic \<Rightarrow> bool" where
  "same_direction p0 p \<longleftrightarrow> ip_equal (src_ip p0) (src_ip p) \<and> src_port p0 = src_port p"

fun seg :: "content \<Rightarrow> tcp_packet" where
  "seg (TCPPacketMetadata tcp) = tcp"
| "seg _ = undefined"

definition initiator_of :: "traffic \<Rightarrow> traffic list \<Rightarrow> tcp_initiator" where
  "initiator_of p0 ps =
     (case List.find (\<lambda>p. tp_syn (seg (content p))) ps of
        None \<Rightarrow> UnknownInitiator
      | Some p \<Rightarrow> if same_direction p0 p = tp_ack (seg (content p)) then DestInitiator else SourceInitiator)"

definition end_state_of :: "traffic list \<Rightarrow> tcp_end_state" where
  "end_state_of ps =
     (if list_ex (\<lambda>p. tp_rst (seg (content p))) ps then ConnectionReset
      else if list_ex (\<lambda>p. tp_fin (seg (content p))) ps then ConnectionClosed
      else ConnectionOpen)"

text \<open>
  End states are ordered by how final they are. A packet never takes one back, and the state of a connection is
  the largest that one of its packets gives on its own.
\<close>

definition finality :: "tcp_end_state \<Rightarrow> nat" where
  "finality st = (case st of ConnectionOpen \<Rightarrow> 0 | ConnectionClosed \<Rightarrow> 1 | ConnectionReset \<Rightarrow> 2)"

lemma finality_inj: "finality a = finality b \<longleftrightarrow> a = b"
  by (cases a; cases b) (simp_all add: finality_def)

instantiation tcp_end_state :: linorder
begin

definition less_eq_tcp_end_state :: "tcp_end_state \<Rightarrow> tcp_end_state \<Rightarrow> bool" where
  "a \<le> b \<longleftrightarrow> finality a \<le> finality b"

definition less_tcp_end_state :: "tcp_end_state \<Rightarrow> tcp_end_state \<Rightarrow> bool" where
  "a < b \<longleftrightarrow> finality a < finality b"

instance
  by standard (auto simp: less_eq_tcp_end_state_def less_tcp_end_state_def finality_inj)

end

lemma next_end_state_max: "next_end_state tcp st = max st (next_end_state tcp ConnectionOpen)"
  by (cases st) (auto simp: next_end_state_def Let_def max_def less_eq_tcp_end_state_def finality_def)

lemma next_end_state_mono: "st \<le> next_end_state tcp st"
  by (subst next_end_state_max) simp

lemma end_state_of_Max:
  "end_state_of ps = Max (insert ConnectionOpen ((\<lambda>p. next_end_state (seg (content p)) ConnectionOpen) ` set ps))"
proof (induction ps rule: rev_induct)
  case (snoc p ps)
  have "end_state_of (ps @ [p]) = next_end_state (seg (content p)) (end_state_of ps)"
    by (auto simp: next_end_state_def end_state_of_def Let_def)
  also have "\<dots> = max (end_state_of ps) (next_end_state (seg (content p)) ConnectionOpen)"
    by (rule next_end_state_max)
  also have "\<dots> = Max (insert (next_end_state (seg (content p)) ConnectionOpen)
      (insert ConnectionOpen ((\<lambda>p. next_end_state (seg (content p)) ConnectionOpen) ` set ps)))"
    unfolding snoc.IH by (subst Max_insert [of "insert ConnectionOpen _"]) (simp_all only: finite_insert finite_imageI finite_set insert_not_empty not_False_eq_True max.commute)
  finally show ?case by (simp add: insert_commute)
qed (simp add: end_state_of_def)

definition connection_report :: "conn_id \<Rightarrow> traffic \<Rightarrow> traffic list \<Rightarrow> traffic" where
  "connection_report k p0 ps =
     \<lparr>src_ip = src_ip p0, src_port = src_port p0, dst_ip = dst_ip p0, dst_port = dst_port p0,
      content = TCPConnectionMetadata \<lparr>tc_conn = k, tc_initiator = initiator_of p0 ps, tc_end = end_state_of ps\<rparr>,
      interface_name = [],
      observation_time = Min (set (map observation_time (p0 # ps))),
      final_packet_time = Max (set (map observation_time (p0 # ps)))\<rparr>"

definition of_conn :: "conn_id \<Rightarrow> traffic \<Rightarrow> bool" where
  "of_conn k t \<longleftrightarrow> (case content t of TCPPacketMetadata tcp \<Rightarrow> tp_conn tcp = k | _ \<Rightarrow> False)"

text \<open>The packets of a connection from the one that opens its entry on.\<close>

definition conn_packets :: "conn_id \<Rightarrow> traffic list \<Rightarrow> traffic list" where
  "conn_packets k ts = dropWhile (\<lambda>t. \<not> opens_packet (seg (content t))) (filter (of_conn k) ts)"

definition tracked_report :: "conn_id \<Rightarrow> traffic list \<Rightarrow> traffic option" where
  "tracked_report k ts = (case conn_packets k ts of [] \<Rightarrow> None | p0 # ps \<Rightarrow> Some (connection_report k p0 ps))"

lemma dropWhile_snoc:
  "dropWhile P (xs @ [x]) =
     (if dropWhile P xs = [] then (if P x then [] else [x]) else dropWhile P xs @ [x])"
  by (induction xs) auto

lemma conn_packets_snoc:
  "conn_packets k (ts @ [t]) =
     (if of_conn k t \<and> (conn_packets k ts \<noteq> [] \<or> opens_packet (seg (content t)))
      then conn_packets k ts @ [t] else conn_packets k ts)"
  by (cases "of_conn k t") (simp_all add: conn_packets_def dropWhile_snoc del: dropWhile_eq_Nil_conv)

lemma tcp_infer_eq:
  "ti_src_ip info = src_ip p0 \<Longrightarrow> ti_src_port info = src_port p0 \<Longrightarrow>
     infer_initiator info t tcp old =
       (if old = UnknownInitiator \<and> tp_syn tcp
        then if same_direction p0 t = tp_ack tcp then DestInitiator else SourceInitiator
        else old)"
  by (auto simp: infer_initiator_def same_direction_def)

lemma find_snoc: "List.find P (xs @ [x]) = (case List.find P xs of Some y \<Rightarrow> Some y | None \<Rightarrow> if P x then Some x else None)"
  by (induction xs) simp_all

lemma connection_report_snoc:
  assumes "tcp_report info = connection_report k p0 ps" "content t = TCPPacketMetadata tcp"
  shows "tcp_report (augmentWith now t tcp info) = connection_report k p0 (ps @ [t])"
proof -
  have meta: "ti_meta info = \<lparr>tc_conn = k, tc_initiator = initiator_of p0 ps, tc_end = end_state_of ps\<rparr>"
    "ti_src_ip info = src_ip p0" "ti_src_port info = src_port p0"
    "ti_first info = Min (set (map observation_time (p0 # ps)))"
    "ti_last info = Max (set (map observation_time (p0 # ps)))"
    using assms(1) by (simp_all add: tcp_report_def connection_report_def)
  have init: "infer_initiator info t tcp (initiator_of p0 ps) = initiator_of p0 (ps @ [t])"
    using assms(2) by (auto simp: tcp_infer_eq [OF meta(2,3)] initiator_of_def find_snoc split: option.splits)
  have fin: "next_end_state tcp (end_state_of ps) = end_state_of (ps @ [t])"
    using assms(2) by (auto simp: next_end_state_def end_state_of_def Let_def)
  have "Min (set (map observation_time (p0 # ps @ [t]))) = min (ti_first info) (observation_time t)"
    "Max (set (map observation_time (p0 # ps @ [t]))) = max (ti_last info) (observation_time t)"
    unfolding meta(4,5) by (simp_all add: Min_insert Max_insert insert_commute [of "observation_time p0"]
        min.commute max.commute)
  then show ?thesis
    using assms init fin meta(1)
    by (simp add: tcp_report_def connection_report_def)
qed

definition packet_events :: "(instant \<times> traffic) list \<Rightarrow> tracker_event list" where
  "packet_events ps = map (\<lambda>(now, t). Packet now t) ps"

lemma tcp_fold_snoc:
  "fold (tcp_step next) (packet_events (ps @ [(now, t)])) w =
     fst (tcp_process next now t (fold (tcp_step next) (packet_events ps) w))"
  by (simp add: packet_events_def)

lemma tcp_process_active:
  "\<not> tk_closed c \<Longrightarrow> \<exists>s'. fst (tcp_process next now t (c, s)) =
     (case content t of
        TCPPacketMetadata tcp \<Rightarrow>
          (case fmlookup (tk_active c) (tp_conn tcp) of
             None \<Rightarrow> if opens_packet tcp
                then (c\<lparr>tk_active := fmupd (tp_conn tcp) (new_tcp_info now t tcp) (tk_active c)\<rparr>, s')
                else (c, s')
           | Some info \<Rightarrow> (c\<lparr>tk_active := fmupd (tp_conn tcp) (augmentWith now t tcp info) (tk_active c)\<rparr>, s'))
      | _ \<Rightarrow> (c, s'))"
  by (cases "content t") (auto simp: tcp_process_def opens_packet_def split: option.splits prod.splits)

lemma new_info_report:
  "content t = TCPPacketMetadata tcp \<Longrightarrow> tcp_report (new_tcp_info now t tcp) = connection_report (tp_conn tcp) t []"
  by (simp add: tcp_report_def new_tcp_info_def connection_report_def initiator_of_def end_state_of_def)

lemma active_after_packets:
  assumes "fold (tcp_step next) (packet_events ps) (NewTcpCollector, s) = (c, s')"
  shows "\<not> tk_closed c \<and> map_option tcp_report (fmlookup (tk_active c) k) = tracked_report k (map snd ps)"
  using assms
proof (induction ps arbitrary: c s' rule: rev_induct)
  case Nil
  then show ?case
    by (auto simp: packet_events_def NewTcpCollector_def tracked_report_def conn_packets_def)
next
  case (snoc p ps)
  obtain now t where p: "p = (now, t)" by (cases p)
  obtain c0 s0 where w0: "fold (tcp_step next) (packet_events ps) (NewTcpCollector, s) = (c0, s0)"
    by fastforce
  have IH: "\<not> tk_closed c0" "map_option tcp_report (fmlookup (tk_active c0) k) = tracked_report k (map snd ps)"
    using snoc.IH [OF w0] by simp_all
  have step: "fst (tcp_process next now t (c0, s0)) = (c, s')"
    using snoc.prems by (simp add: p tcp_fold_snoc w0)
  from tcp_process_active [OF IH(1), of "next" now t s0] obtain s1
    where eff: "(c, s') =
     (case content t of
        TCPPacketMetadata tcp \<Rightarrow>
          (case fmlookup (tk_active c0) (tp_conn tcp) of
             None \<Rightarrow> if opens_packet tcp
                then (c0\<lparr>tk_active := fmupd (tp_conn tcp) (new_tcp_info now t tcp) (tk_active c0)\<rparr>, s1)
                else (c0, s1)
           | Some info \<Rightarrow> (c0\<lparr>tk_active := fmupd (tp_conn tcp) (augmentWith now t tcp info) (tk_active c0)\<rparr>, s1))
      | _ \<Rightarrow> (c0, s1))" unfolding step by blast
  show ?case
  proof (cases "of_conn k t")
    case True
    then obtain tcp where t: "content t = TCPPacketMetadata tcp" "tp_conn tcp = k"
      by (cases "content t") (simp_all add: of_conn_def)
    show ?thesis
    proof (cases "conn_packets k (map snd ps)")
      case Nil
      with IH(2) have "fmlookup (tk_active c0) k = None" by (simp add: tracked_report_def)
      with eff t IH True Nil show ?thesis
        using new_info_report [OF t(1), of now]
        by (auto simp: p tracked_report_def conn_packets_snoc split: if_splits)
    next
      case (Cons p0 qs)
      with IH(2) obtain info where "fmlookup (tk_active c0) k = Some info" "tcp_report info = connection_report k p0 qs"
        by (auto simp: tracked_report_def)
      with eff t IH True Cons show ?thesis
        using connection_report_snoc [of info k p0 qs t tcp now]
        by (auto simp: p tracked_report_def conn_packets_snoc)
    qed
  next
    case False
    then have "tracked_report k (map snd (ps @ [p])) = tracked_report k (map snd ps)"
      by (simp add: p tracked_report_def conn_packets_snoc)
    moreover have "fmlookup (tk_active c) k = fmlookup (tk_active c0) k" "tk_closed c = tk_closed c0"
      using eff False by (auto simp: of_conn_def split: content.splits option.splits if_splits)
    ultimately show ?thesis using IH by simp
  qed
qed

lemma flush_all_sink: "flush_all tcp_sink infos xs = (xs @ map tcp_report infos, [])"
  by (induction infos arbitrary: xs) (simp_all add: record_sink_def)

lemma reports_of_active:
  assumes "iter_order order m" "\<And>j info. fmlookup m j = Some info \<Longrightarrow> tc_conn (ti_meta info) = j"
  shows "filter (is_report_of k) (map tcp_report (List.map_filter (fmlookup m) order))
    = (case fmlookup m k of None \<Rightarrow> [] | Some info \<Rightarrow> [tcp_report info])"
proof -
  have "filter (is_report_of k) (map tcp_report (List.map_filter (fmlookup m) ks))
      = (if k \<in> set ks then (case fmlookup m k of None \<Rightarrow> [] | Some info \<Rightarrow> [tcp_report info]) else [])"
    if "distinct ks" for ks
    using that by (induction ks) (auto simp: map_filter_simps assms(2) split: option.splits)
  moreover have "k \<in> set order \<longleftrightarrow> fmlookup m k \<noteq> None"
    using iter_order_mem [OF assms(1)] by auto
  ultimately show ?thesis using iter_order_distinct [OF assms(1)] by auto
qed

lemma tcp_close_log:
  "snd (fst (tcp_close sampled tcp_sink dummy_closer order (c, xs)))
     = xs @ map tcp_report (List.map_filter (fmlookup (tk_active c)) order)"
  if "\<And>s. fst (dummy_closer s) = s"
  using that by (auto simp: tcp_close_def flush_all_sink Let_def split: prod.splits) (metis fst_conv)

lemma tcp_log_from_packets:
  "set (snd (fold (tcp_step tcp_sink) (packet_events ps) (c, []))) \<subseteq> set (map snd ps)"
proof (induction ps rule: rev_induct)
  case (snoc p ps)
  obtain now t where p: "p = (now, t)" by (cases p)
  obtain c0 xs where "fold (tcp_step tcp_sink) (packet_events ps) (c, []) = (c0, xs)" by fastforce
  with snoc show ?case
    by (simp only: p tcp_fold_snoc)
      (auto simp: tcp_process_def record_sink_def split: content.splits option.splits)
qed (simp add: packet_events_def)

lemma tcp_inv_new: "tcp_inv (NewTcpCollector, s)"
  by (simp add: tcp_inv_def NewTcpCollector_def)

section \<open>Properties\<close>


definition sample_segment :: "bool \<Rightarrow> bool \<Rightarrow> bool \<Rightarrow> traffic" where
  "sample_segment syn ack fin =
     sample_traffic (TCPPacketMetadata \<lparr>tp_conn = ''c1'', tp_syn = syn, tp_ack = ack, tp_fin = fin, tp_rst = False, tp_payload_len = 0\<rparr>)"


text \<open>
  C30: no connection is lost and none is reported twice. For any interleaving of packets and timers,
  late timers included, the reports handed on for a connection and its entry, if it has one, are as
  many as the times the connection was opened; and closing hands on the report of every entry left.
\<close>

lemma tcp_reports_balance:
  assumes "fold (tcp_step tcp_sink) evs (NewTcpCollector, []) = w" "iter_order order (tk_active (fst w))"
    "\<And>s. fst (closer s) = s"
  shows "tcp_reports k w + of_bool (tcp_is_active k w) = opened (tcp_step tcp_sink) (tcp_opens k) evs (NewTcpCollector, [])
    \<and> tcp_reports k (fst (tcp_close sampled tcp_sink closer order w))
        = opened (tcp_step tcp_sink) (tcp_opens k) evs (NewTcpCollector, [])"
proof -
  obtain c xs where w: "w = (c, xs)" by (cases w)
  have run: "tcp_reports k w + of_bool (tcp_is_active k w)
      = opened (tcp_step tcp_sink) (tcp_opens k) evs (NewTcpCollector, [])"
    using tcp_tracker.balance_run [OF tcp_inv_new [of "[]"], where evs = evs and k = k] assms(1)
    by (simp add: tcp_reports_def tcp_is_active_def NewTcpCollector_def)
  have "tcp_inv (c, xs)" using tcp_tracker.inv_run [OF tcp_inv_new [of "[]"], where evs = evs] assms(1) w by simp
  then have "filter (is_report_of k) (map tcp_report (List.map_filter (fmlookup (tk_active c)) order))
      = (case fmlookup (tk_active c) k of None \<Rightarrow> [] | Some info \<Rightarrow> [tcp_report info])"
    using assms(2) w by (intro reports_of_active) (simp_all add: tcp_inv_def)
  then have "tcp_reports k (fst (tcp_close sampled tcp_sink closer order w))
      = tcp_reports k w + of_bool (tcp_is_active k w)"
    by (simp add: w tcp_reports_def tcp_close_log [OF assms(3)] tcp_is_active_def split: option.splits)
  with run show ?thesis by simp
qed

lemma tcp_reports_balance_witness:
  "tcp_reports ''c1'' (fst (tcp_close hd tcp_sink (\<lambda>s. (s, None)) []
      (fold (tcp_step tcp_sink) [Packet 0 (sample_segment True False False), Timer ''c1''] (NewTcpCollector, [])))) = 1"
proof -
  let ?evs = "[Packet 0 (sample_segment True False False), Timer ''c1'']"
  obtain w where w: "fold (tcp_step tcp_sink) ?evs (NewTcpCollector, []) = w" by blast
  have "iter_order [] (tk_active (fst w))"
    using w by (auto simp: tcp_process_def tcp_flushConnection_def sample_segment_def NewTcpCollector_def
        bare_ack_def record_sink_def iter_order_def)
  moreover have "opened (tcp_step tcp_sink) (tcp_opens ''c1'') ?evs (NewTcpCollector, []) = 1"
    by code_simp
  ultimately show ?thesis
    unfolding w using tcp_reports_balance [OF w, of "[]" "\<lambda>s. (s, None)" "''c1''" hd] by simp
qed

text \<open>
  The flags of the packet that opens an entry are not used. A connection observed from its opening
  SYN, with no further SYN (the SYN-ACK lost by the capture), is reported with an unknown initiator,
  and one whose only captured packet is its FIN is reported as open.
\<close>

lemma opening_flags_ignored:
  assumes "content p0 = TCPPacketMetadata tcp" "opens_packet tcp" "tp_conn tcp = k"
    "\<forall>p \<in> set ps. of_conn k p \<longrightarrow> \<not> tp_syn (seg (content p)) \<and> \<not> tp_fin (seg (content p)) \<and> \<not> tp_rst (seg (content p))"
    "fold (tcp_step next) (packet_events (map (Pair now) (p0 # ps))) (NewTcpCollector, s) = (c, s')"
  shows "map_option ti_meta (fmlookup (tk_active c) k)
    = Some \<lparr>tc_conn = k, tc_initiator = UnknownInitiator, tc_end = ConnectionOpen\<rparr>"
proof -
  have packets: "conn_packets k (p0 # ps) = p0 # filter (of_conn k) ps"
    using assms(1-3) by (simp add: conn_packets_def of_conn_def)
  have none: "List.find (\<lambda>p. tp_syn (seg (content p))) (filter (of_conn k) ps) = None"
    using assms(4) by (auto simp: find_None_iff)
  have "map_option tcp_report (fmlookup (tk_active c) k) = Some (connection_report k p0 (filter (of_conn k) ps))"
    using active_after_packets [OF assms(5), of k] packets by (simp add: tracked_report_def comp_def)
  moreover have "end_state_of (filter (of_conn k) ps) = ConnectionOpen"
    "initiator_of p0 (filter (of_conn k) ps) = UnknownInitiator"
    using assms(4) by (auto simp: end_state_of_def list_ex_iff initiator_of_def none)
  ultimately show ?thesis
    by (auto simp: tcp_report_def connection_report_def)
qed

lemma opening_flags_ignored_witness:
  "map_option ti_meta (fmlookup (tk_active (fst (fold (tcp_step tcp_sink)
       (packet_events (map (Pair 0) [sample_segment True False False])) (NewTcpCollector, [])))) ''c1'')
   = Some \<lparr>tc_conn = ''c1'', tc_initiator = UnknownInitiator, tc_end = ConnectionOpen\<rparr>"
proof -
  obtain c xs where w: "fold (tcp_step tcp_sink) (packet_events (map (Pair 0) [sample_segment True False False]))
      (NewTcpCollector, []) = (c, xs)" by fastforce
  then show ?thesis
    using opening_flags_ignored [OF _ _ _ _ w, of _ "''c1''"] by (simp add: sample_segment_def opens_packet_def bare_ack_def)
qed

end
