(* ===== verification/Tls_Tracker.thy ===== *)
theory Tls_Tracker
  imports Tracker
begin

text \<open>
  tls_conn_tracker/tls_conn_tracker.go: the Client and Server Hello of a connection are combined into
  one report, handed on when the handshake is complete. What a hello contributes and when a handshake
  is complete is decided by the methods of akinet's \<open>TLSHandshakeMetadata\<close>, the operations of the record
  \<open>handshake_ops\<close>: each may fail, and has changed the metadata as it says even then.
\<close>

section \<open>State and operations\<close>

definition tlsConnectionTimeout :: duration where
  "tlsConnectionTimeout = seconds 30"

record 'e handshake_ops =
  AddClientHello :: "client_hello \<Rightarrow> tls_handshake \<Rightarrow> tls_handshake \<times> 'e option"
  AddServerHello :: "server_hello \<Rightarrow> tls_handshake \<Rightarrow> tls_handshake \<times> 'e option"
  HandshakeComplete :: "tls_handshake \<Rightarrow> bool"

record tls_info =
  li_src_ip :: ip
  li_src_port :: int
  li_dst_ip :: ip
  li_dst_port :: int
  li_first :: instant
  li_last :: instant
  li_meta :: tls_handshake
  li_timeout :: instant

record tls_collector =
  lk_closed :: bool
  lk_active :: "(conn_id, tls_info) fmap"

definition NewTlsCollector :: tls_collector where
  "NewTlsCollector = \<lparr>lk_closed = False, lk_active = fmempty\<rparr>"

definition empty_handshake :: "conn_id \<Rightarrow> tls_handshake" where
  "empty_handshake k =
     \<lparr>th_conn = k, th_version = [], th_sni = [], th_supported = [], th_selected = [], th_alt_names = []\<rparr>"

definition new_tls_info :: "instant \<Rightarrow> conn_id \<Rightarrow> traffic \<Rightarrow> tls_info" where
  "new_tls_info now k packet =
     \<lparr>li_src_ip = src_ip packet, li_src_port = src_port packet, li_dst_ip = dst_ip packet,
      li_dst_port = dst_port packet, li_first = observation_time packet, li_last = observation_time packet,
      li_meta = empty_handshake k, li_timeout = now + tlsConnectionTimeout\<rparr>"

definition ensureConnection ::
  "instant \<Rightarrow> conn_id \<Rightarrow> traffic \<Rightarrow> tls_collector \<Rightarrow> tls_collector \<times> tls_info" where
  "ensureConnection now k packet c =
     (case fmlookup (lk_active c) k of
        Some info \<Rightarrow> (c, info)
      | None \<Rightarrow> (c\<lparr>lk_active := fmupd k (new_tls_info now k packet) (lk_active c)\<rparr>, new_tls_info now k packet))"

definition tls_report :: "tls_info \<Rightarrow> traffic" where
  "tls_report info =
     \<lparr>src_ip = li_src_ip info, src_port = li_src_port info, dst_ip = li_dst_ip info,
      dst_port = li_dst_port info, content = TLSHandshakeMetadata (li_meta info), interface_name = [],
      observation_time = li_first info, final_packet_time = li_last info\<rparr>"

definition tls_flushConnection ::
  "('s, 'e) downstream \<Rightarrow> conn_id \<Rightarrow> tls_collector \<times> 's \<Rightarrow> (tls_collector \<times> 's) \<times> bool \<times> 'e option"
where
  "tls_flushConnection next k w =
     (case w of (c, s) \<Rightarrow>
        (case fmlookup (lk_active c) k of
           None \<Rightarrow> ((c, s), False, None)
         | Some info \<Rightarrow>
             (case next (tls_report info) s of (s', err) \<Rightarrow>
                ((c\<lparr>lk_active := fmdrop k (lk_active c)\<rparr>, s'), True, err))))"

text \<open>
  What \<open>Process\<close> does with a hello of connection \<open>k\<close>; \<open>add\<close> is \<open>AddClientHello\<close> or \<open>AddServerHello\<close>,
  which changes the entry in the map.
\<close>

definition process_hello ::
  "(tls_handshake \<Rightarrow> bool) \<Rightarrow> (tls_handshake \<Rightarrow> tls_handshake \<times> 'e option) \<Rightarrow> ('s, 'e) downstream
     \<Rightarrow> instant \<Rightarrow> conn_id \<Rightarrow> traffic \<Rightarrow> tls_collector \<times> 's \<Rightarrow> (tls_collector \<times> 's) \<times> 'e option"
where
  "process_hello is_complete add next now k packet w =
     (case w of (c, s) \<Rightarrow>
        if lk_closed c then ((c, s), None)
        else (case ensureConnection now k packet c of (c, info) \<Rightarrow>
           case add (li_meta info) of (meta, err) \<Rightarrow>
             let c = c\<lparr>lk_active := fmupd k (info\<lparr>li_meta := meta\<rparr>) (lk_active c)\<rparr>
             in if err \<noteq> None then ((c, s), err)
                else if is_complete meta
                then (case tls_flushConnection next k (c, s) of (w', _, err) \<Rightarrow> (w', err))
                else ((c, s), None)))"

definition tls_process ::
  "'e handshake_ops \<Rightarrow> ('s, 'e) downstream \<Rightarrow> instant \<Rightarrow> traffic
     \<Rightarrow> tls_collector \<times> 's \<Rightarrow> (tls_collector \<times> 's) \<times> 'e option"
where
  "tls_process ops next now packet w =
     (case content packet of
        TLSClientHello h \<Rightarrow> process_hello (HandshakeComplete ops) (AddClientHello ops h) next now (ch_conn h) packet w
      | TLSServerHello h \<Rightarrow> process_hello (HandshakeComplete ops) (AddServerHello ops h) next now (sh_conn h) packet w
      | _ \<Rightarrow> (case w of (c, s) \<Rightarrow> case next packet s of (s', err) \<Rightarrow> ((c, s'), err)))"

text \<open>The timeout drops the entry without a report.\<close>

definition tls_timeout :: "conn_id \<Rightarrow> tls_collector \<times> 's \<Rightarrow> tls_collector \<times> 's" where
  "tls_timeout k w = (case w of (c, s) \<Rightarrow> (c\<lparr>lk_active := fmdrop k (lk_active c)\<rparr>, s))"

definition tls_close :: "('s, 'e) closer \<Rightarrow> (tls_collector \<times> 's, 'e) closer" where
  "tls_close close w =
     (case w of (c, s) \<Rightarrow>
        case close s of (s', err) \<Rightarrow> ((c\<lparr>lk_closed := True, lk_active := fmempty\<rparr>, s'), err))"

fun tls_step ::
  "'e handshake_ops \<Rightarrow> ('s, 'e) downstream \<Rightarrow> tracker_event \<Rightarrow> tls_collector \<times> 's \<Rightarrow> tls_collector \<times> 's"
where
  "tls_step ops next (Packet now t) w = fst (tls_process ops next now t w)"
| "tls_step ops next (Timer k) w = tls_timeout k w"

section \<open>The account\<close>

abbreviation tls_sink :: "(traffic list, unit) downstream" where
  "tls_sink \<equiv> record_sink"

definition is_handshake_of :: "conn_id \<Rightarrow> traffic \<Rightarrow> bool" where
  "is_handshake_of k t \<longleftrightarrow> (case content t of TLSHandshakeMetadata m \<Rightarrow> th_conn m = k | _ \<Rightarrow> False)"

definition tls_reports :: "conn_id \<Rightarrow> tls_collector \<times> traffic list \<Rightarrow> nat" where
  "tls_reports k w = length (filter (is_handshake_of k) (snd w))"

definition tls_is_active :: "conn_id \<Rightarrow> tls_collector \<times> traffic list \<Rightarrow> bool" where
  "tls_is_active k w \<longleftrightarrow> has_key (lk_active (fst w)) k"

fun hello_conn :: "content \<Rightarrow> conn_id option" where
  "hello_conn (TLSClientHello h) = Some (ch_conn h)"
| "hello_conn (TLSServerHello h) = Some (sh_conn h)"
| "hello_conn _ = None"

text \<open>A hello of an unknown connection opens an entry; a report from upstream passes through.\<close>

fun tls_opens :: "conn_id \<Rightarrow> tracker_event \<Rightarrow> tls_collector \<times> traffic list \<Rightarrow> bool" where
  "tls_opens k (Packet now t) w \<longleftrightarrow>
     hello_conn (content t) = Some k \<and> \<not> lk_closed (fst w) \<and> \<not> has_key (lk_active (fst w)) k
     \<or> is_handshake_of k t"
| "tls_opens k (Timer _) w \<longleftrightarrow> False"

text \<open>The documented behaviour of the methods that the account needs: they keep the connection.\<close>

definition keeps_connection :: "'e handshake_ops \<Rightarrow> bool" where
  "keeps_connection ops \<longleftrightarrow>
     (\<forall>h m. th_conn (fst (AddClientHello ops h m)) = th_conn m)
     \<and> (\<forall>h m. th_conn (fst (AddServerHello ops h m)) = th_conn m)"

definition tls_inv :: "tls_collector \<times> 's \<Rightarrow> bool" where
  "tls_inv w \<longleftrightarrow> (\<forall>k info. fmlookup (lk_active (fst w)) k = Some info \<longrightarrow> th_conn (li_meta info) = k)"

lemma ensureConnection_simps:
  assumes "ensureConnection now k packet c = (c', info)"
  shows "lk_closed c' = lk_closed c" "fmlookup (lk_active c') k = Some info"
    "j \<noteq> k \<Longrightarrow> fmlookup (lk_active c') j = fmlookup (lk_active c) j"
    "has_key (lk_active c) k \<Longrightarrow> c' = c"
    "fmlookup (lk_active c) k = None \<Longrightarrow> info = new_tls_info now k packet"
  using assms by (auto simp: ensureConnection_def split: option.splits)

lemma process_hello_cases:
  assumes "add (li_meta (snd (ensureConnection now k packet c))) = (meta, err)" "\<not> lk_closed c"
  shows "process_hello is_complete add next now k packet (c, s) =
    (case ensureConnection now k packet c of (c', info) \<Rightarrow>
       if err \<noteq> None
       then ((c'\<lparr>lk_active := fmupd k (info\<lparr>li_meta := meta\<rparr>) (lk_active c')\<rparr>, s), err)
       else if is_complete meta
       then (case next (tls_report (info\<lparr>li_meta := meta\<rparr>)) s of (s', err) \<Rightarrow>
               ((c'\<lparr>lk_active := fmdrop k (fmupd k (info\<lparr>li_meta := meta\<rparr>) (lk_active c'))\<rparr>, s'), err))
       else ((c'\<lparr>lk_active := fmupd k (info\<lparr>li_meta := meta\<rparr>) (lk_active c')\<rparr>, s), None))"
  using assms
  by (auto simp: process_hello_def tls_flushConnection_def Let_def split: prod.splits)

lemma is_handshake_report [simp]:
  "is_handshake_of k (tls_report info) \<longleftrightarrow> th_conn (li_meta info) = k"
  by (simp add: is_handshake_of_def tls_report_def)

text \<open>One hello: what becomes of the entry of its connection, of the others, and of the log.\<close>

lemma process_hello_effect:
  assumes "\<not> lk_closed c"
    "info = (case fmlookup (lk_active c) k of Some info \<Rightarrow> info | None \<Rightarrow> new_tls_info now k packet)"
    "add (li_meta info) = (meta, err)"
    "fst (process_hello is_complete add tls_sink now k packet (c, xs)) = (c', ys)"
  shows "lk_closed c' = lk_closed c"
    and "j \<noteq> k \<Longrightarrow> fmlookup (lk_active c') j = fmlookup (lk_active c) j"
    and "err = None \<Longrightarrow> is_complete meta \<Longrightarrow>
      fmlookup (lk_active c') k = None \<and> ys = xs @ [tls_report (info\<lparr>li_meta := meta\<rparr>)]"
    and "err \<noteq> None \<or> \<not> is_complete meta \<Longrightarrow>
      fmlookup (lk_active c') k = Some (info\<lparr>li_meta := meta\<rparr>) \<and> ys = xs"
proof -
  obtain c0 info0 where ens: "ensureConnection now k packet c = (c0, info0)" by fastforce
  have info0: "info0 = info" using ens assms(2) by (auto simp: ensureConnection_def split: option.splits)
  have eq: "process_hello is_complete add tls_sink now k packet (c, xs) =
    (if err \<noteq> None
     then ((c0\<lparr>lk_active := fmupd k (info\<lparr>li_meta := meta\<rparr>) (lk_active c0)\<rparr>, xs), err)
     else if is_complete meta
     then ((c0\<lparr>lk_active := fmdrop k (fmupd k (info\<lparr>li_meta := meta\<rparr>) (lk_active c0))\<rparr>,
             xs @ [tls_report (info\<lparr>li_meta := meta\<rparr>)]), None)
     else ((c0\<lparr>lk_active := fmupd k (info\<lparr>li_meta := meta\<rparr>) (lk_active c0)\<rparr>, xs), None))"
    using process_hello_cases [of add now k packet c meta err is_complete tls_sink xs] assms(1,3)
    by (simp add: ens info0 record_sink_def)
  note c0 = ensureConnection_simps [OF ens]
  show "lk_closed c' = lk_closed c" using assms(4) eq c0(1) by (auto split: if_splits)
  show "fmlookup (lk_active c') j = fmlookup (lk_active c) j" if "j \<noteq> k"
    using assms(4) eq c0(3) [OF that] that by (auto split: if_splits)
  show "fmlookup (lk_active c') k = None \<and> ys = xs @ [tls_report (info\<lparr>li_meta := meta\<rparr>)]"
    if "err = None" "is_complete meta" using assms(4) eq that by auto
  show "fmlookup (lk_active c') k = Some (info\<lparr>li_meta := meta\<rparr>) \<and> ys = xs"
    if "err \<noteq> None \<or> \<not> is_complete meta" using assms(4) that unfolding eq by (auto split: if_splits)
qed

lemma process_hello_closed: "lk_closed c \<Longrightarrow> process_hello is_complete add next now k packet (c, s) = ((c, s), None)"
  by (simp add: process_hello_def)

text \<open>Every packet is a hello, handled by \<open>process_hello\<close>, or passes through.\<close>

fun hello_add :: "'e handshake_ops \<Rightarrow> content \<Rightarrow> tls_handshake \<Rightarrow> tls_handshake \<times> 'e option" where
  "hello_add ops (TLSClientHello h) = AddClientHello ops h"
| "hello_add ops (TLSServerHello h) = AddServerHello ops h"
| "hello_add ops _ = (\<lambda>m. (m, None))"

lemma tls_process_eq:
  "tls_process ops nxt now t (c, s) =
     (case hello_conn (content t) of
        Some k \<Rightarrow> process_hello (HandshakeComplete ops) (hello_add ops (content t)) nxt now k t (c, s)
      | None \<Rightarrow> (case nxt t s of (s', err) \<Rightarrow> ((c, s'), err)))"
  by (cases "content t") (simp_all add: tls_process_def)

lemma hello_add_conn: "keeps_connection ops \<Longrightarrow> th_conn (fst (hello_add ops d m)) = th_conn m"
  by (cases d) (simp_all add: keeps_connection_def)

lemma hello_not_report: "hello_conn (content t) = Some k \<Longrightarrow> \<not> is_handshake_of j t"
  by (cases "content t") (simp_all add: is_handshake_of_def)

text \<open>One packet, under the invariant.\<close>

definition entry_for :: "instant \<Rightarrow> conn_id \<Rightarrow> traffic \<Rightarrow> tls_collector \<Rightarrow> tls_info" where
  "entry_for now k t c = (case fmlookup (lk_active c) k of Some info \<Rightarrow> info | None \<Rightarrow> new_tls_info now k t)"

lemma entry_for_conn: "tls_inv (c, xs) \<Longrightarrow> th_conn (li_meta (entry_for now k t c)) = k"
  by (auto simp: tls_inv_def entry_for_def new_tls_info_def empty_handshake_def split: option.splits)

lemma tls_inv_step [keeps]:
  assumes "keeps_connection ops" "tls_inv w"
  shows "tls_inv (tls_step ops tls_sink ev w)"
proof (cases ev)
  case (Timer k)
  then show ?thesis using assms(2) by (cases w) (auto simp: tls_timeout_def tls_inv_def split: if_splits)
next
  case (Packet now t)
  obtain c xs where w: "w = (c, xs)" by (cases w)
  show ?thesis
  proof (cases "hello_conn (content t)")
    case (Some k)
    let ?add = "hello_add ops (content t)" and ?info = "entry_for now k t c"
    obtain c' ys where step: "fst (process_hello (HandshakeComplete ops) ?add tls_sink now k t (c, xs)) = (c', ys)"
      by fastforce
    obtain meta err where add: "?add (li_meta ?info) = (meta, err)" by fastforce
    have w': "tls_step ops tls_sink ev w = (c', ys)"
      using step Some by (simp add: Packet w tls_process_eq)
    have meta: "th_conn meta = k"
      using hello_add_conn [OF assms(1), of "content t" "li_meta ?info"] add entry_for_conn [of c xs] assms(2)
      by (simp add: w)
    show ?thesis
    proof (cases "lk_closed c")
      case False
      note eff = process_hello_effect [OF False entry_for_def add step]
      have "th_conn (li_meta i) = j" if "fmlookup (lk_active c') j = Some i" for i j
      proof (cases "j = k")
        case True
        with that eff(3,4) meta show ?thesis by (cases "err = None \<and> HandshakeComplete ops meta") auto
      next
        case False
        with that eff(2) assms(2) show ?thesis by (simp add: w tls_inv_def)
      qed
      then show ?thesis by (simp add: w' tls_inv_def)
    qed (unfold w', use step assms(2) in \<open>simp add: w process_hello_closed\<close>)
  next
    case None
    then show ?thesis using assms(2) by (simp add: Packet w tls_inv_def tls_process_eq split: prod.splits)
  qed
qed

lemma tls_account:
  assumes "keeps_connection ops" "tls_inv w"
  shows "tls_reports j (tls_step ops tls_sink ev w) + of_bool (tls_is_active j (tls_step ops tls_sink ev w))
    \<le> tls_reports j w + of_bool (tls_is_active j w) + of_bool (tls_opens j ev w)"
proof (cases ev)
  case (Timer k)
  then show ?thesis by (cases w) (auto simp: tls_timeout_def tls_reports_def tls_is_active_def)
next
  case (Packet now t)
  obtain c xs where w: "w = (c, xs)" by (cases w)
  show ?thesis
  proof (cases "hello_conn (content t)")
    case (Some k)
    let ?add = "hello_add ops (content t)" and ?info = "entry_for now k t c"
    obtain c' ys where step: "fst (process_hello (HandshakeComplete ops) ?add tls_sink now k t (c, xs)) = (c', ys)"
      by fastforce
    obtain meta err where add: "?add (li_meta ?info) = (meta, err)" by fastforce
    have w': "tls_step ops tls_sink ev w = (c', ys)"
      using step Some by (simp add: Packet w tls_process_eq)
    have meta: "th_conn meta = k"
      using hello_add_conn [OF assms(1), of "content t" "li_meta ?info"] add entry_for_conn [of c xs] assms(2)
      by (simp add: w)
    show ?thesis
    proof (cases "lk_closed c")
      case False
      note eff = process_hello_effect [OF False entry_for_def add step]
      show ?thesis
        unfolding w' using Some eff(2) [of j] eff(3,4) meta hello_not_report [OF Some, of j] False
        by (cases "err = None \<and> HandshakeComplete ops meta"; cases "j = k")
          (auto simp: w Packet tls_reports_def tls_is_active_def)
    qed (unfold w', use step in \<open>simp add: w process_hello_closed tls_reports_def tls_is_active_def\<close>)
  next
    case None
    then show ?thesis by (simp add: Packet w tls_reports_def tls_is_active_def record_sink_def tls_process_eq)
  qed
qed

definition tls_ok :: "'e handshake_ops \<Rightarrow> tls_collector \<times> 's \<Rightarrow> bool" where
  "tls_ok ops w \<longleftrightarrow> keeps_connection ops \<and> tls_inv w"

interpretation tls_tracker: tracker "tls_step ops tls_sink" tls_reports tls_is_active tls_opens "tls_ok ops" for ops
  by unfold_locales (simp_all add: tls_ok_def tls_inv_step tls_account)

lemma tls_inv_new: "tls_inv (NewTlsCollector, s)"
  by (simp add: tls_inv_def NewTlsCollector_def)

section \<open>Events of other connections\<close>

definition touches :: "conn_id \<Rightarrow> tracker_event \<Rightarrow> bool" where
  "touches k ev \<longleftrightarrow>
     (case ev of Packet _ t \<Rightarrow> hello_conn (content t) = Some k \<or> is_handshake_of k t | Timer j \<Rightarrow> j = k)"

lemma tls_step_frame:
  assumes "tls_ok ops (c, xs)" "\<not> touches k ev" "tls_step ops tls_sink ev (c, xs) = (c', ys)"
  shows "fmlookup (lk_active c') k = fmlookup (lk_active c) k \<and> lk_closed c' = lk_closed c
    \<and> filter (is_handshake_of k) ys = filter (is_handshake_of k) xs"
proof (cases ev)
  case (Timer j)
  with assms(2,3) show ?thesis by (auto simp: touches_def tls_timeout_def)
next
  case (Packet now t)
  show ?thesis
  proof (cases "hello_conn (content t)")
    case (Some j)
    with assms(2) have "k \<noteq> j" by (auto simp: touches_def Packet)
    obtain meta err where add: "hello_add ops (content t) (li_meta (entry_for now j t c)) = (meta, err)" by fastforce
    have step: "fst (process_hello (HandshakeComplete ops) (hello_add ops (content t)) tls_sink now j t (c, xs)) = (c', ys)"
      using assms(3) Some by (simp add: Packet tls_process_eq)
    have "th_conn meta = j"
      using hello_add_conn [of ops "content t" "li_meta (entry_for now j t c)"] add
        entry_for_conn [of c xs] assms(1) by (simp add: tls_ok_def)
    show ?thesis
    proof (cases "lk_closed c")
      case False
      note eff = process_hello_effect [OF False entry_for_def add step]
      show ?thesis
        using eff(1) eff(2) [OF \<open>k \<noteq> j\<close>] eff(3,4) \<open>th_conn meta = j\<close> \<open>k \<noteq> j\<close>
        by (cases "err = None \<and> HandshakeComplete ops meta") auto
    qed (use step in \<open>simp add: process_hello_closed\<close>)
  next
    case None
    with assms(2,3) show ?thesis by (auto simp: Packet touches_def tls_process_eq record_sink_def)
  qed
qed

lemma tls_run_frame:
  assumes "tls_ok ops w" "\<forall>ev \<in> set evs. \<not> touches k ev"
  shows "fmlookup (lk_active (fst (fold (tls_step ops tls_sink) evs w))) k = fmlookup (lk_active (fst w)) k
    \<and> lk_closed (fst (fold (tls_step ops tls_sink) evs w)) = lk_closed (fst w)
    \<and> filter (is_handshake_of k) (snd (fold (tls_step ops tls_sink) evs w)) = filter (is_handshake_of k) (snd w)"
  using assms
proof (induction evs arbitrary: w)
  case (Cons ev evs)
  obtain c xs c' ys where w: "w = (c, xs)" "tls_step ops tls_sink ev (c, xs) = (c', ys)"
    by (metis surj_pair)
  have "tls_ok ops (c', ys)" using Cons.prems(1) tls_tracker.inv_step [of ops w ev] w by simp
  then show ?case
    using Cons.IH [of "(c', ys)"] Cons.prems tls_step_frame [of ops c xs k ev c' ys] w by simp
qed simp

section \<open>Properties\<close>

text \<open>
  At most one report per handshake. For any interleaving of packets and timeouts the reports about a
  connection are at most as many as the times it was newly seen, and fewer by one while it is tracked.
\<close>

lemma tls_one_report:
  assumes "keeps_connection ops"
  shows "tls_reports k (fold (tls_step ops tls_sink) evs (NewTlsCollector, []))
      + of_bool (tls_is_active k (fold (tls_step ops tls_sink) evs (NewTlsCollector, [])))
    \<le> opened (tls_step ops tls_sink) (tls_opens k) evs (NewTlsCollector, [])"
proof -
  have "tls_ok ops (NewTlsCollector, [] :: traffic list)" using assms tls_inv_new by (simp add: tls_ok_def)
  moreover have "tls_reports k (NewTlsCollector, []) = 0" "\<not> tls_is_active k (NewTlsCollector, [])"
    by (simp_all add: tls_reports_def tls_is_active_def NewTlsCollector_def)
  ultimately show ?thesis using tls_tracker.account_run [of ops "(NewTlsCollector, [])" k evs] by simp
qed

text \<open>Concrete operations for the witnesses: a handshake is complete when both hellos were added.\<close>

definition sample_ops :: "unit handshake_ops" where
  "sample_ops =
     \<lparr>AddClientHello = (\<lambda>h m. (m\<lparr>th_sni := (case ch_hostname h of Some n \<Rightarrow> n | None \<Rightarrow> []),
                                th_version := CHR ''c'' # th_version m\<rparr>, None)),
      AddServerHello = (\<lambda>h m. (m\<lparr>th_alt_names := sh_dns_names h, th_version := CHR ''s'' # th_version m\<rparr>, None)),
      HandshakeComplete = (\<lambda>m. 2 \<le> length (th_version m))\<rparr>"

lemma keeps_connection_sample_ops: "keeps_connection sample_ops"
  by (simp add: keeps_connection_def sample_ops_def)

definition sample_client :: traffic where
  "sample_client = sample_traffic (TLSClientHello \<lparr>ch_conn = ''c1'', ch_hostname = Some ''h''\<rparr>)"

definition sample_server :: traffic where
  "sample_server = sample_traffic (TLSServerHello \<lparr>sh_conn = ''c1'', sh_dns_names = [''h'']\<rparr>)"

lemma tls_one_report_witness:
  "tls_reports ''c1'' (fold (tls_step sample_ops tls_sink) [Packet 0 sample_client] (NewTlsCollector, [])) \<le> 1"
  using tls_one_report [OF keeps_connection_sample_ops, of "''c1''" "[Packet 0 sample_client]"]
  by (auto simp: of_bool_def split: if_splits)

text \<open>
  C31: a completed handshake is reported. When the two hellos of a connection arrive, in either order and
  with any events of other connections between them, the second completing the handshake, exactly one
  report is handed on: with both contributions, the endpoints of the first hello, and the entry is gone.
\<close>

lemma complete_handshake_reported:
  assumes ok: "tls_ok ops (c, xs)" "\<not> lk_closed c" "fmlookup (lk_active c) k = None"
    and hellos: "hello_conn (content a) = Some k" "hello_conn (content b) = Some k"
    and first: "hello_add ops (content a) (empty_handshake k) = (meta1, None)" "\<not> HandshakeComplete ops meta1"
    and second: "hello_add ops (content b) meta1 = (meta2, None)" "HandshakeComplete ops meta2"
    and others: "\<forall>ev \<in> set evs. \<not> touches k ev"
  shows "let w = fold (tls_step ops tls_sink) (Packet now1 a # evs @ [Packet now2 b]) (c, xs)
    in filter (is_handshake_of k) (snd w) =
         filter (is_handshake_of k) xs @ [tls_report (new_tls_info now1 k a\<lparr>li_meta := meta2\<rparr>)]
      \<and> fmlookup (lk_active (fst w)) k = None"
proof -
  let ?i1 = "new_tls_info now1 k a\<lparr>li_meta := meta1\<rparr>"
  obtain c1 xs1 where s1: "tls_step ops tls_sink (Packet now1 a) (c, xs) = (c1, xs1)" by fastforce
  obtain c2 xs2 where s2: "fold (tls_step ops tls_sink) evs (c1, xs1) = (c2, xs2)" by fastforce
  obtain c3 xs3 where s3: "tls_step ops tls_sink (Packet now2 b) (c2, xs2) = (c3, xs3)" by fastforce
  have e1: "entry_for now1 k a c = new_tls_info now1 k a" using ok(3) by (simp add: entry_for_def)
  have add1: "hello_add ops (content a) (li_meta (entry_for now1 k a c)) = (meta1, None)"
    using first(1) by (simp add: e1 new_tls_info_def)
  have "fst (process_hello (HandshakeComplete ops) (hello_add ops (content a)) tls_sink now1 k a (c, xs)) = (c1, xs1)"
    using s1 hellos(1) by (simp add: tls_process_eq)
  note eff1 = process_hello_effect [OF ok(2) entry_for_def add1 this]
  have ok1: "tls_ok ops (c1, xs1)" using tls_tracker.inv_step [OF ok(1), of "Packet now1 a"] s1 by simp
  note frame = tls_run_frame [OF ok1 others]
  have c2: "fmlookup (lk_active c2) k = Some ?i1" "\<not> lk_closed c2"
      "filter (is_handshake_of k) xs2 = filter (is_handshake_of k) xs"
    using frame [unfolded s2] eff1(1) eff1(4) [OF disjI2 [OF first(2)]] ok(2) by (simp_all add: e1)
  then have e2: "entry_for now2 k b c2 = ?i1" by (simp add: entry_for_def)
  have add2: "hello_add ops (content b) (li_meta (entry_for now2 k b c2)) = (meta2, None)"
    using second(1) by (simp add: e2)
  have "fst (process_hello (HandshakeComplete ops) (hello_add ops (content b)) tls_sink now2 k b (c2, xs2)) = (c3, xs3)"
    using s3 hellos(2) by (simp add: tls_process_eq)
  note eff2 = process_hello_effect(3) [OF c2(2) entry_for_def add2 this refl second(2)]
  have "th_conn meta2 = k"
    using hello_add_conn [of ops] ok(1) first(1) second(1)
    by (metis empty_handshake_def fst_conv tls_handshake.select_convs(1) tls_ok_def)
  then show ?thesis
    using eff2 c2(3) s1 s2 s3 by (simp add: e2 Let_def)
qed

lemma complete_handshake_reported_witness:
  "filter (is_handshake_of ''c1'') (snd (fold (tls_step sample_ops tls_sink)
      [Packet 0 sample_server, Timer ''c2'', Packet 5 sample_client] (NewTlsCollector, [])))
   = [tls_report (new_tls_info 0 ''c1'' sample_server\<lparr>li_meta :=
        (empty_handshake ''c1'')\<lparr>th_sni := ''h'', th_alt_names := [''h''], th_version := ''cs''\<rparr>\<rparr>)]"
proof -
  have ok: "tls_ok sample_ops (NewTlsCollector, [])"
    using keeps_connection_sample_ops tls_inv_new by (simp add: tls_ok_def)
  show ?thesis
    using complete_handshake_reported [OF ok, of "''c1''" sample_server sample_client _ _ "[Timer ''c2'']" 0 5]
    by (simp add: NewTlsCollector_def sample_server_def sample_client_def sample_ops_def empty_handshake_def
        touches_def Let_def)
qed

text \<open>
  The times of a handshake report carry no duration. Whatever happens, the report of a handshake
  has the same first and final packet time, the time of the hello that opened the entry: the last
  observation time is never updated.
\<close>

definition times_equal :: "traffic list \<Rightarrow> tls_collector \<times> traffic list \<Rightarrow> bool" where
  "times_equal ins w \<longleftrightarrow>
     (\<forall>k info. fmlookup (lk_active (fst w)) k = Some info \<longrightarrow> li_first info = li_last info)
     \<and> (\<forall>t \<in> set (snd w). t \<in> set ins \<or> observation_time t = final_packet_time t)"

lemma times_equal_step [keeps]:
  assumes "times_equal ins w" "\<forall>now t. ev = Packet now t \<longrightarrow> t \<in> set ins"
  shows "times_equal ins (tls_step ops tls_sink ev w)"
proof (cases ev)
  case (Timer k)
  then show ?thesis using assms(1) by (cases w) (auto simp: times_equal_def tls_timeout_def split: if_splits)
next
  case (Packet now t)
  obtain c xs where w: "w = (c, xs)" by (cases w)
  show ?thesis
  proof (cases "hello_conn (content t)")
    case (Some k)
    obtain c' ys where step: "fst (process_hello (HandshakeComplete ops) (hello_add ops (content t)) tls_sink now k t (c, xs)) = (c', ys)"
      by fastforce
    obtain meta err where add: "hello_add ops (content t) (li_meta (entry_for now k t c)) = (meta, err)" by fastforce
    have info: "li_first (entry_for now k t c) = li_last (entry_for now k t c)"
      using assms(1) by (auto simp: w times_equal_def entry_for_def new_tls_info_def split: option.splits)
    have w': "tls_step ops tls_sink ev w = (c', ys)" using step Some by (simp add: Packet w tls_process_eq)
    show ?thesis
    proof (cases "lk_closed c")
      case False
      note eff = process_hello_effect [OF False entry_for_def add step]
      have "li_first i = li_last i" if "fmlookup (lk_active c') j = Some i" for i j
        using that eff(2) [of j] eff(3,4) info assms(1)
        by (cases "j = k"; cases "err = None \<and> HandshakeComplete ops meta") (auto simp: w times_equal_def)
      moreover have "t \<in> set ins \<or> observation_time t = final_packet_time t" if "t \<in> set ys" for t
        using that eff(3,4) info assms(1)
        by (cases "err = None \<and> HandshakeComplete ops meta") (auto simp: w times_equal_def tls_report_def)
      ultimately show ?thesis unfolding w' by (simp add: times_equal_def)
    qed (unfold w', use step assms(1) in \<open>simp add: w process_hello_closed\<close>)
  next
    case None
    then show ?thesis using assms by (auto simp: Packet w times_equal_def tls_process_eq record_sink_def)
  qed
qed

lemma handshake_times_collapse:
  assumes "t \<in> set (snd (fold (tls_step ops tls_sink) evs (NewTlsCollector, [])))"
    "content t = TLSHandshakeMetadata m" "\<forall>now. Packet now t \<notin> set evs"
  shows "observation_time t = final_packet_time t"
proof -
  define ins where "ins = List.map_filter (\<lambda>ev. case ev of Packet _ t \<Rightarrow> Some t | Timer _ \<Rightarrow> None) evs"
  have ins: "t \<in> set ins \<longleftrightarrow> (\<exists>now. Packet now t \<in> set evs)" for t
    by (force simp: ins_def List.map_filter_def split: tracker_event.splits)
  have "times_equal ins (fold (tls_step ops tls_sink) es w)" if "times_equal ins w" "set es \<subseteq> set evs" for es w
    using that
  proof (induction es arbitrary: w)
    case (Cons ev es)
    then have "times_equal ins (tls_step ops tls_sink ev w)" by (intro times_equal_step) (auto simp: ins)
    with Cons show ?case by simp
  qed simp
  moreover have "times_equal ins (NewTlsCollector, [])" by (simp add: times_equal_def NewTlsCollector_def)
  ultimately have "times_equal ins (fold (tls_step ops tls_sink) evs (NewTlsCollector, []))" by blast
  with assms(1,3) ins show ?thesis by (auto simp: times_equal_def)
qed

lemma handshake_times_collapse_witness:
  "observation_time (tls_report (new_tls_info 0 ''c1'' sample_server\<lparr>li_meta :=
        (empty_handshake ''c1'')\<lparr>th_sni := ''h'', th_alt_names := [''h''], th_version := ''cs''\<rparr>\<rparr>)) = 1000
   \<and> final_packet_time (tls_report (new_tls_info 0 ''c1'' sample_server\<lparr>li_meta :=
        (empty_handshake ''c1'')\<lparr>th_sni := ''h'', th_alt_names := [''h''], th_version := ''cs''\<rparr>\<rparr>)) = 1000"
proof -
  let ?r = "tls_report (new_tls_info 0 ''c1'' sample_server\<lparr>li_meta :=
        (empty_handshake ''c1'')\<lparr>th_sni := ''h'', th_alt_names := [''h''], th_version := ''cs''\<rparr>\<rparr>)"
  have "?r \<in> set (snd (fold (tls_step sample_ops tls_sink)
      [Packet 0 sample_server, Packet 5 sample_client] (NewTlsCollector, [])))"
    by (simp add: tls_process_def process_hello_def ensureConnection_def tls_flushConnection_def
        NewTlsCollector_def sample_server_def sample_client_def sample_ops_def new_tls_info_def record_sink_def
        empty_handshake_def Let_def)
  from handshake_times_collapse [OF this] have "observation_time ?r = final_packet_time ?r"
    by (simp add: tls_report_def sample_server_def sample_client_def sample_traffic_def)
  then show ?thesis by (simp add: tls_report_def new_tls_info_def sample_server_def)
qed

end
