(* ===== verification/Learn_Text.thy ===== *)
theory Learn_Text
  imports Network
begin

text \<open>
  Two self-contained routines of the learn package: the reader that removes control characters from
  JSON (learn/json_preprocessor.go), which works on whatever chunks the wrapped reader delivers, and the
  Luhn check (learn/luhn.go).
\<close>

section \<open>The wrapped reader\<close>

text \<open>
  An \<open>io.Reader\<close> over a finite content: the bytes left and a schedule that says, for each call, how
  many bytes at most it delivers and whether it reports the end together with the last bytes. Every
  behaviour the \<open>io.Reader\<close> contract allows for a finite content without read errors is one of these.
\<close>

record source =
  sr_left :: "byte list"
  sr_schedule :: "(nat \<times> bool) list"

definition source_read :: "nat \<Rightarrow> source \<Rightarrow> byte list \<times> bool \<times> source" where
  "source_read n src =
     (let (most, together) = (case sr_schedule src of [] \<Rightarrow> (n, False) | x # _ \<Rightarrow> x);
          chunk = take (min n most) (sr_left src);
          rest = drop (min n most) (sr_left src)
      in (chunk, rest = [] \<and> (together \<or> sr_left src = []), \<lparr>sr_left = rest, sr_schedule = tl (sr_schedule src)\<rparr>))"

lemma source_read_simps:
  assumes "source_read n src = (chunk, eof, src')"
  shows "sr_left src = chunk @ sr_left src'" "length chunk \<le> n" "eof \<Longrightarrow> sr_left src' = []"
  using assms by (auto simp: source_read_def Let_def split: prod.splits)

section \<open>Removing control characters\<close>

definition backslash :: byte where
  "backslash = 0x5c"

text \<open>\<open>strip_bytes\<close> is the inner loop: it copies a chunk, with the state \<open>hasPrecedingBackslash\<close>.\<close>

fun strip_bytes :: "bool \<Rightarrow> byte list \<Rightarrow> byte list \<times> bool" where
  "strip_bytes esc [] = ([], esc)"
| "strip_bytes esc (c # cs) =
     (if c \<le> 0x1f \<and> \<not> esc then strip_bytes esc cs
      else let toWrite = (if c \<le> 0x1f then backslash else c);
               esc' = (if c = backslash then \<not> esc else False);
               (out, fin) = strip_bytes esc' cs
           in (toWrite # out, fin))"

lemma length_strip_bytes: "length (fst (strip_bytes esc cs)) \<le> length cs"
proof (induction cs arbitrary: esc)
  case (Cons c cs)
  show ?case
    using Cons [of True] Cons [of False]
    by (cases esc) (auto simp: Let_def split: prod.split)
qed simp

lemma strip_bytes_append:
  "strip_bytes esc (cs @ ds) =
     (case strip_bytes esc cs of (out, esc') \<Rightarrow> case strip_bytes esc' ds of (out', fin) \<Rightarrow> (out @ out', fin))"
  by (induction cs arbitrary: esc) (auto simp: Let_def split: prod.splits)

text \<open>
  \<open>Read\<close> with a buffer of \<open>len\<close> bytes: reads and discards until the buffer is full, the wrapped reader
  reports the end, or it delivers less than it was asked for. The result is the bytes written, whether
  the end was reported, and the state after.
\<close>

function strip_read :: "nat \<Rightarrow> bool \<Rightarrow> source \<Rightarrow> byte list \<times> bool \<times> bool \<times> source" where
  "strip_read remaining esc src =
     (if remaining = 0 then ([], False, esc, src)
      else case source_read remaining src of (chunk, eof, src') \<Rightarrow>
        case strip_bytes esc chunk of (out, esc') \<Rightarrow>
          if eof \<or> length chunk < remaining then (out, eof, esc', src')
          else case strip_read (remaining - length out) esc' src' of (out', eof', esc'', src'') \<Rightarrow>
                 (out @ out', eof', esc'', src''))"
  by pat_completeness auto

termination
  by (relation "measure (\<lambda>(remaining, esc, src). length (sr_left src))")
    (auto dest!: source_read_simps(1) [OF sym])

declare strip_read.simps [simp del]

text \<open>A client that reads with buffers of the given sizes.\<close>

fun read_all :: "nat list \<Rightarrow> bool \<Rightarrow> source \<Rightarrow> byte list \<times> bool \<times> source" where
  "read_all [] esc src = ([], False, src)"
| "read_all (n # ns) esc src =
     (case strip_read n esc src of (out, eof, esc', src') \<Rightarrow>
        if eof then (out, True, src')
        else case read_all ns esc' src' of (out', eof', src'') \<Rightarrow> (out @ out', eof', src''))"

lemma strip_read_invariant:
  assumes "strip_read remaining esc src = (out, eof, esc', src')"
  shows "strip_bytes esc (sr_left src) =
      (case strip_bytes esc' (sr_left src') of (out', fin) \<Rightarrow> (out @ out', fin))
    \<and> (eof \<longrightarrow> sr_left src' = []) \<and> length out \<le> remaining"
  using assms
proof (induction remaining esc src arbitrary: out eof esc' src' rule: strip_read.induct)
  case (1 remaining esc src)
  show ?case
  proof (cases "remaining = 0")
    case True
    with "1.prems" show ?thesis by (auto simp: strip_read.simps [of 0] split: prod.splits)
  next
    case False
    obtain chunk e src1 where read: "source_read remaining src = (chunk, e, src1)" by (metis prod_cases3)
    obtain o1 esc1 where strip: "strip_bytes esc chunk = (o1, esc1)" by fastforce
    note src = source_read_simps [OF read]
    have o1: "length o1 \<le> length chunk" using length_strip_bytes [of esc chunk] strip by simp
    have whole: "strip_bytes esc (sr_left src) = (case strip_bytes esc1 (sr_left src1) of (o2, fin) \<Rightarrow> (o1 @ o2, fin))"
      by (simp add: src(1) strip_bytes_append strip)
    show ?thesis
    proof (cases "e \<or> length chunk < remaining")
      case True
      with "1.prems" False read strip have "out = o1" "eof = e" "esc' = esc1" "src' = src1"
        by (auto simp: strip_read.simps [of remaining])
      with whole src o1 show ?thesis by auto
    next
      case more: False
      obtain o2 e2 esc2 src2 where rec: "strip_read (remaining - length o1) esc1 src1 = (o2, e2, esc2, src2)"
        by (metis prod_cases4)
      have res: "out = o1 @ o2" "eof = e2" "esc' = esc2" "src' = src2"
        using "1.prems" False read strip more rec by (auto simp: strip_read.simps [of remaining])
      have "strip_bytes esc1 (sr_left src1) = (case strip_bytes esc2 (sr_left src2) of (o3, fin) \<Rightarrow> (o2 @ o3, fin))
          \<and> (e2 \<longrightarrow> sr_left src2 = []) \<and> length o2 \<le> remaining - length o1"
        using "1.IH" [OF False read [symmetric] refl strip [symmetric] more rec] .
      with whole res o1 src(2) show ?thesis by (auto split: prod.splits)
    qed
  qed
qed

lemma read_all_invariant:
  "read_all ns esc src = (out, eof, src') \<Longrightarrow>
     \<exists>out'. fst (strip_bytes esc (sr_left src)) = out @ out' \<and> (eof \<longrightarrow> out' = [])"
proof (induction ns arbitrary: esc src out eof src')
  case (Cons n ns)
  obtain o1 e1 esc1 src1 where read: "strip_read n esc src = (o1, e1, esc1, src1)" by (metis prod_cases4)
  note inv = strip_read_invariant [OF read]
  show ?case
  proof (cases e1)
    case True
    with Cons.prems read inv show ?thesis by (auto split: prod.splits)
  next
    case False
    obtain o2 e2 src2 where rec: "read_all ns esc1 src1 = (o2, e2, src2)" by (metis prod_cases3)
    from Cons.IH [OF rec] inv Cons.prems read False rec show ?thesis by (auto split: prod.splits)
  qed
qed simp

lemma strip_bytes_clean: "c \<in> set (fst (strip_bytes esc cs)) \<Longrightarrow> 0x1f < c"
proof (induction cs arbitrary: esc)
  case (Cons d cs)
  then show ?case
    by (auto simp: Let_def backslash_def not_le split: prod.splits if_splits)
      (metis fst_conv)+
qed simp

lemma strip_bytes_id: "\<forall>c \<in> set cs. 0x1f < c \<Longrightarrow> fst (strip_bytes esc cs) = cs"
proof (induction cs arbitrary: esc)
  case (Cons d cs)
  then show ?case by (auto simp: Let_def split: prod.splits) (metis fst_conv)+
qed simp

section \<open>The Luhn check\<close>

definition is_digit :: "char \<Rightarrow> bool" where
  "is_digit c \<longleftrightarrow> 48 \<le> char_code c \<and> char_code c \<le> 57"

definition luhn_digit :: "bool \<Rightarrow> char \<Rightarrow> int" where
  "luhn_digit double c =
     (let d = int (char_code c) - 48 in
      if double then let d = d * 2 in if 9 < d then d - 9 else d else d)"

fun luhn_loop :: "nat \<Rightarrow> nat \<Rightarrow> int \<Rightarrow> string \<Rightarrow> int option" where
  "luhn_loop parity i acc [] = Some acc"
| "luhn_loop parity i acc (c # cs) =
     (if is_digit c then luhn_loop parity (Suc i) (acc + luhn_digit (i mod 2 = parity) c) cs else None)"

definition ValidLuhn :: "string \<Rightarrow> bool" where
  "ValidLuhn number =
     (if length number < 13 then False
      else case luhn_loop (length number mod 2) 0 0 number of
             None \<Rightarrow> False
           | Some acc \<Rightarrow> acc mod 10 = 0)"

text \<open>The definition of the checksum: from the right, every second digit counts twice, by its digit sum.\<close>

fun luhn_sum :: "bool \<Rightarrow> string \<Rightarrow> int" where
  "luhn_sum double [] = 0"
| "luhn_sum double (c # cs) =
     (let d = int (char_code c) - 48; v = (if double then 2 * d else d) in v div 10 + v mod 10)
     + luhn_sum (\<not> double) cs"

lemma luhn_sum_snoc:
  "luhn_sum double (cs @ [c]) =
     luhn_sum double cs
     + (let d = int (char_code c) - 48; v = (if double = even (length cs) then 2 * d else d) in v div 10 + v mod 10)"
  by (induction cs arbitrary: double) (auto simp: Let_def)

lemma digit_codes:
  assumes "is_digit c"
  shows "char_code c \<in> {48, 49, 50, 51, 52, 53, 54, 55, 56, 57}"
  using assms unfolding is_digit_def insert_iff empty_iff by presburger

lemma luhn_digit_value:
  assumes "is_digit c"
  shows "luhn_digit double c = (let d = int (char_code c) - 48; v = (if double then 2 * d else d) in v div 10 + v mod 10)"
proof -
  from digit_codes [OF assms] show ?thesis by (auto simp: luhn_digit_def)
qed

lemma luhn_loop_eq:
  "luhn_loop ((i + length cs) mod 2) i acc cs =
     (if list_all is_digit cs then Some (acc + luhn_sum False (rev cs)) else None)"
proof (induction cs arbitrary: i acc)
  case (Cons c cs)
  have "i mod 2 = (i + length (c # cs)) mod 2 \<longleftrightarrow> odd (length cs)" by (simp add: mod2_eq_if)
  moreover have "(i + length (c # cs)) mod 2 = (Suc i + length cs) mod 2" by simp
  ultimately show ?case
    using Cons [of "Suc i" "acc + luhn_digit (odd (length cs)) c"]
    by (cases "is_digit c") (simp_all add: luhn_sum_snoc luhn_digit_value add.assoc del: add_Suc_right add_Suc)
qed simp

lemma ValidLuhn_eq:
  "ValidLuhn s \<longleftrightarrow> 13 \<le> length s \<and> list_all is_digit s \<and> luhn_sum False (rev s) mod 10 = 0"
  using luhn_loop_eq [of 0 s 0] by (simp add: ValidLuhn_def)

text \<open>The weight of a digit determines it, doubled or not, so a changed digit changes the sum.\<close>

lemma luhn_digit_inj:
  assumes "is_digit c" "is_digit d" "luhn_digit b c mod 10 = luhn_digit b d mod 10"
  shows "c = d"
proof -
  have "char_code c = char_code d"
    using assms(3) digit_codes [OF assms(1)] digit_codes [OF assms(2)] by (cases b) (auto simp: luhn_digit_def)
  then show ?thesis by (simp add: char_code_def)
qed

lemma mod_10_cancel:
  fixes a b x y :: int
  assumes "(a + x + b) mod 10 = 0" "(a + y + b) mod 10 = 0"
  shows "x mod 10 = y mod 10"
proof -
  have "10 dvd (a + x + b) - (a + y + b)"
    using assms by (intro dvd_diff) (simp_all add: dvd_eq_mod_eq_0)
  then show ?thesis by (simp add: mod_eq_dvd_iff)
qed

lemma luhn_sum_append:
  "luhn_sum b (xs @ ys) = luhn_sum b xs + luhn_sum (b = even (length xs)) ys"
proof (induction xs arbitrary: b)
  case (Cons x xs)
  have "((\<not> b) = even (length xs)) = (b = even (length (x # xs)))" by auto
  with Cons [of "\<not> b"] show ?case by (simp only: append_Cons luhn_sum.simps add.assoc)
qed simp

section \<open>Properties\<close>

text \<open>
  The control-character filter does not depend on chunking. Whatever chunks the wrapped reader
  delivers and whatever buffers the client reads with, what the client has read is a prefix of the
  filtered content, and all of it once the end is reported. The filtered content has no control
  characters, and content without control characters is unchanged.
\<close>

lemma strip_reader_chunking_independent:
  assumes "read_all sizes False src = (out, eof, src')"
  shows "prefix out (fst (strip_bytes False (sr_left src)))
    \<and> (eof \<longrightarrow> out = fst (strip_bytes False (sr_left src)))
    \<and> (\<forall>c \<in> set out. 0x1f < c)
    \<and> ((\<forall>c \<in> set (sr_left src). 0x1f < c) \<longrightarrow> fst (strip_bytes False (sr_left src)) = sr_left src)"
proof -
  obtain out' where whole: "fst (strip_bytes False (sr_left src)) = out @ out'" "eof \<longrightarrow> out' = []"
    using read_all_invariant [OF assms] by blast
  then have "0x1f < c" if "c \<in> set out" for c
    using that strip_bytes_clean [of c False "sr_left src"] by simp
  with whole strip_bytes_id show ?thesis by (auto simp: prefix_def)
qed

lemma strip_reader_chunking_independent_witness:
  "fst (read_all [2, 2, 2, 2] False \<lparr>sr_left = [0x22, 0x5c, 0x0a, 0x61, 0x0d, 0x22], sr_schedule = [(1, False)]\<rparr>)
     = [0x22, 0x5c, 0x5c, 0x61, 0x22]"
proof -
  let ?src = "\<lparr>sr_left = [0x22, 0x5c, 0x0a, 0x61, 0x0d, 0x22], sr_schedule = [(1, False)]\<rparr>"
  have "read_all [2, 2, 2, 2] False ?src = ([0x22, 0x5c, 0x5c, 0x61, 0x22], True, \<lparr>sr_left = [], sr_schedule = []\<rparr>)"
    by (simp add: strip_read.simps source_read_def backslash_def Let_def)
  moreover have "fst (strip_bytes False (sr_left ?src)) = [0x22, 0x5c, 0x5c, 0x61, 0x22]"
    by (simp add: backslash_def Let_def)
  ultimately show ?thesis
    using strip_reader_chunking_independent [of "[2, 2, 2, 2]" ?src] by simp
qed

text \<open>
  \<open>ValidLuhn\<close> is the Luhn checksum: it accepts exactly the strings of at least 13 decimal digits
  whose checksum, taken from the right, is divisible by ten; so it detects every error in one digit.
\<close>

lemma ValidLuhn_is_luhn:
  "(ValidLuhn s \<longleftrightarrow> 13 \<le> length s \<and> list_all is_digit s \<and> luhn_sum False (rev s) mod 10 = 0)
    \<and> (ValidLuhn (xs @ c # ys) \<and> c \<noteq> d \<longrightarrow> \<not> ValidLuhn (xs @ d # ys))"
proof (intro conjI impI)
  assume "ValidLuhn (xs @ c # ys) \<and> c \<noteq> d"
  then have valid: "ValidLuhn (xs @ c # ys)" and "c \<noteq> d" by simp_all
  show "\<not> ValidLuhn (xs @ d # ys)"
  proof
    assume other: "ValidLuhn (xs @ d # ys)"
    let ?b = "odd (length ys)"
    have digits: "is_digit c" "is_digit d" using valid other by (simp_all add: ValidLuhn_eq)
    have "luhn_sum False (rev (xs @ e # ys)) = luhn_sum False (rev ys) + luhn_digit ?b e + luhn_sum (\<not> ?b) (rev xs)"
      if "is_digit e" for e
      by (simp add: luhn_sum_append luhn_digit_value [OF that] Let_def)
    with digits valid other have
      "(luhn_sum False (rev ys) + luhn_digit ?b c + luhn_sum (\<not> ?b) (rev xs)) mod 10 = 0"
      "(luhn_sum False (rev ys) + luhn_digit ?b d + luhn_sum (\<not> ?b) (rev xs)) mod 10 = 0"
      by (simp_all add: ValidLuhn_eq)
    then have "luhn_digit ?b c mod 10 = luhn_digit ?b d mod 10" by (rule mod_10_cancel)
    then show False using luhn_digit_inj digits \<open>c \<noteq> d\<close> by blast
  qed
qed (simp add: ValidLuhn_eq)

lemma ValidLuhn_is_luhn_witness:
  "\<not> ValidLuhn ''4242424242424243''"
proof -
  have "ValidLuhn ''4242424242424242''" by code_simp
  then have "ValidLuhn (''424242424242424'' @ CHR ''2'' # [])" by (simp only: append.simps)
  moreover have "CHR ''2'' \<noteq> CHR ''3''" by simp
  ultimately have "\<not> ValidLuhn (''424242424242424'' @ CHR ''3'' # [])"
    using ValidLuhn_is_luhn by blast
  from this [unfolded append.simps] show ?thesis .
qed

end
