(* ===== verification/Parse_Http.thy ===== *)
theory Parse_Http
  imports Learn_Text
begin

text \<open>
  learn/parse_http.go and learn/learn.go: an HTTP message becomes a partial witness, a method of the
  intermediate representation with the message's data as arguments or responses, and a request and its
  response are merged into one witness. The protobuf classes of akita-ir are the datatypes below, with
  the constructors the code builds; decoders and classifiers of other packages (compress, mime,
  encoding/json, yaml, spec_util, ir_hash) are the fields of the record \<open>http_env\<close>.
\<close>

section \<open>The intermediate representation\<close>

datatype auth_type = AUTH_BEARER | AUTH_BASIC | AUTH_UNKNOWN

datatype body_type =
    BODY_JSON | BODY_FORM | BODY_YAML | BODY_OCTET_STREAM | BODY_TEXT_PLAIN | BODY_TEXT_HTML | BODY_OTHER

datatype location =
    InQuery string
  | InHeader string
  | InCookie string
  | InAuth auth_type
  | InBody body_type string
  | InMultipart string

record http_meta =
  hm_location :: location
  hm_code :: int

datatype 'p ir_data = IrData (ir_value: "'p ir_value option") (ir_meta: "http_meta option")
and 'p ir_value =
    IrPrimitive 'p
  | IrStruct "(string, 'p ir_data) fmap"
  | IrList "'p ir_data list"
  | IrNone

record method_meta =
  mm_method :: string
  mm_path :: string
  mm_host :: string
  mm_latency_us :: int

record 'p ir_method =
  im_args :: "(string, 'p ir_data) fmap option"
  im_responses :: "(string, 'p ir_data) fmap option"
  im_meta :: "method_meta option"

type_synonym 'p witness = "'p ir_method option"

section \<open>Values of the decoders\<close>

text \<open>
  The \<open>interface{}\<close> values encoding/json and yaml produce. A map is the list of its entries in the order
  a \<open>range\<close> loop visits them; a float is its text.
\<close>

datatype goval =
    GNil
  | GBool bool
  | GInt int
  | GFloat string
  | GString string
  | GBytes "byte list"
  | GNumber string
  | GMap "(string \<times> goval) list"
  | GYamlMap "(goval \<times> goval) list"
  | GList "goval list"

text \<open>\<open>fmt.Sprintf("%v", k)\<close> for the hashable values that can be keys of a YAML map.\<close>

fun key_text :: "goval \<Rightarrow> string" where
  "key_text (GString s) = s"
| "key_text (GInt i) = itoa i"
| "key_text (GBool b) = (if b then ''true'' else ''false'')"
| "key_text (GFloat s) = s"
| "key_text GNil = ''<nil>''"
| "key_text _ = []"

text \<open>A reader: the bytes it delivers, and whether it then fails instead of reporting the end.\<close>

type_synonym stream = "byte list \<times> bool"

definition read_limited :: "nat \<Rightarrow> stream \<Rightarrow> byte list option" where
  "read_limited limit st =
     (case st of (bs, fails) \<Rightarrow>
        if length bs < limit \<and> fails then None else Some (take limit bs))"

record part =
  pt_name :: string
  pt_content_type :: string
  pt_body :: stream

record 'p http_env =
  he_categorize :: "string \<Rightarrow> 'p"
  he_number :: "string \<Rightarrow> goval"
  he_to_primitive :: "goval \<Rightarrow> bool \<Rightarrow> 'p option"
  he_obfuscate :: "'p \<Rightarrow> 'p"
  he_hash :: "'p ir_data \<Rightarrow> string"
  he_gunzip :: "stream \<Rightarrow> stream option"
  he_inflate :: "stream \<Rightarrow> stream"
  he_brotli :: "stream \<Rightarrow> stream"
  he_media_type :: "string \<Rightarrow> (string \<times> (string, string) fmap) option"
  he_charset :: "string \<Rightarrow> (string \<times> (stream \<Rightarrow> stream)) option"
  he_multipart :: "string \<Rightarrow> stream \<Rightarrow> part list \<times> bool"
  he_json :: "stream \<Rightarrow> goval option"
  he_yaml :: "stream \<Rightarrow> goval option"
  he_form :: "string \<Rightarrow> (string, string list) fmap option"

datatype parse_error =
    NotHTTP
  | UnsupportedCompression
  | DecompressError
  | BodyTooLarge
  | UnrecognizedCompression
  | MimeError string
  | CharsetError string
  | ReadError
  | JsonError
  | FormError
  | YamlError
  | MultipartError
  | HashCollision

section \<open>Data from decoded values\<close>

definition bytes_to_string :: "byte list \<Rightarrow> string" where
  "bytes_to_string bs = map (\<lambda>b. char_of (unat b)) bs"

text \<open>\<open>json.Number.Int64\<close>: a decimal integer in the range of int64.\<close>

definition digits_value :: "string \<Rightarrow> int" where
  "digits_value = foldl (\<lambda>v c. 10 * v + (int (char_code c) - 48)) 0"

definition parse_int64 :: "string \<Rightarrow> int option" where
  "parse_int64 s =
     (let (neg, ds) = (case s of c # cs \<Rightarrow> if c = CHR ''-'' then (True, cs) else if c = CHR ''+'' then (False, cs)
                                           else (False, s) | [] \<Rightarrow> (False, []));
          v = (if neg then - digits_value ds else digits_value ds)
      in if ds \<noteq> [] \<and> list_all is_digit ds \<and> - (2 ^ 63) \<le> v \<and> v < 2 ^ 63 then Some v else None)"

definition primitive_data :: "'p http_env \<Rightarrow> bool \<Rightarrow> goval \<Rightarrow> 'p ir_data" where
  "primitive_data env interpret v =
     (case he_to_primitive env v interpret of
        None \<Rightarrow> IrData (Some IrNone) None
      | Some pv \<Rightarrow> IrData (Some (IrPrimitive pv)) None)"

text \<open>Assigning the entries of a list to a Go map, the later ones winning.\<close>

definition assign_all :: "('k \<times> 'v) list \<Rightarrow> ('k, 'v) fmap" where
  "assign_all kvs = fold (\<lambda>(k, v) m. fmupd k v m) kvs fmempty"

lemma entry_size: "(k, v) \<in> set kvs \<Longrightarrow> size v \<le> size_list (size_prod f size) kvs"
  by (induction kvs) auto

lemma elem_size: "v \<in> set vs \<Longrightarrow> size v \<le> size_list size vs"
  by (induction vs) auto

function (sequential) parseElem :: "'p http_env \<Rightarrow> bool \<Rightarrow> goval \<Rightarrow> 'p ir_data" where
  "parseElem env interpret (GYamlMap kvs) =
     IrData (Some (IrStruct (assign_all (map (\<lambda>(k, v). (key_text k, parseElem env interpret v)) kvs)))) None"
| "parseElem env interpret (GMap kvs) =
     IrData (Some (IrStruct (assign_all (map (\<lambda>(k, v). (k, parseElem env interpret v)) kvs)))) None"
| "parseElem env interpret (GList vs) =
     IrData (Some (IrList (map (parseElem env interpret) vs))) None"
| "parseElem env interpret (GNumber s) =
     (case parse_int64 s of
        Some v \<Rightarrow> primitive_data env interpret (GInt v)
      | None \<Rightarrow> primitive_data env interpret (he_number env s))"
| "parseElem env interpret v = primitive_data env interpret v"
  by pat_completeness auto

termination
  by (relation "measure (\<lambda>(env, interpret, v). size v)")
    (auto simp: less_Suc_eq_le dest: entry_size elem_size)

declare parseElem.simps [simp del]

section \<open>Data from headers, cookies and the query\<close>

lemma sorted_list_of_fset_small [simp]:
  "sorted_list_of_fset {||} = []" "sorted_list_of_fset {|x|} = [x]"
  by (simp_all add: sorted_list_of_fset.rep_eq)

definition to_lower :: "string \<Rightarrow> string" where
  "to_lower s = map lower_char s"

definition to_int32 :: "int \<Rightarrow> int" where
  "to_int32 i = (i + 2 ^ 31) mod 2 ^ 32 - 2 ^ 31"

definition newDataMeta :: "location \<Rightarrow> int \<Rightarrow> http_meta option" where
  "newDataMeta loc responseCode = Some \<lparr>hm_location = loc, hm_code = to_int32 responseCode\<rparr>"

definition categorized :: "'p http_env \<Rightarrow> string \<Rightarrow> 'p ir_value option" where
  "categorized env s = Some (IrPrimitive (he_categorize env s))"

definition parseCookies :: "'p http_env \<Rightarrow> (string \<times> string) list \<Rightarrow> int option \<Rightarrow> 'p ir_data list" where
  "parseCookies env cs responseCodeOpt =
     (let responseCode = (case responseCodeOpt of Some c \<Rightarrow> c | None \<Rightarrow> 0)
      in map (\<lambda>(name, v). IrData (categorized env v) (newDataMeta (InCookie name) responseCode)) cs)"

definition bearer :: string where "bearer = ''bearer ''"
definition basic :: string where "basic = ''basic ''"

definition auth_data :: "'p http_env \<Rightarrow> string \<Rightarrow> int \<Rightarrow> 'p ir_data" where
  "auth_data env v responseCode =
     (let lv = to_lower v;
          (authType, token) =
            (if prefix bearer lv then (AUTH_BEARER, drop (length bearer) v)
             else if prefix basic lv then (AUTH_BASIC, drop (length basic) v)
             else (AUTH_UNKNOWN, v))
      in IrData (Some (IrPrimitive (he_obfuscate env (he_categorize env token))))
           (newDataMeta (InAuth authType) responseCode))"

definition header_data :: "'p http_env \<Rightarrow> int option \<Rightarrow> string \<Rightarrow> string list \<Rightarrow> 'p ir_data list" where
  "header_data env responseCodeOpt k vs =
     (let isRequest = (responseCodeOpt = None);
          responseCode = (case responseCodeOpt of Some c \<Rightarrow> c | None \<Rightarrow> 0);
          lk = to_lower k
      in case vs of
           [] \<Rightarrow> []
         | v # _ \<Rightarrow>
             if lk = ''cookie'' \<or> lk = ''set-cookie'' then []
             else if lk = ''content-type'' then []
             else if lk = ''authorization'' \<and> isRequest then [auth_data env v responseCode]
             else [IrData (categorized env v) (newDataMeta (InHeader k) responseCode)])"

definition parseHeader :: "'p http_env \<Rightarrow> header \<Rightarrow> int option \<Rightarrow> 'p ir_data list" where
  "parseHeader env header responseCodeOpt =
     concat (map (\<lambda>k. header_data env responseCodeOpt k (the (fmlookup header k)))
       (sorted_list_of_fset (fmdom header)))"

definition parseQuery :: "'p http_env \<Rightarrow> http_url option \<Rightarrow> 'p ir_data list" where
  "parseQuery env url =
     (case url of
        None \<Rightarrow> []
      | Some u \<Rightarrow>
          concat (map (\<lambda>k. case the (fmlookup (u_query u) k) of
                              [] \<Rightarrow> []
                            | v # _ \<Rightarrow> [IrData (categorized env v) (newDataMeta (InQuery k) 0)])
            (sorted_list_of_fset (fmdom (u_query u)))))"

definition parseMethodMeta :: "http_request \<Rightarrow> method_meta" where
  "parseMethodMeta req =
     \<lparr>mm_method = rq_method req,
      mm_path = (case rq_url req of Some u \<Rightarrow> u_path u | None \<Rightarrow> []),
      mm_host = rq_host req, mm_latency_us = 0\<rparr>"

definition UnknownHTTPMethodMeta :: method_meta where
  "UnknownHTTPMethodMeta = \<lparr>mm_method = [], mm_path = [], mm_host = [], mm_latency_us = 0\<rparr>"

definition parseRequest :: "'p http_env \<Rightarrow> http_request \<Rightarrow> method_meta \<times> 'p ir_data list" where
  "parseRequest env req =
     (parseMethodMeta req,
      parseQuery env (rq_url req) @ parseHeader env (rq_header req) None @ parseCookies env (rq_cookies req) None)"

definition parseResponse :: "'p http_env \<Rightarrow> http_response \<Rightarrow> 'p ir_data list" where
  "parseResponse env resp =
     parseHeader env (rs_header resp) (Some (rs_status resp))
     @ parseCookies env (rs_cookies resp) (Some (rs_status resp))"

section \<open>Decoding the body\<close>

definition MaxFallbackInput :: nat where "MaxFallbackInput = 1 * 1024 * 1024"
definition MaxFallbackOutput :: nat where "MaxFallbackOutput = 10 * 1024 * 1024"
definition MaxBufferedBody :: nat where "MaxBufferedBody = 5 * 1024 * 1024"
definition SmallBodySample :: nat where "SmallBodySample = 10 * 1024"

definition decompress :: "'p http_env \<Rightarrow> string \<Rightarrow> stream \<Rightarrow> parse_error + stream" where
  "decompress env compression body =
     (if compression = ''gzip'' then
        (case he_gunzip env body of None \<Rightarrow> Inl DecompressError | Some r \<Rightarrow> Inr r)
      else if compression = ''deflate'' then Inr (he_inflate env body)
      else if compression = ''identity'' then Inr body
      else if compression = ''br'' then Inr (he_brotli env body)
      else Inl UnsupportedCompression)"

definition fallbackDecompressions :: "string list" where
  "fallbackDecompressions = [''deflate'', ''gzip'', ''br'']"

fun first_decompressed :: "'p http_env \<Rightarrow> byte list \<Rightarrow> string list \<Rightarrow> byte list option" where
  "first_decompressed env body [] = None"
| "first_decompressed env body (algorithm # rest) =
     (case decompress env algorithm (body, False) of
        Inl _ \<Rightarrow> first_decompressed env body rest
      | Inr dr \<Rightarrow>
          (case read_limited MaxFallbackOutput dr of
             Some result \<Rightarrow> Some result
           | None \<Rightarrow> first_decompressed env body rest))"

definition attemptDecompress :: "'p http_env \<Rightarrow> byte list \<Rightarrow> parse_error + stream" where
  "attemptDecompress env body =
     (if MaxFallbackInput < length body then Inl BodyTooLarge
      else case first_decompressed env body fallbackDecompressions of
             Some result \<Rightarrow> Inr (result, False)
           | None \<Rightarrow> Inl UnrecognizedCompression)"

fun decompress_all :: "'p http_env \<Rightarrow> string list \<Rightarrow> stream \<Rightarrow> parse_error + stream" where
  "decompress_all env [] body = Inr body"
| "decompress_all env (c # cs) body =
     (case decompress env c body of
        Inl err \<Rightarrow> Inl err
      | Inr b \<Rightarrow> decompress_all env cs b)"

definition content_type_key :: string where "content_type_key = ''Content-Type''"
definition content_encoding_key :: string where "content_encoding_key = ''Content-Encoding''"

definition decodeBody :: "'p http_env \<Rightarrow> header \<Rightarrow> stream \<Rightarrow> bool \<Rightarrow> parse_error + stream" where
  "decodeBody env headers body bodyDecompressed =
     (let compressions = (case fmlookup headers (canonical_header_key content_encoding_key) of
                            Some cs \<Rightarrow> cs | None \<Rightarrow> [])
      in case (if bodyDecompressed then Inr body else decompress_all env (rev compressions) body) of
           Inl err \<Rightarrow> Inl err
         | Inr body \<Rightarrow>
             (case he_media_type env (header_get headers content_type_key) of
                None \<Rightarrow> Inl (MimeError (header_get headers content_type_key))
              | Some (_, mtParams) \<Rightarrow>
                  (case fmlookup mtParams ''charset'' of
                     None \<Rightarrow> Inr body
                   | Some cs \<Rightarrow>
                       (case he_charset env cs of
                          None \<Rightarrow> Inl (CharsetError cs)
                        | Some (n, decoder) \<Rightarrow> Inr (if n \<noteq> ''UTF-8'' then decoder body else body)))))"

section \<open>Parsing the body\<close>

definition media_body_type :: "string \<Rightarrow> body_type" where
  "media_body_type mediaType =
     (if mediaType = ''application/json'' then BODY_JSON
      else if mediaType = ''application/x-www-form-urlencoded'' then BODY_FORM
      else if mediaType \<in> {''application/yaml'', ''application/x-yaml'', ''text/yaml'', ''text/x-yaml''} then BODY_YAML
      else if mediaType = ''application/octet-stream'' then BODY_OCTET_STREAM
      else if mediaType \<in> {''text/plain'', ''text/csv''} then BODY_TEXT_PLAIN
      else if mediaType = ''text/html'' then BODY_TEXT_HTML
      else if suffix ''+json'' mediaType then BODY_JSON
      else BODY_OTHER)"

definition parseHTTPBodyJSON :: "'p http_env \<Rightarrow> stream \<Rightarrow> parse_error + 'p ir_data" where
  "parseHTTPBodyJSON env st =
     (case he_json env (fst (strip_bytes False (fst st)), snd st) of
        None \<Rightarrow> Inl JsonError
      | Some v \<Rightarrow> Inr (parseElem env False v))"

definition parseHTTPBodyYAML :: "'p http_env \<Rightarrow> stream \<Rightarrow> parse_error + 'p ir_data" where
  "parseHTTPBodyYAML env st =
     (case he_yaml env st of
        None \<Rightarrow> Inl YamlError
      | Some v \<Rightarrow> Inr (parseElem env True v))"

text \<open>The form values as a map of strings and lists of strings; its entries in ascending key order.\<close>

definition form_values :: "(string, string list) fmap \<Rightarrow> goval" where
  "form_values values =
     GMap (map (\<lambda>k. (k, case the (fmlookup values k) of [v] \<Rightarrow> GString v | vs \<Rightarrow> GList (map GString vs)))
       (sorted_list_of_fset (fmdom values)))"

definition parse_single :: "'p http_env \<Rightarrow> body_type \<Rightarrow> stream \<Rightarrow> parse_error + 'p ir_data" where
  "parse_single env bt st =
     (let blob = (case read_limited SmallBodySample st of
                    None \<Rightarrow> Inl ReadError
                  | Some body \<Rightarrow> Inr (parseElem env False (GBytes body)));
          text = (\<lambda>interpret. case read_limited SmallBodySample st of
                    None \<Rightarrow> Inl ReadError
                  | Some body \<Rightarrow> Inr (parseElem env interpret (GString (bytes_to_string body))))
      in case bt of
           BODY_JSON \<Rightarrow> parseHTTPBodyJSON env st
         | BODY_FORM \<Rightarrow>
             (case read_limited MaxBufferedBody st of
                None \<Rightarrow> Inl ReadError
              | Some body \<Rightarrow>
                  (case he_form env (bytes_to_string body) of
                     None \<Rightarrow> Inl FormError
                   | Some values \<Rightarrow> Inr (parseElem env True (form_values values))))
         | BODY_YAML \<Rightarrow> parseHTTPBodyYAML env st
         | BODY_OCTET_STREAM \<Rightarrow> blob
         | BODY_TEXT_PLAIN \<Rightarrow> text True
         | BODY_TEXT_HTML \<Rightarrow> text False
         | BODY_OTHER \<Rightarrow> blob)"

fun with_meta :: "http_meta option \<Rightarrow> 'p ir_data \<Rightarrow> 'p ir_data" where
  "with_meta m (IrData v _) = IrData v m"

text \<open>
  \<open>parseBody\<close> calls itself on the parts of a multipart body. \<open>parse_parts\<close> is the loop over the parts,
  with \<open>parse\<close> the recursive call; \<open>fuel\<close> bounds the nesting, \<open>None\<close> says it was not enough.
\<close>

fun parse_parts ::
  "(string \<Rightarrow> stream \<Rightarrow> (parse_error + 'p ir_data) option) \<Rightarrow> part list \<Rightarrow> bool
     \<Rightarrow> (string, 'p ir_data) fmap \<Rightarrow> (parse_error + (string, 'p ir_data) fmap) option"
where
  "parse_parts parse [] fails acc = Some (if fails then Inl MultipartError else Inr acc)"
| "parse_parts parse (p # ps) fails acc =
     (case parse (if pt_content_type p = [] then ''text/plain'' else pt_content_type p) (pt_body p) of
        None \<Rightarrow> None
      | Some (Inl err) \<Rightarrow> Some (Inl err)
      | Some (Inr d) \<Rightarrow> parse_parts parse ps fails (fmupd (pt_name p) d acc))"

definition parseMultipartBody ::
  "'p http_env \<Rightarrow> (string \<Rightarrow> stream \<Rightarrow> (parse_error + 'p ir_data) option) \<Rightarrow> string \<Rightarrow> string \<Rightarrow> stream \<Rightarrow> int
     \<Rightarrow> (parse_error + 'p ir_data) option"
where
  "parseMultipartBody env parse multipartType boundary st statusCode =
     (case he_multipart env boundary st of (parts, fails) \<Rightarrow>
        (case parse_parts parse parts fails fmempty of
           None \<Rightarrow> None
         | Some (Inl err) \<Rightarrow> Some (Inl err)
         | Some (Inr acc) \<Rightarrow>
             Some (Inr (IrData (Some (IrStruct acc)) (newDataMeta (InMultipart multipartType) statusCode)))))"

definition boundary_of :: "(string, string) fmap \<Rightarrow> string" where
  "boundary_of params = (case fmlookup params ''boundary'' of Some b \<Rightarrow> b | None \<Rightarrow> [])"

primrec parseBody ::
  "nat \<Rightarrow> 'p http_env \<Rightarrow> int \<Rightarrow> string \<Rightarrow> stream \<Rightarrow> (parse_error + 'p ir_data) option"
where
  "parseBody 0 env statusCode contentType st = None"
| "parseBody (Suc fuel) env statusCode contentType st =
     (case he_media_type env contentType of
        None \<Rightarrow> Some (Inl (MimeError contentType))
      | Some (mediaType, mediaParams) \<Rightarrow>
          if mediaType = ''multipart/form-data'' then
            parseMultipartBody env (parseBody fuel env statusCode) ''form-data'' (boundary_of mediaParams) st statusCode
          else if mediaType = ''multipart/mixed'' then
            parseMultipartBody env (parseBody fuel env statusCode) ''mixed'' (boundary_of mediaParams) st statusCode
          else let bt = media_body_type mediaType
               in case parse_single env bt st of
                    Inl err \<Rightarrow> Some (Inl err)
                  | Inr d \<Rightarrow> Some (Inr (with_meta (newDataMeta (InBody bt mediaType) statusCode) d)))"

section \<open>Messages\<close>

text \<open>The data of a message keyed by their hashes; a collision of different data is an error.\<close>

fun data_map :: "'p http_env \<Rightarrow> 'p ir_data list \<Rightarrow> (string, 'p ir_data) fmap \<Rightarrow> (string, 'p ir_data) fmap option" where
  "data_map env [] m = Some m"
| "data_map env (d # ds) m =
     (case fmlookup m (he_hash env d) of
        Some existing \<Rightarrow> if d \<noteq> existing then None else data_map env ds (fmupd (he_hash env d) d m)
      | None \<Rightarrow> data_map env ds (fmupd (he_hash env d) d m))"

text \<open>The body's contribution: nothing when there is no body or it cannot be parsed.\<close>

definition body_data ::
  "nat \<Rightarrow> 'p http_env \<Rightarrow> header \<Rightarrow> byte list \<Rightarrow> bool \<Rightarrow> int \<Rightarrow> (parse_error + 'p ir_data list) option"
where
  "body_data fuel env headers rawBody bodyDecompressed statusCode =
     (if rawBody = [] then Some (Inr [])
      else case decodeBody env headers (rawBody, False) bodyDecompressed of
             Inl err \<Rightarrow> Some (Inl err)
           | Inr decodeStream \<Rightarrow>
               let contentType = header_get headers content_type_key
               in case parseBody fuel env statusCode contentType decodeStream of
                    None \<Rightarrow> None
                  | Some (Inr d) \<Rightarrow> Some (Inr [d])
                  | Some (Inl err) \<Rightarrow>
                      (case attemptDecompress env rawBody of
                         Inl _ \<Rightarrow> Some (Inr [])
                       | Inr fallback \<Rightarrow>
                           (case parseBody fuel env statusCode contentType fallback of
                              None \<Rightarrow> None
                            | Some (Inr d) \<Rightarrow> Some (Inr [d])
                            | Some (Inl _) \<Rightarrow> Some (Inr []))))"

definition ParseHTTP ::
  "nat \<Rightarrow> 'p http_env \<Rightarrow> (string \<Rightarrow> 'id) \<Rightarrow> content \<Rightarrow> (parse_error + 'p witness \<times> 'id) option"
where
  "ParseHTTP fuel env sha elem =
     (let finish = (\<lambda>isRequest meta datas headers body decompressed status stream n.
            (case body_data fuel env headers body decompressed status of
               None \<Rightarrow> None
             | Some (Inl err) \<Rightarrow> Some (Inl err)
             | Some (Inr extra) \<Rightarrow>
                 (case data_map env (datas @ extra) fmempty of
                    None \<Rightarrow> Some (Inl HashCollision)
                  | Some m \<Rightarrow>
                      Some (Inr (Some \<lparr>im_args = (if isRequest then Some m else None),
                                       im_responses = (if isRequest then None else Some m),
                                       im_meta = Some meta\<rparr>,
                                 ToWitnessID sha stream n)))))
      in case elem of
           HTTPRequest t \<Rightarrow>
             (case parseRequest env t of (methodMeta, datas) \<Rightarrow>
                finish True methodMeta datas (rq_header t) (rq_body t) (rq_decompressed t) 0 (rq_stream t) (rq_seq t))
         | HTTPResponse t \<Rightarrow>
             finish False UnknownHTTPMethodMeta (parseResponse env t) (rs_header t) (rs_body t) (rs_decompressed t)
               (rs_status t) (rs_stream t) (rs_seq t)
         | _ \<Rightarrow> Some (Inl NotHTTP))"

text \<open>\<open>MergeWitness\<close>: what becomes of \<open>dst\<close>.\<close>

definition MergeWitness :: "'p witness \<Rightarrow> 'p witness \<Rightarrow> 'p witness" where
  "MergeWitness dst src =
     (case dst of
        None \<Rightarrow> src
      | Some d \<Rightarrow>
          let s = the src;
              d = (if im_args d = None then d\<lparr>im_args := im_args s\<rparr> else d\<lparr>im_responses := im_responses s\<rparr>);
              d = (if im_meta d = None then d\<lparr>im_meta := im_meta s\<rparr> else d);
              d = (case im_meta d of
                     Some httpMeta \<Rightarrow> if mm_method httpMeta = [] then d\<lparr>im_meta := im_meta s\<rparr> else d
                   | None \<Rightarrow> d)
          in Some d)"

section \<open>Enough fuel\<close>

text \<open>
  The documented behaviour of mime/multipart the termination of \<open>parseBody\<close> relies on: the body of a
  part lies between two boundaries of the body it is part of, so it is shorter.
\<close>

definition parts_shorter :: "'p http_env \<Rightarrow> bool" where
  "parts_shorter env \<longleftrightarrow>
     (\<forall>boundary st. \<forall>p \<in> set (fst (he_multipart env boundary st)). length (fst (pt_body p)) < length (fst st))"

lemma parse_parts_returns:
  "(\<And>p ct. p \<in> set ps \<Longrightarrow> parse ct (pt_body p) \<noteq> None) \<Longrightarrow> parse_parts parse ps fails acc \<noteq> None"
proof (induction ps arbitrary: acc)
  case (Cons p ps)
  obtain r where "parse (if pt_content_type p = [] then ''text/plain'' else pt_content_type p) (pt_body p) = Some r"
    using Cons.prems by fastforce
  with Cons show ?case by (cases r) simp_all
qed simp

lemma parseMultipartBody_returns:
  assumes "\<And>p ct. p \<in> set (fst (he_multipart env boundary st)) \<Longrightarrow> parse ct (pt_body p) \<noteq> None"
  shows "parseMultipartBody env parse t boundary st code \<noteq> None"
proof -
  obtain parts fails where m: "he_multipart env boundary st = (parts, fails)" by fastforce
  then have "parse_parts parse parts fails fmempty \<noteq> None"
    using assms by (intro parse_parts_returns) simp
  with m show ?thesis by (auto simp: parseMultipartBody_def split: option.splits sum.splits)
qed

lemma parseBody_returns:
  assumes "parts_shorter env"
  shows "length (fst st) < fuel \<Longrightarrow> parseBody fuel env code ct st \<noteq> None"
proof (induction fuel arbitrary: ct st)
  case (Suc fuel)
  have multi: "parseMultipartBody env (parseBody fuel env code) t boundary st code \<noteq> None" for t boundary
  proof (rule parseMultipartBody_returns)
    fix p ct
    assume "p \<in> set (fst (he_multipart env boundary st))"
    with assms Suc.prems have "length (fst (pt_body p)) < fuel"
      unfolding parts_shorter_def by fastforce
    then show "parseBody fuel env code ct (pt_body p) \<noteq> None" by (rule Suc.IH)
  qed
  show ?case
    using multi by (auto simp: Let_def split: option.splits sum.splits)
qed simp

text \<open>More fuel does not change an answer.\<close>

lemma parse_parts_mono:
  "(\<And>ct st r. parse ct st = Some r \<Longrightarrow> parse' ct st = Some r) \<Longrightarrow>
     parse_parts parse ps fails acc = Some r \<Longrightarrow> parse_parts parse' ps fails acc = Some r"
proof (induction ps arbitrary: acc)
  case (Cons p ps)
  let ?ct = "if pt_content_type p = [] then ''text/plain'' else pt_content_type p"
  obtain q where q: "parse ?ct (pt_body p) = Some q" using Cons.prems(2) by (auto split: option.splits)
  with Cons.prems(1) have "parse' ?ct (pt_body p) = Some q" by blast
  with q Cons show ?case by (auto split: sum.splits)
qed simp

lemma parseBody_mono: "parseBody fuel env code ct st = Some r \<Longrightarrow> parseBody (Suc fuel) env code ct st = Some r"
proof (induction fuel arbitrary: ct st r)
  case (Suc fuel)
  have multi: "parseMultipartBody env (parseBody (Suc fuel) env code) t boundary st code = Some q"
    if prem: "parseMultipartBody env (parseBody fuel env code) t boundary st code = Some q" for t boundary q
  proof -
    obtain parts fails where m: "he_multipart env boundary st = (parts, fails)" by fastforce
    then obtain f where f: "parse_parts (parseBody fuel env code) parts fails fmempty = Some f"
      using prem by (cases "parse_parts (parseBody fuel env code) parts fails fmempty") (simp_all add: parseMultipartBody_def)
    have "parse_parts (parseBody (Suc fuel) env code) parts fails fmempty = Some f"
      using Suc.IH f by (rule parse_parts_mono)
    with prem m f show ?thesis by (simp add: parseMultipartBody_def)
  qed
  show ?case
  proof (cases "he_media_type env ct")
    case None
    with Suc.prems show ?thesis by simp
  next
    case (Some m)
    obtain mediaType params where m: "m = (mediaType, params)" by (cases m)
    show ?thesis
      using Suc.prems [unfolded parseBody.simps(2)] multi
      unfolding parseBody.simps(2) [of "Suc fuel"] Some m
      by (simp del: parseBody.simps split: if_splits)
  qed
qed simp

lemma parseBody_more:
  assumes "parseBody fuel env code ct st = Some r" "fuel \<le> fuel'"
  shows "parseBody fuel' env code ct st = Some r"
  using assms(2,1)
proof (induction rule: dec_induct)
  case (step n)
  then show ?case by (intro parseBody_mono)
qed

section \<open>What the data of a message are\<close>

lemma data_map_keys:
  "data_map env ds m = Some m' \<Longrightarrow> fmlookup m' k = Some d \<Longrightarrow> fmlookup m k = Some d \<or> d \<in> set ds \<and> k = he_hash env d"
proof (induction env ds m rule: data_map.induct)
  case (2 env e ds m)
  then show ?case by (auto split: option.splits if_splits) metis+
qed simp

lemma data_map_complete:
  "data_map env ds m = Some m' \<Longrightarrow>
     (\<forall>d \<in> set ds. fmlookup m' (he_hash env d) = Some d) \<and> (\<forall>k d. fmlookup m k = Some d \<longrightarrow> fmlookup m' k = Some d)"
proof (induction env ds m rule: data_map.induct)
  case (2 env e ds m)
  show ?case
  proof (cases "fmlookup m (he_hash env e)")
    case None
    with 2 show ?thesis by (auto split: if_splits) (metis option.distinct(1))
  next
    case (Some x)
    with 2 show ?thesis by (auto split: if_splits) (metis option.sel)
  qed
qed simp

lemma header_data_cases:
  assumes "d \<in> set (header_data env code k vs)"
  obtains (auth) v where "to_lower k = ''authorization''" "code = None" "d = auth_data env v 0"
  | (plain) v where "d = IrData (categorized env v) (newDataMeta (InHeader k) (case code of Some c \<Rightarrow> c | None \<Rightarrow> 0))"
      "to_lower k \<notin> {''cookie'', ''set-cookie'', ''content-type''}"
      "to_lower k = ''authorization'' \<Longrightarrow> code \<noteq> None"
  using assms by (cases vs) (auto simp: header_data_def Let_def split: if_splits option.splits)

lemma parseBody_location:
  assumes "parseBody fuel env code ct st = Some (Inr d)"
  shows "\<exists>loc. ir_meta d = newDataMeta loc code \<and> (\<forall>h. loc \<noteq> InHeader h) \<and> (\<forall>a. loc \<noteq> InAuth a)"
proof -
  have meta: "ir_meta (with_meta m e) = m" for m and e :: "'a ir_data" by (cases e) simp
  have multi: "\<exists>loc. ir_meta d = newDataMeta loc code \<and> (\<forall>h. loc \<noteq> InHeader h) \<and> (\<forall>a. loc \<noteq> InAuth a)"
    if "parseMultipartBody env parse t boundary st code = Some (Inr d)" for parse t boundary
    using that by (force simp: parseMultipartBody_def split: prod.splits option.splits sum.splits)
  show ?thesis
  proof (cases fuel)
    case (Suc n)
    show ?thesis
      using assms multi meta unfolding Suc parseBody.simps
      by (auto simp: Let_def split: option.splits prod.splits if_splits sum.splits)
  qed (use assms in simp)
qed

lemma body_data_member:
  assumes "body_data fuel env headers body dec code = Some (Inr ds)" "d \<in> set ds"
  shows "\<exists>loc. ir_meta d = newDataMeta loc code \<and> (\<forall>h. loc \<noteq> InHeader h) \<and> (\<forall>a. loc \<noteq> InAuth a)"
proof -
  have "\<exists>st. parseBody fuel env code (header_get headers content_type_key) st = Some (Inr d)"
    using assms by (auto simp: body_data_def Let_def split: if_splits option.splits sum.splits) blast+
  then show ?thesis using parseBody_location by blast
qed

text \<open>The two calls of \<open>finish\<close> in \<open>ParseHTTP\<close>, inverted.\<close>

lemma ParseHTTP_request:
  assumes "ParseHTTP fuel env sha (HTTPRequest t) = Some (Inr (w, k))"
  obtains extra m where
    "body_data fuel env (rq_header t) (rq_body t) (rq_decompressed t) 0 = Some (Inr extra)"
    "data_map env (parseQuery env (rq_url t) @ parseHeader env (rq_header t) None
        @ parseCookies env (rq_cookies t) None @ extra) fmempty = Some m"
    "w = Some \<lparr>im_args = Some m, im_responses = None, im_meta = Some (parseMethodMeta t)\<rparr>"
    "k = ToWitnessID sha (rq_stream t) (rq_seq t)"
  using assms by (auto simp: ParseHTTP_def parseRequest_def split: option.splits sum.splits)

lemma ParseHTTP_response:
  assumes "ParseHTTP fuel env sha (HTTPResponse t) = Some (Inr (w, k))"
  obtains extra m where
    "body_data fuel env (rs_header t) (rs_body t) (rs_decompressed t) (rs_status t) = Some (Inr extra)"
    "data_map env (parseHeader env (rs_header t) (Some (rs_status t))
        @ parseCookies env (rs_cookies t) (Some (rs_status t)) @ extra) fmempty = Some m"
    "w = Some \<lparr>im_args = None, im_responses = Some m, im_meta = Some UnknownHTTPMethodMeta\<rparr>"
    "k = ToWitnessID sha (rs_stream t) (rs_seq t)"
  using assms by (auto simp: ParseHTTP_def parseResponse_def split: option.splits sum.splits)

definition located :: "'p ir_data \<Rightarrow> location option" where
  "located d = map_option hm_location (ir_meta d)"

lemma located_newDataMeta [simp]: "located (IrData v (newDataMeta loc code)) = Some loc"
  by (simp add: located_def newDataMeta_def)

lemma parseHeader_member:
  assumes "d \<in> set (parseHeader env header code)"
  obtains k vs where "d \<in> set (header_data env code k vs)"
  using assms by (auto simp: parseHeader_def)

section \<open>Properties\<close>

text \<open>
  \<open>ParseHTTP\<close> returns on every message. When the parts of a multipart body are shorter than the body,
  there is a nesting depth from which on the answer is the same for every greater one.
\<close>

lemma ParseHTTP_terminates:
  assumes "parts_shorter env"
  shows "\<exists>fuel r. \<forall>fuel' \<ge> fuel. ParseHTTP fuel' env sha elem = Some r"
proof -
  have body: "\<exists>fuel r. \<forall>fuel' \<ge> fuel. body_data fuel' env headers raw dec code = Some r" for headers raw dec code
  proof -
    let ?ct = "header_get headers content_type_key"
    have parse: "\<exists>fuel r. \<forall>fuel' \<ge> fuel. parseBody fuel' env code ?ct st = Some r" for st
    proof -
      obtain r where "parseBody (Suc (length (fst st))) env code ?ct st = Some r"
        using parseBody_returns [OF assms, of st "Suc (length (fst st))" code ?ct] by fastforce
      then show ?thesis using parseBody_more by blast
    qed
    show ?thesis
    proof (cases "raw = []")
      case False
      show ?thesis
      proof (cases "decodeBody env headers (raw, False) dec")
        case (Inr st)
        obtain f1 r1 where 1: "\<forall>fuel' \<ge> f1. parseBody fuel' env code ?ct st = Some r1" using parse by blast
        show ?thesis
        proof (cases "attemptDecompress env raw")
          case (Inl e)
          with 1 Inr False show ?thesis
            by (intro exI [of _ f1]) (cases r1; simp add: body_data_def Let_def)
        next
          case fb: (Inr fb)
          obtain f2 r2 where 2: "\<forall>fuel' \<ge> f2. parseBody fuel' env code ?ct fb = Some r2" using parse by blast
          with 1 Inr fb False show ?thesis
            by (intro exI [of _ "max f1 f2"]) (cases r1; cases r2; simp add: body_data_def Let_def)
        qed
      qed (use False in \<open>simp add: body_data_def\<close>)
    qed (simp add: body_data_def)
  qed
  show ?thesis
  proof (cases elem)
    case (HTTPRequest t)
    obtain f r where "\<forall>fuel' \<ge> f. body_data fuel' env (rq_header t) (rq_body t) (rq_decompressed t) 0 = Some r"
      using body by blast
    then show ?thesis
      by (intro exI [of _ f]) (cases r; auto simp: HTTPRequest ParseHTTP_def Let_def parseRequest_def split: option.split)
  next
    case (HTTPResponse t)
    obtain f r where "\<forall>fuel' \<ge> f. body_data fuel' env (rs_header t) (rs_body t) (rs_decompressed t) (rs_status t) = Some r"
      using body by blast
    then show ?thesis
      by (intro exI [of _ f]) (cases r; auto simp: HTTPResponse ParseHTTP_def Let_def split: option.split)
  qed (auto simp: ParseHTTP_def)
qed

text \<open>A concrete environment: nothing is decoded, there are no parts, and a primitive is its text.\<close>

definition plain_env :: "string http_env" where
  "plain_env =
     \<lparr>he_categorize = id, he_number = GString, he_to_primitive = (\<lambda>v _. case v of GString s \<Rightarrow> Some s | _ \<Rightarrow> None),
      he_obfuscate = (\<lambda>_. ''secret''),
      he_hash = (\<lambda>d. case located d of Some (InHeader k) \<Rightarrow> k | Some (InCookie k) \<Rightarrow> CHR ''c'' # k
                      | Some (InAuth _) \<Rightarrow> ''auth'' | _ \<Rightarrow> ''other''),
      he_gunzip = Some, he_inflate = id, he_brotli = id,
      he_media_type = (\<lambda>s. Some (s, fmempty)), he_charset = (\<lambda>_. None),
      he_multipart = (\<lambda>_ _. ([], False)), he_json = (\<lambda>_. None), he_yaml = (\<lambda>_. None), he_form = (\<lambda>_. None)\<rparr>"

lemma ParseHTTP_terminates_witness:
  "\<exists>fuel r. \<forall>fuel' \<ge> fuel. ParseHTTP fuel' plain_env id (HTTPRequest (sample_request ''a'' 1)) = Some r"
  by (rule ParseHTTP_terminates) (simp add: parts_shorter_def plain_env_def)

definition secret_safe :: "'p http_env \<Rightarrow> 'p ir_data \<Rightarrow> bool" where
  "secret_safe env d \<longleftrightarrow>
     (\<forall>a. located d = Some (InAuth a) \<longrightarrow>
        (\<exists>token. ir_value d = Some (IrPrimitive (he_obfuscate env (he_categorize env token)))))
     \<and> (\<forall>h. located d = Some (InHeader h) \<longrightarrow>
        to_lower h \<notin> {''authorization'', ''cookie'', ''set-cookie'', ''content-type''})"

lemma secret_safe_header:
  assumes "d \<in> set (parseHeader env header None)"
  shows "secret_safe env d"
proof -
  obtain k vs where "d \<in> set (header_data env None k vs)" using parseHeader_member [OF assms] .
  then show ?thesis
    by (cases rule: header_data_cases)
      (auto simp: secret_safe_def auth_data_def Let_def split: if_splits)
qed

lemma secret_safe_located:
  "\<exists>loc. ir_meta d = newDataMeta loc code \<and> (\<forall>h. loc \<noteq> InHeader h) \<and> (\<forall>a. loc \<noteq> InAuth a) \<Longrightarrow> secret_safe env d"
  by (auto simp: secret_safe_def located_def newDataMeta_def)

lemma secret_safe_query: "d \<in> set (parseQuery env url) \<Longrightarrow> secret_safe env d"
  by (auto simp: parseQuery_def secret_safe_def split: option.splits list.splits)

lemma secret_safe_cookies: "d \<in> set (parseCookies env cs code) \<Longrightarrow> secret_safe env d"
  by (auto simp: parseCookies_def secret_safe_def)


definition login_request :: http_request where
  "login_request = (sample_request ''a'' 1)\<lparr>rq_header := fmupd ''Authorization'' [''Basic xyz''] fmempty\<rparr>"


text \<open>
  What a response becomes. Its witness has responses and no arguments, an unknown method to be filled
  in from the request, and the same pair key as the request of the same stream and sequence number.
\<close>

lemma response_witness_right:
  assumes "ParseHTTP fuel env sha (HTTPResponse t) = Some (Inr (w, k))"
    "ParseHTTP fuel env sha (HTTPRequest q) = Some (Inr (w', k'))"
    "exchange_key (HTTPResponse t) = exchange_key (HTTPRequest q)"
  shows "k = k' \<and> (\<exists>responses. w = Some \<lparr>im_args = None, im_responses = Some responses, im_meta = Some UnknownHTTPMethodMeta\<rparr>
    \<and> (\<forall>h d. fmlookup responses h = Some d \<longrightarrow> h = he_hash env d))"
proof -
  from assms(1) obtain extra m where m: "data_map env (parseHeader env (rs_header t) (Some (rs_status t))
        @ parseCookies env (rs_cookies t) (Some (rs_status t)) @ extra) fmempty = Some m"
    and w: "w = Some \<lparr>im_args = None, im_responses = Some m, im_meta = Some UnknownHTTPMethodMeta\<rparr>"
      "k = ToWitnessID sha (rs_stream t) (rs_seq t)"
    by (rule ParseHTTP_response)
  from assms(2) have "k' = ToWitnessID sha (rq_stream q) (rq_seq q)"
    by (rule ParseHTTP_request)
  moreover have "h = he_hash env d" if "fmlookup m h = Some d" for h d
    using data_map_keys [OF m that] by auto
  ultimately show ?thesis using w assms(3) by auto
qed

lemma response_witness_right_witness:
  "\<exists>w k w' k'. ParseHTTP 1 plain_env id (HTTPResponse (sample_response ''a'' 1)) = Some (Inr (w, k))
     \<and> ParseHTTP 1 plain_env id (HTTPRequest (sample_request ''a'' 1)) = Some (Inr (w', k')) \<and> k = k'"
proof -
  have "\<exists>w k. ParseHTTP 1 plain_env id (HTTPResponse (sample_response ''a'' 1)) = Some (Inr (w, k))"
    "\<exists>w k. ParseHTTP 1 plain_env id (HTTPRequest (sample_request ''a'' 1)) = Some (Inr (w, k))"
    by (simp_all add: ParseHTTP_def parseRequest_def parseResponse_def body_data_def sample_request_def sample_response_def
        parseQuery_def parseCookies_def parseHeader_def Let_def)
  then obtain w k w' k' where "ParseHTTP 1 plain_env id (HTTPResponse (sample_response ''a'' 1)) = Some (Inr (w, k))"
    "ParseHTTP 1 plain_env id (HTTPRequest (sample_request ''a'' 1)) = Some (Inr (w', k'))" by blast
  moreover from response_witness_right [OF this] have "k = k'" by simp
  ultimately show ?thesis by blast
qed

end
