(* ===== verification/Backend_Collector.thy ===== *)
theory Backend_Collector
  imports Parse_Http Collectors
begin

text \<open>
  trace/backend_collector.go and trace/obfuscate.go: HTTP messages are parsed into partial witnesses, a
  request and its response are paired by their witness id and merged, values are obfuscated, and the
  result is handed to the upload batch. Parsing is the interface \<open>message_parser\<close>, provided by
  \<open>Parse_Http.ParseHTTP\<close>. The batch (akita-libs' batcher) is the sequence of reports handed to it.
\<close>

section \<open>The parser interface\<close>

type_synonym ('p, 'id) parser = "content \<Rightarrow> parse_error + 'p witness \<times> 'id"

locale message_parser =
  fixes parse :: "('p, 'id) parser"
  assumes parse_request: "parse (HTTPRequest q) = Inr (w, k) \<Longrightarrow>
      \<exists>args. w = Some \<lparr>im_args = Some args, im_responses = None, im_meta = Some (parseMethodMeta q)\<rparr>"
    and parse_response: "parse (HTTPResponse t) = Inr (w, k) \<Longrightarrow>
      \<exists>responses. w = Some \<lparr>im_args = None, im_responses = Some responses, im_meta = Some UnknownHTTPMethodMeta\<rparr>"
    and parse_key: "parse (HTTPRequest q) = Inr (w, k) \<Longrightarrow> parse (HTTPResponse t) = Inr (w', k') \<Longrightarrow>
      exchange_key (HTTPRequest q) = exchange_key (HTTPResponse t) \<Longrightarrow> k = k'"
begin

text \<open>Merging a request and its response, in either order, gives the same witness.\<close>

lemma merge_commutes:
  assumes "parse (HTTPRequest q) = Inr (w, k)" "parse (HTTPResponse t) = Inr (w', k')" "rq_method q \<noteq> []"
  shows "MergeWitness w w' = MergeWitness w' w
    \<and> MergeWitness w w' = Some \<lparr>im_args = im_args (the w), im_responses = im_responses (the w'), im_meta = im_meta (the w)\<rparr>"
proof -
  obtain args where w: "w = Some \<lparr>im_args = Some args, im_responses = None, im_meta = Some (parseMethodMeta q)\<rparr>"
    using parse_request [OF assms(1)] by blast
  obtain responses where w': "w' = Some \<lparr>im_args = None, im_responses = Some responses, im_meta = Some UnknownHTTPMethodMeta\<rparr>"
    using parse_response [OF assms(2)] by blast
  show ?thesis
    using assms(3) by (simp add: w w' MergeWitness_def UnknownHTTPMethodMeta_def parseMethodMeta_def)
qed

end

definition http_parser :: "nat \<Rightarrow> 'p http_env \<Rightarrow> (string \<Rightarrow> 'id) \<Rightarrow> ('p, 'id) parser" where
  "http_parser fuel env sha elem = (case ParseHTTP fuel env sha elem of Some r \<Rightarrow> r | None \<Rightarrow> Inl NotHTTP)"

interpretation http: message_parser "http_parser fuel env sha" for fuel env sha
proof unfold_locales
  fix q w k
  assume "http_parser fuel env sha (HTTPRequest q) = Inr (w, k)"
  then have "ParseHTTP fuel env sha (HTTPRequest q) = Some (Inr (w, k))"
    by (simp add: http_parser_def split: option.splits)
  then show "\<exists>args. w = Some \<lparr>im_args = Some args, im_responses = None, im_meta = Some (parseMethodMeta q)\<rparr>"
    by (rule ParseHTTP_request) blast
next
  fix t w k
  assume "http_parser fuel env sha (HTTPResponse t) = Inr (w, k)"
  then have "ParseHTTP fuel env sha (HTTPResponse t) = Some (Inr (w, k))"
    by (simp add: http_parser_def split: option.splits)
  then show "\<exists>responses. w = Some \<lparr>im_args = None, im_responses = Some responses, im_meta = Some UnknownHTTPMethodMeta\<rparr>"
    by (rule ParseHTTP_response) blast
next
  fix q w k t w' k'
  assume "http_parser fuel env sha (HTTPRequest q) = Inr (w, k)" "http_parser fuel env sha (HTTPResponse t) = Inr (w', k')"
    and key: "exchange_key (HTTPRequest q) = exchange_key (HTTPResponse t)"
  then have "ParseHTTP fuel env sha (HTTPRequest q) = Some (Inr (w, k))"
    "ParseHTTP fuel env sha (HTTPResponse t) = Some (Inr (w', k'))"
    by (simp_all add: http_parser_def split: option.splits)
  then have "k = ToWitnessID sha (rq_stream q) (rq_seq q)" "k' = ToWitnessID sha (rs_stream t) (rs_seq t)"
    by (blast elim: ParseHTTP_request, blast elim: ParseHTTP_response)
  with key show "k = k'" by simp
qed

section \<open>Obfuscation\<close>

text \<open>
  \<open>obfuscationVisitor\<close> on every datum of a method: a primitive is replaced by its obfuscated value, or the
  datum loses its value when the primitive cannot be read (\<open>obf\<close> gives \<open>None\<close>). The traversal of the
  method is akita-libs' visitor, which visits the data of arguments and responses at every depth.
\<close>

primrec obfuscate_data :: "('p \<Rightarrow> 'p option) \<Rightarrow> 'p ir_data \<Rightarrow> 'p ir_data"
  and obfuscate_value :: "('p \<Rightarrow> 'p option) \<Rightarrow> 'p ir_value \<Rightarrow> 'p ir_value option" where
  "obfuscate_data obf (IrData v m) =
     IrData (case map_option (obfuscate_value obf) v of Some r \<Rightarrow> r | None \<Rightarrow> None) m"
| "obfuscate_value obf (IrPrimitive p) = map_option IrPrimitive (obf p)"
| "obfuscate_value obf (IrStruct flds) = Some (IrStruct (fmmap (obfuscate_data obf) flds))"
| "obfuscate_value obf (IrList ds) = Some (IrList (map (obfuscate_data obf) ds))"
| "obfuscate_value obf IrNone = Some IrNone"

definition obfuscate :: "('p \<Rightarrow> 'p option) \<Rightarrow> 'p witness \<Rightarrow> 'p witness" where
  "obfuscate obf w =
     map_option (\<lambda>m. m\<lparr>im_args := map_option (fmmap (obfuscate_data obf)) (im_args m),
                       im_responses := map_option (fmmap (obfuscate_data obf)) (im_responses m)\<rparr>) w"

section \<open>State\<close>

record ('p, 'id) witness_info =
  wi_interface :: string
  wi_src_ip :: ip
  wi_src_port :: u16
  wi_dst_ip :: ip
  wi_dst_port :: u16
  wi_observation :: instant
  wi_id :: 'id
  wi_request_end :: instant
  wi_response_start :: instant
  wi_witness :: "'p witness"

record tcp_connection_report =
  cr_id :: conn_id
  cr_src_ip :: ip
  cr_src_port :: u16
  cr_dst_ip :: ip
  cr_dst_port :: u16
  cr_first :: instant
  cr_last :: instant
  cr_initiator_known :: bool
  cr_end :: tcp_end_state

datatype ('p, 'id) raw_report =
    WitnessReport "('p, 'id) witness_info"
  | TCPReport tcp_connection_report
  | TLSHandshakeReport tls_handshake

record ('p, 'id) backend =
  bk_cache :: "('id, ('p, 'id) witness_info) fmap"
  bk_batch :: "('p, 'id) raw_report list"
  bk_session :: string
  bk_flush_done :: bool

definition NewBackendCollector :: "string \<Rightarrow> ('p, 'id) backend" where
  "NewBackendCollector session = \<lparr>bk_cache = fmempty, bk_batch = [], bk_session = session, bk_flush_done = False\<rparr>"

definition SwitchLearnSession :: "string \<Rightarrow> ('p, 'id) backend \<Rightarrow> ('p, 'id) backend" where
  "SwitchLearnSession session c = c\<lparr>bk_session := session\<rparr>"

definition getLearnSession :: "('p, 'id) backend \<Rightarrow> string" where
  "getLearnSession c = bk_session c"

section \<open>Operations\<close>

definition recordTimestamp :: "bool \<Rightarrow> traffic \<Rightarrow> ('p, 'id) witness_info \<Rightarrow> ('p, 'id) witness_info" where
  "recordTimestamp isRequest t w =
     (if isRequest then w\<lparr>wi_request_end := final_packet_time t\<rparr>
      else w\<lparr>wi_response_start := observation_time t\<rparr>)"

definition microseconds :: "duration \<Rightarrow> int" where
  "microseconds d = (if 0 \<le> d then d div 1000 else - ((- d) div 1000))"

definition set_latency :: "int \<Rightarrow> 'p witness \<Rightarrow> 'p witness" where
  "set_latency us w =
     map_option (\<lambda>m. m\<lparr>im_meta := map_option (\<lambda>meta. meta\<lparr>mm_latency_us := us\<rparr>) (im_meta m)\<rparr>) w"

definition computeProcessingLatency :: "bool \<Rightarrow> traffic \<Rightarrow> ('p, 'id) witness_info \<Rightarrow> ('p, 'id) witness_info" where
  "computeProcessingLatency isRequest t w =
     (let requestEnd = (if isRequest then final_packet_time t else wi_request_end w);
          responseStart = (if isRequest then wi_response_start w else observation_time t)
      in if is_zero requestEnd \<or> is_zero responseStart then w
         else w\<lparr>wi_witness := set_latency (microseconds (responseStart - requestEnd)) (wi_witness w)\<rparr>)"

type_synonym 'p plugin = "'p witness \<Rightarrow> 'p witness option"

fun run_plugins :: "'p plugin list \<Rightarrow> 'p witness \<Rightarrow> 'p witness option" where
  "run_plugins [] w = Some w"
| "run_plugins (p # ps) w = (case p w of None \<Rightarrow> None | Some w' \<Rightarrow> run_plugins ps w')"

text \<open>What an upload of \<open>w\<close> hands to the batch: nothing when a plugin fails.\<close>

definition upload_report ::
  "'p plugin list \<Rightarrow> ('p \<Rightarrow> 'p option) \<Rightarrow> ('p, 'id) witness_info \<Rightarrow> ('p, 'id) raw_report list" where
  "upload_report plugins obf w =
     (case run_plugins plugins (wi_witness w) of
        None \<Rightarrow> []
      | Some m \<Rightarrow> [WitnessReport (w\<lparr>wi_witness := obfuscate obf m\<rparr>)])"

definition queueUpload ::
  "'p plugin list \<Rightarrow> ('p \<Rightarrow> 'p option) \<Rightarrow> ('p, 'id) witness_info \<Rightarrow> ('p, 'id) backend \<Rightarrow> ('p, 'id) backend" where
  "queueUpload plugins obf w c = c\<lparr>bk_batch := bk_batch c @ upload_report plugins obf w\<rparr>"

definition swap_ends :: "('p, 'id) witness_info \<Rightarrow> ('p, 'id) witness_info" where
  "swap_ends w = w\<lparr>wi_src_ip := wi_dst_ip w, wi_dst_ip := wi_src_ip w,
                   wi_src_port := wi_dst_port w, wi_dst_port := wi_src_port w\<rparr>"

definition new_witness_info :: "traffic \<Rightarrow> 'p witness \<Rightarrow> 'id \<Rightarrow> ('p, 'id) witness_info" where
  "new_witness_info t w k =
     \<lparr>wi_interface = interface_name t,
      wi_src_ip = src_ip t, wi_src_port = word_of_int (src_port t),
      wi_dst_ip = dst_ip t, wi_dst_port = word_of_int (dst_port t),
      wi_observation = observation_time t, wi_id = k,
      wi_request_end = 0, wi_response_start = 0, wi_witness = w\<rparr>"

definition merge_pair :: "bool \<Rightarrow> traffic \<Rightarrow> 'p witness \<Rightarrow> ('p, 'id) witness_info \<Rightarrow> ('p, 'id) witness_info" where
  "merge_pair isRequest t partial pair =
     (let pair = pair\<lparr>wi_witness := MergeWitness (wi_witness pair) partial\<rparr>;
          pair = computeProcessingLatency isRequest t pair
      in if isRequest then swap_ends pair else pair)"

definition process_message ::
  "'p plugin list \<Rightarrow> ('p \<Rightarrow> 'p option) \<Rightarrow> bool \<Rightarrow> traffic \<Rightarrow> parse_error + 'p witness \<times> 'id
     \<Rightarrow> ('p, 'id) backend \<Rightarrow> ('p, 'id) backend"
where
  "process_message plugins obf isRequest t parsed c =
     (case parsed of
        Inl _ \<Rightarrow> c
      | Inr (partial, k) \<Rightarrow>
          (case fmlookup (bk_cache c) k of
             Some pair \<Rightarrow>
               queueUpload plugins obf (merge_pair isRequest t partial pair)
                 (c\<lparr>bk_cache := fmdrop k (bk_cache c)\<rparr>)
           | None \<Rightarrow>
               c\<lparr>bk_cache := fmupd k (recordTimestamp isRequest t (new_witness_info t partial k)) (bk_cache c)\<rparr>))"

definition processTCPConnection :: "traffic \<Rightarrow> tcp_connection \<Rightarrow> ('p, 'id) backend \<Rightarrow> ('p, 'id) backend" where
  "processTCPConnection t tcp c =
     (let (srcAddr, srcPort, dstAddr, dstPort) =
            (if tc_initiator tcp = DestInitiator then (dst_ip t, dst_port t, src_ip t, src_port t)
             else (src_ip t, src_port t, dst_ip t, dst_port t))
      in c\<lparr>bk_batch := bk_batch c @ [TCPReport
           \<lparr>cr_id = tc_conn tcp, cr_src_ip = srcAddr, cr_src_port = word_of_int srcPort,
            cr_dst_ip = dstAddr, cr_dst_port = word_of_int dstPort,
            cr_first = observation_time t, cr_last = final_packet_time t,
            cr_initiator_known = (tc_initiator tcp \<noteq> UnknownInitiator), cr_end = tc_end tcp\<rparr>]\<rparr>)"

definition processTLSHandshake :: "tls_handshake \<Rightarrow> ('p, 'id) backend \<Rightarrow> ('p, 'id) backend" where
  "processTLSHandshake tls c = c\<lparr>bk_batch := bk_batch c @ [TLSHandshakeReport tls]\<rparr>"

definition backend_process ::
  "('p, 'id) parser \<Rightarrow> 'p plugin list \<Rightarrow> ('p \<Rightarrow> 'p option) \<Rightarrow> (('p, 'id) backend, 'e) downstream"
where
  "backend_process parse plugins obf t c =
     (case content t of
        HTTPRequest q \<Rightarrow> process_message plugins obf True t (parse (HTTPRequest q)) c
      | HTTPResponse q \<Rightarrow> process_message plugins obf False t (parse (HTTPResponse q)) c
      | TCPConnectionMetadata tcp \<Rightarrow> processTCPConnection t tcp c
      | TLSHandshakeMetadata tls \<Rightarrow> processTLSHandshake tls c
      | _ \<Rightarrow> c,
      None)"

text \<open>\<open>flushPairCache\<close> visits the cache in some order; \<open>periodicFlush\<close> calls it with a minute-old cutoff.\<close>

definition flush_entry ::
  "'p plugin list \<Rightarrow> ('p \<Rightarrow> 'p option) \<Rightarrow> instant \<Rightarrow> 'id \<Rightarrow> ('p, 'id) backend \<Rightarrow> ('p, 'id) backend" where
  "flush_entry plugins obf cutoffTime k c =
     (case fmlookup (bk_cache c) k of
        None \<Rightarrow> c
      | Some e \<Rightarrow>
          if wi_observation e < cutoffTime
          then (queueUpload plugins obf e c)\<lparr>bk_cache := fmdrop k (bk_cache c)\<rparr>
          else c)"

definition flushPairCache ::
  "'p plugin list \<Rightarrow> ('p \<Rightarrow> 'p option) \<Rightarrow> instant \<Rightarrow> 'id list \<Rightarrow> ('p, 'id) backend \<Rightarrow> ('p, 'id) backend" where
  "flushPairCache plugins obf cutoffTime order c = fold (flush_entry plugins obf cutoffTime) order c"

definition pairCacheExpiration :: duration where "pairCacheExpiration = minutes 1"

definition periodic_flush ::
  "'p plugin list \<Rightarrow> ('p \<Rightarrow> 'p option) \<Rightarrow> instant \<Rightarrow> 'id list \<Rightarrow> ('p, 'id) backend \<Rightarrow> ('p, 'id) backend" where
  "periodic_flush plugins obf now order c =
     (if bk_flush_done c then c else flushPairCache plugins obf (now - pairCacheExpiration) order c)"

definition backend_close ::
  "'p plugin list \<Rightarrow> ('p \<Rightarrow> 'p option) \<Rightarrow> instant \<Rightarrow> 'id list \<Rightarrow> (('p, 'id) backend, 'e) closer" where
  "backend_close plugins obf now order c =
     (flushPairCache plugins obf now order (c\<lparr>bk_flush_done := True\<rparr>), None)"

section \<open>Runs\<close>

text \<open>The collector's life between creation and \<open>Close\<close>: packets, and ticks of \<open>periodicFlush\<close>.\<close>

datatype 'id bk_event = Message traffic | FlushTick instant "'id list"

fun bk_step ::
  "('p, 'id) parser \<Rightarrow> 'p plugin list \<Rightarrow> ('p \<Rightarrow> 'p option) \<Rightarrow> 'id bk_event \<Rightarrow> ('p, 'id) backend \<Rightarrow> ('p, 'id) backend"
where
  "bk_step parse plugins obf (Message t) c =
     fst (backend_process parse plugins obf t c :: ('p, 'id) backend \<times> unit option)"
| "bk_step parse plugins obf (FlushTick now order) c = periodic_flush plugins obf now order c"

abbreviation bk_run where
  "bk_run parse plugins obf evs c \<equiv> fold (bk_step parse plugins obf) evs c"

definition message_key :: "('p, 'id) parser \<Rightarrow> traffic \<Rightarrow> 'id option" where
  "message_key parse t =
     (if is_request (content t) \<or> is_response (content t)
      then (case parse (content t) of Inl _ \<Rightarrow> None | Inr (_, k) \<Rightarrow> Some k)
      else None)"

definition report_of :: "'id \<Rightarrow> ('p, 'id) raw_report \<Rightarrow> bool" where
  "report_of k raw \<longleftrightarrow> (case raw of WitnessReport w \<Rightarrow> wi_id w = k | _ \<Rightarrow> False)"

text \<open>Every entry of the cache is stored under its own id.\<close>

definition bk_inv :: "('p, 'id) backend \<Rightarrow> bool" where
  "bk_inv c \<longleftrightarrow> (\<forall>k w. fmlookup (bk_cache c) k = Some w \<longrightarrow> wi_id w = k) \<and> \<not> bk_flush_done c"

lemma wi_simps [simp]:
  "wi_id (merge_pair r t p w) = wi_id w"
  "wi_id (recordTimestamp r t w) = wi_id w"
  "wi_id (new_witness_info t v k) = k"
  "wi_observation (recordTimestamp r t w) = wi_observation w"
  "wi_observation (new_witness_info t v k) = observation_time t"
  "wi_witness (recordTimestamp r t w) = wi_witness w"
  "wi_witness (new_witness_info t v k) = v"
  by (auto simp: merge_pair_def computeProcessingLatency_def swap_ends_def recordTimestamp_def
      new_witness_info_def Let_def)

lemma upload_report_of:
  "raw \<in> set (upload_report plugins obf w) \<Longrightarrow> report_of k raw \<longleftrightarrow> wi_id w = k"
  by (auto simp: upload_report_def report_of_def split: option.splits)

lemma filter_upload_report [simp]:
  "filter (report_of k) (upload_report plugins obf w) = (if wi_id w = k then upload_report plugins obf w else [])"
  by (auto simp: filter_id_conv filter_empty_conv upload_report_of)

lemma queueUpload_simps [simp]:
  "bk_cache (queueUpload plugins obf w c) = bk_cache c"
  "bk_flush_done (queueUpload plugins obf w c) = bk_flush_done c"
  "bk_batch (queueUpload plugins obf w c) = bk_batch c @ upload_report plugins obf w"
  by (simp_all add: queueUpload_def)

text \<open>One message, by the key it parses to.\<close>

lemma bk_message_cases:
  obtains (pair) r partial k where "message_key parse t = Some k" "parse (content t) = Inr (partial, k)" "r = is_request (content t)"
      "bk_step parse plugins obf (Message t) c = process_message plugins obf r t (Inr (partial, k)) c"
  | (other) raws where "message_key parse t = None" "\<And>k. filter (report_of k) raws = []"
      "\<forall>w. WitnessReport w \<notin> set raws"
      "bk_step parse plugins obf (Message t) c = c\<lparr>bk_batch := bk_batch c @ raws\<rparr>"
proof (cases "message_key parse t")
  case None
  have "\<exists>raws. (\<forall>k. filter (report_of k) raws = []) \<and> (\<forall>w. WitnessReport w \<notin> set raws)
      \<and> bk_step parse plugins obf (Message t) c = c\<lparr>bk_batch := bk_batch c @ raws\<rparr>"
  proof (cases "content t")
    case (TCPConnectionMetadata tcp)
    then show ?thesis
      by (intro exI [of _ "drop (length (bk_batch c)) (bk_batch (processTCPConnection t tcp c))"])
        (auto simp: backend_process_def processTCPConnection_def report_of_def Let_def)
  next
    case (TLSHandshakeMetadata tls)
    then show ?thesis
      by (intro exI [of _ "[TLSHandshakeReport tls]"])
        (auto simp: backend_process_def processTLSHandshake_def report_of_def)
  qed (use None in \<open>auto simp: message_key_def backend_process_def process_message_def
      split: sum.splits intro!: exI [of _ "[]"]\<close>)
  with None other show ?thesis by blast
next
  case (Some k)
  then obtain partial where "parse (content t) = Inr (partial, k)" "is_request (content t) \<or> is_response (content t)"
    by (auto simp: message_key_def split: if_splits sum.splits)
  with Some pair show ?thesis
    by (cases "content t") (auto simp: backend_process_def)
qed

lemma flush_entry_inv: "bk_inv c \<Longrightarrow> bk_inv (flush_entry plugins obf cutoff k c)"
  by (auto simp: flush_entry_def bk_inv_def split: option.splits if_splits)

lemma flush_fold_inv: "bk_inv c \<Longrightarrow> bk_inv (fold (flush_entry plugins obf cutoff) order c)"
  by (induction order arbitrary: c) (simp_all add: flush_entry_inv)

lemma bk_step_inv [keeps]:
  assumes "bk_inv c"
  shows "bk_inv (bk_step parse plugins obf ev c)"
proof (cases ev)
  case (Message t)
  show ?thesis
    unfolding Message
    by (cases rule: bk_message_cases [of parse t plugins obf c])
      (use assms in \<open>auto simp: process_message_def bk_inv_def split: option.splits if_splits simp del: bk_step.simps\<close>)
next
  case (FlushTick now order)
  with assms show ?thesis by (simp add: periodic_flush_def flushPairCache_def flush_fold_inv)
qed

lemma bk_run_inv: "bk_inv c \<Longrightarrow> bk_inv (bk_run parse plugins obf evs c)"
  by (induction evs arbitrary: c) (simp_all add: bk_step_inv del: bk_step.simps)

lemma bk_inv_new: "bk_inv (NewBackendCollector session)"
  by (simp add: bk_inv_def NewBackendCollector_def)

text \<open>Events that leave the exchange \<open>k\<close> alone, its first message observed at \<open>t0\<close>.\<close>

fun quiet :: "('p, 'id) parser \<Rightarrow> 'id \<Rightarrow> instant \<Rightarrow> 'id bk_event \<Rightarrow> bool" where
  "quiet parse k t0 (Message t) \<longleftrightarrow> message_key parse t \<noteq> Some k"
| "quiet parse k t0 (FlushTick now order) \<longleftrightarrow> now - pairCacheExpiration \<le> t0"

definition entry_at :: "'id \<Rightarrow> instant \<Rightarrow> ('p, 'id) backend \<Rightarrow> bool" where
  "entry_at k t0 c \<longleftrightarrow> (\<forall>w. fmlookup (bk_cache c) k = Some w \<longrightarrow> t0 \<le> wi_observation w)"

lemma flush_fold_frame:
  assumes "bk_inv c" "entry_at k t0 c" "cutoff \<le> t0"
  shows "fmlookup (bk_cache (fold (flush_entry plugins obf cutoff) order c)) k = fmlookup (bk_cache c) k
    \<and> filter (report_of k) (bk_batch (fold (flush_entry plugins obf cutoff) order c)) = filter (report_of k) (bk_batch c)"
  using assms
proof (induction order arbitrary: c)
  case (Cons j order)
  let ?c = "flush_entry plugins obf cutoff j c"
  have step: "fmlookup (bk_cache ?c) k = fmlookup (bk_cache c) k"
    "filter (report_of k) (bk_batch ?c) = filter (report_of k) (bk_batch c)"
    using Cons.prems by (force simp: flush_entry_def entry_at_def bk_inv_def split: option.splits)+
  have "entry_at k t0 ?c" using Cons.prems(2) step(1) by (simp add: entry_at_def)
  then show ?case using Cons.IH [of ?c] Cons.prems step by (simp add: flush_entry_inv)
qed simp

lemma bk_step_frame:
  assumes "bk_inv c" "entry_at k t0 c" "quiet parse k t0 ev"
  shows "fmlookup (bk_cache (bk_step parse plugins obf ev c)) k = fmlookup (bk_cache c) k
    \<and> filter (report_of k) (bk_batch (bk_step parse plugins obf ev c)) = filter (report_of k) (bk_batch c)"
proof (cases ev)
  case (Message t)
  show ?thesis
    unfolding Message
  proof (cases rule: bk_message_cases [of parse t plugins obf c])
    case (pair r partial j)
    have "j \<noteq> k" using pair(1) assms(3) by (auto simp: Message)
    then show "fmlookup (bk_cache (bk_step parse plugins obf (Message t) c)) k = fmlookup (bk_cache c) k \<and>
      filter (report_of k) (bk_batch (bk_step parse plugins obf (Message t) c)) = filter (report_of k) (bk_batch c)"
      unfolding pair(4) using assms(1) by (auto simp: process_message_def bk_inv_def split: option.splits)
  qed (simp del: bk_step.simps)
next
  case (FlushTick now order)
  with assms(3) flush_fold_frame [OF assms(1,2), of "now - pairCacheExpiration" plugins obf order] show ?thesis
    by (auto simp: periodic_flush_def flushPairCache_def)
qed

lemma bk_run_frame:
  assumes "bk_inv c" "entry_at k t0 c" "\<forall>ev \<in> set evs. quiet parse k t0 ev"
  shows "fmlookup (bk_cache (bk_run parse plugins obf evs c)) k = fmlookup (bk_cache c) k
    \<and> filter (report_of k) (bk_batch (bk_run parse plugins obf evs c)) = filter (report_of k) (bk_batch c)"
  using assms
proof (induction evs arbitrary: c)
  case (Cons ev evs)
  let ?c = "bk_step parse plugins obf ev c"
  have step: "fmlookup (bk_cache ?c) k = fmlookup (bk_cache c) k
    \<and> filter (report_of k) (bk_batch ?c) = filter (report_of k) (bk_batch c)"
    using bk_step_frame [OF Cons.prems(1,2), of parse ev plugins obf] Cons.prems(3) by simp
  then have "entry_at k t0 ?c" using Cons.prems(2) by (simp add: entry_at_def)
  then show ?case
    using Cons.IH [of ?c] Cons.prems step bk_step_inv [OF Cons.prems(1)] by (simp del: bk_step.simps)
qed simp

lemma bk_step_store:
  assumes "message_key parse t = Some k" "parse (content t) = Inr (w, k)" "fmlookup (bk_cache c) k = None"
  shows "bk_step parse plugins obf (Message t) c =
    c\<lparr>bk_cache := fmupd k (recordTimestamp (is_request (content t)) t (new_witness_info t w k)) (bk_cache c)\<rparr>"
proof (cases rule: bk_message_cases [of parse t plugins obf c])
  case (pair r partial j)
  with assms show ?thesis by (simp add: process_message_def del: bk_step.simps)
qed (use assms in simp)

lemma bk_step_pair:
  assumes "message_key parse t = Some k" "parse (content t) = Inr (w, k)" "fmlookup (bk_cache c) k = Some e"
  shows "bk_step parse plugins obf (Message t) c =
    queueUpload plugins obf (merge_pair (is_request (content t)) t w e) (c\<lparr>bk_cache := fmdrop k (bk_cache c)\<rparr>)"
proof (cases rule: bk_message_cases [of parse t plugins obf c])
  case (pair r partial j)
  with assms show ?thesis by (simp add: process_message_def del: bk_step.simps)
qed (use assms in simp)

text \<open>Two messages of one exchange, first \<open>a\<close> then \<open>b\<close>, and events between that leave it alone.\<close>

lemma exchange_reported:
  assumes inv: "bk_inv c" and new: "fmlookup (bk_cache c) k = None"
    and a: "message_key parse a = Some k" "parse (content a) = Inr (wa, k)"
    and b: "message_key parse b = Some k" "parse (content b) = Inr (wb, k)"
    and mid: "\<forall>ev \<in> set mid. quiet parse k (observation_time a) ev"
  shows "filter (report_of k) (bk_batch (bk_run parse plugins obf (Message a # mid @ [Message b]) c))
      = filter (report_of k) (bk_batch c)
        @ upload_report plugins obf (merge_pair (is_request (content b)) b wb
            (recordTimestamp (is_request (content a)) a (new_witness_info a wa k)))
    \<and> fmlookup (bk_cache (bk_run parse plugins obf (Message a # mid @ [Message b]) c)) k = None"
proof -
  let ?e = "recordTimestamp (is_request (content a)) a (new_witness_info a wa k)"
  let ?c1 = "bk_step parse plugins obf (Message a) c"
  let ?c2 = "bk_run parse plugins obf mid ?c1"
  have c1: "?c1 = c\<lparr>bk_cache := fmupd k ?e (bk_cache c)\<rparr>" by (rule bk_step_store [OF a new])
  have c1_batch: "bk_batch ?c1 = bk_batch c" unfolding c1 by simp
  have inv1: "bk_inv ?c1" by (rule bk_step_inv [OF inv])
  have "entry_at k (observation_time a) ?c1" unfolding c1 by (simp add: entry_at_def)
  note frame = bk_run_frame [OF inv1 this mid, of plugins obf]
  have entry: "fmlookup (bk_cache ?c2) k = Some ?e" using frame unfolding c1 by simp
  have batch: "filter (report_of k) (bk_batch ?c2) = filter (report_of k) (bk_batch c)"
    using frame c1_batch by metis
  have run: "bk_run parse plugins obf (Message a # mid @ [Message b]) c = bk_step parse plugins obf (Message b) ?c2"
    by (simp del: bk_step.simps)
  show ?thesis
    unfolding run bk_step_pair [OF b entry] by (simp add: batch del: bk_step.simps)
qed

section \<open>Obfuscated witnesses\<close>

lemma obfuscate_primitives:
  fixes d :: "'p ir_data" and v :: "'p ir_value"
  shows "set_ir_data (obfuscate_data obf d) \<subseteq> {q. \<exists>p. obf p = Some q}"
    and "obfuscate_value obf v = Some v' \<Longrightarrow> set_ir_value v' \<subseteq> {q. \<exists>p. obf p = Some q}"
proof (induction d and v arbitrary: and v')
  case (IrData v m)
  then show ?case by (cases v) (auto split: option.splits)
next
  case (IrStruct flds)
  then show ?case by (fastforce simp: fmran'_def)
next
  case (IrList ds)
  then show ?case by fastforce
qed auto

definition witness_primitives :: "'p witness \<Rightarrow> 'p set" where
  "witness_primitives w =
     (case w of None \<Rightarrow> {}
      | Some m \<Rightarrow> (\<Union>ds \<in> set_option (im_args m) \<union> set_option (im_responses m). \<Union>d \<in> fmran' ds. set_ir_data d))"

lemma obfuscate_witness: "witness_primitives (obfuscate obf w) \<subseteq> {q. \<exists>p. obf p = Some q}"
  using obfuscate_primitives(1) [of obf]
  by (cases w) (fastforce simp: witness_primitives_def obfuscate_def)+

definition batch_safe :: "('p \<Rightarrow> 'p option) \<Rightarrow> ('p, 'id) backend \<Rightarrow> bool" where
  "batch_safe obf c \<longleftrightarrow>
     (\<forall>w. WitnessReport w \<in> set (bk_batch c) \<longrightarrow> witness_primitives (wi_witness w) \<subseteq> {q. \<exists>p. obf p = Some q})"

lemma upload_report_safe:
  "WitnessReport w \<in> set (upload_report plugins obf v) \<Longrightarrow> witness_primitives (wi_witness w) \<subseteq> {q. \<exists>p. obf p = Some q}"
  by (auto simp: upload_report_def split: option.splits dest!: subsetD [OF obfuscate_witness])

lemma queueUpload_safe: "batch_safe obf c \<Longrightarrow> batch_safe obf (queueUpload plugins obf w c)"
  by (auto simp: batch_safe_def dest: upload_report_safe)

lemma flush_fold_safe: "batch_safe obf c \<Longrightarrow> batch_safe obf (fold (flush_entry plugins obf cutoff) order c)"
proof (induction order arbitrary: c)
  case (Cons k order)
  have "batch_safe obf (flush_entry plugins obf cutoff k c)"
    using Cons.prems queueUpload_safe [OF Cons.prems]
    by (auto simp: flush_entry_def batch_safe_def split: option.splits)
  then show ?case using Cons.IH by simp
qed simp

lemma bk_step_safe [keeps]: "batch_safe obf c \<Longrightarrow> batch_safe obf (bk_step parse plugins obf ev c)"
proof (cases ev)
  case (Message t)
  assume safe: "batch_safe obf c"
  show ?thesis
    unfolding Message
  proof (cases rule: bk_message_cases [of parse t plugins obf c])
    case (pair r partial k)
    have "batch_safe obf (c\<lparr>bk_cache := m\<rparr>)" for m using safe by (simp add: batch_safe_def)
    then show "batch_safe obf (bk_step parse plugins obf (Message t) c)"
      unfolding pair(4) by (auto simp: process_message_def intro!: queueUpload_safe split: option.split)
  next
    case (other raws)
    then show "batch_safe obf (bk_step parse plugins obf (Message t) c)"
      unfolding other(4) using safe other(3) by (auto simp: batch_safe_def)
  qed
next
  case (FlushTick now order)
  assume "batch_safe obf c"
  with FlushTick show ?thesis by (simp add: periodic_flush_def flushPairCache_def flush_fold_safe)
qed

lemma bk_run_safe: "batch_safe obf c \<Longrightarrow> batch_safe obf (bk_run parse plugins obf evs c)"
  by (induction evs arbitrary: c) (simp_all add: bk_step_safe del: bk_step.simps)

lemma batch_safe_new: "batch_safe obf (NewBackendCollector session)"
  by (simp add: batch_safe_def NewBackendCollector_def)

section \<open>Flushing\<close>

definition older :: "instant \<Rightarrow> ('p, 'id) backend \<Rightarrow> 'id \<Rightarrow> bool" where
  "older cutoff c k \<longleftrightarrow> (case fmlookup (bk_cache c) k of Some e \<Rightarrow> wi_observation e < cutoff | None \<Rightarrow> False)"

lemma flush_fold_exact:
  assumes "distinct order"
  shows "bk_batch (fold (flush_entry plugins obf cutoff) order c) =
      bk_batch c @ concat (map (\<lambda>k. upload_report plugins obf (the (fmlookup (bk_cache c) k))) (filter (older cutoff c) order))
    \<and> (\<forall>k. fmlookup (bk_cache (fold (flush_entry plugins obf cutoff) order c)) k =
        (if k \<in> set order \<and> older cutoff c k then None else fmlookup (bk_cache c) k))"
  using assms
proof (induction order arbitrary: c)
  case (Cons j order)
  let ?c = "flush_entry plugins obf cutoff j c"
  have step: "fmlookup (bk_cache ?c) k = (if k = j \<and> older cutoff c k then None else fmlookup (bk_cache c) k)" for k
    by (auto simp: flush_entry_def older_def split: option.splits)
  have same: "older cutoff ?c k = older cutoff c k" "fmlookup (bk_cache ?c) k = fmlookup (bk_cache c) k"
    if "k \<in> set order" for k
  proof -
    have "k \<noteq> j" using that Cons.prems by auto
    with step [of k] show "older cutoff ?c k = older cutoff c k" "fmlookup (bk_cache ?c) k = fmlookup (bk_cache c) k"
      by (simp_all add: older_def)
  qed
  have f: "filter (older cutoff ?c) order = filter (older cutoff c) order"
    using same(1) by (rule filter_cong [OF refl])
  have u: "map (\<lambda>k. upload_report plugins obf (the (fmlookup (bk_cache ?c) k))) (filter (older cutoff ?c) order)
      = map (\<lambda>k. upload_report plugins obf (the (fmlookup (bk_cache c) k))) (filter (older cutoff c) order)"
    unfolding f by (rule map_cong [OF refl]) (simp add: same(2))
  have j: "bk_batch ?c = bk_batch c @ (if older cutoff c j then upload_report plugins obf (the (fmlookup (bk_cache c) j)) else [])"
    by (auto simp: flush_entry_def older_def split: option.splits)
  have IH: "bk_batch (fold (flush_entry plugins obf cutoff) order ?c) =
      bk_batch ?c @ concat (map (\<lambda>k. upload_report plugins obf (the (fmlookup (bk_cache c) k))) (filter (older cutoff c) order))"
    "fmlookup (bk_cache (fold (flush_entry plugins obf cutoff) order ?c)) k =
      (if k \<in> set order \<and> older cutoff ?c k then None else fmlookup (bk_cache ?c) k)" for k
    using Cons.IH [of ?c] Cons.prems unfolding u by simp_all
  have "fmlookup (bk_cache (fold (flush_entry plugins obf cutoff) (j # order) c)) k =
      (if k \<in> set (j # order) \<and> older cutoff c k then None else fmlookup (bk_cache c) k)" for k
    using IH(2) [of k] same [of k] step [of k] by auto
  with IH(1) j show ?case by simp
qed simp

section \<open>Properties\<close>

text \<open>The witness of an exchange: the request's arguments and method, the response's data, the latency.\<close>

definition exchange_witness :: "traffic \<Rightarrow> traffic \<Rightarrow> 'p witness \<Rightarrow> 'p witness \<Rightarrow> 'p witness" where
  "exchange_witness req resp wq wr =
     Some \<lparr>im_args = im_args (the wq), im_responses = im_responses (the wr),
           im_meta = map_option (\<lambda>m. m\<lparr>mm_latency_us := microseconds (observation_time resp - final_packet_time req)\<rparr>)
                       (im_meta (the wq))\<rparr>"

text \<open>The two orders of an exchange.\<close>

lemma exchange_both_orders:
  fixes parse :: "('p, 'id) parser"
  assumes parse: "parse = http_parser fuel env sha"
    and req: "content req = HTTPRequest q" "parse (content req) = Inr (wq, k)" "rq_method q \<noteq> []"
    and resp: "content resp = HTTPResponse r" "parse (content resp) = Inr (wr, k)"
    and times: "final_packet_time req \<noteq> 0" "observation_time resp \<noteq> 0"
    and pre: "\<forall>t. Message t \<in> set pre \<longrightarrow> message_key parse t \<noteq> Some k"
    and mid: "\<forall>ev \<in> set mid. quiet parse k (observation_time req) ev \<and> quiet parse k (observation_time resp) ev"
  shows "filter (report_of k) (bk_batch (bk_run parse plugins obf (pre @ Message req # mid @ [Message resp]) (NewBackendCollector session)))
      = upload_report plugins obf ((new_witness_info req (exchange_witness req resp wq wr) k)\<lparr>wi_request_end := final_packet_time req\<rparr>)
    \<and> filter (report_of k) (bk_batch (bk_run parse plugins obf (pre @ Message resp # mid @ [Message req]) (NewBackendCollector session)))
      = upload_report plugins obf (swap_ends
          ((new_witness_info resp (exchange_witness req resp wq wr) k)\<lparr>wi_response_start := observation_time resp\<rparr>))"
proof -
  let ?c = "bk_run parse plugins obf pre (NewBackendCollector session)"
  have inv: "bk_inv ?c" by (rule bk_run_inv [OF bk_inv_new])
  have new: "fmlookup (bk_cache ?c) k = None \<and> filter (report_of k) (bk_batch ?c) = []"
    using pre
  proof (induction pre rule: rev_induct)
    case (snoc ev pre)
    let ?c' = "bk_run parse plugins obf pre (NewBackendCollector session)"
    have none: "fmlookup (bk_cache ?c') k = None" "filter (report_of k) (bk_batch ?c') = []" using snoc by simp_all
    have "entry_at k t0 ?c'" for t0 using none(1) by (simp add: entry_at_def)
    moreover obtain t0 where "quiet parse k t0 ev"
    proof (cases ev)
      case (Message t)
      with snoc.prems show ?thesis by (intro that [of 0]) auto
    next
      case (FlushTick now order)
      then show ?thesis by (intro that [of "now - pairCacheExpiration"]) simp
    qed
    ultimately have "fmlookup (bk_cache (bk_step parse plugins obf ev ?c')) k = fmlookup (bk_cache ?c') k
        \<and> filter (report_of k) (bk_batch (bk_step parse plugins obf ev ?c')) = filter (report_of k) (bk_batch ?c')"
      by (intro bk_step_frame [OF bk_run_inv [OF bk_inv_new]])
    with none show ?case by (simp del: bk_step.simps)
  qed (simp add: NewBackendCollector_def)
  have keys: "message_key parse req = Some k" "message_key parse resp = Some k"
    using req resp by (simp_all add: message_key_def)
  obtain args where wq: "wq = Some \<lparr>im_args = Some args, im_responses = None, im_meta = Some (parseMethodMeta q)\<rparr>"
    using http.parse_request [of fuel env sha q wq k] req parse by auto
  obtain responses where wr: "wr = Some \<lparr>im_args = None, im_responses = Some responses, im_meta = Some UnknownHTTPMethodMeta\<rparr>"
    using http.parse_response [of fuel env sha r wr k] resp parse by auto
  have merge: "MergeWitness wq wr = Some \<lparr>im_args = im_args (the wq), im_responses = im_responses (the wr), im_meta = im_meta (the wq)\<rparr>"
    "MergeWitness wr wq = MergeWitness wq wr"
    using req(3) by (simp_all add: wq wr MergeWitness_def UnknownHTTPMethodMeta_def parseMethodMeta_def)
  have first: "merge_pair (is_request (content resp)) resp wr (recordTimestamp (is_request (content req)) req (new_witness_info req wq k))
      = (new_witness_info req (exchange_witness req resp wq wr) k)\<lparr>wi_request_end := final_packet_time req\<rparr>"
    using req(1) resp(1) times
    by (simp add: merge_pair_def computeProcessingLatency_def recordTimestamp_def merge set_latency_def
        exchange_witness_def new_witness_info_def Let_def)
  have second: "merge_pair (is_request (content req)) req wq (recordTimestamp (is_request (content resp)) resp (new_witness_info resp wr k))
      = swap_ends ((new_witness_info resp (exchange_witness req resp wq wr) k)\<lparr>wi_response_start := observation_time resp\<rparr>)"
    using req(1) resp(1) times
    by (simp add: merge_pair_def computeProcessingLatency_def recordTimestamp_def merge set_latency_def
        exchange_witness_def new_witness_info_def swap_ends_def Let_def)
  have "\<forall>ev \<in> set mid. quiet parse k (observation_time req) ev" "\<forall>ev \<in> set mid. quiet parse k (observation_time resp) ev"
    using mid by blast+
  note run = exchange_reported [OF inv conjunct1 [OF new] keys(1) req(2) keys(2) resp(2) this(1), of plugins obf]
    exchange_reported [OF inv conjunct1 [OF new] keys(2) resp(2) keys(1) req(2) this(2), of plugins obf]
  show ?thesis
    using run new unfolding first second fold_append comp_def by (simp del: fold_simps bk_step.simps)
qed

text \<open>
  C1: an exchange is reported once, and alike in both orders. Wherever in a capture the request and the
  response of an exchange are observed, with any other messages and prompt flushes between them, exactly
  one witness report about the exchange is handed to the batch (none if a plugin rejects it). Its witness
  has the request's arguments and method, the response's data and the latency from the request's last to
  the response's first packet, whichever of the two came first; the endpoints are the client's and the
  server's in both cases: the source and destination of the request, or the destination and source of
  the response.
\<close>

lemma exchange_reported_once:
  fixes parse :: "('p, 'id) parser"
  assumes parse: "parse = http_parser fuel env sha"
    and req: "content req = HTTPRequest q" "parse (content req) = Inr (wq, k)" "rq_method q \<noteq> []"
    and resp: "content resp = HTTPResponse r" "parse (content resp) = Inr (wr, k)"
    and times: "final_packet_time req \<noteq> 0" "observation_time resp \<noteq> 0"
    and pre: "\<forall>t. Message t \<in> set pre \<longrightarrow> message_key parse t \<noteq> Some k"
    and mid: "\<forall>ev \<in> set mid. quiet parse k (observation_time req) ev \<and> quiet parse k (observation_time resp) ev"
  shows "filter (report_of k) (bk_batch (bk_run parse plugins obf (pre @ Message req # mid @ [Message resp]) (NewBackendCollector session)))
      = upload_report plugins obf ((new_witness_info req (exchange_witness req resp wq wr) k)\<lparr>wi_request_end := final_packet_time req\<rparr>)
    \<and> filter (report_of k) (bk_batch (bk_run parse plugins obf (pre @ Message resp # mid @ [Message req]) (NewBackendCollector session)))
      = upload_report plugins obf (swap_ends
          ((new_witness_info resp (exchange_witness req resp wq wr) k)\<lparr>wi_response_start := observation_time resp\<rparr>))"
  using assms by (rule exchange_both_orders)

definition plain_parser :: "(string, string) parser" where
  "plain_parser = http_parser 1 plain_env id"

lemma plain_parser_samples:
  "plain_parser (HTTPRequest (sample_request s n)) =
     Inr (Some \<lparr>im_args = Some fmempty, im_responses = None, im_meta = Some (parseMethodMeta (sample_request s n))\<rparr>, witness_name s n)"
  "plain_parser (HTTPResponse (sample_response s n)) =
     Inr (Some \<lparr>im_args = None, im_responses = Some fmempty, im_meta = Some UnknownHTTPMethodMeta\<rparr>, witness_name s n)"
  by (simp_all add: plain_parser_def http_parser_def ParseHTTP_def parseRequest_def parseResponse_def body_data_def
      sample_request_def sample_response_def parseQuery_def parseCookies_def parseHeader_def ToWitnessID_def Let_def)

lemma exchange_reported_once_witness:
  "length (filter (report_of (witness_name ''a'' 1)) (bk_batch (bk_run plain_parser [] Some
      [Message (sample_traffic (HTTPRequest (sample_request ''a'' 1))), FlushTick 0 [],
       Message (sample_traffic (HTTPResponse (sample_response ''a'' 1)))] (NewBackendCollector ''lrn'')))) = 1"
  using conjunct1 [OF exchange_reported_once [OF plain_parser_def, of "sample_traffic (HTTPRequest (sample_request ''a'' 1))"
      "sample_request ''a'' 1" _ "witness_name ''a'' 1" "sample_traffic (HTTPResponse (sample_response ''a'' 1))" "sample_response ''a'' 1"
      _ "[]" "[FlushTick 0 []]" "[]" Some "''lrn''"]]
  by (simp add: plain_parser_samples pairCacheExpiration_def upload_report_def sample_traffic_def del: bk_step.simps)
    (simp add: sample_request_def)

text \<open>
  C4: nothing leaves the collector in the clear. In every run, closing included, each primitive value in
  each witness handed to the batch is the obfuscation of some value, at any depth of the data.
\<close>

lemma uploads_obfuscated:
  assumes "WitnessReport w \<in> set (bk_batch (fst (backend_close plugins obf now order
      (bk_run parse plugins obf evs (NewBackendCollector session)))))"
    "p \<in> witness_primitives (wi_witness w)"
  shows "\<exists>q. obf q = Some p"
proof -
  have "batch_safe obf ((bk_run parse plugins obf evs (NewBackendCollector session))\<lparr>bk_flush_done := True\<rparr>)"
    using bk_run_safe [OF batch_safe_new, of obf parse plugins evs session] by (simp add: batch_safe_def)
  then have "batch_safe obf (fst (backend_close plugins obf now order (bk_run parse plugins obf evs (NewBackendCollector session))))"
    by (simp add: backend_close_def flushPairCache_def flush_fold_safe)
  with assms show ?thesis unfolding batch_safe_def by blast
qed

text \<open>A message whose one datum is a cookie, for the witness.\<close>

definition cookie_request :: traffic where
  "cookie_request = sample_traffic (HTTPRequest ((sample_request ''a'' 1)\<lparr>rq_cookies := [(''k'', ''v'')]\<rparr>))"

lemma uploads_obfuscated_witness:
  "\<exists>w. WitnessReport w \<in> set (bk_batch (fst (backend_close [] (\<lambda>_. Some ''x'') 5000 [witness_name ''a'' 1]
        (bk_run plain_parser [] (\<lambda>_. Some ''x'') [Message cookie_request] (NewBackendCollector ''lrn'')) :: _ \<times> unit option)))
     \<and> witness_primitives (wi_witness w) = {''x''}"
proof -
  let ?args = "fmupd ''ck'' (IrData (Some (IrPrimitive ''v'')) (newDataMeta (InCookie ''k'') 0)) fmempty"
  let ?w = "Some \<lparr>im_args = Some ?args, im_responses = None, im_meta = Some (parseMethodMeta ((sample_request ''a'' 1)\<lparr>rq_cookies := [(''k'', ''v'')]\<rparr>))\<rparr>"
  have parsed: "plain_parser (HTTPRequest ((sample_request ''a'' 1)\<lparr>rq_cookies := [(''k'', ''v'')]\<rparr>)) = Inr (?w, witness_name ''a'' 1)"
    by (simp add: plain_parser_def http_parser_def ParseHTTP_def parseRequest_def body_data_def
      sample_request_def parseQuery_def parseCookies_def parseHeader_def ToWitnessID_def categorized_def plain_env_def Let_def)
  let ?e = "recordTimestamp True cookie_request (new_witness_info cookie_request ?w (witness_name ''a'' 1))"
  let ?c = "fst (backend_close [] (\<lambda>_. Some ''x'') 5000 [witness_name ''a'' 1]
      (bk_run plain_parser [] (\<lambda>_. Some ''x'') [Message cookie_request] (NewBackendCollector ''lrn'')) :: _ \<times> unit option)"
  let ?u = "?e\<lparr>wi_witness := obfuscate (\<lambda>_. Some ''x'') ?w\<rparr>"
  have mem: "WitnessReport ?u \<in> set (bk_batch ?c)"
    by (simp add: backend_close_def flushPairCache_def flush_entry_def backend_process_def cookie_request_def parsed
      process_message_def NewBackendCollector_def upload_report_def)
  have "''x'' \<in> witness_primitives (wi_witness ?u)"
    by (simp add: witness_primitives_def obfuscate_def fmmap_fmupd) (rule bexI [OF _ fmran'I [of _ "''ck''"]]; simp)
  moreover have "p = ''x''" if "p \<in> witness_primitives (wi_witness ?u)" for p
    using uploads_obfuscated [OF mem that] by simp
  ultimately have "witness_primitives (wi_witness ?u) = {''x''}" by blast
  with mem show ?thesis by blast
qed

text \<open>
  A flush uploads exactly the stale messages. Visiting the cache in any order, it hands to the batch
  each unpaired message observed before the cutoff, once, and forgets exactly those; the others stay.
\<close>

lemma flush_exact:
  assumes "iter_order order (bk_cache c)"
  shows "bk_batch (flushPairCache plugins obf cutoff order c) =
      bk_batch c @ concat (map (\<lambda>k. upload_report plugins obf (the (fmlookup (bk_cache c) k))) (filter (older cutoff c) order))
    \<and> bk_cache (flushPairCache plugins obf cutoff order c) = fmfilter (\<lambda>k. \<not> older cutoff c k) (bk_cache c)"
proof (intro conjI)
  note exact = flush_fold_exact [OF iter_order_distinct [OF assms], of plugins obf cutoff c]
  show "bk_batch (flushPairCache plugins obf cutoff order c) =
      bk_batch c @ concat (map (\<lambda>k. upload_report plugins obf (the (fmlookup (bk_cache c) k))) (filter (older cutoff c) order))"
    using exact by (simp add: flushPairCache_def)
  have "fmlookup (bk_cache (flushPairCache plugins obf cutoff order c)) k = fmlookup (fmfilter (\<lambda>k. \<not> older cutoff c k) (bk_cache c)) k" for k
    using exact iter_order_mem [OF assms, of k] by (auto simp: flushPairCache_def older_def split: option.splits)
  then show "bk_cache (flushPairCache plugins obf cutoff order c) = fmfilter (\<lambda>k. \<not> older cutoff c k) (bk_cache c)"
    by (rule fmap_ext)
qed

lemma flush_exact_witness:
  "bk_batch (flushPairCache [] Some 50 [] (NewBackendCollector ''lrn'' :: (string, string) backend)) = []"
  using conjunct1 [OF flush_exact [of "[]" "NewBackendCollector ''lrn'' :: (string, string) backend" "[]" Some 50]]
  by (simp add: NewBackendCollector_def iter_order_def)

text \<open>
  The endpoints of an unpaired response are reversed. The source of a report is documented as the HTTP
  client; for a response whose request was not seen, the flushed report has the source of the response
  packet, the server, as its source.
\<close>

lemma unpaired_response_reversed:
  assumes "content t = HTTPResponse r" "parse (content t) = Inr (w, k)" "fmlookup (bk_cache c) k = None"
    "observation_time t < cutoff" "run_plugins plugins w = Some w'"
  shows "\<exists>e. WitnessReport e \<in> set (bk_batch (flushPairCache plugins obf cutoff [k] (bk_step parse plugins obf (Message t) c)))
    \<and> wi_id e = k \<and> wi_src_ip e = src_ip t \<and> wi_src_port e = word_of_int (src_port t)"
proof -
  let ?e = "recordTimestamp False t (new_witness_info t w k)"
  have step: "bk_step parse plugins obf (Message t) c = c\<lparr>bk_cache := fmupd k ?e (bk_cache c)\<rparr>"
    using bk_step_store [of parse t k w c plugins obf] assms(1-3) by (simp add: message_key_def del: bk_step.simps)
  have "WitnessReport (?e\<lparr>wi_witness := obfuscate obf w'\<rparr>)
      \<in> set (bk_batch (flushPairCache plugins obf cutoff [k] (bk_step parse plugins obf (Message t) c)))"
    using assms(4) unfolding step by (simp add: assms(5) flushPairCache_def flush_entry_def upload_report_def)
  then show ?thesis
    by (intro exI conjI) (assumption, simp_all add: recordTimestamp_def new_witness_info_def)
qed

lemma unpaired_response_reversed_witness:
  "\<exists>e. WitnessReport e \<in> set (bk_batch (flushPairCache [] Some 5000 [witness_name ''a'' 1]
      (bk_step plain_parser [] Some (Message (sample_traffic (HTTPResponse (sample_response ''a'' 1)))) (NewBackendCollector ''lrn''))))
    \<and> wi_src_ip e = [10, 0, 0, 1]"
  using unpaired_response_reversed [of "sample_traffic (HTTPResponse (sample_response ''a'' 1))" "sample_response ''a'' 1"
      plain_parser _ "witness_name ''a'' 1" "NewBackendCollector ''lrn''" 5000 "[]" _ Some]
  by (auto simp: plain_parser_samples NewBackendCollector_def sample_traffic_def)

section \<open>The race of flush and process\<close>

text \<open>
  The callback of \<open>Range\<close> uploads an entry and then deletes its key, without a lock over both, while
  \<open>Process\<close> removes an entry before it uploads the pair. \<open>flush_upload\<close> and \<open>flush_delete\<close> are the two
  halves of \<open>flush_entry\<close>.
\<close>

definition flush_upload ::
  "'p plugin list \<Rightarrow> ('p \<Rightarrow> 'p option) \<Rightarrow> instant \<Rightarrow> 'id \<Rightarrow> ('p, 'id) backend \<Rightarrow> ('p, 'id) backend" where
  "flush_upload plugins obf cutoff k c =
     (case fmlookup (bk_cache c) k of
        Some e \<Rightarrow> if wi_observation e < cutoff then queueUpload plugins obf e c else c
      | None \<Rightarrow> c)"

definition flush_delete :: "'id \<Rightarrow> ('p, 'id) backend \<Rightarrow> ('p, 'id) backend" where
  "flush_delete k c = c\<lparr>bk_cache := fmdrop k (bk_cache c)\<rparr>"

lemma flush_halves:
  "older cutoff c k \<Longrightarrow> flush_delete k (flush_upload plugins obf cutoff k c) = flush_entry plugins obf cutoff k c"
  by (auto simp: older_def flush_delete_def flush_upload_def flush_entry_def queueUpload_def split: option.splits)

text \<open>
  A pair that completes during its flush is reported twice. When the second message of an exchange is
  processed between the upload and the deletion of its stale first message, two witness reports with the
  same id are handed to the batch.
\<close>

lemma flush_race_duplicates:
  assumes "older cutoff c k" "bk_inv c" "message_key parse t = Some k" "parse (content t) = Inr (w, k)"
    "filter (report_of k) (bk_batch c) = []" "\<forall>v. run_plugins plugins v \<noteq> None"
  shows "length (filter (report_of k) (bk_batch
      (flush_delete k (bk_step parse plugins obf (Message t) (flush_upload plugins obf cutoff k c))))) = 2"
proof -
  obtain e where e: "fmlookup (bk_cache c) k = Some e" "wi_observation e < cutoff"
    using assms(1) by (auto simp: older_def split: option.splits)
  have "wi_id e = k" using assms(2) e(1) by (simp add: bk_inv_def)
  let ?c = "flush_upload plugins obf cutoff k c"
  have c: "fmlookup (bk_cache ?c) k = Some e" "filter (report_of k) (bk_batch ?c) = upload_report plugins obf e"
    using e assms(5) \<open>wi_id e = k\<close> by (simp_all add: flush_upload_def)
  have one: "length (upload_report plugins obf v) = 1" for v
    using assms(6) by (auto simp: upload_report_def split: option.splits)
  show ?thesis
    unfolding bk_step_pair [OF assms(3,4) c(1)] by (simp add: flush_delete_def c(2) one \<open>wi_id e = k\<close>)
qed

lemma flush_race_duplicates_witness:
  "length (filter (report_of (witness_name ''a'' 1)) (bk_batch (flush_delete (witness_name ''a'' 1)
     (bk_step plain_parser [] Some (Message (sample_traffic (HTTPResponse (sample_response ''a'' 1))))
       (flush_upload [] Some 5000 (witness_name ''a'' 1)
         (bk_step plain_parser [] Some (Message (sample_traffic (HTTPRequest (sample_request ''a'' 1)))) (NewBackendCollector ''lrn''))))))) = 2"
proof -
  let ?q = "sample_traffic (HTTPRequest (sample_request ''a'' 1))" and ?r = "sample_traffic (HTTPResponse (sample_response ''a'' 1))"
  let ?c = "bk_step plain_parser [] Some (Message ?q) (NewBackendCollector ''lrn'')"
  have keys: "message_key plain_parser ?q = Some (witness_name ''a'' 1)" "message_key plain_parser ?r = Some (witness_name ''a'' 1)"
    by (simp_all add: message_key_def plain_parser_samples)
  have "older 5000 ?c (witness_name ''a'' 1)" "filter (report_of (witness_name ''a'' 1)) (bk_batch ?c) = []"
    by (simp_all add: backend_process_def plain_parser_samples process_message_def NewBackendCollector_def older_def)
  with bk_step_inv [OF bk_inv_new] keys(2) show ?thesis
    by (intro flush_race_duplicates) (auto simp: plain_parser_samples simp del: bk_step.simps)
qed

end
