(* ===== verification/Report_Buffer.thy ===== *)
theory Report_Buffer
  imports Backend_Collector Tls_Tracker
begin

text \<open>
  trace/report_buffer.go and \<open>witnessWithInfo.toReport\<close>: reports are converted for upload, oversized
  witnesses are dropped and counted, and a full or flushed buffer is uploaded. The upload request is
  akita-libs' class with its three lists; its size, the hash and the protobuf encoding of a witness and
  the back end's upload call are parameters. The batcher (akita-libs) calls \<open>Add\<close> for each report in
  turn and \<open>Flush\<close> when the buffer is full, periodically and on closing.
\<close>

section \<open>Base64, URL alphabet (\<open>base64.URLEncoding\<close>)\<close>

definition b64_alphabet :: string where
  "b64_alphabet = ''ABCDEFGHIJKLMNOPQRSTUVWXYZabcdefghijklmnopqrstuvwxyz0123456789-_''"

definition b64_char :: "nat \<Rightarrow> char" where
  "b64_char i = b64_alphabet ! i"

fun b64_encode :: "byte list \<Rightarrow> string" where
  "b64_encode [] = []"
| "b64_encode [a] =
     (let n = unat a * 65536 in [b64_char (n div 262144), b64_char (n div 4096 mod 64), CHR ''='', CHR ''=''])"
| "b64_encode [a, b] =
     (let n = unat a * 65536 + unat b * 256
      in [b64_char (n div 262144), b64_char (n div 4096 mod 64), b64_char (n div 64 mod 64), CHR ''=''])"
| "b64_encode (a # b # c # rest) =
     (let n = unat a * 65536 + unat b * 256 + unat c
      in [b64_char (n div 262144), b64_char (n div 4096 mod 64), b64_char (n div 64 mod 64), b64_char (n mod 64)]
         @ b64_encode rest)"

lemma length_b64_encode: "length (b64_encode bs) = 4 * ((length bs + 2) div 3)"
proof (induction bs rule: b64_encode.induct)
  case (4 a b c rest)
  have "(length rest + 2 + 3) div 3 = (length rest + 2) div 3 + 1" by (rule div_add_self2) simp
  with 4 show ?case by (simp add: Let_def add.commute)
qed (simp_all add: Let_def)

section \<open>Reports\<close>

record 'id witness_report =
  wr_origin_addr :: ip
  wr_origin_port :: u16
  wr_destination_addr :: ip
  wr_destination_port :: u16
  wr_proto :: string
  wr_time :: instant
  wr_hash :: string
  wr_id :: 'id

record 'p codec =
  cd_hash :: "'p witness \<Rightarrow> string"
  cd_marshal :: "'p witness \<Rightarrow> byte list option"

definition toReport :: "'p codec \<Rightarrow> ('p, 'id) witness_info \<Rightarrow> 'id witness_report option" where
  "toReport cd r =
     (case cd_marshal cd (wi_witness r) of
        None \<Rightarrow> None
      | Some b \<Rightarrow> Some
          \<lparr>wr_origin_addr = wi_src_ip r, wr_origin_port = wi_src_port r,
           wr_destination_addr = wi_dst_ip r, wr_destination_port = wi_dst_port r,
           wr_proto = b64_encode b, wr_time = wi_observation r,
           wr_hash = cd_hash cd (wi_witness r), wr_id = wi_id r\<rparr>)"

record 'id upload_request =
  ur_witnesses :: "'id witness_report list"
  ur_tcp :: "tcp_connection_report list"
  ur_tls :: "tls_handshake list"

definition empty_request :: "'id upload_request" where
  "empty_request = \<lparr>ur_witnesses = [], ur_tcp = [], ur_tls = []\<rparr>"

section \<open>The buffer\<close>

record ('id, 'c) report_buffer =
  rb_request :: "'id upload_request"
  rb_counts :: 'c
  rb_max_size :: int
  rb_max_witness :: "int option"

definition newReportBuffer :: "'c \<Rightarrow> int \<Rightarrow> int option \<Rightarrow> ('id, 'c) report_buffer" where
  "newReportBuffer packetCounts maxSize maxWitnessSize =
     \<lparr>rb_request = empty_request, rb_counts = packetCounts, rb_max_size = maxSize, rb_max_witness = maxWitnessSize\<rparr>"

definition uploadBatchMaxSize_bytes :: int where "uploadBatchMaxSize_bytes = 60000000"

definition isFull :: "('id upload_request \<Rightarrow> int) \<Rightarrow> ('id, 'c) report_buffer \<Rightarrow> bool" where
  "isFull sizeInBytes buf \<longleftrightarrow> rb_max_size buf \<le> sizeInBytes (rb_request buf)"

definition oversized :: "('id, 'c) report_buffer \<Rightarrow> 'id witness_report \<Rightarrow> bool" where
  "oversized buf r \<longleftrightarrow> (case rb_max_witness buf of Some maxSize \<Rightarrow> maxSize < int (length (wr_proto r)) | None \<Rightarrow> False)"

definition oversized_counts :: "('p, 'id) witness_info \<Rightarrow> packet_counts" where
  "oversized_counts w =
     zero_counts\<lparr>pc_interface := wi_interface w, pc_src_port := uint (wi_src_port w),
       pc_dst_port := uint (wi_dst_port w), pc_oversized := 1\<rparr>"

definition buffer_Add ::
  "'p codec \<Rightarrow> ('id upload_request \<Rightarrow> int) \<Rightarrow> (packet_counts \<Rightarrow> 'c \<Rightarrow> 'c) \<Rightarrow> ('p, 'id) raw_report
     \<Rightarrow> ('id, 'c) report_buffer \<Rightarrow> ('id, 'c) report_buffer \<times> bool"
where
  "buffer_Add cd sizeInBytes update raw buf =
     (let buf =
        (case raw of
           WitnessReport w \<Rightarrow>
             (case toReport cd w of
                None \<Rightarrow> buf
              | Some r \<Rightarrow>
                  if oversized buf r then buf\<lparr>rb_counts := update (oversized_counts w) (rb_counts buf)\<rparr>
                  else buf\<lparr>rb_request := (rb_request buf)\<lparr>ur_witnesses := ur_witnesses (rb_request buf) @ [r]\<rparr>\<rparr>)
         | TCPReport r \<Rightarrow> buf\<lparr>rb_request := (rb_request buf)\<lparr>ur_tcp := ur_tcp (rb_request buf) @ [r]\<rparr>\<rparr>
         | TLSHandshakeReport r \<Rightarrow> buf\<lparr>rb_request := (rb_request buf)\<lparr>ur_tls := ur_tls (rb_request buf) @ [r]\<rparr>\<rparr>)
      in (buf, isFull sizeInBytes buf))"

text \<open>
  \<open>Flush\<close>: \<open>upload\<close> is \<open>learnClient.AsyncReportsUpload\<close>, on the state \<open>'n\<close> of the back end. An error is
  only logged; the buffer is emptied in any case.
\<close>

definition buffer_Flush ::
  "('id upload_request \<Rightarrow> 'n \<Rightarrow> 'n \<times> 'err option) \<Rightarrow> ('id, 'c) report_buffer \<times> 'n \<Rightarrow> (('id, 'c) report_buffer \<times> 'n) \<times> 'err option"
where
  "buffer_Flush upload bn =
     (case bn of (buf, n) \<Rightarrow>
        if rb_request buf = empty_request then ((buf, n), None)
        else case upload (rb_request buf) n of (n', _) \<Rightarrow> ((buf\<lparr>rb_request := empty_request\<rparr>, n'), None))"

section \<open>The batcher's calls\<close>

datatype ('p, 'id) batch_call = AddCall "('p, 'id) raw_report" | FlushCall

fun batch_step ::
  "'p codec \<Rightarrow> ('id upload_request \<Rightarrow> int) \<Rightarrow> (packet_counts \<Rightarrow> 'c \<Rightarrow> 'c) \<Rightarrow> ('id upload_request \<Rightarrow> 'n \<Rightarrow> 'n \<times> unit option)
     \<Rightarrow> ('p, 'id) batch_call \<Rightarrow> ('id, 'c) report_buffer \<times> 'n \<Rightarrow> ('id, 'c) report_buffer \<times> 'n"
where
  "batch_step cd sizeInBytes update upload (AddCall raw) (buf, n) = (fst (buffer_Add cd sizeInBytes update raw buf), n)"
| "batch_step cd sizeInBytes update upload FlushCall (buf, n) = fst (buffer_Flush upload (buf, n))"

text \<open>What a report contributes to the uploads, and to the counts.\<close>

fun witness_part :: "'p codec \<Rightarrow> int option \<Rightarrow> ('p, 'id) batch_call \<Rightarrow> 'id witness_report list" where
  "witness_part cd mx (AddCall (WitnessReport w)) =
     (case toReport cd w of
        None \<Rightarrow> []
      | Some r \<Rightarrow> if mx \<noteq> None \<and> the mx < int (length (wr_proto r)) then [] else [r])"
| "witness_part cd mx _ = []"

fun tcp_part :: "('p, 'id) batch_call \<Rightarrow> tcp_connection_report list" where
  "tcp_part (AddCall (TCPReport r)) = [r]"
| "tcp_part _ = []"

fun tls_part :: "('p, 'id) batch_call \<Rightarrow> tls_handshake list" where
  "tls_part (AddCall (TLSHandshakeReport r)) = [r]"
| "tls_part _ = []"

fun count_part :: "'p codec \<Rightarrow> int option \<Rightarrow> ('p, 'id) batch_call \<Rightarrow> packet_counts list" where
  "count_part cd mx (AddCall (WitnessReport w)) =
     (case toReport cd w of
        None \<Rightarrow> []
      | Some r \<Rightarrow> if mx \<noteq> None \<and> the mx < int (length (wr_proto r)) then [oversized_counts w] else [])"
| "count_part cd mx _ = []"

text \<open>A back end that records the requests it accepts, and fails when told to.\<close>

definition recording_upload :: "'id upload_request \<Rightarrow> 'id upload_request list \<Rightarrow> 'id upload_request list \<times> unit option" where
  "recording_upload req sent = (sent @ [req], None)"

lemma batch_step_limits [simp]:
  "rb_max_witness (fst (batch_step cd sz update up call bn)) = rb_max_witness (fst bn)"
  by (cases bn; cases call)
    (auto simp: buffer_Add_def buffer_Flush_def Let_def split: raw_report.splits option.splits prod.splits)

lemma batch_fold_limits [simp]:
  "rb_max_witness (fst (fold (batch_step cd sz update up) calls bn)) = rb_max_witness (fst bn)"
  by (induction calls arbitrary: bn) simp_all

definition delivered :: "('id upload_request \<Rightarrow> 'a list) \<Rightarrow> ('id, 'c) report_buffer \<times> 'id upload_request list \<Rightarrow> 'a list" where
  "delivered part bn = concat (map part (snd bn)) @ part (rb_request (fst bn))"

lemma batch_step_delivered:
  fixes bn :: "('id, 'c) report_buffer \<times> 'id upload_request list"
  shows "delivered ur_witnesses (batch_step cd sz update recording_upload call bn)
      = delivered ur_witnesses bn @ witness_part cd (rb_max_witness (fst bn)) call"
    and "delivered ur_tcp (batch_step cd sz update recording_upload call bn) = delivered ur_tcp bn @ tcp_part call"
    and "delivered ur_tls (batch_step cd sz update recording_upload call bn) = delivered ur_tls bn @ tls_part call"
proof -
  obtain buf sent where bn: "bn = (buf, sent)" by (cases bn)
  show "delivered ur_witnesses (batch_step cd sz update recording_upload call bn)
      = delivered ur_witnesses bn @ witness_part cd (rb_max_witness (fst bn)) call"
    by (cases call) (auto simp: bn delivered_def buffer_Add_def buffer_Flush_def recording_upload_def empty_request_def
        oversized_def Let_def split: raw_report.splits option.splits)
  show "delivered ur_tcp (batch_step cd sz update recording_upload call bn) = delivered ur_tcp bn @ tcp_part call"
    by (cases call) (auto simp: bn delivered_def buffer_Add_def buffer_Flush_def recording_upload_def empty_request_def
        Let_def split: raw_report.splits option.splits)
  show "delivered ur_tls (batch_step cd sz update recording_upload call bn) = delivered ur_tls bn @ tls_part call"
    by (cases call) (auto simp: bn delivered_def buffer_Add_def buffer_Flush_def recording_upload_def empty_request_def
        Let_def split: raw_report.splits option.splits)
qed

lemma batch_fold_delivered:
  fixes bn :: "('id, 'c) report_buffer \<times> 'id upload_request list"
  shows "delivered ur_witnesses (fold (batch_step cd sz update recording_upload) calls bn) = delivered ur_witnesses bn @ concat (map (witness_part cd (rb_max_witness (fst bn))) calls)"
    and "delivered ur_tcp (fold (batch_step cd sz update recording_upload) calls bn) = delivered ur_tcp bn @ concat (map tcp_part calls)"
    and "delivered ur_tls (fold (batch_step cd sz update recording_upload) calls bn) = delivered ur_tls bn @ concat (map tls_part calls)"
  by (induction calls rule: rev_induct) (simp_all add: batch_step_delivered)

lemma batch_step_counts:
  "rb_counts (fst (batch_step cd sz update up call bn)) =
     fold update (count_part cd (rb_max_witness (fst bn)) call) (rb_counts (fst bn))"
  by (cases bn; cases call)
    (auto simp: buffer_Add_def buffer_Flush_def oversized_def Let_def split: raw_report.splits option.splits prod.splits)

lemma batch_fold_counts:
  "rb_counts (fst (fold (batch_step cd sz update up) calls bn)) =
     fold update (concat (map (count_part cd (rb_max_witness (fst bn))) calls)) (rb_counts (fst bn))"
  by (induction calls rule: rev_induct) (simp_all add: batch_step_counts)

lemma flush_empties: "rb_request (fst (fst (buffer_Flush up bn))) = empty_request \<and> snd (buffer_Flush up bn) = None"
  by (cases bn) (simp add: buffer_Flush_def split: prod.splits)

section \<open>Properties\<close>


text \<open>
  Dropped witnesses are counted. With a packet counter behind the buffer, its total of oversized
  witnesses is the number of witnesses dropped for their size.
\<close>

lemma oversized_counted:
  assumes "adds_counts add"
  shows "pc_oversized (ps_total (rb_counts (fst (fold (batch_step cd sz (Update add) up) calls
      (newReportBuffer NewPacketCounter maxSize limit, n)))))
    = int (length (concat (map (count_part cd limit) calls)))"
proof -
  have oversize: "pc_oversized (ps_total (fold (Update add) cs NewPacketCounter)) = sum_list (map pc_oversized cs)" for cs
    using packet_counter.total_counter [OF assms, of pc_oversized cs NewPacketCounter]
    by (simp add: counters_def NewPacketCounter_def zero_counts_def)
  have one: "pc_oversized c = 1" if "c \<in> set (count_part cd limit call)" for c call
    using that by (cases "(cd, limit, call)" rule: count_part.cases)
      (auto simp: oversized_counts_def split: option.splits if_splits)
  have ones: "sum_list (map f cs) = int (length cs)" if "\<forall>c \<in> set cs. f c = 1" for cs :: "packet_counts list" and f
    using that by (induction cs) simp_all
  have "sum_list (map pc_oversized (concat (map (count_part cd limit) calls)))
      = int (length (concat (map (count_part cd limit) calls)))"
    by (rule ones) (auto dest: one)
  then show ?thesis by (simp add: batch_fold_counts oversize newReportBuffer_def)
qed

definition sample_codec :: "string codec" where
  "sample_codec = \<lparr>cd_hash = (\<lambda>_. ''h''), cd_marshal = (\<lambda>_. Some [1, 2, 3, 4])\<rparr>"

lemma oversized_counted_witness:
  "pc_oversized (ps_total (rb_counts (fst (fold (batch_step sample_codec (\<lambda>_. 0) (Update sum_counts) recording_upload)
      [AddCall (WitnessReport (new_witness_info (sample_traffic HTTP2ConnectionPreface) None ''k''))]
      (newReportBuffer NewPacketCounter 10 (Some 7), []))))) = 1"
  by (subst oversized_counted [OF adds_counts_sum_counts])
    (simp add: sample_codec_def toReport_def length_b64_encode)

text \<open>
  A failed upload loses its reports. Whatever the back end answers, \<open>Flush\<close> reports success and leaves
  the buffer empty, so a request that failed is not sent again.
\<close>

lemma failed_upload_lost:
  assumes "upload (rb_request buf) n = (n', Some err)" "rb_request buf \<noteq> empty_request"
  shows "buffer_Flush upload (buf, n) = ((buf\<lparr>rb_request := empty_request\<rparr>, n'), None)"
  using assms by (simp add: buffer_Flush_def)

lemma failed_upload_lost_witness:
  "buffer_Flush (\<lambda>_ n. (n + 1, Some ''timeout''))
     ((newReportBuffer () 10 None)\<lparr>rb_request := (empty_request :: string upload_request)\<lparr>ur_tls := [empty_handshake ''c'']\<rparr>\<rparr>, 0 :: int)
   = (((newReportBuffer () 10 None)\<lparr>rb_request := empty_request\<rparr>, 1), None)"
  by (subst failed_upload_lost [where n' = 1 and err = "''timeout''"]) (simp_all add: empty_request_def)

end
