(* ===== verification/Ecs_Api.thy ===== *)
theory Ecs_Api
  imports Prelude
begin

text \<open>
  The AWS calls of the "add to ECS" workflow: \<open>cmd/internal/ecs/aws_api.go\<close>,
  \<open>aws_api_names.go\<close> and \<open>aws_api_secret.go\<close>. The AWS SDK and the terminal prompts are
  third-party code: they are the functions of the record \<open>aws_env\<close>, each of which may look at
  and change a world of arbitrary type, so that a definition says what the code does for every
  sequence of answers. The workflow record carries that world, and a log of the AWS changes,
  prompts and telemetry steps the code made, which the properties are about.
\<close>

section \<open>Errors\<close>

type_synonym arn = string

text \<open>
  \<open>New_Error\<close> is a fresh \<open>errors.New\<close> or \<open>fmt.Errorf\<close> value and so never identical to one of the
  sentinels before it. \<open>Aws_Error\<close> is an error of the SDK: the error code, if there is a
  \<open>smithy.APIError\<close> in its chain, and the service and operation, if there is an
  \<open>smithy.OperationError\<close>.
\<close>

datatype ecs_error =
    NoSuchProfileError
  | NoSuchClusterError
  | NoDeploymentFound
  | InterruptErr
  | SharedConfigProfileNotExist
  | UnauthorizedOperationError (uoe_ServiceID: string) (uoe_OperationName: string) (uoe_ARN: arn)
  | UsageError string
  | New_Error string
  | Wrapped ecs_error string
  | Aws_Error "string option" "(string \<times> string) option"

text \<open>\<open>errors.Is\<close> and the three uses of \<open>errors.As\<close> follow the chain of wrapped errors.\<close>

fun errors_Is :: "ecs_error \<Rightarrow> ecs_error \<Rightarrow> bool" where
  "errors_Is (Wrapped e m) t \<longleftrightarrow> Wrapped e m = t \<or> errors_Is e t"
| "errors_Is e t \<longleftrightarrow> e = t"

fun as_unauthorized :: "ecs_error \<Rightarrow> ecs_error option" where
  "as_unauthorized (Wrapped e m) = as_unauthorized e"
| "as_unauthorized (UnauthorizedOperationError s opn a) = Some (UnauthorizedOperationError s opn a)"
| "as_unauthorized e = None"

fun as_api_code :: "ecs_error \<Rightarrow> string option" where
  "as_api_code (Wrapped e m) = as_api_code e"
| "as_api_code (Aws_Error c opn) = c"
| "as_api_code e = None"

fun as_operation :: "ecs_error \<Rightarrow> (string \<times> string) option" where
  "as_operation (Wrapped e m) = as_operation e"
| "as_operation (Aws_Error c opn) = opn"
| "as_operation e = None"

definition isUnauthorized :: "ecs_error \<Rightarrow> ecs_error option" where
  "isUnauthorized err =
     (case as_api_code err of
        None \<Rightarrow> None
      | Some code \<Rightarrow>
          (case as_operation err of
             None \<Rightarrow> None
           | Some (service, operation) \<Rightarrow>
               if code = ''UnauthorizedOperation'' \<or> code = ''AccessDeniedException''
                  \<or> code = ''UnrecognizedClientException''
               then Some (UnauthorizedOperationError service operation '''')
               else None))"

definition isUnauthorizedFor :: "ecs_error \<Rightarrow> arn \<Rightarrow> ecs_error option" where
  "isUnauthorizedFor err a =
     (case isUnauthorized err of
        Some e \<Rightarrow> Some (UnauthorizedOperationError (uoe_ServiceID e) (uoe_OperationName e) a)
      | None \<Rightarrow> None)"

definition wrapUnauthorized :: "ecs_error \<Rightarrow> ecs_error" where
  "wrapUnauthorized err = (case isUnauthorized err of Some uoe \<Rightarrow> uoe | None \<Rightarrow> err)"

definition wrapUnauthorizedFor :: "ecs_error \<Rightarrow> arn \<Rightarrow> ecs_error" where
  "wrapUnauthorizedFor err a = (case isUnauthorizedFor err a of Some uoe \<Rightarrow> uoe | None \<Rightarrow> err)"

lemma isUnauthorized_is: "isUnauthorized err = Some e \<Longrightarrow> \<exists>s opn. e = UnauthorizedOperationError s opn ''''"
  by (auto simp: isUnauthorized_def split: option.splits prod.splits if_splits)

section \<open>Data of the AWS SDK\<close>

text \<open>
  Pointers to strings are optional values and \<open>aws.ToString\<close> reads a missing one as the empty
  string. Parts of the SDK's structures that the code only copies are kept as an \<open>aws_blob\<close>.
\<close>

datatype aws_blob = No_Blob | Aws_Blob string

definition ToString :: "string option \<Rightarrow> string" where
  "ToString p = (case p of Some s \<Rightarrow> s | None \<Rightarrow> '''')"

lemma ToString_simps [simp]: "ToString (Some s) = s" "ToString None = ''''"
  by (simp_all add: ToString_def)

type_synonym aws_tag = "string option \<times> string option"

record aws_config =
  cfg_Region :: string
  cfg_Credentials :: aws_blob

record aws_container =
  c_Name :: "string option"
  c_EntryPoint :: "string list"
  c_Environment :: "(string option \<times> string option) list"
  c_Essential :: "bool option"
  c_Image :: "string option"
  c_MemoryReservation :: "int option"
  c_Others :: aws_blob

record task_definition =
  td_ContainerDefinitions :: "aws_container list"
  td_Family :: "string option"
  td_Cpu :: "string option"
  td_EphemeralStorage :: aws_blob
  td_ExecutionRoleArn :: "string option"
  td_InferenceAccelerators :: aws_blob
  td_IpcMode :: string
  td_Memory :: "string option"
  td_NetworkMode :: string
  td_PidMode :: string
  td_PlacementConstraints :: aws_blob
  td_ProxyConfiguration :: aws_blob
  td_RequiresCompatibilities :: "string list"
  td_RuntimePlatform :: aws_blob
  td_TaskRoleArn :: "string option"
  td_Volumes :: aws_blob
  td_TaskDefinitionArn :: "string option"
  td_Revision :: int

text \<open>\<open>ecs.RegisterTaskDefinitionInput\<close>.\<close>

record register_input =
  in_ContainerDefinitions :: "aws_container list"
  in_Family :: "string option"
  in_Cpu :: "string option"
  in_EphemeralStorage :: aws_blob
  in_ExecutionRoleArn :: "string option"
  in_InferenceAccelerators :: aws_blob
  in_IpcMode :: string
  in_Memory :: "string option"
  in_NetworkMode :: string
  in_PidMode :: string
  in_PlacementConstraints :: aws_blob
  in_ProxyConfiguration :: aws_blob
  in_RequiresCompatibilities :: "string list"
  in_RuntimePlatform :: aws_blob
  in_Tags :: "aws_tag list"
  in_TaskRoleArn :: "string option"
  in_Volumes :: aws_blob

record aws_deployment =
  dp_Id :: "string option"
  dp_TaskDefinition :: "string option"
  dp_RolloutState :: string

record aws_service =
  sv_ServiceArn :: "string option"
  sv_ServiceName :: "string option"
  sv_TaskDefinition :: "string option"
  sv_Deployments :: "aws_deployment list"

record aws_cluster =
  cl_ClusterArn :: "string option"
  cl_ClusterName :: "string option"

record aws_secret =
  se_Name :: "string option"
  se_ARN :: "string option"

abbreviation (input) zero_deployment :: aws_deployment where
  "zero_deployment \<equiv> \<lparr>dp_Id = None, dp_TaskDefinition = None, dp_RolloutState = ''''\<rparr>"

record secretState =
  idExists :: bool
  idARN :: arn
  secretExists :: bool
  secretARN :: arn

section \<open>The world outside\<close>

text \<open>
  What the workflow calls. A \<open>List\<close> call yields the results of the paginator's \<open>NextPage\<close>
  calls, in order, as long as \<open>HasMorePages\<close>; the code stops at the first error. \<open>Range\<close> is the
  order in which Go visits a map, \<open>CredsGetString\<close> is viper's lookup in the credentials file and
  \<open>FormatFloat\<close> is \<open>strconv.FormatFloat(f, 'f', -1, 64)\<close>.
\<close>

record 'w aws_env =
  IsTerminal :: "'w \<Rightarrow> bool"
  AskInput :: "string \<Rightarrow> string \<Rightarrow> 'w \<Rightarrow> (ecs_error + string) \<times> 'w"
  AskSelect :: "string \<Rightarrow> string list \<Rightarrow> string \<Rightarrow> 'w \<Rightarrow> (ecs_error + string) \<times> 'w"
  AskConfirm :: "string \<Rightarrow> 'w \<Rightarrow> (ecs_error + bool) \<times> 'w"
  WrapErr :: "ecs_error option \<Rightarrow> string \<Rightarrow> ecs_error option"
  Range :: "(arn, string) fmap \<Rightarrow> 'w \<Rightarrow> arn list \<times> 'w"
  Now :: "'w \<Rightarrow> instant \<times> 'w"
  NewTicker :: "duration \<Rightarrow> 'w \<Rightarrow> unit \<times> 'w"
  Tick :: "'w \<Rightarrow> instant \<times> 'w"
  FormatFloat :: "rat \<Rightarrow> string"
  CredsGetString :: "string \<Rightarrow> string"
  DefaultSharedConfigFilename :: string
  DefaultSharedCredentialsFilename :: string
  LoadSharedConfigProfile ::
    "string \<Rightarrow> string list \<Rightarrow> string list \<Rightarrow> 'w \<Rightarrow> (ecs_error + string) \<times> 'w"
  LoadDefaultConfig ::
    "string \<Rightarrow> string list \<Rightarrow> string list \<Rightarrow> 'w \<Rightarrow> (ecs_error + aws_config) \<times> 'w"
  DescribeRegions :: "aws_config \<Rightarrow> 'w \<Rightarrow> (ecs_error + string option list) \<times> 'w"
  ListClusters :: "aws_config option \<Rightarrow> 'w \<Rightarrow> (ecs_error + arn list) list \<times> 'w"
  DescribeClusters :: "aws_config option \<Rightarrow> arn list \<Rightarrow> 'w \<Rightarrow> (ecs_error + aws_cluster list) \<times> 'w"
  ListTaskDefinitionFamilies :: "aws_config option \<Rightarrow> 'w \<Rightarrow> (ecs_error + string list) list \<times> 'w"
  DescribeTaskDefinition ::
    "aws_config option \<Rightarrow> string \<Rightarrow> 'w \<Rightarrow> (ecs_error + task_definition \<times> aws_tag list) \<times> 'w"
  ListServices :: "aws_config option \<Rightarrow> arn \<Rightarrow> 'w \<Rightarrow> (ecs_error + arn list) list \<times> 'w"
  DescribeServices ::
    "aws_config option \<Rightarrow> arn \<Rightarrow> arn list \<Rightarrow> 'w \<Rightarrow> (ecs_error + aws_service list) \<times> 'w"
  RegisterTaskDefinition ::
    "aws_config option \<Rightarrow> register_input \<Rightarrow> 'w \<Rightarrow> (ecs_error + task_definition \<times> aws_tag list) \<times> 'w"
  UpdateService :: "aws_config option \<Rightarrow> arn \<Rightarrow> arn \<Rightarrow> arn \<Rightarrow> 'w \<Rightarrow> ecs_error option \<times> 'w"
  TagResource :: "aws_config option \<Rightarrow> arn \<Rightarrow> aws_tag list \<Rightarrow> 'w \<Rightarrow> ecs_error option \<times> 'w"
  ListSecrets :: "aws_config \<Rightarrow> string list \<Rightarrow> 'w \<Rightarrow> (ecs_error + aws_secret list) \<times> 'w"
  CreateSecret ::
    "aws_config \<Rightarrow> string \<Rightarrow> string \<Rightarrow> string \<Rightarrow> aws_tag list \<Rightarrow> 'w \<Rightarrow> (ecs_error + string option) \<times> 'w"

text \<open>The log of what a run did: telemetry, prompts, and the calls that change AWS.\<close>

datatype ecs_event =
    Step string
  | Telemetry_Error string
  | Telemetry_Success string
  | Confirmed bool
  | Registered register_input "ecs_error + task_definition"
  | Updated arn arn arn bool
  | Tagged arn "aws_tag list"
  | Secret_Created string string

text \<open>\<open>AddWorkflow\<close>; \<open>currentState\<close> is the argument of the step function.\<close>

record 'w add_workflow =
  awsProfile :: string
  awsConfig :: aws_config
  awsRegion :: string
  awsRegions :: "string list option"
  ecsClient :: "aws_config option"
  ecsCluster :: string
  ecsClusterARN :: arn
  ecsTaskDefinitionFamily :: string
  ecsTaskDefinitionTags :: "aws_tag list"
  ecsTaskDefinitionARN :: arn
  ecsTaskDefinition :: "task_definition option"
  ecsService :: string
  ecsServiceARN :: arn
  secretsEnabled :: bool
  akitaSecrets :: secretState
  wf_log :: "ecs_event list"
  wf_world :: 'w

definition note_event :: "ecs_event \<Rightarrow> 'w add_workflow \<Rightarrow> 'w add_workflow" where
  "note_event ev aw = aw\<lparr>wf_log := wf_log aw @ [ev]\<rparr>"

abbreviation (input) reportStep :: "string \<Rightarrow> 'w add_workflow \<Rightarrow> 'w add_workflow" where
  "reportStep s \<equiv> note_event (Step s)"

abbreviation (input) telemetry_Error :: "string \<Rightarrow> 'w add_workflow \<Rightarrow> 'w add_workflow" where
  "telemetry_Error s \<equiv> note_event (Telemetry_Error s)"

definition outside :: "('w \<Rightarrow> 'r \<times> 'w) \<Rightarrow> 'w add_workflow \<Rightarrow> 'r \<times> 'w add_workflow" where
  "outside f aw = (let (r, w) = f (wf_world aw) in (r, aw\<lparr>wf_world := w\<rparr>))"

text \<open>The command-line flags of \<open>ecs.go\<close>.\<close>

record ecs_flags =
  projectId :: string
  awsProfileFlag :: string
  awsRegionFlag :: string
  ecsClusterFlag :: string
  ecsServiceFlag :: string
  ecsTaskDefinitionFlag :: string
  awsCredentialsFlag :: string
  dryRunFlag :: bool
  filterFlag :: string
  hostAllowlistFlag :: "string list"
  hostExclusionsFlag :: "string list"
  interfacesFlag :: "string list"
  pathAllowlistFlag :: "string list"
  pathExclusionsFlag :: "string list"
  rateLimitFlag :: rat

section \<open>Configuration and client\<close>

definition createConfig ::
  "'w aws_env \<Rightarrow> ecs_flags \<Rightarrow> 'w add_workflow \<Rightarrow> ecs_error option \<times> 'w add_workflow" where
  "createConfig env fl aw =
     (let configFiles = [DefaultSharedConfigFilename env, ''/aws/config''];
          credentialsFiles = [DefaultSharedCredentialsFilename env, ''/aws/credentials'']
            @ (if awsCredentialsFlag fl \<noteq> '''' then [awsCredentialsFlag fl] else []);
          (shared, aw) = outside (LoadSharedConfigProfile env (awsProfile aw) configFiles credentialsFiles) aw
      in case shared of
           Inl err \<Rightarrow>
             let aw = telemetry_Error ''Load Shared Config Profile'' aw
             in (if err = SharedConfigProfileNotExist then Some NoSuchProfileError else Some err, aw)
         | Inr region \<Rightarrow>
             let aw = aw\<lparr>awsRegion := region\<rparr>;
                 (loaded, aw) = outside (LoadDefaultConfig env (awsProfile aw) configFiles credentialsFiles) aw
             in case loaded of
                  Inl err \<Rightarrow> (Some err, aw)
                | Inr cfg \<Rightarrow> (None, aw\<lparr>awsConfig := cfg\<rparr>))"

definition createClient :: "string \<Rightarrow> 'w add_workflow \<Rightarrow> 'w add_workflow" where
  "createClient region aw =
     (let aw = aw\<lparr>awsConfig := (awsConfig aw)\<lparr>cfg_Region := region\<rparr>\<rparr>
      in aw\<lparr>ecsClient := Some (awsConfig aw)\<rparr>)"

definition createClientWithDefaultRegion :: "'w add_workflow \<Rightarrow> 'w add_workflow" where
  "createClientWithDefaultRegion aw = aw\<lparr>ecsClient := Some (awsConfig aw)\<rparr>"

definition publicAWSRegions :: "string list" where
  "publicAWSRegions =
     [''af-south-1'', ''ap-east-1'', ''ap-northeast-1'', ''ap-northeast-2'', ''ap-northeast-3'',
      ''ap-south-1'', ''ap-southeast-1'', ''ap-southeast-2'', ''ap-southeast-3'', ''ca-central-1'',
      ''eu-central-1'', ''eu-central-1'', ''eu-north-1'', ''eu-south-1'', ''eu-west-1'',
      ''eu-west-2'', ''eu-west-3'', ''me-central-1'', ''me-south-1'', ''sa-east-1'',
      ''us-east-1'', ''us-east-2'', ''us-west-1'', ''us-west-2'']"

text \<open>The deferred \<open>sort.Strings\<close> sorts whichever list is returned.\<close>

definition listAWSRegions :: "'w aws_env \<Rightarrow> 'w add_workflow \<Rightarrow> string list \<times> 'w add_workflow" where
  "listAWSRegions env aw =
     (let aw = (if cfg_Region (awsConfig aw) = ''''
                then aw\<lparr>awsConfig := (awsConfig aw)\<lparr>cfg_Region := ''us-east-1''\<rparr>\<rparr> else aw);
          (out, aw) = outside (DescribeRegions env (awsConfig aw)) aw
      in case out of
           Inl err \<Rightarrow> (sort publicAWSRegions, telemetry_Error ''AWS EC2 DescribeRegions'' aw)
         | Inr regions \<Rightarrow>
             if regions = [] then (sort publicAWSRegions, aw)
             else (sort (map the (filter (\<lambda>r. r \<noteq> None) regions)), aw))"

section \<open>Listing objects by name\<close>

text \<open>
  \<open>ListAWSObjectsByName\<close> with its callbacks as parameters. Its callers' closures keep state (the
  workflow, and for services a cache), so they are functions on a state \<open>'s\<close>.
\<close>

fun collect_pages :: "('s \<Rightarrow> 's) \<Rightarrow> ('l \<Rightarrow> arn list) \<Rightarrow> (ecs_error + 'l) list \<Rightarrow> arn list \<Rightarrow> 's
    \<Rightarrow> (ecs_error + arn list) \<times> 's" where
  "collect_pages report getArns [] arns s = (Inr arns, s)"
| "collect_pages report getArns (Inl err # pages) arns s = (Inl (wrapUnauthorized err), report s)"
| "collect_pages report getArns (Inr out # pages) arns s =
     collect_pages report getArns pages (arns @ getArns out) s"

fun record_names :: "('i \<Rightarrow> arn \<times> string) \<Rightarrow> 'i list \<Rightarrow> (arn, string) fmap \<Rightarrow> (arn, string) fmap" where
  "record_names convert [] ret = ret"
| "record_names convert (c # cs) ret =
     (let (a, name) = convert c
      in record_names convert cs (if a \<noteq> '''' then fmupd a name ret else ret))"

text \<open>
  The loop over \<open>start\<close>, \<open>start + 100\<close>, and so on; \<open>arns[start:end]\<close> is what \<open>take\<close> and \<open>drop\<close>
  leave.
\<close>

function describe_batches ::
  "('s \<Rightarrow> 's) \<Rightarrow> (arn list \<Rightarrow> 's \<Rightarrow> (ecs_error + 'd) \<times> 's) \<Rightarrow> ('d \<Rightarrow> 's \<Rightarrow> 'i list \<times> 's)
    \<Rightarrow> ('i \<Rightarrow> arn \<times> string) \<Rightarrow> arn list \<Rightarrow> nat \<Rightarrow> (arn, string) fmap \<Rightarrow> 's
    \<Rightarrow> (ecs_error + (arn, string) fmap) \<times> 's" where
  "describe_batches report describe extractf convert arns start ret s =
     (if start < length arns then
        let end' = (if start + 100 > length arns then length arns else start + 100);
            (result, s) = describe (take (end' - start) (drop start arns)) s
        in case result of
             Inl err \<Rightarrow> (Inl (wrapUnauthorized err), report s)
           | Inr d \<Rightarrow>
               let (items, s) = extractf d s
               in describe_batches report describe extractf convert arns (start + 100)
                    (record_names convert items ret) s
      else (Inr ret, s))"
  by pat_completeness auto
termination
  by (relation "measure (\<lambda>(report, describe, extractf, convert, arns, start, ret, s). length arns - start)") auto

declare describe_batches.simps [simp del]

definition ListAWSObjectsByName ::
  "(string \<Rightarrow> 's \<Rightarrow> 's) \<Rightarrow> string \<Rightarrow> ('s \<Rightarrow> (ecs_error + 'l) list \<times> 's) \<Rightarrow> ('l \<Rightarrow> arn list)
    \<Rightarrow> (arn list \<Rightarrow> 's \<Rightarrow> (ecs_error + 'd) \<times> 's) \<Rightarrow> ('d \<Rightarrow> 's \<Rightarrow> 'i list \<times> 's)
    \<Rightarrow> ('i \<Rightarrow> arn \<times> string) \<Rightarrow> 's \<Rightarrow> (ecs_error + (arn, string) fmap) \<times> 's" where
  "ListAWSObjectsByName report objectName paginator getArns describe extractf convert s =
     (let (pages, s) = paginator s;
          (listed, s) = collect_pages (report (''AWS ECS List'' @ objectName)) getArns pages [] s
      in case listed of
           Inl err \<Rightarrow> (Inl err, s)
         | Inr arns \<Rightarrow>
             if arns = [] then (Inr fmempty, s)
             else describe_batches (report (''AWS ECS Describe'' @ objectName)) describe extractf convert
                    arns 0 fmempty s)"

definition listECSClusters ::
  "'w aws_env \<Rightarrow> 'w add_workflow \<Rightarrow> (ecs_error + (arn, string) fmap) \<times> 'w add_workflow" where
  "listECSClusters env aw =
     ListAWSObjectsByName telemetry_Error ''Clusters''
       (\<lambda>aw. outside (ListClusters env (ecsClient aw)) aw)
       (\<lambda>out. out)
       (\<lambda>arns aw. outside (DescribeClusters env (ecsClient aw) arns) aw)
       (\<lambda>out aw. (out, aw))
       (\<lambda>t. (ToString (cl_ClusterArn t), ToString (cl_ClusterName t)))
       aw"

text \<open>The name of the first cluster that has one.\<close>

fun first_name :: "aws_cluster list \<Rightarrow> string" where
  "first_name [] = ''''"
| "first_name (c # cs) = (case cl_ClusterName c of Some n \<Rightarrow> n | None \<Rightarrow> first_name cs)"

definition getClusterName ::
  "'w aws_env \<Rightarrow> arn \<Rightarrow> 'w add_workflow \<Rightarrow> (ecs_error + string) \<times> 'w add_workflow" where
  "getClusterName env cluster aw =
     (let (result, aw) = outside (DescribeClusters env (ecsClient aw) [cluster]) aw
      in case result of
           Inl err \<Rightarrow>
             let aw = telemetry_Error ''AWS ECS DescribeClusters'' aw
             in (case isUnauthorizedFor err cluster of
                   Some uoe \<Rightarrow> (Inl uoe, aw)
                 | None \<Rightarrow> (Inl err, aw))
         | Inr clusters \<Rightarrow>
             if clusters = [] then (Inl NoSuchClusterError, aw)
             else (Inr (first_name clusters), aw))"

section \<open>Task definitions\<close>

fun family_pages :: "(ecs_error + string list) list \<Rightarrow> string list \<Rightarrow> 'w add_workflow
    \<Rightarrow> (ecs_error + string list) \<times> 'w add_workflow" where
  "family_pages [] families aw = (Inr families, aw)"
| "family_pages (Inl err # pages) families aw =
     (Inl (wrapUnauthorized err), telemetry_Error ''AWS ECS ListTaskDefinitionFamilies'' aw)"
| "family_pages (Inr fs # pages) families aw = family_pages pages (families @ fs) aw"

definition listECSTaskDefinitionFamilies ::
  "'w aws_env \<Rightarrow> 'w add_workflow \<Rightarrow> (ecs_error + string list) \<times> 'w add_workflow" where
  "listECSTaskDefinitionFamilies env aw =
     (let (pages, aw) = outside (ListTaskDefinitionFamilies env (ecsClient aw)) aw
      in family_pages pages [] aw)"

definition getLatestECSTaskDefinition ::
  "'w aws_env \<Rightarrow> string \<Rightarrow> 'w add_workflow
    \<Rightarrow> (ecs_error + task_definition \<times> aws_tag list) \<times> 'w add_workflow" where
  "getLatestECSTaskDefinition env family aw =
     (let (output, aw) = outside (DescribeTaskDefinition env (ecsClient aw) family) aw
      in case output of
           Inl err \<Rightarrow> (Inl (wrapUnauthorized err), telemetry_Error ''AWS ECS DescribeTaskDefinition'' aw)
         | Inr td \<Rightarrow> (Inr td, aw))"

section \<open>Services\<close>

text \<open>The cache from task definition ARN to family that \<open>taskInFamily\<close> keeps.\<close>

type_synonym family_cache = "(arn, string) fmap"

definition taskInFamily ::
  "'w aws_env \<Rightarrow> arn \<Rightarrow> family_cache \<times> 'w add_workflow \<Rightarrow> bool \<times> family_cache \<times> 'w add_workflow" where
  "taskInFamily env taskARN st =
     (let (arnToFamily, aw) = st
      in case fmlookup arnToFamily taskARN of
           Some family \<Rightarrow> (family = ecsTaskDefinitionFamily aw, arnToFamily, aw)
         | None \<Rightarrow>
             let (output, aw) = outside (DescribeTaskDefinition env (ecsClient aw) taskARN) aw
             in case output of
                  Inl err \<Rightarrow> (False, arnToFamily, telemetry_Error ''AWS ECS DescribeTaskDefinition'' aw)
                | Inr (td, tags) \<Rightarrow>
                    let family = ToString (td_Family td)
                    in (family = ecsTaskDefinitionFamily aw, fmupd taskARN family arnToFamily, aw))"

fun filter_services ::
  "'w aws_env \<Rightarrow> aws_service list \<Rightarrow> family_cache \<times> 'w add_workflow
    \<Rightarrow> aws_service list \<times> family_cache \<times> 'w add_workflow" where
  "filter_services env [] st = ([], st)"
| "filter_services env (s # ss) st =
     (let (keep, st) = taskInFamily env (ToString (sv_TaskDefinition s)) st;
          (filtered, st) = filter_services env ss st
      in (if keep then s # filtered else filtered, st))"

definition outside_cached :: "('w add_workflow \<Rightarrow> 'r \<times> 'w add_workflow)
    \<Rightarrow> family_cache \<times> 'w add_workflow \<Rightarrow> 'r \<times> family_cache \<times> 'w add_workflow" where
  "outside_cached f st = (let (cache, aw) = st; (r, aw) = f aw in (r, cache, aw))"

definition listECSServices ::
  "'w aws_env \<Rightarrow> 'w add_workflow \<Rightarrow> (ecs_error + (arn, string) fmap) \<times> 'w add_workflow" where
  "listECSServices env aw =
     (let arnToFamily = fmupd (ecsTaskDefinitionARN aw) (ecsTaskDefinitionFamily aw) fmempty;
          (result, cache, aw) =
            ListAWSObjectsByName (\<lambda>n (cache, aw). (cache, telemetry_Error n aw)) ''Services''
              (outside_cached (\<lambda>aw. outside (ListServices env (ecsClient aw) (ecsClusterARN aw)) aw))
              (\<lambda>out. out)
              (\<lambda>arns. outside_cached
                 (\<lambda>aw. outside (DescribeServices env (ecsClient aw) (ecsClusterARN aw) arns) aw))
              (filter_services env)
              (\<lambda>t. (ToString (sv_ServiceArn t), ToString (sv_ServiceName t)))
              (arnToFamily, aw)
      in (result, aw))"

definition getService ::
  "'w aws_env \<Rightarrow> arn \<Rightarrow> 'w add_workflow \<Rightarrow> (ecs_error + aws_service) \<times> 'w add_workflow" where
  "getService env serviceARN aw =
     (let (output, aw) = outside (DescribeServices env (ecsClient aw) (ecsClusterARN aw) [serviceARN]) aw
      in case output of
           Inl err \<Rightarrow>
             (Inl (wrapUnauthorizedFor err serviceARN), telemetry_Error ''AWS ECS DescribeServices'' aw)
         | Inr services \<Rightarrow>
             (case services of
                [] \<Rightarrow> (Inl (New_Error ''No service with ARN''), aw)
              | s # _ \<Rightarrow> (Inr s, aw)))"

definition getServiceWithMatchingTask ::
  "'w aws_env \<Rightarrow> arn \<Rightarrow> 'w add_workflow \<Rightarrow> (ecs_error + aws_service) \<times> 'w add_workflow" where
  "getServiceWithMatchingTask env serviceARN aw =
     (let (svc, aw) = getService env serviceARN aw
      in case svc of
           Inl err \<Rightarrow> (Inl err, aw)
         | Inr svc \<Rightarrow>
             let taskARN = ToString (sv_TaskDefinition svc);
                 (output, aw) = outside (DescribeTaskDefinition env (ecsClient aw) taskARN) aw
             in case output of
                  Inl err \<Rightarrow>
                    (Inl (wrapUnauthorizedFor err taskARN),
                     telemetry_Error ''AWS ECS DescribeTaskDefinition'' aw)
                | Inr (td, tags) \<Rightarrow>
                    if ToString (td_Family td) \<noteq> ecsTaskDefinitionFamily aw
                    then (Inl (New_Error ''Mismatch between service and task definition''), aw)
                    else (Inr svc, aw))"

text \<open>
  Both deployment lookups fail with a fresh error that has the text of \<open>noDeploymentFound\<close>.
\<close>

definition GetDeploymentMatchingTask ::
  "'w aws_env \<Rightarrow> arn \<Rightarrow> 'w add_workflow \<Rightarrow> (ecs_error + string \<times> aws_deployment) \<times> 'w add_workflow" where
  "GetDeploymentMatchingTask env serviceARN aw =
     (let (service, aw) = getService env serviceARN aw
      in case service of
           Inl err \<Rightarrow> (Inl err, aw)
         | Inr service \<Rightarrow>
             (case find (\<lambda>d. ToString (dp_TaskDefinition d) = ecsTaskDefinitionARN aw)
                     (sv_Deployments service) of
                Some d \<Rightarrow> (Inr (ToString (dp_Id d), d), aw)
              | None \<Rightarrow> (Inl (New_Error ''No deployment found''), aw)))"

definition GetDeploymentByID ::
  "'w aws_env \<Rightarrow> arn \<Rightarrow> string \<Rightarrow> 'w add_workflow
    \<Rightarrow> (aws_deployment \<times> ecs_error option) \<times> 'w add_workflow" where
  "GetDeploymentByID env serviceARN deploymentID aw =
     (let (service, aw) = getService env serviceARN aw
      in case service of
           Inl err \<Rightarrow> ((zero_deployment, Some err), aw)
         | Inr service \<Rightarrow>
             (case find (\<lambda>d. ToString (dp_Id d) = deploymentID) (sv_Deployments service) of
                Some d \<Rightarrow> ((d, None), aw)
              | None \<Rightarrow> ((zero_deployment, Some (New_Error ''No deployment found'')), aw)))"

section \<open>Secrets\<close>

definition akitaSecretPrefix :: string where "akitaSecretPrefix = ''postman/''"
definition defaultKeyIDName :: string where "defaultKeyIDName = akitaSecretPrefix @ ''api_key_id''"
definition defaultKeySecretName :: string where
  "defaultKeySecretName = akitaSecretPrefix @ ''api_key_secret''"

definition akitaCreationTag :: aws_tag where
  "akitaCreationTag = (Some ''postman:created_by'', Some ''Postman Insights ECS integration'')"

definition akitaModificationTag :: aws_tag where
  "akitaModificationTag = (Some ''postman:modified_by'', Some ''Postman Insights ECS integration'')"

definition no_secrets :: secretState where
  "no_secrets = \<lparr>idExists = False, idARN = '''', secretExists = False, secretARN = ''''\<rparr>"

text \<open>The workflow that \<open>RunAddWorkflow\<close> starts with.\<close>

definition new_workflow :: "'w \<Rightarrow> 'w add_workflow" where
  "new_workflow w =
     \<lparr>awsProfile = ''default'', awsConfig = \<lparr>cfg_Region = '''', cfg_Credentials = No_Blob\<rparr>,
      awsRegion = '''', awsRegions = None, ecsClient = None, ecsCluster = '''', ecsClusterARN = '''',
      ecsTaskDefinitionFamily = '''', ecsTaskDefinitionTags = [], ecsTaskDefinitionARN = '''',
      ecsTaskDefinition = None, ecsService = '''', ecsServiceARN = '''', secretsEnabled = False,
      akitaSecrets = no_secrets, wf_log = [], wf_world = w\<rparr>"

fun scan_secrets :: "aws_secret list \<Rightarrow> secretState \<Rightarrow> secretState" where
  "scan_secrets [] state = state"
| "scan_secrets (s # ss) state =
     (let name = ToString (se_Name s);
          state = (if name = defaultKeyIDName
                   then state\<lparr>idExists := True, idARN := ToString (se_ARN s)\<rparr>
                   else if name = defaultKeySecretName
                   then state\<lparr>secretExists := True, secretARN := ToString (se_ARN s)\<rparr>
                   else state)
      in scan_secrets ss state)"

definition checkAkitaSecrets ::
  "'w aws_env \<Rightarrow> 'w add_workflow \<Rightarrow> (secretState \<times> ecs_error option) \<times> 'w add_workflow" where
  "checkAkitaSecrets env aw =
     (let (output, aw) = outside (ListSecrets env (awsConfig aw) [akitaSecretPrefix]) aw
      in case output of
           Inl err \<Rightarrow> ((no_secrets, Some (wrapUnauthorized err)), aw)
         | Inr secrets \<Rightarrow> ((scan_secrets secrets no_secrets, None), aw))"

definition createAkitaSecret ::
  "'w aws_env \<Rightarrow> string \<Rightarrow> string \<Rightarrow> string \<Rightarrow> 'w add_workflow
    \<Rightarrow> (ecs_error + arn) \<times> 'w add_workflow" where
  "createAkitaSecret env secretName secretText description aw =
     (let (output, aw) = outside
            (CreateSecret env (awsConfig aw) secretName description secretText [akitaCreationTag]) aw;
          aw = note_event (Secret_Created secretName secretText) aw
      in case output of
           Inl err \<Rightarrow> (Inl (wrapUnauthorized err), aw)
         | Inr a \<Rightarrow> (Inr (ToString a), aw))"

section \<open>What the calls leave alone\<close>

text \<open>
  \<open>quiet\<close> relates a workflow to one that differs only in the world and in telemetry added to the
  log: no field the workflow acts on has changed and no change of AWS was asked for.
\<close>

fun is_note :: "ecs_event \<Rightarrow> bool" where
  "is_note (Step s) = True"
| "is_note (Telemetry_Error s) = True"
| "is_note _ = False"

definition quiet :: "'w add_workflow \<Rightarrow> 'w add_workflow \<Rightarrow> bool" where
  "quiet aw aw' \<longleftrightarrow>
     (\<exists>w l. aw' = aw\<lparr>wf_world := w, wf_log := wf_log aw @ l\<rparr> \<and> (\<forall>e \<in> set l. is_note e))"

lemma quiet_refl [simp, intro]: "quiet aw aw"
  unfolding quiet_def by (rule exI [of _ "wf_world aw"], rule exI [of _ "[]"]) simp

lemma quiet_trans [trans]: "quiet a b \<Longrightarrow> quiet b c \<Longrightarrow> quiet a c"
proof -
  assume "quiet a b" and "quiet b c"
  then obtain w l w' l' where b: "b = a\<lparr>wf_world := w, wf_log := wf_log a @ l\<rparr>" "\<forall>e \<in> set l. is_note e"
    and c: "c = b\<lparr>wf_world := w', wf_log := wf_log b @ l'\<rparr>" "\<forall>e \<in> set l'. is_note e"
    unfolding quiet_def by blast
  then have "c = a\<lparr>wf_world := w', wf_log := wf_log a @ (l @ l')\<rparr>" "\<forall>e \<in> set (l @ l'). is_note e"
    by auto
  then show "quiet a c" unfolding quiet_def by blast
qed

lemma quiet_outside: "outside f aw = (r, aw') \<Longrightarrow> quiet aw aw'"
  unfolding quiet_def outside_def
  by (auto split: prod.splits intro!: exI [of _ "[]"])

lemma quiet_note: "is_note ev \<Longrightarrow> quiet aw (note_event ev aw)"
  unfolding quiet_def note_event_def
  by (rule exI [of _ "wf_world aw"], rule exI [of _ "[ev]"]) simp

lemma quiet_outside_note: "outside f aw = (r, aw') \<Longrightarrow> is_note ev \<Longrightarrow> quiet aw (note_event ev aw')"
  by (meson quiet_note quiet_outside quiet_trans)

lemma quiet_fields:
  assumes "quiet aw aw'"
  shows "awsProfile aw' = awsProfile aw" "awsConfig aw' = awsConfig aw" "awsRegion aw' = awsRegion aw"
    "awsRegions aw' = awsRegions aw" "ecsClient aw' = ecsClient aw" "ecsCluster aw' = ecsCluster aw"
    "ecsClusterARN aw' = ecsClusterARN aw"
    "ecsTaskDefinitionFamily aw' = ecsTaskDefinitionFamily aw"
    "ecsTaskDefinitionTags aw' = ecsTaskDefinitionTags aw"
    "ecsTaskDefinitionARN aw' = ecsTaskDefinitionARN aw"
    "ecsTaskDefinition aw' = ecsTaskDefinition aw" "ecsService aw' = ecsService aw"
    "ecsServiceARN aw' = ecsServiceARN aw" "akitaSecrets aw' = akitaSecrets aw"
  using assms by (auto simp: quiet_def)

lemma fst_outside: "outside f aw = (r, aw') \<Longrightarrow> fst (f (wf_world aw)) = r"
  by (auto simp: outside_def split: prod.splits)

lemma outside_fields:
  assumes "outside f aw = (r, aw')"
  shows "ecsClient aw' = ecsClient aw" "ecsClusterARN aw' = ecsClusterARN aw"
    "ecsTaskDefinitionFamily aw' = ecsTaskDefinitionFamily aw"
    "ecsTaskDefinitionARN aw' = ecsTaskDefinitionARN aw" "wf_log aw' = wf_log aw"
  using assms by (auto simp: outside_def split: prod.splits)

section \<open>Listing in batches\<close>

text \<open>The reference for the loop over the batches: the list cut into pieces of a hundred.\<close>

function batches :: "'a list \<Rightarrow> 'a list list" where
  "batches xs = (if xs = [] then [] else take 100 xs # batches (drop 100 xs))"
  by pat_completeness auto
termination by (relation "measure length") auto

declare batches.simps [simp del]

lemma batches_Nil [simp]: "batches [] = []"
  by (subst batches.simps) simp

lemma batches_rec: "xs \<noteq> [] \<Longrightarrow> batches xs = take 100 xs # batches (drop 100 xs)"
  by (subst batches.simps) simp

lemma concat_batches: "concat (batches xs) = xs"
  by (induction xs rule: batches.induct) (subst batches.simps, simp)

lemma batch_size: "b \<in> set (batches xs) \<Longrightarrow> b \<noteq> [] \<and> length b \<le> 100"
proof (induction xs rule: batches.induct)
  case (1 xs)
  then show ?case by (cases "xs = []") (auto simp: batches_rec)
qed

fun describe_each ::
  "('s \<Rightarrow> 's) \<Rightarrow> (arn list \<Rightarrow> 's \<Rightarrow> (ecs_error + 'd) \<times> 's) \<Rightarrow> ('d \<Rightarrow> 's \<Rightarrow> 'i list \<times> 's)
    \<Rightarrow> ('i \<Rightarrow> arn \<times> string) \<Rightarrow> arn list list \<Rightarrow> (arn, string) fmap \<Rightarrow> 's
    \<Rightarrow> (ecs_error + (arn, string) fmap) \<times> 's" where
  "describe_each report describe extractf convert [] ret s = (Inr ret, s)"
| "describe_each report describe extractf convert (b # bs) ret s =
     (case describe b s of
        (Inl err, s) \<Rightarrow> (Inl (wrapUnauthorized err), report s)
      | (Inr d, s) \<Rightarrow>
          (case extractf d s of
             (items, s) \<Rightarrow> describe_each report describe extractf convert bs (record_names convert items ret) s))"

lemma describe_batches_each:
  "describe_batches report describe extractf convert arns start ret s =
   describe_each report describe extractf convert (batches (drop start arns)) ret s"
proof (induction report describe extractf convert arns start ret s rule: describe_batches.induct)
  case (1 report describe extractf convert arns start ret s)
  show ?case
  proof (cases "start < length arns")
    case False
    then show ?thesis by (simp add: describe_batches.simps)
  next
    case True
    define e where "e = (if start + 100 > length arns then length arns else start + 100)"
    have batch: "take (e - start) (drop start arns) = take 100 (drop start arns)"
      by (auto simp: e_def min_def)
    have rest: "batches (drop start arns) = take 100 (drop start arns) # batches (drop (start + 100) arns)"
      using True by (simp add: batches_rec add.commute)
    show ?thesis
      using True 1 [OF True refl] unfolding rest
      by (subst describe_batches.simps)
        (auto simp: batch Let_def simp flip: e_def split: prod.splits sum.splits)
  qed
qed

lemma record_names_lookup:
  "fmlookup (record_names convert items ret) a =
   (case map_of (rev (map convert items)) a of
      Some n \<Rightarrow> if a \<noteq> '''' then Some n else fmlookup ret a
    | None \<Rightarrow> fmlookup ret a)"
  by (induction items arbitrary: ret) (auto simp: map_add_def split: option.splits prod.splits)

text \<open>
  What the callbacks of a listing may do to their state: a reflexive and transitive relation that
  each of them keeps is kept by the listing.
\<close>

locale aws_listing =
  fixes R :: "'s \<Rightarrow> 's \<Rightarrow> bool"
    and report :: "string \<Rightarrow> 's \<Rightarrow> 's"
    and paginator :: "'s \<Rightarrow> (ecs_error + 'l) list \<times> 's"
    and describe :: "arn list \<Rightarrow> 's \<Rightarrow> (ecs_error + 'd) \<times> 's"
    and extractf :: "'d \<Rightarrow> 's \<Rightarrow> 'i list \<times> 's"
  assumes R_refl: "R s s"
    and R_trans: "R s1 s2 \<Longrightarrow> R s2 s3 \<Longrightarrow> R s1 s3"
    and R_report: "R s (report n s)"
    and R_paginator: "paginator s = (pages, s') \<Longrightarrow> R s s'"
    and R_describe: "describe arns s = (d, s') \<Longrightarrow> R s s'"
    and R_extract: "extractf x s = (items, s') \<Longrightarrow> R s s'"
begin

lemma collect_R: "collect_pages (report n) getArns pages arns s = (r, s') \<Longrightarrow> R s s'"
proof (induction "report n" getArns pages arns s rule: collect_pages.induct)
qed (auto intro: R_refl R_report)

lemma each_R: "describe_each (report n) describe extractf convert bs ret s = (r, s') \<Longrightarrow> R s s'"
proof (induction bs arbitrary: ret s)
  case Nil
  then show ?case by (simp add: R_refl)
next
  case (Cons b bs)
  obtain d s1 where d: "describe b s = (d, s1)" by fastforce
  show ?case
  proof (cases d)
    case (Inl err)
    with Cons.prems d have "s' = report n s1" by simp
    with d show ?thesis by (metis R_describe R_report R_trans)
  next
    case (Inr x)
    obtain items s2 where x: "extractf x s1 = (items, s2)" by fastforce
    from Cons.prems d Inr x
    have "describe_each (report n) describe extractf convert bs (record_names convert items ret) s2 = (r, s')"
      by simp
    then have "R s2 s'" by (rule Cons.IH)
    with d x show ?thesis by (metis R_describe R_extract R_trans)
  qed
qed

lemma listing_R:
  assumes "ListAWSObjectsByName report nm paginator getArns describe extractf convert s = (r, s')"
  shows "R s s'"
proof -
  obtain pages s1 where p: "paginator s = (pages, s1)" by fastforce
  obtain listed s2 where c: "collect_pages (report (''AWS ECS List'' @ nm)) getArns pages [] s1 = (listed, s2)"
    by fastforce
  have "R s s1" "R s1 s2" using p c by (auto intro: R_paginator collect_R)
  moreover have "R s2 s'"
    using assms p c
    by (auto simp: ListAWSObjectsByName_def describe_batches_each R_refl intro: each_R
        split: sum.splits if_splits)
  ultimately show ?thesis by (metis R_trans)
qed

end

interpretation clusters: aws_listing quiet telemetry_Error
    "\<lambda>aw. outside (ListClusters env (ecsClient aw)) aw"
    "\<lambda>arns aw. outside (DescribeClusters env (ecsClient aw) arns) aw"
    "\<lambda>out aw. (out, aw)"
  for env
  by unfold_locales (auto intro: quiet_trans quiet_note quiet_outside)

lemma quiet_clusters: "listECSClusters env aw = (r, aw') \<Longrightarrow> quiet aw aw'"
  unfolding listECSClusters_def by (rule clusters.listing_R)

lemma quiet_in_family:
  "taskInFamily env t (cache, aw) = (b, cache', aw') \<Longrightarrow> quiet aw aw'"
  by (auto simp: taskInFamily_def Let_def split: option.splits prod.splits sum.splits
      intro: quiet_outside quiet_outside_note)

lemma quiet_filter:
  "filter_services env ss (cache, aw) = (r, cache', aw') \<Longrightarrow> quiet aw aw'"
proof (induction ss arbitrary: cache aw r)
  case Nil
  then show ?case by simp
next
  case (Cons s ss)
  obtain b cache1 aw1 where
    t: "taskInFamily env (ToString (sv_TaskDefinition s)) (cache, aw) = (b, cache1, aw1)"
    by (metis prod_cases3)
  with Cons.prems obtain r' where "filter_services env ss (cache1, aw1) = (r', cache', aw')"
    by (auto split: prod.splits)
  then have "quiet aw1 aw'" by (rule Cons.IH)
  with quiet_in_family [OF t] show ?case by (rule quiet_trans)
qed

definition quiet_cached :: "family_cache \<times> 'w add_workflow \<Rightarrow> family_cache \<times> 'w add_workflow \<Rightarrow> bool" where
  "quiet_cached st st' \<longleftrightarrow> quiet (snd st) (snd st')"

interpretation services: aws_listing quiet_cached "\<lambda>n (cache, aw). (cache, telemetry_Error n aw)"
    "outside_cached (\<lambda>aw. outside (ListServices env (ecsClient aw) (ecsClusterARN aw)) aw)"
    "\<lambda>arns. outside_cached
        (\<lambda>aw. outside (DescribeServices env (ecsClient aw) (ecsClusterARN aw) arns) aw)"
    "filter_services env"
  for env
  by unfold_locales
    (auto simp: quiet_cached_def outside_cached_def split: prod.splits
      intro: quiet_trans quiet_note quiet_outside quiet_filter)

lemma quiet_services: "listECSServices env aw = (r, aw') \<Longrightarrow> quiet aw aw'"
  unfolding listECSServices_def Let_def
  by (auto simp: quiet_cached_def split: prod.splits dest!: services.listing_R)

lemma quiet_families: "listECSTaskDefinitionFamilies env aw = (r, aw') \<Longrightarrow> quiet aw aw'"
proof -
  have pages: "family_pages pages fs aw = (r, aw') \<Longrightarrow> quiet aw aw'" for pages fs aw
    by (induction pages fs aw rule: family_pages.induct) (auto intro: quiet_note)
  show "listECSTaskDefinitionFamilies env aw = (r, aw') \<Longrightarrow> quiet aw aw'"
    by (auto simp: listECSTaskDefinitionFamilies_def split: prod.splits
        intro: quiet_trans [OF quiet_outside pages])
qed

lemma quiet_latest: "getLatestECSTaskDefinition env t aw = (r, aw') \<Longrightarrow> quiet aw aw'"
  by (auto simp: getLatestECSTaskDefinition_def split: prod.splits sum.splits
      intro: quiet_outside quiet_outside_note)

lemma quiet_clusterName: "getClusterName env c aw = (r, aw') \<Longrightarrow> quiet aw aw'"
  by (auto simp: getClusterName_def Let_def split: prod.splits sum.splits option.splits if_splits
      intro: quiet_outside quiet_outside_note)

lemma quiet_getService: "getService env s aw = (r, aw') \<Longrightarrow> quiet aw aw'"
  by (auto simp: getService_def Let_def split: prod.splits sum.splits list.splits
      intro: quiet_outside quiet_outside_note)

lemma quiet_matchingTask: "getServiceWithMatchingTask env s aw = (r, aw') \<Longrightarrow> quiet aw aw'"
  by (auto simp: getServiceWithMatchingTask_def Let_def split: prod.splits sum.splits if_splits
      intro: quiet_getService quiet_trans [OF quiet_getService quiet_outside]
        quiet_trans [OF quiet_getService quiet_outside_note])

lemma quiet_deploymentMatching: "GetDeploymentMatchingTask env s aw = (r, aw') \<Longrightarrow> quiet aw aw'"
  by (auto simp: GetDeploymentMatchingTask_def split: prod.splits sum.splits option.splits
      intro: quiet_getService)

lemma quiet_deploymentByID: "GetDeploymentByID env s d aw = (r, aw') \<Longrightarrow> quiet aw aw'"
  by (auto simp: GetDeploymentByID_def split: prod.splits sum.splits option.splits
      intro: quiet_getService)

lemma quiet_secrets: "checkAkitaSecrets env aw = (r, aw') \<Longrightarrow> quiet aw aw'"
  by (auto simp: checkAkitaSecrets_def split: prod.splits sum.splits intro: quiet_outside)

lemmas quiet_calls = quiet_outside quiet_clusters quiet_services quiet_families quiet_latest
  quiet_clusterName quiet_getService quiet_matchingTask quiet_deploymentMatching
  quiet_deploymentByID quiet_secrets

section \<open>Listing is exact\<close>

text \<open>
  When every batch of at most a hundred ARNs is answered with the named items among them, a listing
  is the map of all listed ARNs to their names.
\<close>

locale exact_listing =
  fixes inv :: "'s \<Rightarrow> bool"
    and name_at :: "'s \<Rightarrow> arn \<Rightarrow> string option"
    and report :: "string \<Rightarrow> 's \<Rightarrow> 's"
    and describe :: "arn list \<Rightarrow> 's \<Rightarrow> (ecs_error + 'd) \<times> 's"
    and extractf :: "'d \<Rightarrow> 's \<Rightarrow> 'i list \<times> 's"
    and convert :: "'i \<Rightarrow> arn \<times> string"
  assumes answered: "inv s \<Longrightarrow> arns \<noteq> [] \<Longrightarrow> length arns \<le> 100 \<Longrightarrow> describe arns s = (r, s') \<Longrightarrow>
      \<exists>d. r = Inr d \<and> (\<forall>items s''. extractf d s' = (items, s'') \<longrightarrow>
        inv s'' \<and> name_at s'' = name_at s \<and>
        map convert items = map (\<lambda>a. (a, the (name_at s a))) (filter (\<lambda>a. name_at s a \<noteq> None) arns))"
begin

lemma each_exact:
  assumes "inv s" and "\<forall>b \<in> set bs. b \<noteq> [] \<and> length b \<le> 100"
  shows "\<exists>m. fst (describe_each rep describe extractf convert bs ret s) = Inr m \<and>
    (\<forall>a. fmlookup m a =
       (if a \<in> set (concat bs) \<and> a \<noteq> '''' \<and> name_at s a \<noteq> None then name_at s a else fmlookup ret a))"
  using assms
proof (induction bs arbitrary: ret s)
  case Nil
  then show ?case by simp
next
  case (Cons b bs)
  obtain r s1 where d: "describe b s = (r, s1)" by fastforce
  with Cons.prems answered [of s b r s1] obtain x where x: "r = Inr x"
    and ex: "\<forall>items s''. extractf x s1 = (items, s'') \<longrightarrow> inv s'' \<and> name_at s'' = name_at s \<and>
        map convert items = map (\<lambda>a. (a, the (name_at s a))) (filter (\<lambda>a. name_at s a \<noteq> None) b)"
    by auto
  obtain items s2 where i: "extractf x s1 = (items, s2)" by fastforce
  with ex have inv2: "inv s2" and names: "name_at s2 = name_at s"
    and items: "map convert items = map (\<lambda>a. (a, the (name_at s a))) (filter (\<lambda>a. name_at s a \<noteq> None) b)"
    by auto
  have lookup: "fmlookup (record_names convert items ret) a =
      (if a \<in> set b \<and> a \<noteq> '''' \<and> name_at s a \<noteq> None then name_at s a else fmlookup ret a)" for a
  proof -
    have "map_of (rev (map convert items)) a =
      (if a \<in> set b \<and> name_at s a \<noteq> None then name_at s a else None)"
      unfolding items rev_map by (simp add: map_of_map_restrict restrict_map_def rev_filter [symmetric])
    then show ?thesis by (auto simp: record_names_lookup)
  qed
  from Cons.IH [OF inv2, of "record_names convert items ret"] Cons.prems
  obtain m where m: "fst (describe_each rep describe extractf convert bs (record_names convert items ret) s2) = Inr m"
    and l: "\<forall>a. fmlookup m a = (if a \<in> set (concat bs) \<and> a \<noteq> '''' \<and> name_at s2 a \<noteq> None
        then name_at s2 a else fmlookup (record_names convert items ret) a)"
    by auto
  from m d x i l names lookup show ?case by auto
qed

lemma batches_exact:
  assumes "inv s"
  shows "\<exists>m. fst (describe_batches rep describe extractf convert arns 0 fmempty s) = Inr m \<and>
    (\<forall>a. fmlookup m a = (if a \<in> set arns \<and> a \<noteq> '''' then name_at s a else None))"
proof -
  have "\<forall>b \<in> set (batches arns). b \<noteq> [] \<and> length b \<le> 100"
    by (auto dest: batch_size)
  from each_exact [OF assms this, of rep fmempty] obtain m where
    m: "fst (describe_each rep describe extractf convert (batches arns) fmempty s) = Inr m"
    and l: "\<forall>a. fmlookup m a = (if a \<in> set arns \<and> a \<noteq> '''' \<and> name_at s a \<noteq> None then name_at s a else None)"
    by (auto simp: concat_batches)
  have "fmlookup m a = (if a \<in> set arns \<and> a \<noteq> '''' then name_at s a else None)" for a
    using l [rule_format, of a] by (cases "name_at s a") auto
  with m show ?thesis by (auto simp: describe_batches_each)
qed

end

lemma collect_all: "collect_pages rep getArns (map Inr pages) arns s = (Inr (arns @ concat (map getArns pages)), s)"
  by (induction pages arbitrary: arns) auto

text \<open>
  What AWS documents of \<open>DescribeClusters\<close>: the clusters among the ARNs asked for, in order, if there
  are at most a hundred. \<open>reg\<close> is the registry of clusters.
\<close>

definition clusters_answered :: "'w aws_env \<Rightarrow> (arn \<Rightarrow> aws_cluster option) \<Rightarrow> 'w add_workflow \<Rightarrow> bool" where
  "clusters_answered env reg aw \<longleftrightarrow>
     (\<forall>a c. reg a = Some c \<longrightarrow> cl_ClusterArn c = Some a) \<and>
     (\<forall>arns w. arns \<noteq> [] \<and> length arns \<le> 100 \<longrightarrow>
        fst (DescribeClusters env (ecsClient aw) arns w)
          = Inr (map (\<lambda>a. the (reg a)) (filter (\<lambda>a. reg a \<noteq> None) arns)))"

lemma map_names:
  assumes "\<And>a x. reg a = Some x \<Longrightarrow> convert x = (a, nm x)"
  shows "map convert (map (\<lambda>a. the (reg a)) (filter (\<lambda>a. reg a \<noteq> None) arns))
    = map (\<lambda>a. (a, the (map_option nm (reg a)))) (filter (\<lambda>a. map_option nm (reg a) \<noteq> None) arns)"
  by (induction arns) (auto simp: assms)

interpretation listed_clusters: exact_listing "clusters_answered env reg"
    "\<lambda>aw a. map_option (\<lambda>c. ToString (cl_ClusterName c)) (reg a)"
    telemetry_Error "\<lambda>arns aw. outside (DescribeClusters env (ecsClient aw) arns) aw"
    "\<lambda>out aw. (out, aw)"
    "\<lambda>t. (ToString (cl_ClusterArn t), ToString (cl_ClusterName t))"
  for env reg
proof (unfold_locales, goal_cases)
  case (1 s arns r s')
  then have "clusters_answered env reg s'" by (simp add: clusters_answered_def outside_fields)
  moreover from 1 have "r = Inr (map (\<lambda>a. the (reg a)) (filter (\<lambda>a. reg a \<noteq> None) arns))"
    by (auto simp: clusters_answered_def outside_def split: prod.splits) (metis fst_conv)
  moreover have "map (\<lambda>t. (ToString (cl_ClusterArn t), ToString (cl_ClusterName t)))
      (map (\<lambda>a. the (reg a)) (filter (\<lambda>a. reg a \<noteq> None) arns))
    = map (\<lambda>a. (a, the (map_option (\<lambda>c. ToString (cl_ClusterName c)) (reg a))))
        (filter (\<lambda>a. map_option (\<lambda>c. ToString (cl_ClusterName c)) (reg a) \<noteq> None) arns)"
    using 1 by (intro map_names) (simp add: clusters_answered_def)
  ultimately show ?case by simp
qed

lemma clusters_listed:
  assumes "clusters_answered env reg aw"
    and "ListClusters env (ecsClient aw) (wf_world aw) = (map Inr pages, w)"
  shows "\<exists>m. fst (listECSClusters env aw) = Inr m \<and>
    (\<forall>a. fmlookup m a = (if a \<in> set (concat pages) \<and> a \<noteq> ''''
       then map_option (\<lambda>c. ToString (cl_ClusterName c)) (reg a) else None))"
proof -
  have inv: "clusters_answered env reg (aw\<lparr>wf_world := w\<rparr>)"
    using assms(1) by (simp add: clusters_answered_def)
  have out: "outside (ListClusters env (ecsClient aw)) aw = (map Inr pages, aw\<lparr>wf_world := w\<rparr>)"
    by (simp add: outside_def assms)
  have pages: "concat (map (\<lambda>out. out) pages) = concat pages" by simp
  show ?thesis
    using listed_clusters.batches_exact [OF inv, of "telemetry_Error (''AWS ECS Describe'' @ ''Clusters'')" "concat pages"]
    by (auto simp: listECSClusters_def ListAWSObjectsByName_def out collect_all)
qed

text \<open>The same for services, whose task definition must have the family chosen in the workflow.\<close>

definition in_family :: "(arn \<Rightarrow> string option) \<Rightarrow> 'w add_workflow \<Rightarrow> arn \<Rightarrow> bool" where
  "in_family fam aw t \<longleftrightarrow> t = ecsTaskDefinitionARN aw \<or> fam t = Some (ecsTaskDefinitionFamily aw)"

definition services_answered ::
  "'w aws_env \<Rightarrow> (arn \<Rightarrow> aws_service option) \<Rightarrow> (arn \<Rightarrow> string option) \<Rightarrow> 'w add_workflow \<Rightarrow> bool" where
  "services_answered env reg fam aw \<longleftrightarrow>
     (\<forall>a s. reg a = Some s \<longrightarrow> sv_ServiceArn s = Some a) \<and>
     (\<forall>arns w. arns \<noteq> [] \<and> length arns \<le> 100 \<longrightarrow>
        fst (DescribeServices env (ecsClient aw) (ecsClusterARN aw) arns w)
          = Inr (map (\<lambda>a. the (reg a)) (filter (\<lambda>a. reg a \<noteq> None) arns))) \<and>
     (\<forall>t w. (case fst (DescribeTaskDefinition env (ecsClient aw) t w) of
               Inl err \<Rightarrow> fam t = None
             | Inr (td, tags) \<Rightarrow> fam t = Some (ToString (td_Family td))))"

definition cache_right :: "(arn \<Rightarrow> string option) \<Rightarrow> family_cache \<times> 'w add_workflow \<Rightarrow> bool" where
  "cache_right fam st \<longleftrightarrow>
     (\<forall>t f. fmlookup (fst st) t = Some f \<longrightarrow>
        (f = ecsTaskDefinitionFamily (snd st)) = in_family fam (snd st) t) \<and>
     fmlookup (fst st) (ecsTaskDefinitionARN (snd st)) \<noteq> None"

definition service_name ::
  "(arn \<Rightarrow> aws_service option) \<Rightarrow> (arn \<Rightarrow> string option) \<Rightarrow> 'w add_workflow \<Rightarrow> arn \<Rightarrow> string option" where
  "service_name reg fam aw a =
     (case reg a of
        None \<Rightarrow> None
      | Some s \<Rightarrow> if in_family fam aw (ToString (sv_TaskDefinition s))
                  then Some (ToString (sv_ServiceName s)) else None)"

lemma services_answered_quiet: "quiet aw aw' \<Longrightarrow> services_answered env reg fam aw' = services_answered env reg fam aw"
  by (simp add: services_answered_def quiet_fields)

lemma service_name_quiet: "quiet aw aw' \<Longrightarrow> service_name reg fam aw' = service_name reg fam aw"
  by (simp add: service_name_def in_family_def quiet_fields fun_eq_iff split: option.splits)

lemma cache_right_quiet: "quiet aw aw' \<Longrightarrow> cache_right fam (c, aw') = cache_right fam (c, aw)"
  by (simp add: cache_right_def in_family_def quiet_fields)

lemma task_in_family:
  assumes "services_answered env reg fam aw" and "cache_right fam (cache, aw)"
    and "taskInFamily env t (cache, aw) = (b, cache', aw')"
  shows "b = in_family fam aw t \<and> cache_right fam (cache', aw') \<and> services_answered env reg fam aw'"
proof (cases "fmlookup cache t")
  case (Some f)
  with assms show ?thesis by (auto simp: taskInFamily_def cache_right_def)
next
  case None
  obtain out aw1 where o: "outside (DescribeTaskDefinition env (ecsClient aw) t) aw = (out, aw1)"
    by fastforce
  have q: "quiet aw aw1" using o by (rule quiet_outside)
  have out: "out = fst (DescribeTaskDefinition env (ecsClient aw) t (wf_world aw))"
    using o by (auto simp: outside_def split: prod.splits)
  have other: "t \<noteq> ecsTaskDefinitionARN aw" using None assms(2) by (auto simp: cache_right_def)
  have q2: "quiet aw aw'"
    using quiet_in_family [OF assms(3)] .
  from assms(1) out have fam: "case out of Inl err \<Rightarrow> fam t = None
      | Inr (td, tags) \<Rightarrow> fam t = Some (ToString (td_Family td))"
    by (auto simp: services_answered_def)
  have "b = in_family fam aw t \<and> cache_right fam (cache', aw)"
    using None assms(2,3) o fam other
    by (auto simp: taskInFamily_def Let_def cache_right_def in_family_def quiet_fields [OF q]
        split: sum.splits prod.splits if_splits) blast+
  with q2 assms(1) show ?thesis by (simp add: cache_right_quiet services_answered_quiet)
qed

lemma filter_exact:
  assumes "services_answered env reg fam aw" and "cache_right fam (cache, aw)"
    and "filter_services env ss (cache, aw) = (r, cache', aw')"
  shows "r = filter (\<lambda>s. in_family fam aw (ToString (sv_TaskDefinition s))) ss \<and>
    cache_right fam (cache', aw') \<and> services_answered env reg fam aw'"
  using assms
proof (induction ss arbitrary: cache aw r)
  case Nil
  then show ?case by simp
next
  case (Cons s ss)
  obtain b cache1 aw1 where
    t: "taskInFamily env (ToString (sv_TaskDefinition s)) (cache, aw) = (b, cache1, aw1)"
    by (metis prod_cases3)
  note here = task_in_family [OF Cons.prems(1,2) t]
  from t Cons.prems obtain r' where
    f: "filter_services env ss (cache1, aw1) = (r', cache', aw')" and r: "r = (if b then s # r' else r')"
    by (auto split: prod.splits)
  have "in_family fam aw1 = in_family fam aw"
    using quiet_in_family [OF t] by (simp add: in_family_def quiet_fields fun_eq_iff)
  with Cons.IH [of aw1 cache1 r'] here f r show ?case by auto
qed

lemma service_names:
  assumes "\<And>a s. reg a = Some s \<Longrightarrow> sv_ServiceArn s = Some a"
  shows "map (\<lambda>t. (ToString (sv_ServiceArn t), ToString (sv_ServiceName t)))
      (filter (\<lambda>s. in_family fam aw (ToString (sv_TaskDefinition s)))
        (map (\<lambda>a. the (reg a)) (filter (\<lambda>a. reg a \<noteq> None) arns)))
    = map (\<lambda>a. (a, the (service_name reg fam aw a))) (filter (\<lambda>a. service_name reg fam aw a \<noteq> None) arns)"
proof (induction arns)
  case (Cons a arns)
  then show ?case using assms [of a] by (cases "reg a") (simp_all add: service_name_def)
qed simp

interpretation listed_services: exact_listing
    "\<lambda>st. services_answered env reg fam (snd st) \<and> cache_right fam st"
    "\<lambda>st. service_name reg fam (snd st)"
    "\<lambda>n (cache, aw). (cache, telemetry_Error n aw)"
    "\<lambda>arns. outside_cached
        (\<lambda>aw. outside (DescribeServices env (ecsClient aw) (ecsClusterARN aw) arns) aw)"
    "filter_services env"
    "\<lambda>t. (ToString (sv_ServiceArn t), ToString (sv_ServiceName t))"
  for env reg fam
proof (unfold_locales, goal_cases)
  case (1 s arns r s')
  obtain cache aw where s: "s = (cache, aw)" by fastforce
  obtain aw1 where s': "s' = (cache, aw1)"
    and o: "outside (DescribeServices env (ecsClient aw) (ecsClusterARN aw) arns) aw = (r, aw1)"
    using 1(4) by (auto simp: s outside_cached_def split: prod.splits)
  have q: "quiet aw aw1" using o by (rule quiet_outside)
  have found: "r = Inr (map (\<lambda>a. the (reg a)) (filter (\<lambda>a. reg a \<noteq> None) arns))"
    using 1(1-3) fst_outside [OF o] by (simp add: s services_answered_def)
  have named: "map (\<lambda>t. (ToString (sv_ServiceArn t), ToString (sv_ServiceName t)))
      (filter (\<lambda>s. in_family fam aw (ToString (sv_TaskDefinition s)))
        (map (\<lambda>a. the (reg a)) (filter (\<lambda>a. reg a \<noteq> None) arns)))
    = map (\<lambda>a. (a, the (service_name reg fam aw a))) (filter (\<lambda>a. service_name reg fam aw a \<noteq> None) arns)"
    using 1(1) by (intro service_names) (simp add: s services_answered_def)
  show ?case
  proof (intro exI conjI allI impI)
    show "r = Inr (map (\<lambda>a. the (reg a)) (filter (\<lambda>a. reg a \<noteq> None) arns))" by (rule found)
  next
    fix items s''
    assume x: "filter_services env (map (\<lambda>a. the (reg a)) (filter (\<lambda>a. reg a \<noteq> None) arns)) s' = (items, s'')"
    obtain cache2 aw2 where s'': "s'' = (cache2, aw2)" by fastforce
    have ok: "services_answered env reg fam aw1" "cache_right fam (cache, aw1)"
      using 1(1) q by (auto simp: s services_answered_quiet cache_right_quiet)
    have i: "items = filter (\<lambda>s. in_family fam aw1 (ToString (sv_TaskDefinition s)))
        (map (\<lambda>a. the (reg a)) (filter (\<lambda>a. reg a \<noteq> None) arns))"
      and c2: "cache_right fam (cache2, aw2)" and a2: "services_answered env reg fam aw2"
      using filter_exact [OF ok x [unfolded s' s'']] by auto
    have same: "in_family fam aw1 = in_family fam aw"
      using q by (simp add: in_family_def quiet_fields fun_eq_iff)
    have q2: "quiet aw aw2" using quiet_trans [OF q quiet_filter [OF x [unfolded s' s'']]] .
    show "services_answered env reg fam (snd s'')" "cache_right fam s''" using a2 c2 by (auto simp: s'')
    show "service_name reg fam (snd s'') = service_name reg fam (snd s)"
      using q2 by (simp add: s s'' service_name_quiet)
    show "map (\<lambda>t. (ToString (sv_ServiceArn t), ToString (sv_ServiceName t))) items
      = map (\<lambda>a. (a, the (service_name reg fam (snd s) a)))
          (filter (\<lambda>a. service_name reg fam (snd s) a \<noteq> None) arns)"
      using named by (simp add: i same s)
  qed
qed

section \<open>Examples\<close>

text \<open>
  A concrete AWS with one cluster, one family and one service, an obliging user, and a clock that
  advances with the ticks.
\<close>

definition sample_definition :: task_definition where
  "sample_definition =
     \<lparr>td_ContainerDefinitions =
        [\<lparr>c_Name = Some ''web'', c_EntryPoint = [], c_Environment = [], c_Essential = Some True,
          c_Image = Some ''shop/web:3'', c_MemoryReservation = None, c_Others = No_Blob\<rparr>],
      td_Family = Some ''web'', td_Cpu = None, td_EphemeralStorage = No_Blob, td_ExecutionRoleArn = None,
      td_InferenceAccelerators = No_Blob, td_IpcMode = '''', td_Memory = None,
      td_NetworkMode = ''awsvpc'', td_PidMode = '''', td_PlacementConstraints = No_Blob,
      td_ProxyConfiguration = No_Blob, td_RequiresCompatibilities = [], td_RuntimePlatform = No_Blob,
      td_TaskRoleArn = None, td_Volumes = No_Blob, td_TaskDefinitionArn = Some ''arn:t1'',
      td_Revision = 1\<rparr>"

definition sample_service :: "string \<Rightarrow> arn \<Rightarrow> aws_service" where
  "sample_service rollout a =
     \<lparr>sv_ServiceArn = Some a, sv_ServiceName = Some ''shop'', sv_TaskDefinition = Some ''arn:t1'',
      sv_Deployments = [\<lparr>dp_Id = Some ''d1'', dp_TaskDefinition = Some ''arn:t2'', dp_RolloutState = rollout\<rparr>]\<rparr>"

definition sample_env :: "int aws_env" where
  "sample_env =
     \<lparr>IsTerminal = (\<lambda>w. True), AskInput = (\<lambda>q d w. (Inr d, w)),
      AskSelect = (\<lambda>q opts d w. (Inr (hd opts), w)), AskConfirm = (\<lambda>q w. (Inr True, w)),
      WrapErr = (\<lambda>e m. case e of None \<Rightarrow> None | Some e \<Rightarrow> Some (Wrapped e m)),
      Range = (\<lambda>m w. (sorted_list_of_fset (fmdom m), w)), Now = (\<lambda>w. (w, w)),
      NewTicker = (\<lambda>p w. ((), w)), Tick = (\<lambda>w. (w + seconds 15, w + seconds 15)),
      FormatFloat = (\<lambda>f. ''0.5''), CredsGetString = (\<lambda>k. ''PMAK''),
      DefaultSharedConfigFilename = ''config'', DefaultSharedCredentialsFilename = ''credentials'',
      LoadSharedConfigProfile = (\<lambda>p fs cs w. (Inr ''us-east-2'', w)),
      LoadDefaultConfig = (\<lambda>p fs cs w. (Inr \<lparr>cfg_Region = ''us-east-2'', cfg_Credentials = No_Blob\<rparr>, w)),
      DescribeRegions = (\<lambda>c w. (Inr [Some ''us-east-2''], w)),
      ListClusters = (\<lambda>c w. ([], w)),
      DescribeClusters = (\<lambda>c arns w. (Inr (map (\<lambda>a. \<lparr>cl_ClusterArn = Some a, cl_ClusterName = Some ''prod''\<rparr>) arns), w)),
      ListTaskDefinitionFamilies = (\<lambda>c w. ([Inr [''web'']], w)),
      DescribeTaskDefinition = (\<lambda>c t w. (Inr (sample_definition, []), w)),
      ListServices = (\<lambda>c cl w. ([Inr [''arn:s1''], Inr [''arn:s2'']], w)),
      DescribeServices = (\<lambda>c cl arns w. (Inr (map (sample_service ''COMPLETED'') arns), w)),
      RegisterTaskDefinition = (\<lambda>c i w. (Inr (sample_definition\<lparr>td_TaskDefinitionArn := Some ''arn:t2''\<rparr>, in_Tags i), w)),
      UpdateService = (\<lambda>c s cl t w. (None, w)), TagResource = (\<lambda>c a t w. (None, w)),
      ListSecrets = (\<lambda>c p w. (Inr [], w)), CreateSecret = (\<lambda>c n d t ts w. (Inr None, w))\<rparr>"

definition sample_flags :: ecs_flags where
  "sample_flags =
     \<lparr>projectId = ''svc_1'', awsProfileFlag = '''', awsRegionFlag = ''us-east-2'',
      ecsClusterFlag = ''arn:c1'', ecsServiceFlag = ''arn:s1'', ecsTaskDefinitionFlag = '''',
      awsCredentialsFlag = '''', dryRunFlag = False, filterFlag = '''', hostAllowlistFlag = [],
      hostExclusionsFlag = [], interfacesFlag = [], pathAllowlistFlag = [], pathExclusionsFlag = [],
      rateLimitFlag = 1000\<rparr>"

text \<open>
  If AWS answers each batch of at most a hundred ARNs with the services among them, the services
  offered for the update are exactly those of the cluster whose task definition belongs to the chosen
  family, whatever the pages, the batches and the state of the cache of families.
\<close>

theorem services_listed:
  assumes "services_answered env reg fam aw"
    and "ListServices env (ecsClient aw) (ecsClusterARN aw) (wf_world aw) = (map Inr pages, w)"
  shows "\<exists>m. fst (listECSServices env aw) = Inr m \<and>
    (\<forall>a. fmlookup m a = (if a \<in> set (concat pages) \<and> a \<noteq> '''' then service_name reg fam aw a else None))"
proof -
  define cache where "cache = fmupd (ecsTaskDefinitionARN aw) (ecsTaskDefinitionFamily aw) fmempty"
  have out: "outside (ListServices env (ecsClient aw) (ecsClusterARN aw)) aw = (map Inr pages, aw\<lparr>wf_world := w\<rparr>)"
    by (simp add: outside_def assms)
  have inv: "services_answered env reg fam (snd (cache, aw\<lparr>wf_world := w\<rparr>)) \<and> cache_right fam (cache, aw\<lparr>wf_world := w\<rparr>)"
    using assms(1) by (auto simp: services_answered_def cache_right_def cache_def in_family_def)
  have name: "service_name reg fam (aw\<lparr>wf_world := w\<rparr>) = service_name reg fam aw"
    by (simp add: service_name_def in_family_def fun_eq_iff split: option.splits)
  have pages: "concat (map (\<lambda>out. out) pages) = concat pages" by simp
  show ?thesis
    using listed_services.batches_exact [OF inv, of
        "(\<lambda>(cache, aw). (cache, telemetry_Error (''AWS ECS Describe'' @ ''Services'') aw))" "concat pages"]
    by (auto simp: listECSServices_def ListAWSObjectsByName_def outside_cached_def out collect_all name
        simp flip: cache_def split: prod.splits)
qed


lemma sample_services_answered:
  "services_answered sample_env (\<lambda>a. Some (sample_service ''COMPLETED'' a)) (\<lambda>t. Some ''web'')
     ((new_workflow 0)\<lparr>ecsTaskDefinitionFamily := ''web''\<rparr>)"
proof -
  have "filter (\<lambda>a. True) arns = arns" for arns :: "arn list" by simp
  then show ?thesis
    by (simp add: services_answered_def sample_env_def sample_service_def sample_definition_def)
qed

lemma services_listed_witness:
  "\<exists>m. fst (listECSServices sample_env ((new_workflow 0)\<lparr>ecsTaskDefinitionFamily := ''web''\<rparr>)) = Inr m \<and>
     fmlookup m ''arn:s2'' = Some ''shop'' \<and> fmlookup m ''arn:s3'' = None"
proof -
  have "ListServices sample_env c cl w = (map Inr [[''arn:s1''], [''arn:s2'']], w)" for c cl w
    by (simp add: sample_env_def)
  from services_listed [OF sample_services_answered this] show ?thesis
    by (auto simp: service_name_def sample_service_def in_family_def)
qed

end
