(* ===== verification/Ecs_Workflow.thy ===== *)
theory Ecs_Workflow
  imports Ecs_Api
begin

text \<open>
  The "add to ECS" workflow of \<open>cmd/internal/ecs/add.go\<close>: one definition per state function, from
  the choice of a profile to the wait for the restarted service. \<open>printer\<close> output is left out;
  prompts, telemetry steps and the calls that change AWS go to the workflow's log.
\<close>

section \<open>States and results\<close>

text \<open>
  A state of the workflow is one of the functions of type \<open>AddWorkflowState\<close>. A state function
  returns the next state, if any, and an error, if any. Two outcomes are not values in Go: a nil
  dereference, and a wait that has not ended when the model's fuel has.
\<close>

datatype wf_state =
    InitState | GetProfileState | GetRegionState | FindClusterAndRegionState | GetClusterState
  | GetTaskState | GetServiceState | GetSecretState | ConfirmState | AddSecretState
  | ModifyTaskState | UpdateServiceState | WaitForRestartState

datatype awf =
    Awf (awf_state: "wf_state option") (awf_err: "ecs_error option")
  | Awf_Panic
  | Awf_Waiting

definition awf_done :: awf where "awf_done = Awf None None"
definition awf_error :: "ecs_error option \<Rightarrow> awf" where "awf_error err = Awf None err"
definition awf_next :: "wf_state \<Rightarrow> awf" where "awf_next s = Awf (Some s) None"

lemmas awf_defs = awf_done_def awf_error_def awf_next_def

definition findAllClustersOption :: string where "findAllClustersOption = ''Search all regions.''"
definition goBackOption :: string where "goBackOption = ''Return to previous choice.''"

definition arn_choices :: "(arn, string) fmap \<Rightarrow> string list" where
  "arn_choices m = sorted_list_of_fset (fmdom m)"

definition name_of :: "(arn, string) fmap \<Rightarrow> arn \<Rightarrow> string" where
  "name_of m a = (case fmlookup m a of Some n \<Rightarrow> n | None \<Rightarrow> '''')"

section \<open>Profile and region\<close>

definition getProfileState ::
  "'w aws_env \<Rightarrow> ecs_flags \<Rightarrow> 'w add_workflow \<Rightarrow> awf \<times> 'w add_workflow" where
  "getProfileState env fl aw =
     (let aw = reportStep ''Get AWS Profile'' aw
      in if awsProfileFlag fl \<noteq> '''' then
           let aw = aw\<lparr>awsProfile := awsProfileFlag fl\<rparr>;
               (err, aw) = createConfig env fl aw
           in case err of
                Some e \<Rightarrow> (awf_error (WrapErr env (Some e) ''Error loading AWS credentials''), aw)
              | None \<Rightarrow> (awf_next GetRegionState, aw)
         else
           let (answer, aw) = outside (AskInput env
                 ''Which of your AWS profiles should be used to configure ECS?'' (awsProfile aw)) aw
           in case answer of
                Inl e \<Rightarrow> (awf_error (Some e), aw)
              | Inr profile \<Rightarrow>
                  let aw = aw\<lparr>awsProfile := profile\<rparr>;
                      (err, aw) = createConfig env fl aw
                  in case err of
                       Some e \<Rightarrow>
                         if errors_Is e NoSuchProfileError
                         then (awf_next GetProfileState, aw\<lparr>awsProfile := ''default''\<rparr>)
                         else (awf_error (WrapErr env (Some e) ''Error loading AWS credentials''), aw)
                     | None \<Rightarrow> (awf_next GetRegionState, aw))"

definition getRegionState ::
  "'w aws_env \<Rightarrow> ecs_flags \<Rightarrow> 'w add_workflow \<Rightarrow> awf \<times> 'w add_workflow" where
  "getRegionState env fl aw =
     (let aw = reportStep ''Get AWS Region'' aw
      in if awsRegionFlag fl \<noteq> '''' then
           let aw = aw\<lparr>awsRegion := awsRegionFlag fl\<rparr>
           in (awf_next GetClusterState, createClient (awsRegion aw) aw)
         else
           let aw = (case awsRegions aw of
                       Some _ \<Rightarrow> aw
                     | None \<Rightarrow> let (regions, aw) = listAWSRegions env aw in aw\<lparr>awsRegions := Some regions\<rparr>);
               (answer, aw) = outside (AskSelect env ''In which AWS region is your ECS cluster?''
                 (findAllClustersOption # the (awsRegions aw)) (cfg_Region (awsConfig aw))) aw
           in case answer of
                Inl e \<Rightarrow> (awf_error (Some e), aw)
              | Inr region \<Rightarrow>
                  let aw = aw\<lparr>awsRegion := region\<rparr>
                  in if awsRegion aw = findAllClustersOption
                     then (awf_next FindClusterAndRegionState, aw)
                     else (awf_next GetClusterState, createClient (awsRegion aw) aw))"

section \<open>Cluster\<close>

text \<open>
  The two maps filled while searching the regions. Inserting the clusters of one region under the
  same region name does not depend on the order in which Go visits them.
\<close>

fun search_regions ::
  "'w aws_env \<Rightarrow> string list \<Rightarrow> (arn, string) fmap \<Rightarrow> (arn, string) fmap \<Rightarrow> 'w add_workflow
    \<Rightarrow> (arn, string) fmap \<times> (arn, string) fmap \<times> 'w add_workflow" where
  "search_regions env [] arnToRegion arnToName aw = (arnToRegion, arnToName, aw)"
| "search_regions env (region # regions) arnToRegion arnToName aw =
     (let aw = createClient region aw;
          (clusters, aw) = listECSClusters env aw
      in case clusters of
           Inl err \<Rightarrow> search_regions env regions arnToRegion arnToName aw
         | Inr clusters \<Rightarrow>
             search_regions env regions
               (arnToRegion ++\<^sub>f fmmap (\<lambda>_. region) clusters) (arnToName ++\<^sub>f clusters) aw)"

definition findClusterAndRegionState ::
  "'w aws_env \<Rightarrow> ecs_flags \<Rightarrow> 'w add_workflow \<Rightarrow> awf \<times> 'w add_workflow" where
  "findClusterAndRegionState env fl aw =
     (let aw = reportStep ''Get ECS Cluster and Region'' aw;
          regions = (case awsRegions aw of Some rs \<Rightarrow> rs | None \<Rightarrow> []);
          (arnToRegion, arnToName, aw) = search_regions env regions fmempty fmempty aw
      in if arnToRegion = fmempty then (awf_next GetProfileState, aw)
         else
           let choices = arn_choices arnToName;
               (answer, aw) = outside (AskSelect env ''In which cluster does your application run?''
                 choices '''') aw
           in case answer of
                Inl e \<Rightarrow> (awf_error (Some e), aw)
              | Inr clusterAnswer \<Rightarrow>
                  let aw = aw\<lparr>ecsClusterARN := clusterAnswer\<rparr>;
                      aw = aw\<lparr>ecsCluster := name_of arnToName (ecsClusterARN aw)\<rparr>;
                      aw = aw\<lparr>awsRegion := name_of arnToRegion (ecsClusterARN aw)\<rparr>
                  in (awf_next GetTaskState, createClient (awsRegion aw) aw))"

text \<open>\<open>for a, name := range m\<close> with the test for the flag's name.\<close>

definition find_named :: "string \<Rightarrow> (arn, string) fmap \<Rightarrow> arn list \<Rightarrow> arn option" where
  "find_named flag m order = find (\<lambda>a. fmlookup m a = Some flag) order"

definition is_arn :: "string \<Rightarrow> bool" where
  "is_arn s \<longleftrightarrow> take 4 s = ''arn:''"

text \<open>The listing error is dropped: what is wrapped is the named result \<open>err\<close>, which is nil.\<close>

definition loadClusterFromFlag ::
  "'w aws_env \<Rightarrow> ecs_flags \<Rightarrow> 'w add_workflow \<Rightarrow> awf \<times> 'w add_workflow" where
  "loadClusterFromFlag env fl aw =
     (if is_arn (ecsClusterFlag fl) then
        let (clusterName, aw) = getClusterName env (ecsClusterFlag fl) aw
        in case clusterName of
             Inl err \<Rightarrow>
               if errors_Is err NoSuchClusterError
               then (awf_error (Some (New_Error ''Could not find cluster'')), aw)
               else (awf_error (WrapErr env (Some err) ''Error accessing cluster''), aw)
           | Inr name \<Rightarrow>
               (awf_next GetTaskState, aw\<lparr>ecsClusterARN := ecsClusterFlag fl, ecsCluster := name\<rparr>)
      else
        let err = None;
            (clusters, aw) = listECSClusters env aw
        in case clusters of
             Inl listErr \<Rightarrow> (awf_error (WrapErr env err ''Error listing clusters''), aw)
           | Inr clusters \<Rightarrow>
               let (order, aw) = outside (Range env clusters) aw
               in case find_named (ecsClusterFlag fl) clusters order of
                    Some a \<Rightarrow>
                      (awf_next GetTaskState, aw\<lparr>ecsClusterARN := a, ecsCluster := ecsClusterFlag fl\<rparr>)
                  | None \<Rightarrow> (awf_error (Some (New_Error ''No cluster found with name'')), aw))"

definition getClusterState ::
  "'w aws_env \<Rightarrow> ecs_flags \<Rightarrow> 'w add_workflow \<Rightarrow> awf \<times> 'w add_workflow" where
  "getClusterState env fl aw =
     (let aw = reportStep ''Get ECS Cluster'' aw
      in if ecsClusterFlag fl \<noteq> '''' then loadClusterFromFlag env fl aw
         else
           let (clusters, aw) = listECSClusters env aw
           in case clusters of
                Inl listErr \<Rightarrow>
                  if as_unauthorized listErr \<noteq> None then (awf_next GetProfileState, aw)
                  else (awf_error (Some (New_Error ''Error while listing ECS clusters'')), aw)
              | Inr clusters \<Rightarrow>
                  if clusters = fmempty then (awf_next GetRegionState, aw)
                  else
                    let choices = arn_choices clusters @ [goBackOption];
                        (answer, aw) = outside (AskSelect env
                          ''In which cluster does your application run?'' choices '''') aw
                    in case answer of
                         Inl e \<Rightarrow> (awf_error (Some e), aw)
                       | Inr clusterAnswer \<Rightarrow>
                           if clusterAnswer = goBackOption then (awf_next GetRegionState, aw)
                           else (awf_next GetTaskState,
                                 aw\<lparr>ecsClusterARN := clusterAnswer,
                                    ecsCluster := name_of clusters clusterAnswer\<rparr>))"

section \<open>Task definition\<close>

definition NetworkModeBridge :: string where "NetworkModeBridge = ''bridge''"

definition loadTaskFromFlag ::
  "'w aws_env \<Rightarrow> ecs_flags \<Rightarrow> 'w add_workflow \<Rightarrow> awf \<times> 'w add_workflow" where
  "loadTaskFromFlag env fl aw =
     (let (described, aw) = getLatestECSTaskDefinition env (ecsTaskDefinitionFlag fl) aw
      in case described of
           Inl describeErr \<Rightarrow>
             (awf_error (WrapErr env (Some describeErr) ''Error loading task definition''), aw)
         | Inr (output, tags) \<Rightarrow>
             if td_NetworkMode output = NetworkModeBridge
             then (awf_error (Some (New_Error ''Error while validating ECS task definition'')), aw)
             else (awf_next GetServiceState,
                   aw\<lparr>ecsTaskDefinition := Some output,
                      ecsTaskDefinitionFamily := ToString (td_Family output),
                      ecsTaskDefinitionARN := ToString (td_TaskDefinitionArn output),
                      ecsTaskDefinitionTags := tags\<rparr>))"

definition akitaECRImage :: string where "akitaECRImage = ''public.ecr.aws/akitasoftware/akita-cli''"
definition akitaDockerImage :: string where "akitaDockerImage = ''akitasoftware/cli''"
definition postmanECRImage :: string where "postmanECRImage = ''docker.postman.com/postman-insights-agent''"

text \<open>\<open>strings.Split(imageName, ":")[0]\<close> is what precedes the first colon.\<close>

definition matchesImage :: "string \<Rightarrow> string \<Rightarrow> bool" where
  "matchesImage imageName baseName \<longleftrightarrow> takeWhile (\<lambda>c. c \<noteq> CHR '':'') imageName = baseName"

definition tag_of_agent :: "aws_tag \<Rightarrow> bool" where
  "tag_of_agent t \<longleftrightarrow> ToString (fst t) = ToString (fst akitaCreationTag)
     \<or> ToString (fst t) = ToString (fst akitaModificationTag)"

definition image_of_agent :: "aws_container \<Rightarrow> bool" where
  "image_of_agent c \<longleftrightarrow>
     (let image = ToString (c_Image c)
      in matchesImage image postmanECRImage \<or> matchesImage image akitaECRImage
         \<or> matchesImage image akitaDockerImage)"

definition getTaskState ::
  "'w aws_env \<Rightarrow> ecs_flags \<Rightarrow> 'w add_workflow \<Rightarrow> awf \<times> 'w add_workflow" where
  "getTaskState env fl aw =
     (let aw = reportStep ''Get ECS Task Definition'' aw
      in if ecsTaskDefinitionFlag fl \<noteq> '''' then loadTaskFromFlag env fl aw
         else
           let (tasks, aw) = listECSTaskDefinitionFamilies env aw
           in case tasks of
                Inl listErr \<Rightarrow>
                  if as_unauthorized listErr \<noteq> None then (awf_next GetProfileState, aw)
                  else (awf_error (Some (New_Error ''Error while listing ECS task definitions'')), aw)
              | Inr tasks \<Rightarrow>
                  if tasks = [] then (awf_next GetClusterState, aw)
                  else
                    let choices = sort tasks @ [goBackOption];
                        (answer, aw) = outside (AskSelect env ''Which task should be monitored?''
                          choices '''') aw
                    in case answer of
                         Inl e \<Rightarrow> (awf_error (Some e), aw)
                       | Inr taskAnswer \<Rightarrow>
                           if taskAnswer = goBackOption then (awf_next GetClusterState, aw)
                           else
                             let aw = aw\<lparr>ecsTaskDefinitionFamily := taskAnswer\<rparr>;
                                 (described, aw) =
                                   getLatestECSTaskDefinition env (ecsTaskDefinitionFamily aw) aw
                             in case described of
                                  Inl describeErr \<Rightarrow>
                                    if as_unauthorized describeErr \<noteq> None
                                    then (awf_next GetTaskState, aw)
                                    else (awf_error (Some (New_Error
                                            ''Error while loading ECS task definition'')), aw)
                                | Inr (output, tags) \<Rightarrow>
                                    if td_NetworkMode output = NetworkModeBridge
                                    then (awf_next GetTaskState, aw)
                                    else
                                      let aw = aw\<lparr>ecsTaskDefinition := Some output,
                                                  ecsTaskDefinitionARN :=
                                                    ToString (td_TaskDefinitionArn output),
                                                  ecsTaskDefinitionTags := tags\<rparr>
                                      in if list_ex tag_of_agent tags
                                         then (awf_next GetTaskState, aw)
                                         else if list_ex image_of_agent (td_ContainerDefinitions output)
                                         then (awf_next GetTaskState, aw)
                                         else (awf_next GetServiceState, aw))"

section \<open>Service\<close>

text \<open>As for clusters, a listing error is replaced by the wrapped nil \<open>err\<close>.\<close>

definition loadServiceFromFlag ::
  "'w aws_env \<Rightarrow> ecs_flags \<Rightarrow> 'w add_workflow \<Rightarrow> awf \<times> 'w add_workflow" where
  "loadServiceFromFlag env fl aw =
     (if is_arn (ecsServiceFlag fl) then
        let (service, aw) = getServiceWithMatchingTask env (ecsServiceFlag fl) aw
        in case service of
             Inl err \<Rightarrow> (awf_error (WrapErr env (Some err) ''Error accessing service''), aw)
           | Inr service \<Rightarrow>
               (awf_next ConfirmState,
                aw\<lparr>ecsService := ToString (sv_ServiceName service), ecsServiceARN := ecsServiceFlag fl\<rparr>)
      else
        let err = None;
            (services, aw) = listECSServices env aw
        in case services of
             Inl listErr \<Rightarrow> (awf_error (WrapErr env err ''Error listing services''), aw)
           | Inr services \<Rightarrow>
               let (order, aw) = outside (Range env services) aw
               in case find_named (ecsServiceFlag fl) services order of
                    Some a \<Rightarrow>
                      (awf_next ConfirmState, aw\<lparr>ecsServiceARN := a, ecsService := ecsServiceFlag fl\<rparr>)
                  | None \<Rightarrow> (awf_error (Some (New_Error ''No service found with name'')), aw))"

definition getServiceState ::
  "'w aws_env \<Rightarrow> ecs_flags \<Rightarrow> 'w add_workflow \<Rightarrow> awf \<times> 'w add_workflow" where
  "getServiceState env fl aw =
     (let aw = reportStep ''Get ECS Service'' aw
      in if ecsServiceFlag fl \<noteq> '''' then loadServiceFromFlag env fl aw
         else
           let (services, aw) = listECSServices env aw
           in case services of
                Inl listErr \<Rightarrow>
                  if as_unauthorized listErr \<noteq> None then (awf_next GetClusterState, aw)
                  else (awf_error (Some (New_Error ''Error while listing ECS services'')), aw)
              | Inr services \<Rightarrow>
                  if services = fmempty then (awf_next GetTaskState, aw)
                  else
                    let choices = arn_choices services @ [goBackOption];
                        (answer, aw) = outside (AskSelect env
                          ''Which service should be updated to use the modified task definition?''
                          choices '''') aw
                    in case answer of
                         Inl e \<Rightarrow> (awf_error (Some e), aw)
                       | Inr serviceAnswer \<Rightarrow>
                           if serviceAnswer = goBackOption then (awf_next GetTaskState, aw)
                           else (awf_next ConfirmState,
                                 aw\<lparr>ecsServiceARN := serviceAnswer,
                                    ecsService := name_of services serviceAnswer\<rparr>))"

section \<open>Secrets and confirmation\<close>

definition getSecretState ::
  "'w aws_env \<Rightarrow> ecs_flags \<Rightarrow> 'w add_workflow \<Rightarrow> awf \<times> 'w add_workflow" where
  "getSecretState env fl aw =
     (let aw = reportStep ''Get Akita Secrets'' aw;
          ((state, err), aw) = checkAkitaSecrets env aw
      in case err of
           Some e \<Rightarrow>
             if as_unauthorized e \<noteq> None then (awf_next GetProfileState, aw)
             else (awf_error (WrapErr env (Some e)
                     ''Error while checking for the Akita credentials secret in AWS''), aw)
         | None \<Rightarrow> (awf_next ConfirmState, aw\<lparr>akitaSecrets := state\<rparr>))"

text \<open>\<open>showPlannedChanges\<close> prints, and reads the revision of the task definition while doing so.\<close>

definition showPlannedChanges_panics :: "'w add_workflow \<Rightarrow> bool" where
  "showPlannedChanges_panics aw \<longleftrightarrow> ecsTaskDefinition aw = None"

definition confirmState ::
  "'w aws_env \<Rightarrow> ecs_flags \<Rightarrow> 'w add_workflow \<Rightarrow> awf \<times> 'w add_workflow" where
  "confirmState env fl aw =
     (let aw = reportStep ''Confirm Changes'' aw
      in if showPlannedChanges_panics aw then (Awf_Panic, aw)
         else if dryRunFlag fl then (awf_done, reportStep ''Dry Run Completed'' aw)
         else
           let (answer, aw) = outside (AskConfirm env ''Proceed with the changes?'') aw;
               proceed = (case answer of Inl e \<Rightarrow> False | Inr b \<Rightarrow> b);
               aw = note_event (Confirmed proceed) aw
           in if \<not> proceed then (awf_done, reportStep ''Changes Rejected'' aw)
              else (awf_next ModifyTaskState, aw))"

definition fillFromFlags ::
  "'w aws_env \<Rightarrow> ecs_flags \<Rightarrow> 'w add_workflow \<Rightarrow> awf \<times> 'w add_workflow" where
  "fillFromFlags env fl aw =
     (let aw = reportStep ''Fill ECS Info From Flags'' aw;
          (err, aw) = createConfig env fl aw
      in if err \<noteq> None
         then (awf_error (Some (New_Error ''Could not find AWS credentials for profile'')), aw)
         else
           let aw = createClientWithDefaultRegion aw
           in if ecsClusterFlag fl = ''''
              then (awf_error (Some (UsageError ''Must specify an ECS cluster to operate on.'')), aw)
              else
                let (loaded, aw) = loadClusterFromFlag env fl aw
                in if awf_err loaded \<noteq> None then (awf_error (awf_err loaded), aw)
                else if ecsTaskDefinitionFlag fl = ''''
                then (awf_error (Some (UsageError ''Must specify an ECS task definition to modify.'')), aw)
                else
                  let (loaded, aw) = loadTaskFromFlag env fl aw
                  in if awf_err loaded \<noteq> None then (awf_error (awf_err loaded), aw)
                  else if ecsServiceFlag fl = ''''
                  then (awf_error (Some (UsageError ''Must specify an ECS service to modify.'')), aw)
                  else
                    let (loaded, aw) = loadServiceFromFlag env fl aw
                    in if awf_err loaded \<noteq> None then (awf_error (awf_err loaded), aw)
                    else
                      let ((state, err), aw) = checkAkitaSecrets env aw;
                          aw = aw\<lparr>akitaSecrets := state\<rparr>
                      in if err \<noteq> None then (awf_error err, aw)
                         else if showPlannedChanges_panics aw then (Awf_Panic, aw)
                         else if dryRunFlag fl then (awf_done, aw)
                         else (awf_next ModifyTaskState, aw))"

definition initState ::
  "'w aws_env \<Rightarrow> ecs_flags \<Rightarrow> 'w add_workflow \<Rightarrow> awf \<times> 'w add_workflow" where
  "initState env fl aw =
     (let aw = reportStep ''Start Add to ECS'' aw
      in if \<not> IsTerminal env (wf_world aw) then fillFromFlags env fl aw
         else (awf_next GetProfileState, aw))"

definition GetAPIKeyAndSecret :: "'w aws_env \<Rightarrow> string \<times> string" where
  "GetAPIKeyAndSecret env =
     (CredsGetString env ''default.api_key_id'', CredsGetString env ''default.api_key_secret'')"

definition addSecretState ::
  "'w aws_env \<Rightarrow> ecs_flags \<Rightarrow> 'w add_workflow \<Rightarrow> awf \<times> 'w add_workflow" where
  "addSecretState env fl aw =
     (let aw = reportStep ''Add AWS Secret'' aw;
          (key, secret) = GetAPIKeyAndSecret env;
          (secretErr, aw) =
            (if \<not> idExists (akitaSecrets aw) then
               let (r, aw) = createAkitaSecret env defaultKeyIDName key
                     ''Akita Software API key identifier, created for use in ECS.'' aw
               in case r of
                    Inl e \<Rightarrow> (Some e, aw)
                  | Inr a \<Rightarrow> (None, aw\<lparr>akitaSecrets := (akitaSecrets aw)\<lparr>idARN := a\<rparr>\<rparr>)
             else (None, aw));
          (secretErr, aw) =
            (if secretErr = None \<and> \<not> secretExists (akitaSecrets aw) then
               let (r, aw) = createAkitaSecret env defaultKeySecretName secret
                     ''Akita Software API key secret, created for use in ECS.'' aw
               in case r of
                    Inl e \<Rightarrow> (Some e, aw)
                  | Inr a \<Rightarrow> (None, aw\<lparr>akitaSecrets := (akitaSecrets aw)\<lparr>secretARN := a\<rparr>\<rparr>)
             else (secretErr, aw))
      in case secretErr of
           Some e \<Rightarrow>
             if as_unauthorized e \<noteq> None
             then (awf_error (Some (New_Error ''Failed to add an AWS secret due to insufficient permissions.'')), aw)
             else (awf_error (WrapErr env (Some e) ''Failed to add an AWS secret''), aw)
         | None \<Rightarrow> (awf_next ModifyTaskState, aw))"

section \<open>The agent's container\<close>

text \<open>\<open>strings.ToUpper\<close> on the ASCII letters.\<close>

definition upper_char :: "char \<Rightarrow> char" where
  "upper_char c = (if 97 \<le> (of_char c :: nat) \<and> (of_char c :: nat) \<le> 122
                   then char_of ((of_char c :: nat) - 32) else c)"

definition ToUpper :: "string \<Rightarrow> string" where
  "ToUpper s = map upper_char s"

definition GetPostmanAPIKeyAndEnvironment :: "'w aws_env \<Rightarrow> string \<times> string" where
  "GetPostmanAPIKeyAndEnvironment env =
     (let e = ToUpper (CredsGetString env ''default.postman_env'')
      in (CredsGetString env ''default.postman_api_key'', e))"

definition addOptToEnv :: "string \<Rightarrow> string option \<Rightarrow> (string option \<times> string option) list
    \<Rightarrow> (string option \<times> string option) list" where
  "addOptToEnv n valueOpt envs = (case valueOpt of None \<Rightarrow> envs | Some v \<Rightarrow> envs @ [(Some n, Some v)])"

definition flag_values :: "string \<Rightarrow> string list \<Rightarrow> string list" where
  "flag_values flag vs = concat (map (\<lambda>v. [flag, v]) vs)"

definition DefaultRateLimit :: rat where "DefaultRateLimit = 1000"

definition agent_entry_point :: "'w aws_env \<Rightarrow> ecs_flags \<Rightarrow> string list" where
  "agent_entry_point env fl =
     [''/postman-insights-agent'', ''apidump'', ''--project'', projectId fl]
     @ (if rateLimitFlag fl \<noteq> DefaultRateLimit
        then [''--rate-limit'', FormatFloat env (rateLimitFlag fl)] else [])
     @ (if filterFlag fl \<noteq> '''' then [''--filter'', filterFlag fl] else [])
     @ flag_values ''--host-allow'' (hostAllowlistFlag fl)
     @ flag_values ''--host-exclusions'' (hostExclusionsFlag fl)
     @ flag_values ''--interfaces'' (interfacesFlag fl)
     @ flag_values ''--path-allow'' (pathAllowlistFlag fl)
     @ flag_values ''--path-exclusions'' (pathExclusionsFlag fl)"

definition makeAgentContainerDefinition ::
  "'w aws_env \<Rightarrow> ecs_flags \<Rightarrow> string option \<Rightarrow> string option \<Rightarrow> string option \<Rightarrow> bool \<Rightarrow> aws_container" where
  "makeAgentContainerDefinition env fl region service family essential =
     (let (pKey, pEnv) = GetPostmanAPIKeyAndEnvironment env;
          envs = (if pEnv \<noteq> '''' then [(Some ''POSTMAN_ENV'', Some pEnv)] else []);
          envs = envs @ [(Some ''POSTMAN_API_KEY'', Some pKey)];
          envs = addOptToEnv ''POSTMAN_AWS_REGION'' region envs;
          envs = addOptToEnv ''POSTMAN_ECS_SERVICE'' service envs;
          envs = addOptToEnv ''POSTMAN_ECS_TASK'' family envs
      in \<lparr>c_Name = Some ''postman-insights-agent'', c_EntryPoint = agent_entry_point env fl,
          c_Environment = envs, c_Essential = Some essential, c_Image = Some postmanECRImage,
          c_MemoryReservation = None, c_Others = No_Blob\<rparr>)"

section \<open>Changing AWS\<close>

definition copy_definition :: "task_definition \<Rightarrow> aws_tag list \<Rightarrow> register_input" where
  "copy_definition prev tags =
     \<lparr>in_ContainerDefinitions = td_ContainerDefinitions prev, in_Family = td_Family prev,
      in_Cpu = td_Cpu prev, in_EphemeralStorage = td_EphemeralStorage prev,
      in_ExecutionRoleArn = td_ExecutionRoleArn prev,
      in_InferenceAccelerators = td_InferenceAccelerators prev, in_IpcMode = td_IpcMode prev,
      in_Memory = td_Memory prev, in_NetworkMode = td_NetworkMode prev, in_PidMode = td_PidMode prev,
      in_PlacementConstraints = td_PlacementConstraints prev,
      in_ProxyConfiguration = td_ProxyConfiguration prev,
      in_RequiresCompatibilities = td_RequiresCompatibilities prev,
      in_RuntimePlatform = td_RuntimePlatform prev, in_Tags = tags,
      in_TaskRoleArn = td_TaskRoleArn prev, in_Volumes = td_Volumes prev\<rparr>"

text \<open>The request that \<open>modifyTaskState\<close> builds before it calls AWS.\<close>

definition register_request ::
  "'w aws_env \<Rightarrow> ecs_flags \<Rightarrow> task_definition \<Rightarrow> 'w add_workflow \<Rightarrow> register_input" where
  "register_request env fl prev aw =
     (let input = copy_definition prev (ecsTaskDefinitionTags aw);
          input = input\<lparr>in_Tags := in_Tags input @ [akitaCreationTag]\<rparr>;
          agentContainer = makeAgentContainerDefinition env fl (Some (awsRegion aw))
            (Some (ecsService aw)) (Some (ecsTaskDefinitionFamily aw)) False;
          agentContainer = (if in_Memory input = None
            then agentContainer\<lparr>c_MemoryReservation := Some 300\<rparr> else agentContainer)
      in input\<lparr>in_ContainerDefinitions := in_ContainerDefinitions input @ [agentContainer]\<rparr>)"

definition modifyTaskState ::
  "'w aws_env \<Rightarrow> ecs_flags \<Rightarrow> 'w add_workflow \<Rightarrow> awf \<times> 'w add_workflow" where
  "modifyTaskState env fl aw =
     (let aw = reportStep ''Modify ECS Task Definition'' aw
      in case ecsTaskDefinition aw of
           None \<Rightarrow> (Awf_Panic, aw)
         | Some prev \<Rightarrow>
             let input = register_request env fl prev aw;
                 (output, aw) = outside (RegisterTaskDefinition env (ecsClient aw) input) aw
             in case output of
                  Inl err \<Rightarrow>
                    let aw = note_event (Registered input (Inl err)) aw
                    in if isUnauthorized err \<noteq> None
                       then (awf_error (Some (New_Error
                               ''Failed to update the ECS task definition due to insufficient permissions.'')), aw)
                       else (awf_error (WrapErr env (Some err) ''Error registering task definition''), aw)
                | Inr (td, tags) \<Rightarrow>
                    let aw = note_event (Registered input (Inr td)) aw
                    in (awf_next UpdateServiceState,
                        aw\<lparr>ecsTaskDefinition := Some td,
                           ecsTaskDefinitionARN := ToString (td_TaskDefinitionArn td),
                           ecsTaskDefinitionTags := tags\<rparr>))"

text \<open>
  The deferred function of \<open>updateServiceState\<close> prints a warning with the revision of the task
  definition when the result is an error.
\<close>

definition update_failed :: "ecs_error option \<Rightarrow> 'w add_workflow \<Rightarrow> awf \<times> 'w add_workflow" where
  "update_failed err aw =
     (if err \<noteq> None \<and> ecsTaskDefinition aw = None then (Awf_Panic, aw) else (awf_error err, aw))"

definition updateServiceState ::
  "'w aws_env \<Rightarrow> ecs_flags \<Rightarrow> 'w add_workflow \<Rightarrow> awf \<times> 'w add_workflow" where
  "updateServiceState env fl aw =
     (let aw = reportStep ''Update ECS Service'' aw;
          (err, aw) = outside (UpdateService env (ecsClient aw) (ecsServiceARN aw) (ecsClusterARN aw)
            (ecsTaskDefinitionARN aw)) aw;
          aw = note_event (Updated (ecsServiceARN aw) (ecsClusterARN aw) (ecsTaskDefinitionARN aw)
            (err = None)) aw
      in case err of
           Some e \<Rightarrow>
             let aw = telemetry_Error ''AWS ECS UpdateService'' aw
             in if isUnauthorized e \<noteq> None
                then update_failed (Some (New_Error
                       ''Failed to update the ECS service due to insufficient permissions.'')) aw
                else update_failed (WrapErr env (Some e) ''Error updating ECS service'') aw
         | None \<Rightarrow>
             let (tagErr, aw) = outside (TagResource env (ecsClient aw) (ecsServiceARN aw)
                   [akitaModificationTag]) aw;
                 aw = note_event (Tagged (ecsServiceARN aw) [akitaModificationTag]) aw
             in if tagErr = None then (awf_next WaitForRestartState, aw)
                else (awf_next WaitForRestartState, telemetry_Error ''AWS ECS TagResource'' aw))"

section \<open>Waiting for the deployment\<close>

definition RolloutInProgress :: string where "RolloutInProgress = ''IN_PROGRESS''"
definition RolloutFailed :: string where "RolloutFailed = ''FAILED''"

definition wait_failure :: ecs_error where
  "wait_failure = New_Error ''Cannot determine whether service was successfully upgraded.''"

text \<open>
  The loop over the ticks. A polling error is only printed, and \<open>continue\<close> goes to the loop
  condition with the zero deployment that \<open>GetDeploymentByID\<close> returned.
\<close>

fun wait_loop ::
  "nat \<Rightarrow> 'w aws_env \<Rightarrow> instant \<Rightarrow> string \<Rightarrow> aws_deployment \<Rightarrow> 'w add_workflow
    \<Rightarrow> (awf + aws_deployment) \<times> 'w add_workflow" where
  "wait_loop fuel env endTime deploymentID deployment aw =
     (if dp_RolloutState deployment \<noteq> RolloutInProgress then (Inr deployment, aw)
      else case fuel of
             0 \<Rightarrow> (Inl Awf_Waiting, aw)
           | Suc n \<Rightarrow>
               let (t, aw) = outside (Tick env) aw
               in if t > endTime
                  then (Inl (awf_error (Some wait_failure)), reportStep ''EC2 Service Deployment Timeout'' aw)
                  else
                    let ((deployment, err), aw) = GetDeploymentByID env (ecsServiceARN aw) deploymentID aw
                    in case err of
                         Some e \<Rightarrow> wait_loop n env endTime deploymentID deployment aw
                       | None \<Rightarrow>
                           let (t, aw) = outside (Now env) aw
                           in wait_loop n env endTime deploymentID deployment aw)"

declare wait_loop.simps [simp del]

definition waitForRestartState ::
  "nat \<Rightarrow> 'w aws_env \<Rightarrow> ecs_flags \<Rightarrow> 'w add_workflow \<Rightarrow> awf \<times> 'w add_workflow" where
  "waitForRestartState fuel env fl aw =
     (let aw = reportStep ''Wait for ECS Service'' aw;
          (startTime, aw) = outside (Now env) aw;
          endTime = startTime + minutes 5;
          (matching, aw) = GetDeploymentMatchingTask env (ecsServiceARN aw) aw
      in case matching of
           Inl err \<Rightarrow>
             if errors_Is err NoDeploymentFound \<and> ecsTaskDefinition aw = None then (Awf_Panic, aw)
             else (awf_error (Some wait_failure), aw)
         | Inr (deploymentID, deployment) \<Rightarrow>
             let (ticker, aw) = outside (NewTicker env (seconds 15)) aw;
                 (waited, aw) = wait_loop fuel env endTime deploymentID deployment aw
             in case waited of
                  Inl result \<Rightarrow> (result, aw)
                | Inr deployment \<Rightarrow>
                    if dp_RolloutState deployment = RolloutFailed then
                      let aw = telemetry_Error ''EC2 Deployment'' aw
                      in if ecsTaskDefinition aw = None then (Awf_Panic, aw)
                         else (awf_error (Some (New_Error ''The modified task failed to deploy.'')), aw)
                    else (awf_done, reportStep ''ECS Service Updated'' aw))"

section \<open>The workflow\<close>

definition run_state ::
  "nat \<Rightarrow> 'w aws_env \<Rightarrow> ecs_flags \<Rightarrow> wf_state \<Rightarrow> 'w add_workflow \<Rightarrow> awf \<times> 'w add_workflow" where
  "run_state fuel env fl s aw =
     (case s of
        InitState \<Rightarrow> initState env fl aw
      | GetProfileState \<Rightarrow> getProfileState env fl aw
      | GetRegionState \<Rightarrow> getRegionState env fl aw
      | FindClusterAndRegionState \<Rightarrow> findClusterAndRegionState env fl aw
      | GetClusterState \<Rightarrow> getClusterState env fl aw
      | GetTaskState \<Rightarrow> getTaskState env fl aw
      | GetServiceState \<Rightarrow> getServiceState env fl aw
      | GetSecretState \<Rightarrow> getSecretState env fl aw
      | ConfirmState \<Rightarrow> confirmState env fl aw
      | AddSecretState \<Rightarrow> addSecretState env fl aw
      | ModifyTaskState \<Rightarrow> modifyTaskState env fl aw
      | UpdateServiceState \<Rightarrow> updateServiceState env fl aw
      | WaitForRestartState \<Rightarrow> waitForRestartState fuel env fl aw)"

text \<open>
  The loop \<open>for nextState.IsSome() && err == nil\<close>, which nothing bounds: a run that has not ended
  when the fuel has is \<open>Run_Unfinished\<close>, as is one that panics \<open>Run_Panic\<close>.
\<close>

datatype run_result =
    Run_Ended "ecs_error option"
  | Run_Panic
  | Run_Unfinished

fun workflow_loop ::
  "nat \<Rightarrow> 'w aws_env \<Rightarrow> ecs_flags \<Rightarrow> wf_state \<Rightarrow> 'w add_workflow \<Rightarrow> run_result \<times> 'w add_workflow" where
  "workflow_loop 0 env fl s aw = (Run_Unfinished, aw)"
| "workflow_loop (Suc n) env fl s aw =
     (case run_state n env fl s aw of
        (Awf (Some s') None, aw') \<Rightarrow> workflow_loop n env fl s' aw'
      | (Awf None err, aw') \<Rightarrow> (Run_Ended err, aw')
      | (Awf (Some s') (Some err), aw') \<Rightarrow> (Run_Ended (Some err), aw')
      | (Awf_Panic, aw') \<Rightarrow> (Run_Panic, aw')
      | (Awf_Waiting, aw') \<Rightarrow> (Run_Unfinished, aw'))"

text \<open>What \<open>RunAddWorkflow\<close> returns: nothing, a usage error as it is, or an \<open>AkitaErr\<close>.\<close>

datatype add_result =
    Add_Ok
  | Add_Usage ecs_error
  | Add_AkitaErr ecs_error
  | Add_Panic
  | Add_Unfinished

definition RunAddWorkflow ::
  "nat \<Rightarrow> 'w aws_env \<Rightarrow> ecs_flags \<Rightarrow> 'w \<Rightarrow> add_result \<times> 'w add_workflow" where
  "RunAddWorkflow fuel env fl w =
     (case workflow_loop fuel env fl InitState (new_workflow w) of
        (Run_Panic, aw) \<Rightarrow> (Add_Panic, aw)
      | (Run_Unfinished, aw) \<Rightarrow> (Add_Unfinished, aw)
      | (Run_Ended None, aw) \<Rightarrow> (Add_Ok, note_event (Telemetry_Success ''Add to ECS'') aw)
      | (Run_Ended (Some err), aw) \<Rightarrow>
          if errors_Is err InterruptErr
          then (Add_Ok, reportStep ''User interrupted session'' aw)
          else if (case err of UsageError m \<Rightarrow> True | _ \<Rightarrow> False)
          then (Add_Usage err, telemetry_Error ''Add to ECS'' aw)
          else (Add_AkitaErr err, telemetry_Error ''Add to ECS'' aw))"

section \<open>The commands\<close>

text \<open>
  \<open>checkAPIKeyAndProjectID\<close> needs credentials, a project id that parses as a service id, and the
  backend to know the service; the last two are parameters.
\<close>

definition checkAPIKeyAndProjectID ::
  "'w aws_env \<Rightarrow> ecs_flags \<Rightarrow> (string \<Rightarrow> ecs_error + 'sid) \<Rightarrow> ('sid \<Rightarrow> ecs_error option) \<Rightarrow> ecs_error option" where
  "checkAPIKeyAndProjectID env fl parseID lookupService =
     (if fst (GetPostmanAPIKeyAndEnvironment env) = ''''
      then Some (New_Error ''Could not find a Postman API key to use'')
      else if projectId fl = '''' then Some (New_Error ''--project must be specified'')
      else case parseID (projectId fl) of
             Inl err \<Rightarrow> WrapErr env (Some err) ''failed to parse service ID''
           | Inr serviceID \<Rightarrow> lookupService serviceID)"

definition addAgentToECS ::
  "nat \<Rightarrow> 'w aws_env \<Rightarrow> ecs_flags \<Rightarrow> (string \<Rightarrow> ecs_error + 'sid) \<Rightarrow> ('sid \<Rightarrow> ecs_error option) \<Rightarrow> 'w
    \<Rightarrow> ecs_error + (add_result \<times> 'w add_workflow)" where
  "addAgentToECS fuel env fl parseID lookupService w =
     (case checkAPIKeyAndProjectID env fl parseID lookupService of
        Some err \<Rightarrow> Inl err
      | None \<Rightarrow> Inr (RunAddWorkflow fuel env fl w))"

definition cloudFormationContainer :: "'w aws_env \<Rightarrow> ecs_flags \<Rightarrow> aws_container" where
  "cloudFormationContainer env fl = makeAgentContainerDefinition env fl None None None False"

definition ecsTaskDefinitionForConsole :: "'w aws_env \<Rightarrow> ecs_flags \<Rightarrow> task_definition" where
  "ecsTaskDefinitionForConsole env fl =
     \<lparr>td_ContainerDefinitions = [makeAgentContainerDefinition env fl None None None True],
      td_Family = Some ''postman-insights-agent'', td_Cpu = Some ''512'',
      td_EphemeralStorage = No_Blob, td_ExecutionRoleArn = None,
      td_InferenceAccelerators = No_Blob, td_IpcMode = '''', td_Memory = Some ''512'',
      td_NetworkMode = ''host'', td_PidMode = '''', td_PlacementConstraints = No_Blob,
      td_ProxyConfiguration = No_Blob, td_RequiresCompatibilities = [''EC2''],
      td_RuntimePlatform = Aws_Blob ''X86_64/LINUX'', td_TaskRoleArn = None,
      td_Volumes = No_Blob, td_TaskDefinitionArn = None, td_Revision = 0\<rparr>"

text \<open>
  The two printing commands; the formatters of \<open>aws_utils\<close>, which marshal with third-party
  encoders, are parameters, and what is printed is the result.
\<close>

definition printCloudFormationFragment ::
  "'w aws_env \<Rightarrow> ecs_flags \<Rightarrow> (string \<Rightarrow> ecs_error + 'sid) \<Rightarrow> ('sid \<Rightarrow> ecs_error option) \<Rightarrow> bool
    \<Rightarrow> (aws_container \<Rightarrow> ecs_error + string) \<Rightarrow> (aws_container \<Rightarrow> ecs_error + string)
    \<Rightarrow> ecs_error option \<times> string list" where
  "printCloudFormationFragment env fl parseID lookupService yamlFlag toJSON toYAML =
     (case checkAPIKeyAndProjectID env fl parseID lookupService of
        Some err \<Rightarrow> (Some err, [])
      | None \<Rightarrow>
          let agentContainer = cloudFormationContainer env fl;
              formatter = (if yamlFlag then toYAML else toJSON)
          in case formatter agentContainer of
               Inl err \<Rightarrow> (WrapErr env (Some err) ''unable to format CloudFormation fragment'', [])
             | Inr result \<Rightarrow> (None, [result]))"

definition printECSTaskDefinition ::
  "'w aws_env \<Rightarrow> ecs_flags \<Rightarrow> (string \<Rightarrow> ecs_error + 'sid) \<Rightarrow> ('sid \<Rightarrow> ecs_error option)
    \<Rightarrow> (task_definition \<Rightarrow> ecs_error + string) \<Rightarrow> ecs_error option \<times> string list" where
  "printECSTaskDefinition env fl parseID lookupService toJSON =
     (case checkAPIKeyAndProjectID env fl parseID lookupService of
        Some err \<Rightarrow> (Some err, [])
      | None \<Rightarrow>
          (case toJSON (ecsTaskDefinitionForConsole env fl) of
             Inl err \<Rightarrow> (WrapErr env (Some err) ''unable to format task definition as JSON'', [])
           | Inr result \<Rightarrow> (None, [result])))"

section \<open>The changes made to AWS\<close>

fun is_change :: "ecs_event \<Rightarrow> bool" where
  "is_change (Registered i r) = True"
| "is_change (Updated s c t b) = True"
| "is_change (Tagged s t) = True"
| "is_change (Secret_Created n t) = True"
| "is_change _ = False"

definition changes :: "'w add_workflow \<Rightarrow> ecs_event list" where
  "changes aw = filter is_change (wf_log aw)"

definition before_changes :: "'w add_workflow \<Rightarrow> ecs_event list" where
  "before_changes aw = takeWhile (\<lambda>e. \<not> is_change e) (wf_log aw)"

lemma note_no_change: "is_note e \<Longrightarrow> \<not> is_change e"
  by (cases e) auto

lemma changes_note [simp]: "changes (note_event e aw) = changes aw @ (if is_change e then [e] else [])"
  by (simp add: changes_def note_event_def)

lemma changes_quiet: "quiet aw aw' \<Longrightarrow> changes aw' = changes aw"
  by (auto simp: quiet_def changes_def filter_empty_conv) (blast dest: note_no_change)

lemma changes_fields [simp]:
  "changes (aw\<lparr>awsProfile := a1\<rparr>) = changes aw" "changes (aw\<lparr>awsConfig := a2\<rparr>) = changes aw"
  "changes (aw\<lparr>awsRegion := a3\<rparr>) = changes aw" "changes (aw\<lparr>awsRegions := a4\<rparr>) = changes aw"
  "changes (aw\<lparr>ecsClient := a5\<rparr>) = changes aw" "changes (aw\<lparr>ecsCluster := a6\<rparr>) = changes aw"
  "changes (aw\<lparr>ecsClusterARN := a7\<rparr>) = changes aw"
  "changes (aw\<lparr>ecsTaskDefinitionFamily := a8\<rparr>) = changes aw"
  "changes (aw\<lparr>ecsTaskDefinitionTags := a9\<rparr>) = changes aw"
  "changes (aw\<lparr>ecsTaskDefinitionARN := b1\<rparr>) = changes aw"
  "changes (aw\<lparr>ecsTaskDefinition := b2\<rparr>) = changes aw" "changes (aw\<lparr>ecsService := b3\<rparr>) = changes aw"
  "changes (aw\<lparr>ecsServiceARN := b4\<rparr>) = changes aw" "changes (aw\<lparr>akitaSecrets := b5\<rparr>) = changes aw"
  "changes (createClient r aw) = changes aw" "changes (createClientWithDefaultRegion aw) = changes aw"
  by (simp_all add: changes_def createClient_def createClientWithDefaultRegion_def Let_def)

lemma definition_client [simp]: "ecsTaskDefinition (createClient r aw) = ecsTaskDefinition aw"
    "ecsTaskDefinition (createClientWithDefaultRegion aw) = ecsTaskDefinition aw"
    "ecsTaskDefinition (note_event e aw) = ecsTaskDefinition aw"
  by (simp_all add: createClient_def createClientWithDefaultRegion_def note_event_def Let_def)

lemma changes_createConfig: "createConfig env fl aw = (r, aw') \<Longrightarrow> changes aw' = changes aw"
  by (auto simp: createConfig_def Let_def split: prod.splits sum.splits if_splits
      dest!: quiet_outside changes_quiet)

lemma changes_regions: "listAWSRegions env aw = (r, aw') \<Longrightarrow> changes aw' = changes aw"
  by (auto simp: listAWSRegions_def Let_def split: prod.splits sum.splits if_splits
      dest!: quiet_outside changes_quiet)

lemma changes_search: "search_regions env rs m1 m2 aw = (r1, r2, aw') \<Longrightarrow> changes aw' = changes aw"
proof (induction env rs m1 m2 aw rule: search_regions.induct)
qed (auto simp: Let_def split: prod.splits sum.splits dest!: quiet_clusters changes_quiet)

lemmas changes_calls = quiet_calls [THEN changes_quiet] changes_createConfig changes_regions changes_search

text \<open>
  What may follow each state, as the comment above \<open>initState\<close> draws it: backtracking goes to an
  earlier choice, and nothing leads to the disabled secret states.
\<close>

fun successors :: "wf_state \<Rightarrow> wf_state list" where
  "successors InitState = [GetProfileState, ModifyTaskState]"
| "successors GetProfileState = [GetProfileState, GetRegionState]"
| "successors GetRegionState = [GetClusterState, FindClusterAndRegionState]"
| "successors FindClusterAndRegionState = [GetProfileState, GetTaskState]"
| "successors GetClusterState = [GetProfileState, GetRegionState, GetTaskState]"
| "successors GetTaskState = [GetProfileState, GetClusterState, GetTaskState, GetServiceState]"
| "successors GetServiceState = [GetClusterState, GetTaskState, ConfirmState]"
| "successors GetSecretState = [GetProfileState, ConfirmState]"
| "successors ConfirmState = [ModifyTaskState]"
| "successors AddSecretState = [ModifyTaskState]"
| "successors ModifyTaskState = [UpdateServiceState]"
| "successors UpdateServiceState = [WaitForRestartState]"
| "successors WaitForRestartState = []"

lemmas step_splits = prod.splits sum.splits option.splits if_splits

lemma loadCluster_step: "loadClusterFromFlag env fl aw = (Awf n err, aw') \<Longrightarrow>
    changes aw' = changes aw \<and> set_option n \<subseteq> {GetTaskState}"
  by (auto simp: loadClusterFromFlag_def awf_defs Let_def split: step_splits dest!: changes_calls)

lemma loadCluster_no_panic: "fst (loadClusterFromFlag env fl aw) \<noteq> Awf_Panic"
    "fst (loadClusterFromFlag env fl aw) \<noteq> Awf_Waiting"
  by (auto simp: loadClusterFromFlag_def awf_defs Let_def split: step_splits)

definition calm_step :: "wf_state \<Rightarrow> 'w add_workflow \<Rightarrow> awf \<times> 'w add_workflow \<Rightarrow> bool" where
  "calm_step s aw r \<longleftrightarrow> changes (snd r) = changes aw \<and>
     (case fst r of
        Awf n err \<Rightarrow> set_option n \<subseteq> set (successors s) \<and> (n = None \<or> err = None)
      | _ \<Rightarrow> False)"

lemma profile_step: "calm_step GetProfileState aw (getProfileState env fl aw)"
  by (auto simp: calm_step_def getProfileState_def awf_defs Let_def split: step_splits
      dest!: changes_calls)

lemma region_step: "calm_step GetRegionState aw (getRegionState env fl aw)"
  by (auto simp: calm_step_def getRegionState_def awf_defs Let_def split: step_splits
      dest!: changes_calls)

lemma find_step: "calm_step FindClusterAndRegionState aw (findClusterAndRegionState env fl aw)"
  by (auto simp: calm_step_def findClusterAndRegionState_def awf_defs Let_def split: step_splits
      dest!: changes_calls)

lemma cluster_step: "calm_step GetClusterState aw (getClusterState env fl aw)"
  by (auto simp: calm_step_def getClusterState_def loadClusterFromFlag_def awf_defs Let_def
      split: step_splits dest!: changes_calls)

lemma task_step: "calm_step GetTaskState aw (getTaskState env fl aw)"
  by (auto simp: calm_step_def getTaskState_def loadTaskFromFlag_def awf_defs Let_def
      split: step_splits dest!: changes_calls)

lemma service_step: "calm_step GetServiceState aw (getServiceState env fl aw)"
  by (auto simp: calm_step_def getServiceState_def loadServiceFromFlag_def awf_defs Let_def
      split: step_splits dest!: changes_calls)

lemmas definition_calls = quiet_calls [THEN quiet_fields(11)]

text \<open>
  The documented behaviour of \<open>errors.Wrap\<close>: it wraps an error, and returns nil for nil.
\<close>

definition wraps :: "'w aws_env \<Rightarrow> bool" where
  "wraps env \<longleftrightarrow> (\<forall>m. WrapErr env None m = None) \<and> (\<forall>e m. WrapErr env (Some e) m = Some (Wrapped e m))"

text \<open>
  A task definition fit to be modified. The images are only looked at when the task was chosen from
  the list, not when it was named by the flag.
\<close>

definition task_ok :: "ecs_flags \<Rightarrow> 'w add_workflow \<Rightarrow> bool" where
  "task_ok fl aw \<longleftrightarrow>
     (\<exists>td. ecsTaskDefinition aw = Some td \<and> td_NetworkMode td \<noteq> NetworkModeBridge \<and>
        (ecsTaskDefinitionFlag fl = '''' \<longrightarrow>
           \<not> list_ex tag_of_agent (ecsTaskDefinitionTags aw) \<and>
           \<not> list_ex image_of_agent (td_ContainerDefinitions td)))"

lemma task_flag_ok:
  assumes "ecsTaskDefinitionFlag fl \<noteq> ''''" and "wraps env"
    and "loadTaskFromFlag env fl aw = (r, aw')" and "awf_err r = None"
  shows "task_ok fl aw'"
  using assms
  by (auto simp: task_ok_def loadTaskFromFlag_def awf_defs wraps_def split: step_splits)

lemma task_chosen:
  assumes "getTaskState env fl aw = (Awf (Some GetServiceState) err, aw')" and "wraps env"
  shows "task_ok fl aw'"
proof (cases "ecsTaskDefinitionFlag fl = ''''")
  case False
  with assms have l: "loadTaskFromFlag env fl (note_event (Step ''Get ECS Task Definition'') aw)
      = (Awf (Some GetServiceState) err, aw')"
    by (simp add: getTaskState_def)
  then have "err = None"
    by (auto simp: loadTaskFromFlag_def awf_defs split: step_splits)
  with task_flag_ok [OF False assms(2) l] show ?thesis by simp
next
  case True
  with assms(1) show ?thesis
    by (auto simp: task_ok_def getTaskState_def awf_defs Let_def split: step_splits)
qed

lemma definition_service:
  "getServiceState env fl aw = (r, aw') \<Longrightarrow> ecsTaskDefinition aw' = ecsTaskDefinition aw
     \<and> ecsTaskDefinitionTags aw' = ecsTaskDefinitionTags aw"
  by (auto simp: getServiceState_def loadServiceFromFlag_def awf_defs Let_def note_event_def
      split: step_splits dest!: quiet_calls simp: quiet_fields)

lemma definition_loadService:
  "loadServiceFromFlag env fl aw = (r, aw') \<Longrightarrow> ecsTaskDefinition aw' = ecsTaskDefinition aw
     \<and> ecsTaskDefinitionTags aw' = ecsTaskDefinitionTags aw \<and> changes aw' = changes aw
     \<and> r \<noteq> Awf_Panic \<and> r \<noteq> Awf_Waiting"
  by (auto simp: loadServiceFromFlag_def awf_defs Let_def
      split: step_splits dest!: quiet_calls simp: quiet_fields changes_quiet)

lemma loadTask_step: "loadTaskFromFlag env fl aw = (r, aw') \<Longrightarrow> changes aw' = changes aw"
  by (auto simp: loadTaskFromFlag_def awf_defs Let_def split: step_splits dest!: changes_calls)

lemma loadCluster_changes: "loadClusterFromFlag env fl aw = (r, aw') \<Longrightarrow> changes aw' = changes aw"
  by (auto simp: loadClusterFromFlag_def awf_defs Let_def split: step_splits dest!: changes_calls)

lemma fill_step:
  assumes "wraps env" and fill: "fillFromFlags env fl aw = (r, aw')"
  shows "changes aw' = changes aw \<and> r \<noteq> Awf_Panic \<and> r \<noteq> Awf_Waiting \<and>
    (awf_state r = None \<or> r = Awf (Some ModifyTaskState) None \<and> task_ok fl aw' \<and> \<not> dryRunFlag fl)"
proof -
  define aw0 where "aw0 = note_event (Step ''Fill ECS Info From Flags'') aw"
  obtain err aw1 where c: "createConfig env fl aw0 = (err, aw1)" by fastforce
  obtain l1 aw2 where k: "loadClusterFromFlag env fl (createClientWithDefaultRegion aw1) = (l1, aw2)" by fastforce
  obtain l2 aw3 where t: "loadTaskFromFlag env fl aw2 = (l2, aw3)" by fastforce
  obtain l3 aw4 where s: "loadServiceFromFlag env fl aw3 = (l3, aw4)" by fastforce
  obtain state err2 aw5 where x: "checkAkitaSecrets env aw4 = ((state, err2), aw5)" by (metis surj_pair)
  have ch: "changes aw0 = changes aw" "changes aw1 = changes aw" "changes aw2 = changes aw"
    "changes aw3 = changes aw" "changes aw4 = changes aw" "changes aw5 = changes aw"
    using changes_createConfig [OF c] loadCluster_changes [OF k] loadTask_step [OF t]
      definition_loadService [OF s] quiet_secrets [OF x, THEN changes_quiet]
    by (simp_all add: aw0_def)
  have q: "quiet aw4 aw5" using x by (rule quiet_secrets)
  have ok: "task_ok fl (aw5\<lparr>akitaSecrets := state\<rparr>)"
    if "ecsTaskDefinitionFlag fl \<noteq> ''''" "awf_err l2 = None"
    using task_flag_ok [OF that(1) assms(1) t that(2)] definition_loadService [OF s]
    by (simp add: task_ok_def quiet_fields [OF q])
  then have def: "ecsTaskDefinition aw5 \<noteq> None"
    if "ecsTaskDefinitionFlag fl \<noteq> ''''" "awf_err l2 = None"
    using that by (auto simp: task_ok_def)
  show ?thesis
    using fill ok def ch
    unfolding fillFromFlags_def aw0_def [symmetric] Let_def c k t s x prod.case
    by (auto simp: awf_defs showPlannedChanges_panics_def simp flip: aw0_def
        split: if_splits)
qed

definition consent :: "'w aws_env \<Rightarrow> ecs_flags \<Rightarrow> 'w \<Rightarrow> 'w add_workflow \<Rightarrow> bool" where
  "consent env fl w0 aw \<longleftrightarrow>
     \<not> dryRunFlag fl \<and> (IsTerminal env w0 \<longrightarrow> Confirmed True \<in> set (before_changes aw))"

lemma consent_append: "wf_log aw' = wf_log aw @ l \<Longrightarrow> consent env fl w0 aw \<Longrightarrow> consent env fl w0 aw'"
  by (auto simp: consent_def before_changes_def takeWhile_append dest: set_takeWhileD)

lemma consent_note: "consent env fl w0 aw \<Longrightarrow> consent env fl w0 (note_event e aw)"
  by (rule consent_append [of _ aw "[e]"]) (simp_all add: note_event_def)

lemma consent_quiet: "quiet aw aw' \<Longrightarrow> consent env fl w0 aw \<Longrightarrow> consent env fl w0 aw'"
  by (auto simp: quiet_def intro: consent_append)

lemma consent_fields [simp]:
  "consent env fl w0 (aw\<lparr>ecsTaskDefinition := a\<rparr>) = consent env fl w0 aw"
  "consent env fl w0 (aw\<lparr>ecsTaskDefinitionARN := b\<rparr>) = consent env fl w0 aw"
  "consent env fl w0 (aw\<lparr>ecsTaskDefinitionTags := c\<rparr>) = consent env fl w0 aw"
  by (simp_all add: consent_def before_changes_def)

lemma before_no_changes: "changes aw = [] \<Longrightarrow> before_changes aw = wf_log aw"
  by (auto simp: changes_def before_changes_def filter_empty_conv takeWhile_eq_all_conv)

lemma confirm_step:
  assumes "confirmState env fl aw = (r, aw')" and "task_ok fl aw" and "changes aw = []"
  shows "changes aw' = [] \<and> r \<noteq> Awf_Panic \<and> r \<noteq> Awf_Waiting \<and>
    (awf_state r = None \<or> r = Awf (Some ModifyTaskState) None \<and> task_ok fl aw' \<and> consent env fl w0 aw')"
proof -
  define aw1 where "aw1 = note_event (Step ''Confirm Changes'') aw"
  have here: "task_ok fl aw1" "changes aw1 = []" "ecsTaskDefinition aw1 \<noteq> None"
    using assms(2,3) by (simp_all add: aw1_def) (auto simp: task_ok_def note_event_def)
  obtain answer aw2 where o: "outside (AskConfirm env ''Proceed with the changes?'') aw1 = (answer, aw2)"
    by fastforce
  have q: "quiet aw1 aw2" using o by (rule quiet_outside)
  have ok: "task_ok fl (note_event (Confirmed True) aw2)"
    using here(1) by (simp add: task_ok_def note_event_def quiet_fields [OF q])
  have yes: "consent env fl w0 (note_event (Confirmed True) aw2)" if "\<not> dryRunFlag fl"
    using that here(2) changes_quiet [OF q]
    by (simp add: consent_def before_no_changes) (simp add: note_event_def)
  show ?thesis
    using assms(1) here ok yes changes_quiet [OF q] o
    by (auto simp: confirmState_def awf_defs showPlannedChanges_panics_def Let_def simp flip: aw1_def
        split: if_splits sum.splits)
qed

text \<open>What is registered: the previous definition, the creation tag and one agent container.\<close>

definition extends_definition :: "ecs_flags \<Rightarrow> 'w add_workflow \<Rightarrow> register_input \<Rightarrow> bool" where
  "extends_definition fl aw i \<longleftrightarrow>
     (\<exists>td c. ecsTaskDefinition aw = Some td \<and>
        i = (copy_definition td (ecsTaskDefinitionTags aw @ [akitaCreationTag]))
              \<lparr>in_ContainerDefinitions := td_ContainerDefinitions td @ [c]\<rparr> \<and>
        c_Image c = Some postmanECRImage \<and> c_Essential c = Some False \<and>
        (td_Memory td = None \<longrightarrow> c_MemoryReservation c \<noteq> None))"

lemma register_request_extends:
  "ecsTaskDefinition aw = Some td \<Longrightarrow> extends_definition fl aw (register_request env fl td aw)"
  unfolding extends_definition_def
  by (rule exI [of _ td], rule exI [of _ "last (in_ContainerDefinitions (register_request env fl td aw))"])
    (simp add: register_request_def copy_definition_def makeAgentContainerDefinition_def Let_def
      split: prod.splits)

lemma register_request_note [simp]:
  "register_request env fl td (note_event e aw) = register_request env fl td aw"
  by (simp add: register_request_def note_event_def)

lemma modify_step:
  assumes "wraps env" and "modifyTaskState env fl aw = (r, aw')"
    and "ecsTaskDefinition aw \<noteq> None" and "changes aw = []" and "consent env fl w0 aw"
  shows "consent env fl w0 aw' \<and>
    (\<exists>i. extends_definition fl aw i \<and>
       ((\<exists>e err. changes aw' = [Registered i (Inl e)] \<and> r = Awf None (Some err)) \<or>
        (\<exists>td. changes aw' = [Registered i (Inr td)] \<and> r = Awf (Some UpdateServiceState) None \<and>
           ecsTaskDefinition aw' = Some td \<and> ecsTaskDefinitionARN aw' = ToString (td_TaskDefinitionArn td))))"
proof -
  define aw1 where "aw1 = note_event (Step ''Modify ECS Task Definition'') aw"
  obtain prev where prev: "ecsTaskDefinition aw1 = Some prev" "ecsTaskDefinition aw = Some prev"
    using assms(3) by (auto simp: aw1_def)
  define i where "i = register_request env fl prev aw1"
  have ext: "extends_definition fl aw i"
    using register_request_extends [OF prev(2)] by (simp add: i_def aw1_def)
  obtain out aw2 where o: "outside (RegisterTaskDefinition env (ecsClient aw1) i) aw1 = (out, aw2)"
    by fastforce
  have ch: "changes aw2 = []" "consent env fl w0 aw2"
    using assms(4) changes_quiet [OF quiet_outside [OF o]]
      consent_quiet [OF quiet_outside [OF o]
        consent_note [OF assms(5), of "Step ''Modify ECS Task Definition''", folded aw1_def]]
    by (simp_all add: aw1_def)
  have run: "(r, aw') = (case out of
       Inl err \<Rightarrow>
         let aw = note_event (Registered i (Inl err)) aw2
         in if isUnauthorized err \<noteq> None
            then (awf_error (Some (New_Error
                    ''Failed to update the ECS task definition due to insufficient permissions.'')), aw)
            else (awf_error (WrapErr env (Some err) ''Error registering task definition''), aw)
     | Inr (td, tags) \<Rightarrow>
         let aw = note_event (Registered i (Inr td)) aw2
         in (awf_next UpdateServiceState,
             aw\<lparr>ecsTaskDefinition := Some td, ecsTaskDefinitionARN := ToString (td_TaskDefinitionArn td),
                ecsTaskDefinitionTags := tags\<rparr>))"
    using assms(2) prev o
    by (simp add: modifyTaskState_def Let_def flip: aw1_def i_def)
  show ?thesis
  proof (cases out)
    case (Inl err)
    with run assms(1) ch have "consent env fl w0 aw'" "changes aw' = [Registered i (Inl err)]"
      "\<exists>err. r = Awf None (Some err)"
      by (auto simp: awf_defs wraps_def consent_note Let_def split: if_splits)
    with ext show ?thesis by blast
  next
    case (Inr x)
    then obtain td tags where "out = Inr (td, tags)" by (cases x) auto
    with run ch have "consent env fl w0 aw'" "changes aw' = [Registered i (Inr td)]"
      "r = Awf (Some UpdateServiceState) None" "ecsTaskDefinition aw' = Some td"
      "ecsTaskDefinitionARN aw' = ToString (td_TaskDefinitionArn td)"
      by (auto simp: awf_defs consent_note Let_def)
    with ext show ?thesis by blast
  qed
qed

lemma update_step:
  assumes "wraps env" and up: "updateServiceState env fl aw = (r, aw')"
    and "ecsTaskDefinition aw \<noteq> None" and "consent env fl w0 aw"
  shows "consent env fl w0 aw' \<and>
    ((\<exists>s c err. changes aw' = changes aw @ [Updated s c (ecsTaskDefinitionARN aw) False] \<and>
        r = Awf None (Some err)) \<or>
     (\<exists>s c. changes aw' = changes aw @ [Updated s c (ecsTaskDefinitionARN aw) True, Tagged s [akitaModificationTag]] \<and>
        r = Awf (Some WaitForRestartState) None \<and> ecsTaskDefinition aw' \<noteq> None))"
proof -
  define aw1 where "aw1 = note_event (Step ''Update ECS Service'') aw"
  have same: "ecsTaskDefinition aw1 = ecsTaskDefinition aw" "ecsTaskDefinitionARN aw1 = ecsTaskDefinitionARN aw"
    "changes aw1 = changes aw" "consent env fl w0 aw1"
    using assms(4) by (auto simp: aw1_def consent_note) (simp add: note_event_def)
  obtain err aw2 where u: "outside (UpdateService env (ecsClient aw1) (ecsServiceARN aw1)
      (ecsClusterARN aw1) (ecsTaskDefinitionARN aw1)) aw1 = (err, aw2)" by fastforce
  have q: "quiet aw1 aw2" using u by (rule quiet_outside)
  define aw3 where "aw3 = note_event (Updated (ecsServiceARN aw2) (ecsClusterARN aw2)
      (ecsTaskDefinitionARN aw2) (err = None)) aw2"
  obtain tagErr aw4 where t: "outside (TagResource env (ecsClient aw3) (ecsServiceARN aw3)
      [akitaModificationTag]) aw3 = (tagErr, aw4)" by fastforce
  have q4: "quiet aw3 aw4" using t by (rule quiet_outside)
  have arn: "ecsServiceARN aw3 = ecsServiceARN aw1"
    by (simp add: aw3_def note_event_def quiet_fields [OF q])
  have c3: "changes aw3 = changes aw @ [Updated (ecsServiceARN aw1) (ecsClusterARN aw1)
      (ecsTaskDefinitionARN aw) (err = None)]" and co3: "consent env fl w0 aw3"
    and d3: "ecsTaskDefinition aw3 \<noteq> None"
    using same assms(3) changes_quiet [OF q] consent_quiet [OF q]
    by (auto simp: aw3_def consent_note quiet_fields [OF q])
  have c4: "changes aw4 = changes aw3" "consent env fl w0 aw4" "ecsTaskDefinition aw4 \<noteq> None"
    using changes_quiet [OF q4] consent_quiet [OF q4 co3] d3 by (auto simp: quiet_fields [OF q4])
  have run: "(r, aw') = (case err of
      Some e \<Rightarrow>
        if isUnauthorized e \<noteq> None
        then update_failed (Some (New_Error
               ''Failed to update the ECS service due to insufficient permissions.''))
             (telemetry_Error ''AWS ECS UpdateService'' aw3)
        else update_failed (WrapErr env (Some e) ''Error updating ECS service'')
             (telemetry_Error ''AWS ECS UpdateService'' aw3)
    | None \<Rightarrow>
        (awf_next WaitForRestartState,
         if tagErr = None then note_event (Tagged (ecsServiceARN aw3) [akitaModificationTag]) aw4
         else telemetry_Error ''AWS ECS TagResource''
                (note_event (Tagged (ecsServiceARN aw3) [akitaModificationTag]) aw4)))"
    using up [unfolded updateServiceState_def Let_def, folded aw1_def, unfolded u prod.case,
        folded aw3_def, unfolded t prod.case quiet_fields(13) [OF q4]]
    by (cases err; cases tagErr) simp_all
  show ?thesis
  proof (cases err)
    case None
    with run c3 c4 have "consent env fl w0 aw'" "r = Awf (Some WaitForRestartState) None"
      "ecsTaskDefinition aw' \<noteq> None"
      "changes aw' = changes aw @ [Updated (ecsServiceARN aw1) (ecsClusterARN aw1) (ecsTaskDefinitionARN aw) True,
         Tagged (ecsServiceARN aw1) [akitaModificationTag]]"
      by (auto simp: awf_defs consent_note arn split: if_splits)
    then show ?thesis by blast
  next
    case (Some e)
    with run c3 co3 d3 assms(1) have "consent env fl w0 aw'" "\<exists>err. r = Awf None (Some err)"
      "changes aw' = changes aw @ [Updated (ecsServiceARN aw1) (ecsClusterARN aw1) (ecsTaskDefinitionARN aw) False]"
      by (auto simp: awf_defs consent_note update_failed_def wraps_def split: if_splits)
    then show ?thesis by blast
  qed
qed

lemma quiet_wait: "wait_loop fuel env endTime d dp aw = (r, aw') \<Longrightarrow> quiet aw aw'"
proof (induction fuel arbitrary: dp aw r)
  case 0
  then show ?case by (auto simp: wait_loop.simps split: if_splits)
next
  case (Suc n)
  obtain t aw1 where t: "outside (Tick env) aw = (t, aw1)" by fastforce
  obtain dp' err aw2 where g: "GetDeploymentByID env (ecsServiceARN aw1) d aw1 = ((dp', err), aw2)"
    by (metis surj_pair)
  obtain t' aw3 where n: "outside (Now env) aw2 = (t', aw3)" by fastforce
  have q: "quiet aw aw1" "quiet aw aw2" "quiet aw aw3"
      "quiet aw (note_event (Step ''EC2 Service Deployment Timeout'') aw1)"
    using quiet_outside [OF t] quiet_deploymentByID [OF g] quiet_outside [OF n]
      quiet_note [of "Step ''EC2 Service Deployment Timeout''" aw1]
    by (auto intro: quiet_trans)
  from Suc.prems t g n q show ?case
    by (subst (asm) wait_loop.simps)
      (auto split: if_splits option.splits intro: quiet_trans dest: Suc.IH)
qed

lemma wait_result: "wait_loop fuel env endTime d dp aw = (Inl x, aw') \<Longrightarrow>
    x = Awf_Waiting \<or> x = awf_error (Some wait_failure)"
proof (induction fuel arbitrary: dp aw)
  case 0
  then show ?case by (auto simp: wait_loop.simps split: if_splits)
next
  case (Suc n)
  from Suc.prems show ?case
    by (subst (asm) wait_loop.simps)
      (auto split: if_splits option.splits prod.splits dest: Suc.IH)
qed

lemma wait_step:
  assumes "waitForRestartState fuel env fl aw = (r, aw')" and "ecsTaskDefinition aw \<noteq> None"
  shows "quiet aw aw' \<and> (r = Awf_Waiting \<or> (\<exists>err. r = Awf None err))"
proof -
  define aw1 where "aw1 = note_event (Step ''Wait for ECS Service'') aw"
  obtain t aw2 where n: "outside (Now env) aw1 = (t, aw2)" by fastforce
  obtain m aw3 where g: "GetDeploymentMatchingTask env (ecsServiceARN aw2) aw2 = (m, aw3)" by fastforce
  have "quiet aw aw1" by (simp add: aw1_def quiet_note)
  then have q: "quiet aw aw3"
    using quiet_outside [OF n] quiet_deploymentMatching [OF g] by (blast intro: quiet_trans)
  have q': "quiet aw aw4 \<and> ecsTaskDefinition aw4 \<noteq> None \<and>
      (\<forall>y. x = Inl y \<longrightarrow> y = Awf_Waiting \<or> y = awf_error (Some wait_failure))"
    if tick: "outside (NewTicker env p) aw3 = (u, awt)" and that: "wait_loop fuel env e d dp awt = (x, aw4)"
    for p u awt e d dp x aw4
  proof -
    have "quiet aw aw4"
      using q quiet_outside [OF tick] quiet_wait [OF that] by (blast intro: quiet_trans)
    with assms(2) wait_result [of fuel env e d dp awt _ aw4] that show ?thesis
      by (auto simp: quiet_fields)
  qed
  show ?thesis
    using assms(1) n g q
    by (auto simp: waitForRestartState_def Let_def awf_defs assms(2) quiet_fields [OF q] simp flip: aw1_def
        split: sum.splits prod.splits if_splits dest!: q'
        intro: quiet_trans [OF _ quiet_note])
qed

section \<open>The invariant of the workflow\<close>

text \<open>
  The changes recorded so far, state by state: none before \<open>modifyTaskState\<close>; the registered
  definition before \<open>updateServiceState\<close>; all three before \<open>waitForRestartState\<close>. \<open>w0\<close> is the world
  at the start.
\<close>

definition choosing :: "'w aws_env \<Rightarrow> 'w \<Rightarrow> 'w add_workflow \<Rightarrow> bool" where
  "choosing env w0 aw \<longleftrightarrow> changes aw = [] \<and> IsTerminal env w0"

definition good_input :: "ecs_flags \<Rightarrow> register_input \<Rightarrow> bool" where
  "good_input fl i \<longleftrightarrow> (\<exists>aw. task_ok fl (aw :: unit add_workflow) \<and> extends_definition fl aw i)"

fun wf_inv :: "'w aws_env \<Rightarrow> ecs_flags \<Rightarrow> 'w \<Rightarrow> wf_state \<Rightarrow> 'w add_workflow \<Rightarrow> bool" where
  "wf_inv env fl w0 InitState aw \<longleftrightarrow> changes aw = [] \<and> wf_world aw = w0"
| "wf_inv env fl w0 GetServiceState aw \<longleftrightarrow> choosing env w0 aw \<and> task_ok fl aw"
| "wf_inv env fl w0 ConfirmState aw \<longleftrightarrow> choosing env w0 aw \<and> task_ok fl aw"
| "wf_inv env fl w0 GetSecretState aw \<longleftrightarrow> False"
| "wf_inv env fl w0 AddSecretState aw \<longleftrightarrow> False"
| "wf_inv env fl w0 ModifyTaskState aw \<longleftrightarrow> changes aw = [] \<and> task_ok fl aw \<and> consent env fl w0 aw"
| "wf_inv env fl w0 UpdateServiceState aw \<longleftrightarrow> consent env fl w0 aw \<and>
     (\<exists>i td. good_input fl i \<and> changes aw = [Registered i (Inr td)] \<and> ecsTaskDefinition aw \<noteq> None \<and>
        ecsTaskDefinitionARN aw = ToString (td_TaskDefinitionArn td))"
| "wf_inv env fl w0 WaitForRestartState aw \<longleftrightarrow> consent env fl w0 aw \<and> ecsTaskDefinition aw \<noteq> None \<and>
     (\<exists>i td s c. good_input fl i \<and>
        changes aw = [Registered i (Inr td), Updated s c (ToString (td_TaskDefinitionArn td)) True,
                      Tagged s [akitaModificationTag]])"
| "wf_inv env fl w0 s aw \<longleftrightarrow> choosing env w0 aw"

text \<open>The same for a workflow that has ended, in whatever state it did.\<close>

inductive orderly :: "ecs_flags \<Rightarrow> ecs_event list \<Rightarrow> bool" for fl where
  nothing: "orderly fl []"
| refused: "good_input fl i \<Longrightarrow> orderly fl [Registered i (Inl e)]"
| registered: "good_input fl i \<Longrightarrow> orderly fl [Registered i (Inr td)]"
| not_updated: "good_input fl i \<Longrightarrow>
    orderly fl [Registered i (Inr td), Updated s c (ToString (td_TaskDefinitionArn td)) False]"
| finished: "good_input fl i \<Longrightarrow>
    orderly fl [Registered i (Inr td), Updated s c (ToString (td_TaskDefinitionArn td)) True,
                Tagged s [akitaModificationTag]]"

definition wf_end :: "'w aws_env \<Rightarrow> ecs_flags \<Rightarrow> 'w \<Rightarrow> 'w add_workflow \<Rightarrow> bool" where
  "wf_end env fl w0 aw \<longleftrightarrow> orderly fl (changes aw) \<and> (changes aw \<noteq> [] \<longrightarrow> consent env fl w0 aw)"

lemma good_input_any:
  "task_ok fl (aw :: 'w add_workflow) \<Longrightarrow> extends_definition fl aw i \<Longrightarrow> good_input fl i"
  unfolding good_input_def
  by (rule exI [of _ "(new_workflow ())\<lparr>ecsTaskDefinition := ecsTaskDefinition aw,
      ecsTaskDefinitionTags := ecsTaskDefinitionTags aw\<rparr>"])
    (simp add: task_ok_def extends_definition_def)

lemma inv_end: "wf_inv env fl w0 s aw \<Longrightarrow> wf_end env fl w0 aw"
  by (cases s) (auto simp: wf_end_def choosing_def intro: orderly.intros)

text \<open>How a step may go: to a successor that satisfies the invariant, or to a proper end.\<close>

definition good_step :: "'w aws_env \<Rightarrow> ecs_flags \<Rightarrow> 'w \<Rightarrow> wf_state \<Rightarrow> awf \<times> 'w add_workflow \<Rightarrow> bool" where
  "good_step env fl w0 s r \<longleftrightarrow>
     (case fst r of
        Awf (Some s') err \<Rightarrow> err = None \<and> s' \<in> set (successors s) \<and> wf_inv env fl w0 s' (snd r)
      | Awf None err \<Rightarrow> wf_end env fl w0 (snd r)
      | Awf_Waiting \<Rightarrow> wf_end env fl w0 (snd r)
      | Awf_Panic \<Rightarrow> False)"

lemma choosing_step:
  assumes "calm_step s aw r" and "choosing env w0 aw"
    and "\<And>s' aw'. r = (Awf (Some s') None, aw') \<Longrightarrow> s' \<in> set (successors s) \<Longrightarrow> choosing env w0 aw' \<Longrightarrow>
      wf_inv env fl w0 s' aw'"
  shows "good_step env fl w0 s r"
proof -
  obtain n err aw' where r: "r = (Awf n err, aw')"
    using assms(1) by (cases r; cases "fst r") (auto simp: calm_step_def)
  have "changes aw' = changes aw" "set_option n \<subseteq> set (successors s)" "n = None \<or> err = None"
    using assms(1) by (auto simp: calm_step_def r)
  with assms(2,3) show ?thesis
    by (cases n) (auto simp: good_step_def r choosing_def wf_end_def intro: orderly.intros)
qed

lemma init_step:
  assumes "wraps env" and "wf_inv env fl w0 InitState aw"
  shows "good_step env fl w0 InitState (initState env fl aw)"
proof -
  define aw1 where "aw1 = note_event (Step ''Start Add to ECS'') aw"
  have w: "wf_world aw1 = w0" "changes aw1 = []"
    using assms(2) by (simp_all add: aw1_def) (simp add: note_event_def)
  show ?thesis
  proof (cases "IsTerminal env w0")
    case True
    with w show ?thesis
      by (simp add: initState_def good_step_def awf_defs choosing_def flip: aw1_def)
  next
    case False
    obtain r aw' where f: "fillFromFlags env fl aw1 = (r, aw')" by fastforce
    from fill_step [OF assms(1) f] w False show ?thesis
      by (cases r) (auto simp: initState_def good_step_def f consent_def wf_end_def
          split: option.splits intro: orderly.intros simp flip: aw1_def)
  qed
qed

lemma run_state_good:
  assumes "wraps env" and inv: "wf_inv env fl w0 s aw"
  shows "good_step env fl w0 s (run_state fuel env fl s aw)"
proof (cases s)
  case InitState
  with assms show ?thesis by (simp add: run_state_def init_step del: wf_inv.simps)
next
  case GetProfileState
  with inv show ?thesis
    by (auto simp: run_state_def intro!: choosing_step [OF profile_step])
next
  case GetRegionState
  with inv show ?thesis
    by (auto simp: run_state_def intro!: choosing_step [OF region_step])
next
  case FindClusterAndRegionState
  with inv show ?thesis
    by (auto simp: run_state_def intro!: choosing_step [OF find_step])
next
  case GetClusterState
  with inv show ?thesis
    by (auto simp: run_state_def intro!: choosing_step [OF cluster_step])
next
  case GetTaskState
  with inv show ?thesis
    by (auto simp: run_state_def intro!: choosing_step [OF task_step] task_chosen [OF _ assms(1)])
next
  case GetServiceState
  have "task_ok fl aw'" if "getServiceState env fl aw = (r, aw')" "task_ok fl aw" for r aw'
    using that(2) definition_service [OF that(1)] by (simp add: task_ok_def)
  with GetServiceState inv show ?thesis
    by (auto simp: run_state_def intro!: choosing_step [OF service_step])
next
  case ConfirmState
  obtain r aw' where c: "confirmState env fl aw = (r, aw')" by fastforce
  from ConfirmState inv confirm_step [OF c, of w0] show ?thesis
    by (cases r) (auto simp: run_state_def c good_step_def choosing_def wf_end_def
        split: option.splits intro: orderly.intros)
next
  case ModifyTaskState
  obtain r aw' where m: "modifyTaskState env fl aw = (r, aw')" by fastforce
  have ok: "task_ok fl aw" "changes aw = []" "consent env fl w0 aw"
    using inv ModifyTaskState by auto
  then have "ecsTaskDefinition aw \<noteq> None" by (auto simp: task_ok_def)
  from modify_step [OF assms(1) m this ok(2,3)] obtain i where
    i: "consent env fl w0 aw'" "extends_definition fl aw i"
      "(\<exists>e err. changes aw' = [Registered i (Inl e)] \<and> r = Awf None (Some err)) \<or>
        (\<exists>td. changes aw' = [Registered i (Inr td)] \<and> r = Awf (Some UpdateServiceState) None \<and>
           ecsTaskDefinition aw' = Some td \<and> ecsTaskDefinitionARN aw' = ToString (td_TaskDefinitionArn td))"
    by blast
  have "good_input fl i" using good_input_any [OF ok(1) i(2)] .
  with i(1,3) ModifyTaskState show ?thesis
    by (auto simp: run_state_def m good_step_def wf_end_def intro: orderly.intros)
next
  case UpdateServiceState
  obtain r aw' where u: "updateServiceState env fl aw = (r, aw')" by fastforce
  obtain i td where ok: "consent env fl w0 aw" "good_input fl i" "changes aw = [Registered i (Inr td)]"
      "ecsTaskDefinition aw \<noteq> None" "ecsTaskDefinitionARN aw = ToString (td_TaskDefinitionArn td)"
    using inv UpdateServiceState by auto
  from update_step [OF assms(1) u ok(4,1)] ok(2,3,5) UpdateServiceState show ?thesis
    by (auto simp: run_state_def u good_step_def wf_end_def intro: orderly.intros)
next
  case WaitForRestartState
  obtain r aw' where w: "waitForRestartState fuel env fl aw = (r, aw')" by fastforce
  have def: "ecsTaskDefinition aw \<noteq> None" and "wf_end env fl w0 aw"
    using inv WaitForRestartState inv_end [OF inv] by auto
  with wait_step [OF w def] have "wf_end env fl w0 aw'"
    by (auto simp: wf_end_def changes_quiet intro: consent_quiet)
  with wait_step [OF w def] WaitForRestartState show ?thesis
    by (auto simp: run_state_def w good_step_def)
qed (use inv in auto)

lemma workflow_good:
  assumes "wraps env" and "wf_inv env fl w0 s aw" and "workflow_loop fuel env fl s aw = (r, aw')"
  shows "wf_end env fl w0 aw' \<and> r \<noteq> Run_Panic"
  using assms(2,3)
proof (induction fuel arbitrary: s aw)
  case 0
  then show ?case by (auto dest: inv_end)
next
  case (Suc n)
  obtain a aw1 where run: "run_state n env fl s aw = (a, aw1)" by fastforce
  from run_state_good [OF assms(1) Suc.prems(1), of n] have g: "good_step env fl w0 s (a, aw1)"
    by (simp add: run)
  show ?case
  proof (cases a)
    case (Awf nxt err)
    with g Suc.prems run show ?thesis
      by (cases nxt) (auto simp: good_step_def dest: Suc.IH)
  qed (use g Suc.prems run in \<open>auto simp: good_step_def\<close>)
qed


lemma run_end:
  assumes "wraps env" and "RunAddWorkflow fuel env fl w = (r, aw)"
  shows "wf_end env fl w aw \<and> r \<noteq> Add_Panic"
proof -
  obtain x aw1 where l: "workflow_loop fuel env fl InitState (new_workflow w) = (x, aw1)" by fastforce
  have "wf_inv env fl w InitState (new_workflow w)"
    by (simp add: new_workflow_def changes_def)
  from workflow_good [OF assms(1) this l] have e: "wf_end env fl w aw1" "x \<noteq> Run_Panic" by auto
  have note_end: "wf_end env fl w (note_event ev aw1)" if "\<not> is_change ev" for ev
    using e(1) that by (auto simp: wf_end_def consent_note)
  from assms(2) l e note_end show ?thesis
    by (auto simp: RunAddWorkflow_def split: run_result.splits option.splits if_splits)
qed

section \<open>Properties of the workflow\<close>

text \<open>
  C19: AWS is never changed without consent. Whatever AWS and the user answer, a run that asks AWS for
  any change is not a dry run and, at a terminal, the user had confirmed before the first of them.
\<close>

theorem no_change_without_consent:
  assumes "wraps env" and "RunAddWorkflow fuel env fl w = (r, aw)" and "changes aw \<noteq> []"
  shows "\<not> dryRunFlag fl \<and> (IsTerminal env w \<longrightarrow> Confirmed True \<in> set (before_changes aw))"
  using run_end [OF assms(1,2)] assms(3) by (simp add: wf_end_def consent_def)

text \<open>
  C22: the changes a run makes are an initial part of: register one new task definition, update one
  service to exactly the definition that AWS returned, tag that service. Nothing follows a refused
  registration or a failed update, no change is made twice and no secret is created.
\<close>

theorem changes_in_order:
  assumes "wraps env" and "RunAddWorkflow fuel env fl w = (r, aw)"
  shows "changes aw = [] \<or>
    (\<exists>i e. changes aw = [Registered i (Inl e)]) \<or>
    (\<exists>i td. changes aw = [Registered i (Inr td)]) \<or>
    (\<exists>i td s c. changes aw =
       [Registered i (Inr td), Updated s c (ToString (td_TaskDefinitionArn td)) False]) \<or>
    (\<exists>i td s c. changes aw =
       [Registered i (Inr td), Updated s c (ToString (td_TaskDefinitionArn td)) True,
        Tagged s [akitaModificationTag]])"
proof -
  have "orderly fl (changes aw)"
    using run_end [OF assms] by (simp add: wf_end_def)
  then show ?thesis by cases simp_all
qed



section \<open>The wait ends\<close>

text \<open>
  What Go documents of a ticker: its first tick is at least the period after its creation, and each
  later one at least the period after the one before. \<open>time w\<close> is the time of the world and
  \<open>ticked w\<close> that of the ticker's creation or last tick.
\<close>

definition ticker_law :: "'w aws_env \<Rightarrow> ('w \<Rightarrow> instant) \<Rightarrow> ('w \<Rightarrow> instant) \<Rightarrow> bool" where
  "ticker_law env time ticked \<longleftrightarrow>
     (\<forall>w. fst (Now env w) \<le> time (snd (Now env w)) \<and> ticked (snd (Now env w)) = ticked w) \<and>
     (\<forall>c cl arns w. time w \<le> time (snd (DescribeServices env c cl arns w)) \<and>
        ticked (snd (DescribeServices env c cl arns w)) = ticked w) \<and>
     (\<forall>p w. time w \<le> ticked (snd (NewTicker env p w))) \<and>
     (\<forall>w. ticked w + seconds 15 \<le> fst (Tick env w) \<and> ticked (snd (Tick env w)) = fst (Tick env w))"

lemma getService_world:
  assumes "getService env s aw = (r, aw')"
  shows "\<exists>c cl arns. wf_world aw' = snd (DescribeServices env c cl arns (wf_world aw))"
  using assms
  by (auto simp: getService_def outside_def note_event_def Let_def
      split: prod.splits sum.splits list.splits) (metis snd_conv)+

lemma ticker_law_ByID:
  assumes "ticker_law env time ticked" and "GetDeploymentByID env s d aw = (r, aw')"
  shows "ticked (wf_world aw') = ticked (wf_world aw)"
proof -
  obtain x aw1 where g: "getService env s aw = (x, aw1)" by fastforce
  then have "wf_world aw' = wf_world aw1"
    using assms(2) by (auto simp: GetDeploymentByID_def split: sum.splits option.splits)
  with assms(1) getService_world [OF g] show ?thesis by (auto simp: ticker_law_def)
qed

lemma wait_loop_ends:
  assumes "ticker_law env time ticked"
    and "endTime < ticked (wf_world aw) + seconds (15 * int fuel)"
  shows "fst (wait_loop fuel env endTime d dp aw) \<noteq> Inl Awf_Waiting \<or> fuel = 0"
  using assms(2)
proof (induction fuel arbitrary: aw dp)
  case 0
  then show ?case by simp
next
  case (Suc n)
  define t where "t = fst (Tick env (wf_world aw))"
  define aw1 where "aw1 = aw\<lparr>wf_world := snd (Tick env (wf_world aw))\<rparr>"
  have tick: "outside (Tick env) aw = (t, aw1)" by (simp add: outside_def t_def aw1_def split: prod.splits)
  have t: "ticked (wf_world aw) + seconds 15 \<le> t" "ticked (wf_world aw1) = t"
    using assms(1) by (auto simp: ticker_law_def t_def aw1_def)
  obtain dp' err aw2 where g: "GetDeploymentByID env (ecsServiceARN aw1) d aw1 = ((dp', err), aw2)"
    by (metis surj_pair)
  have t2: "ticked (wf_world aw2) = t" using ticker_law_ByID [OF assms(1) g] t by simp
  obtain u aw3 where n: "outside (Now env) aw2 = (u, aw3)" by fastforce
  then have t3: "ticked (wf_world aw3) = t"
    using assms(1) t2 by (auto simp: outside_def ticker_law_def split: prod.splits) (metis snd_conv)
  have more: "endTime < t + seconds (15 * int n)" using Suc.prems t(1) by simp
  have "n = 0 \<Longrightarrow> endTime < t" using more by simp
  then show ?case
    using Suc.IH [of aw2 dp'] Suc.IH [of aw3 dp'] more t2 t3
    by (subst wait_loop.simps) (auto simp: tick g n awf_defs split: option.splits)
qed

text \<open>
  C39: the wait for the deployment ends: when ticks come at least 15 seconds apart, at most 21 polls
  are made before the five minutes are over, whatever AWS answers.
\<close>

theorem wait_terminates:
  assumes "ticker_law env time ticked" and "21 \<le> fuel"
  shows "fst (waitForRestartState fuel env fl aw) \<noteq> Awf_Waiting"
proof -
  define aw1 where "aw1 = note_event (Step ''Wait for ECS Service'') aw"
  obtain start aw2 where n: "outside (Now env) aw1 = (start, aw2)" by fastforce
  then have s: "start \<le> time (wf_world aw2)"
    using assms(1) by (auto simp: outside_def ticker_law_def split: prod.splits) (metis fst_conv snd_conv)
  obtain m aw3 where g: "GetDeploymentMatchingTask env (ecsServiceARN aw2) aw2 = (m, aw3)" by fastforce
  then obtain x awx where gs: "getService env (ecsServiceARN aw2) aw2 = (x, awx)" "wf_world aw3 = wf_world awx"
    by (auto simp: GetDeploymentMatchingTask_def split: prod.splits sum.splits option.splits)
  then have s3: "start \<le> time (wf_world aw3)"
    using s getService_world [OF gs(1)] assms(1) by (auto simp: ticker_law_def) (metis order_trans)
  obtain u aw4 where t: "outside (NewTicker env (seconds 15)) aw3 = (u, aw4)" by (meson surj_pair)
  then have s4: "start \<le> ticked (wf_world aw4)"
    using s3 assms(1) by (auto simp: outside_def ticker_law_def split: prod.splits) (metis order_trans snd_conv)
  have "fst (wait_loop fuel env (start + minutes 5) d dp aw4) \<noteq> Inl Awf_Waiting" for d dp
    using wait_loop_ends [OF assms(1), of "start + minutes 5" aw4 fuel d dp] s4 assms(2) by auto
  then show ?thesis
    using n g t
    by (auto simp: waitForRestartState_def Let_def awf_defs simp flip: aw1_def
        split: sum.splits prod.splits) (metis fst_conv)+
qed

section \<open>Error behaviour\<close>

text \<open>
  An error while polling the deployment is taken for success: the loop condition then looks at
  the zero deployment, which is neither in progress nor failed, and the workflow ends without error.
\<close>

theorem polling_error_is_success:
  assumes "dp_RolloutState dp = RolloutInProgress"
    and "outside (Tick env) aw = (t, aw1)" and "t \<le> endTime"
    and "GetDeploymentByID env (ecsServiceARN aw1) d aw1 = ((dp', Some err), aw2)"
  shows "\<exists>dp''. wait_loop (Suc n) env endTime d dp aw = (Inr dp'', aw2) \<and>
    dp_RolloutState dp'' \<noteq> RolloutInProgress \<and> dp_RolloutState dp'' \<noteq> RolloutFailed"
proof -
  have "dp' = zero_deployment"
    using assms(4) by (auto simp: GetDeploymentByID_def split: prod.splits sum.splits option.splits)
  then have "wait_loop n env endTime d dp' aw2 = (Inr dp', aw2)"
    "dp_RolloutState dp' \<noteq> RolloutInProgress" "dp_RolloutState dp' \<noteq> RolloutFailed"
    by (simp_all add: wait_loop.simps RolloutInProgress_def RolloutFailed_def)
  with assms show ?thesis
    by (subst wait_loop.simps) simp
qed

text \<open>
  An error while listing clusters or services for a name given by a flag is dropped: the state
  function returns neither a next state nor an error. At a terminal the workflow then ends as if it
  had succeeded; from flags alone it goes on with the cluster or service it has not found.
\<close>

theorem listing_errors_dropped:
  assumes "wraps env"
    and "\<not> is_arn (ecsClusterFlag fl)" and "listECSClusters env aw = (Inl e, aw1)"
    and "\<not> is_arn (ecsServiceFlag fl)" and "listECSServices env aw = (Inl e', aw2)"
  shows "loadClusterFromFlag env fl aw = (Awf None None, aw1) \<and>
    loadServiceFromFlag env fl aw = (Awf None None, aw2)"
  using assms by (simp_all add: loadClusterFromFlag_def loadServiceFromFlag_def awf_defs wraps_def)

text \<open>
  With a region given by flag that has no clusters, the workflow never ends and asks nothing: the
  cluster state goes back to the region state, which takes the same region from the flag again.
\<close>

theorem region_flag_spins:
  assumes "awsRegionFlag fl \<noteq> ''''" and "ecsClusterFlag fl = ''''"
    and "\<And>c w. fst (ListClusters env c w) = []"
  shows "fst (workflow_loop fuel env fl GetRegionState aw) = Run_Unfinished \<and>
    fst (workflow_loop fuel env fl GetClusterState aw) = Run_Unfinished"
proof -
  have none: "\<exists>aw'. listECSClusters env aw = (Inr fmempty, aw')" for aw
    using assms(3) [of "ecsClient aw" "wf_world aw"]
    by (auto simp: listECSClusters_def ListAWSObjectsByName_def outside_def Let_def split: prod.splits)
  have region: "\<exists>aw'. run_state n env fl GetRegionState aw = (Awf (Some GetClusterState) None, aw')" for n aw
    using assms(1) by (simp add: run_state_def getRegionState_def awf_defs Let_def)
  have cluster: "\<exists>aw'. run_state n env fl GetClusterState aw = (Awf (Some GetRegionState) None, aw')" for n aw
    using none [of "note_event (Step ''Get ECS Cluster'') aw"] assms(2)
    by (auto simp: run_state_def getClusterState_def awf_defs Let_def)
  show ?thesis
  proof (induction fuel arbitrary: aw)
    case (Suc n)
    from region [of n aw] cluster [of n aw] Suc.IH show ?case by auto
  qed simp
qed

section \<open>The agent's command line\<close>

text \<open>
  The reference reading of the container's entry point: after the program and its subcommand, each
  flag takes the next argument as its value, whatever that looks like.
\<close>

fun flag_pairs :: "string list \<Rightarrow> (string \<times> string) list" where
  "flag_pairs (f # v # args) = (f, v) # flag_pairs args"
| "flag_pairs _ = []"

definition values_of :: "string \<Rightarrow> (string \<times> string) list \<Rightarrow> string list" where
  "values_of f ps = map snd (filter (\<lambda>p. fst p = f) ps)"

lemma flag_pairs_values: "flag_pairs (flag_values f vs @ rest) = map (Pair f) vs @ flag_pairs rest"
  by (induction vs) (simp_all add: flag_values_def)

lemma values_of_append [simp]: "values_of f (ps @ qs) = values_of f ps @ values_of f qs"
  by (simp add: values_of_def)

lemma values_of_pairs: "values_of f (map (Pair g) vs) = (if f = g then vs else [])"
  by (induction vs) (auto simp: values_of_def)

lemma flag_pairs_last: "flag_pairs (flag_values f vs) = map (Pair f) vs"
  using flag_pairs_values [of f vs "[]"] by simp

text \<open>
  Round trip of the agent's flags: reading back the entry point of the agent's container gives the
  project, the filter and every list-valued flag of the \<open>ecs\<close> command, with no value lost, split or
  taken for a flag.
\<close>

theorem entry_point_roundtrip:
  "let ps = flag_pairs (drop 2 (c_EntryPoint (makeAgentContainerDefinition env fl r s t ess))) in
    values_of ''--project'' ps = [projectId fl] \<and>
    values_of ''--filter'' ps = (if filterFlag fl = '''' then [] else [filterFlag fl]) \<and>
    values_of ''--rate-limit'' ps =
      (if rateLimitFlag fl = DefaultRateLimit then [] else [FormatFloat env (rateLimitFlag fl)]) \<and>
    values_of ''--host-allow'' ps = hostAllowlistFlag fl \<and>
    values_of ''--host-exclusions'' ps = hostExclusionsFlag fl \<and>
    values_of ''--interfaces'' ps = interfacesFlag fl \<and>
    values_of ''--path-allow'' ps = pathAllowlistFlag fl \<and>
    values_of ''--path-exclusions'' ps = pathExclusionsFlag fl"
proof -
  define ps where "ps = flag_pairs (drop 2 (c_EntryPoint (makeAgentContainerDefinition env fl r s t ess)))"
  have "ps = [(''--project'', projectId fl)]
    @ (if rateLimitFlag fl \<noteq> DefaultRateLimit then [(''--rate-limit'', FormatFloat env (rateLimitFlag fl))] else [])
    @ (if filterFlag fl \<noteq> '''' then [(''--filter'', filterFlag fl)] else [])
    @ map (Pair ''--host-allow'') (hostAllowlistFlag fl)
    @ map (Pair ''--host-exclusions'') (hostExclusionsFlag fl)
    @ map (Pair ''--interfaces'') (interfacesFlag fl)
    @ map (Pair ''--path-allow'') (pathAllowlistFlag fl)
    @ map (Pair ''--path-exclusions'') (pathExclusionsFlag fl)"
    by (simp add: ps_def makeAgentContainerDefinition_def agent_entry_point_def flag_pairs_values
        flag_pairs_last split: prod.splits)
  then show ?thesis unfolding ps_def [symmetric] Let_def
    by (simp add: values_of_pairs) (simp add: values_of_def comp_def)
qed

section \<open>Examples\<close>

lemmas sample_defs = sample_env_def sample_flags_def

lemma sample_wraps: "wraps sample_env"
  by (simp add: wraps_def sample_env_def)


lemmas run_defs = RunAddWorkflow_def run_state_def initState_def getProfileState_def getRegionState_def
  getClusterState_def getTaskState_def getServiceState_def confirmState_def modifyTaskState_def
  updateServiceState_def waitForRestartState_def loadClusterFromFlag_def loadTaskFromFlag_def
  loadServiceFromFlag_def fillFromFlags_def createConfig_def createClient_def getClusterName_def
  listECSTaskDefinitionFamilies_def getLatestECSTaskDefinition_def getServiceWithMatchingTask_def
  getService_def GetDeploymentMatchingTask_def Let_def outside_def note_event_def awf_defs
  new_workflow_def is_arn_def showPlannedChanges_panics_def NetworkModeBridge_def tag_of_agent_def
  image_of_agent_def matchesImage_def postmanECRImage_def akitaECRImage_def akitaDockerImage_def
  goBackOption_def findAllClustersOption_def sample_definition_def sample_service_def
  RolloutInProgress_def RolloutFailed_def

definition sample_run :: "int add_workflow" where
  "sample_run = snd (RunAddWorkflow 20 sample_env sample_flags 0)"

lemma sample_ends: "RunAddWorkflow 20 sample_env sample_flags 0 = (Add_Ok, sample_run)"
proof -
  have "fst (RunAddWorkflow 20 sample_env sample_flags 0) = Add_Ok"
    by (simp add: run_defs sample_defs eval_nat_numeral wait_loop.simps)
  then show ?thesis by (simp add: sample_run_def prod_eq_iff)
qed

lemma sample_changes: "length (changes sample_run) = 3"
  by (simp add: sample_run_def run_defs sample_defs eval_nat_numeral wait_loop.simps changes_def)

lemma no_change_without_consent_witness:
  "\<not> dryRunFlag sample_flags \<and> Confirmed True \<in> set (before_changes sample_run)"
proof -
  have "changes sample_run \<noteq> []" using sample_changes by auto
  from no_change_without_consent [OF sample_wraps sample_ends this] show ?thesis
    by (simp add: sample_env_def)
qed

lemma changes_in_order_witness:
  "\<exists>i td s c. changes sample_run =
     [Registered i (Inr td), Updated s c (ToString (td_TaskDefinitionArn td)) True,
      Tagged s [akitaModificationTag]]"
  using changes_in_order [OF sample_wraps sample_ends] sample_changes by auto



text \<open>A deployment that never completes, and one whose state cannot be read after the first look.\<close>

definition pending_env :: "int aws_env" where
  "pending_env = sample_env\<lparr>DescribeServices :=
     (\<lambda>c cl arns w. (if w < 0 then Inl (New_Error ''throttled'') else
        Inr (map (sample_service ''IN_PROGRESS'') arns), w))\<rparr>"

lemma wait_terminates_witness:
  "fst (waitForRestartState 21 pending_env sample_flags ((new_workflow 0)\<lparr>ecsTaskDefinitionARN := ''arn:t2''\<rparr>))
     \<noteq> Awf_Waiting"
proof -
  have "ticker_law pending_env (\<lambda>w. w) (\<lambda>w. w)"
    by (simp add: ticker_law_def pending_env_def sample_env_def)
  from wait_terminates [OF this, of 21] show ?thesis by simp
qed

definition broken_env :: "int aws_env" where
  "broken_env = sample_env\<lparr>DescribeServices := (\<lambda>c cl arns w. (Inl (New_Error ''throttled''), w)),
     ListClusters := (\<lambda>c w. ([Inl (New_Error ''throttled'')], w)),
     ListServices := (\<lambda>c cl w. ([Inl (New_Error ''throttled'')], w))\<rparr>"

lemma polling_error_is_success_witness:
  "\<exists>dp aw2. wait_loop 5 broken_env (minutes 5) ''d1'' (zero_deployment\<lparr>dp_RolloutState := RolloutInProgress\<rparr>)
       (new_workflow 0) = (Inr dp, aw2) \<and> dp_RolloutState dp \<noteq> RolloutFailed"
proof -
  define aw1 where "aw1 = (new_workflow 0)\<lparr>wf_world := seconds 15\<rparr>"
  have tick: "outside (Tick broken_env) (new_workflow 0) = (seconds 15, aw1)"
    by (simp add: outside_def broken_env_def sample_env_def aw1_def new_workflow_def)
  have poll: "GetDeploymentByID broken_env (ecsServiceARN aw1) ''d1'' aw1 =
      ((zero_deployment, Some (New_Error ''throttled'')), note_event (Telemetry_Error ''AWS ECS DescribeServices'') aw1)"
    by (simp add: GetDeploymentByID_def getService_def outside_def broken_env_def wrapUnauthorizedFor_def
        isUnauthorizedFor_def isUnauthorized_def)
  have "(seconds 15 :: int) \<le> minutes 5" by simp
  from polling_error_is_success [OF _ tick this poll,
      of "zero_deployment\<lparr>dp_RolloutState := RolloutInProgress\<rparr>" 4]
  have "\<exists>dp. wait_loop (Suc 4) broken_env (minutes 5) ''d1''
      (zero_deployment\<lparr>dp_RolloutState := RolloutInProgress\<rparr>) (new_workflow 0)
        = (Inr dp, note_event (Telemetry_Error ''AWS ECS DescribeServices'') aw1) \<and>
      dp_RolloutState dp \<noteq> RolloutFailed"
    by auto
  moreover have "Suc 4 = 5" by simp
  ultimately show ?thesis by metis
qed

lemma listing_errors_dropped_witness:
  "loadClusterFromFlag broken_env (sample_flags\<lparr>ecsClusterFlag := ''prod'', ecsServiceFlag := ''shop''\<rparr>) (new_workflow 0)
     = (Awf None None, snd (listECSClusters broken_env (new_workflow 0)))"
proof -
  let ?aw = "new_workflow 0 :: int add_workflow"
  have "wraps broken_env" using sample_wraps by (simp add: wraps_def broken_env_def)
  moreover have "listECSClusters broken_env ?aw = (Inl (New_Error ''throttled''), snd (listECSClusters broken_env ?aw))"
    "listECSServices broken_env ?aw = (Inl (New_Error ''throttled''), snd (listECSServices broken_env ?aw))"
    by (simp_all add: prod_eq_iff listECSClusters_def listECSServices_def ListAWSObjectsByName_def outside_def
        outside_cached_def broken_env_def wrapUnauthorized_def isUnauthorized_def)
  moreover have "\<not> is_arn ''prod''" "\<not> is_arn ''shop''" by (simp_all add: is_arn_def)
  ultimately show ?thesis
    using listing_errors_dropped [of broken_env "sample_flags\<lparr>ecsClusterFlag := ''prod'', ecsServiceFlag := ''shop''\<rparr>" ?aw]
    by simp
qed

lemma region_flag_spins_witness:
  "fst (workflow_loop 1000 sample_env (sample_flags\<lparr>ecsClusterFlag := ''''\<rparr>) GetRegionState (new_workflow 0))
     = Run_Unfinished"
proof -
  have "awsRegionFlag (sample_flags\<lparr>ecsClusterFlag := ''''\<rparr>) \<noteq> ''''"
    "ecsClusterFlag (sample_flags\<lparr>ecsClusterFlag := ''''\<rparr>) = ''''"
    by (simp_all add: sample_flags_def)
  moreover have "fst (ListClusters sample_env c w) = []" for c w by (simp add: sample_env_def)
  ultimately show ?thesis using region_flag_spins by blast
qed

end
