(* ===== verification/Cloud_Client.thy ===== *)
theory Cloud_Client
  imports Prelude "HOL-Library.Multiset"
begin

text \<open>
  The daemon's client of the cloud (\<open>daemon/internal/cloud_client\<close>). One main goroutine owns the
  table of services and traces and handles the events of a channel with 50 places; HTTP handlers,
  long polls, heartbeats and uploads run in other goroutines and send events to it. The handlers are
  functions on the state; the goroutines are tasks of a step relation that interleaves them.
\<close>

section \<open>State\<close>

text \<open>Service and trace identifiers are only compared; channels are numbered as they are created.\<close>

type_synonym service_id = nat
type_synonym trace_id = nat
type_synonym trace_event = nat

text \<open>The fields of \<open>daemon.LoggingOptions\<close> and \<open>daemon.ActiveTraceDiff\<close> that the code uses.\<close>

record logging_options =
  lo_TraceID :: trace_id
  lo_ServiceID :: service_id
  lo_FilterThirdPartyTrackers :: bool

record trace_diff =
  ActivatedTraces :: "logging_options list"
  DeactivatedTraces :: "trace_id list"

record traceInfo =
  tr_active :: bool
  tr_clientNames :: "string fset"
  tr_loggingOptions :: logging_options
  tr_channel :: nat

record serviceInfo =
  si_traces :: "(trace_id, traceInfo) fmap"
  si_responseChannels :: "(string \<times> nat) list"

datatype cc_event =
    HeartbeatEvent
  | LongPollServiceEvent service_id
  | ChangedActiveTracesEvent service_id trace_diff
  | RegistrationRequest string service_id "trace_id list" nat
  | TraceEventRequest string service_id trace_id "trace_event list" bool nat
  | UnregisterClientFromTrace string service_id trace_id

text \<open>
  Goroutines: a long poll or heartbeat under way, one that has an event to send, and an upload with
  the events it still has to enqueue and the number it has dropped.
\<close>

datatype cc_task =
    Polling service_id "trace_id list"
  | Beating
  | Sending cc_event
  | Uploading string service_id trace_id "trace_event list" bool nat nat nat

text \<open>A trace's channel, with what its collector goroutine has received from it.\<close>

record trace_channel =
  ch_buffer :: "trace_event list"
  ch_closed :: bool
  ch_received :: "trace_event list"

datatype cc_response =
    DiffResponse nat trace_diff
  | TraceEventResponse nat nat "nat option"

text \<open>
  \<open>cc_main\<close> are the events that the main goroutine still has to send in the handler it is in; it
  takes no event from its channel before they are sent.
\<close>

record cloudClient =
  serviceInfoByID :: "(service_id, serviceInfo) fmap"
  eventChannel :: "cc_event list"
  cc_main :: "cc_event list"
  cc_tasks :: "cc_task multiset"
  cc_channels :: "trace_channel list"
  cc_responses :: "cc_response list"
  cc_next :: nat
  cc_panic :: bool

definition MAIN_GOROUTINE_BUFFER_SIZE :: nat where "MAIN_GOROUTINE_BUFFER_SIZE = 50"
definition TRACE_BUFFER_SIZE :: nat where "TRACE_BUFFER_SIZE = 10000"

text \<open>\<open>newCloudClient\<close>, and \<open>Run\<close> after it has sent the first heartbeat.\<close>

definition newCloudClient :: cloudClient where
  "newCloudClient =
     \<lparr>serviceInfoByID = fmempty, eventChannel = [], cc_main = [], cc_tasks = {#}, cc_channels = [],
      cc_responses = [], cc_next = 0, cc_panic = False\<rparr>"

definition cc_Run :: cloudClient where
  "cc_Run = newCloudClient\<lparr>eventChannel := [HeartbeatEvent]\<rparr>"

definition newServiceInfo :: serviceInfo where
  "newServiceInfo = \<lparr>si_traces = fmempty, si_responseChannels = []\<rparr>"

definition newTraceInfo :: "logging_options \<Rightarrow> nat \<Rightarrow> traceInfo" where
  "newTraceInfo lo ch = \<lparr>tr_active = True, tr_clientNames = {||}, tr_loggingOptions = lo, tr_channel = ch\<rparr>"

section \<open>Operations of the main goroutine\<close>

definition main_send :: "cc_event \<Rightarrow> cloudClient \<Rightarrow> cloudClient" where
  "main_send e cc = cc\<lparr>cc_main := cc_main cc @ [e]\<rparr>"

definition spawn :: "cc_task \<Rightarrow> cloudClient \<Rightarrow> cloudClient" where
  "spawn t cc = cc\<lparr>cc_tasks := add_mset t (cc_tasks cc)\<rparr>"

definition respond :: "cc_response \<Rightarrow> cloudClient \<Rightarrow> cloudClient" where
  "respond r cc = cc\<lparr>cc_responses := cc_responses cc @ [r]\<rparr>"

definition put_service :: "service_id \<Rightarrow> serviceInfo \<Rightarrow> cloudClient \<Rightarrow> cloudClient" where
  "put_service sid si cc = cc\<lparr>serviceInfoByID := fmupd sid si (serviceInfoByID cc)\<rparr>"

definition put_trace :: "service_id \<Rightarrow> serviceInfo \<Rightarrow> trace_id \<Rightarrow> traceInfo \<Rightarrow> cloudClient \<Rightarrow> cloudClient" where
  "put_trace sid si tid ti cc = put_service sid (si\<lparr>si_traces := fmupd tid ti (si_traces si)\<rparr>) cc"

definition getInfo :: "service_id \<Rightarrow> trace_id \<Rightarrow> cloudClient \<Rightarrow> serviceInfo option \<times> traceInfo option" where
  "getInfo sid tid cc =
     (case fmlookup (serviceInfoByID cc) sid of
        None \<Rightarrow> (None, None)
      | Some si \<Rightarrow> (Some si, fmlookup (si_traces si) tid))"

definition ensureServiceRegistered :: "service_id \<Rightarrow> cloudClient \<Rightarrow> serviceInfo \<times> cloudClient" where
  "ensureServiceRegistered sid cc =
     (case fmlookup (serviceInfoByID cc) sid of
        Some si \<Rightarrow> (si, cc)
      | None \<Rightarrow>
          let cc = put_service sid newServiceInfo cc
          in (newServiceInfo, main_send (LongPollServiceEvent sid) cc))"

text \<open>
  Go visits a map in any order; \<open>rng\<close> gives the order for the keys of one. A service that is not
  registered would be a nil dereference in \<open>getCurrentTraces\<close>.
\<close>

definition getCurrentTraces :: "(nat fset \<Rightarrow> nat list) \<Rightarrow> serviceInfo \<Rightarrow> trace_id list" where
  "getCurrentTraces rng si =
     filter (\<lambda>tid. case fmlookup (si_traces si) tid of Some ti \<Rightarrow> tr_active ti | None \<Rightarrow> False)
       (rng (fmdom (si_traces si)))"

definition getActiveTraceDiff ::
  "(nat fset \<Rightarrow> nat list) \<Rightarrow> serviceInfo \<Rightarrow> trace_id fset \<Rightarrow> trace_diff \<times> trace_id list" where
  "getActiveTraceDiff rng info known =
     (let activated = filter (\<lambda>tid. tid |\<notin>| known) (getCurrentTraces rng info);
          deactivated = filter (\<lambda>tid. case fmlookup (si_traces info) tid of
            None \<Rightarrow> True | Some ti \<Rightarrow> \<not> tr_active ti) (rng known)
      in (\<lparr>ActivatedTraces = map (\<lambda>tid. tr_loggingOptions (the (fmlookup (si_traces info) tid))) activated,
           DeactivatedTraces = deactivated\<rparr>,
          activated))"

text \<open>The collector goroutine that is started with a channel is the \<open>Collect\<close> step below.\<close>

definition startTraceEventCollector :: "service_id \<Rightarrow> logging_options \<Rightarrow> cloudClient \<Rightarrow> cloudClient" where
  "startTraceEventCollector sid lo cc =
     (case getInfo sid (lo_TraceID lo) cc of
        (None, _) \<Rightarrow> cc
      | (Some si, Some ti) \<Rightarrow>
          put_trace sid si (lo_TraceID lo) (ti\<lparr>tr_active := True, tr_loggingOptions := lo\<rparr>) cc
      | (Some si, None) \<Rightarrow>
          let ch = length (cc_channels cc);
              cc = cc\<lparr>cc_channels := cc_channels cc @ [\<lparr>ch_buffer = [], ch_closed = False, ch_received = []\<rparr>]\<rparr>
          in put_trace sid si (lo_TraceID lo) (newTraceInfo lo ch) cc)"

text \<open>Closing a channel twice panics.\<close>

definition close_channel :: "nat \<Rightarrow> cloudClient \<Rightarrow> cloudClient" where
  "close_channel ch cc =
     (if ch_closed (cc_channels cc ! ch) then cc\<lparr>cc_panic := True\<rparr>
      else cc\<lparr>cc_channels := (cc_channels cc)[ch := (cc_channels cc ! ch)\<lparr>ch_closed := True\<rparr>]\<rparr>)"

definition unregisterTrace :: "service_id \<Rightarrow> trace_id \<Rightarrow> cloudClient \<Rightarrow> cloudClient" where
  "unregisterTrace sid tid cc =
     (case getInfo sid tid cc of
        (None, _) \<Rightarrow> cc
      | (Some si, None) \<Rightarrow> cc
      | (Some si, Some ti) \<Rightarrow>
          if tr_active ti then cc
          else if tr_clientNames ti \<noteq> {||} then cc
          else close_channel (tr_channel ti)
                 (put_service sid (si\<lparr>si_traces := fmdrop tid (si_traces si)\<rparr>) cc))"

section \<open>Event handlers\<close>

definition handle_heartbeat :: "cloudClient \<Rightarrow> cloudClient" where
  "handle_heartbeat cc = spawn Beating cc"

definition handle_longPoll :: "(nat fset \<Rightarrow> nat list) \<Rightarrow> service_id \<Rightarrow> cloudClient \<Rightarrow> cloudClient" where
  "handle_longPoll rng sid cc =
     (case fmlookup (serviceInfoByID cc) sid of
        None \<Rightarrow> cc\<lparr>cc_panic := True\<rparr>
      | Some si \<Rightarrow> spawn (Polling sid (getCurrentTraces rng si)) cc)"

definition add_client :: "service_id \<Rightarrow> string \<Rightarrow> cloudClient \<Rightarrow> trace_id \<Rightarrow> cloudClient" where
  "add_client sid clientName cc tid =
     (case getInfo sid tid cc of
        (Some si, Some ti) \<Rightarrow>
          put_trace sid si tid (ti\<lparr>tr_clientNames := finsert clientName (tr_clientNames ti)\<rparr>) cc
      | _ \<Rightarrow> cc)"

text \<open>\<open>diffSize\<close> is \<open>ActiveTraceDiff.Size\<close>.\<close>

definition handle_registration ::
  "(nat fset \<Rightarrow> nat list) \<Rightarrow> (trace_diff \<Rightarrow> nat) \<Rightarrow> string \<Rightarrow> service_id \<Rightarrow> trace_id list \<Rightarrow> nat
    \<Rightarrow> cloudClient \<Rightarrow> cloudClient" where
  "handle_registration rng diffSize clientName sid activeTraces responseChannel cc =
     (let (si, cc) = ensureServiceRegistered sid cc;
          (traceDiff, activatedInfo) = getActiveTraceDiff rng si (fset_of_list activeTraces)
      in if diffSize traceDiff \<noteq> 0 then
           let cc = respond (DiffResponse responseChannel traceDiff) cc
           in fold (\<lambda>tid cc. add_client sid clientName cc tid) activatedInfo cc
         else
           put_service sid (si\<lparr>si_responseChannels := si_responseChannels si @ [(clientName, responseChannel)]\<rparr>) cc)"

definition StatusAccepted :: nat where "StatusAccepted = 202"
definition StatusBadRequest :: nat where "StatusBadRequest = 400"
definition StatusUnprocessableEntity :: nat where "StatusUnprocessableEntity = 422"

definition handle_traceEvents ::
  "string \<Rightarrow> service_id \<Rightarrow> trace_id \<Rightarrow> trace_event list \<Rightarrow> bool \<Rightarrow> nat \<Rightarrow> cloudClient \<Rightarrow> cloudClient" where
  "handle_traceEvents clientName sid tid events noMore responseChannel cc =
     (case getInfo sid tid cc of
        (Some si, Some ti) \<Rightarrow>
          let cc = put_trace sid si tid (ti\<lparr>tr_clientNames := finsert clientName (tr_clientNames ti)\<rparr>) cc
          in spawn (Uploading clientName sid tid events noMore responseChannel (tr_channel ti) 0) cc
      | _ \<Rightarrow> respond (TraceEventResponse responseChannel StatusBadRequest None) cc)"

definition handle_unregisterClient :: "string \<Rightarrow> service_id \<Rightarrow> trace_id \<Rightarrow> cloudClient \<Rightarrow> cloudClient" where
  "handle_unregisterClient clientName sid tid cc =
     (case getInfo sid tid cc of
        (Some si, Some ti) \<Rightarrow>
          let ti = ti\<lparr>tr_clientNames := tr_clientNames ti |-| {|clientName|}\<rparr>;
              cc = put_trace sid si tid ti cc
          in if tr_active ti \<or> tr_clientNames ti \<noteq> {||} then cc
             else unregisterTrace sid tid cc
      | _ \<Rightarrow> cc)"

definition deactivate_trace :: "service_id \<Rightarrow> trace_id \<Rightarrow> cloudClient \<Rightarrow> cloudClient" where
  "deactivate_trace sid tid cc =
     (case getInfo sid tid cc of
        (Some si, Some ti) \<Rightarrow>
          let ti = ti\<lparr>tr_active := False\<rparr>;
              cc = put_trace sid si tid ti cc
          in if tr_clientNames ti \<noteq> {||} then cc
             else unregisterTrace sid tid cc
      | _ \<Rightarrow> cc)"

text \<open>
  Answering one waiting client, and registering it for the activated traces. The service is looked up
  by the id in the logging options, and not finding it is a nil dereference.
\<close>

definition join_trace :: "string \<Rightarrow> logging_options \<Rightarrow> cloudClient \<Rightarrow> cloudClient" where
  "join_trace clientName lo cc =
     (if cc_panic cc then cc
      else case fmlookup (serviceInfoByID cc) (lo_ServiceID lo) of
             None \<Rightarrow> cc\<lparr>cc_panic := True\<rparr>
           | Some _ \<Rightarrow> add_client (lo_ServiceID lo) clientName cc (lo_TraceID lo))"

definition answer_client :: "trace_diff \<Rightarrow> string \<times> nat \<Rightarrow> cloudClient \<Rightarrow> cloudClient" where
  "answer_client diff named cc =
     (if cc_panic cc then cc
      else fold (join_trace (fst named)) (ActivatedTraces diff) (respond (DiffResponse (snd named) diff) cc))"

definition take_channels :: "service_id \<Rightarrow> cloudClient \<Rightarrow> (string \<times> nat) list \<times> cloudClient" where
  "take_channels sid cc =
     (case fmlookup (serviceInfoByID cc) sid of
        None \<Rightarrow> ([], cc)
      | Some si \<Rightarrow> (si_responseChannels si, put_service sid (si\<lparr>si_responseChannels := []\<rparr>) cc))"

definition handle_changedTraces :: "service_id \<Rightarrow> trace_diff \<Rightarrow> cloudClient \<Rightarrow> cloudClient" where
  "handle_changedTraces sid diff cc =
     (case fmlookup (serviceInfoByID cc) sid of
        None \<Rightarrow> cc
      | Some _ \<Rightarrow>
          let cc = fold (startTraceEventCollector sid) (ActivatedTraces diff) cc;
              cc = fold (deactivate_trace sid) (DeactivatedTraces diff) cc;
              (channelsToSend, cc) = take_channels sid cc;
              cc = fold (answer_client diff) channelsToSend cc
          in if cc_panic cc then cc else main_send (LongPollServiceEvent sid) cc)"

fun cc_handle :: "(nat fset \<Rightarrow> nat list) \<Rightarrow> (trace_diff \<Rightarrow> nat) \<Rightarrow> cc_event \<Rightarrow> cloudClient \<Rightarrow> cloudClient" where
  "cc_handle rng diffSize HeartbeatEvent cc = handle_heartbeat cc"
| "cc_handle rng diffSize (LongPollServiceEvent sid) cc = handle_longPoll rng sid cc"
| "cc_handle rng diffSize (ChangedActiveTracesEvent sid diff) cc = handle_changedTraces sid diff cc"
| "cc_handle rng diffSize (RegistrationRequest c sid ts ch) cc = handle_registration rng diffSize c sid ts ch cc"
| "cc_handle rng diffSize (TraceEventRequest c sid tid es m ch) cc = handle_traceEvents c sid tid es m ch cc"
| "cc_handle rng diffSize (UnregisterClientFromTrace c sid tid) cc = handle_unregisterClient c sid tid cc"

section \<open>Interleaving\<close>

text \<open>
  One atomic action of some goroutine. The main goroutine takes an event only when it has sent all the
  events of the last handler; a send needs a free place in the channel. The events a handler sends
  are made after its other effects, which only matters to when a waiting client hears its answer.
\<close>

definition has_room :: "cloudClient \<Rightarrow> bool" where
  "has_room cc \<longleftrightarrow> length (eventChannel cc) < MAIN_GOROUTINE_BUFFER_SIZE"

definition enqueue_event :: "cc_event \<Rightarrow> cloudClient \<Rightarrow> cloudClient" where
  "enqueue_event e cc = cc\<lparr>eventChannel := eventChannel cc @ [e]\<rparr>"

definition replace_task :: "cc_task \<Rightarrow> cc_task multiset \<Rightarrow> cloudClient \<Rightarrow> cloudClient" where
  "replace_task t ts cc = cc\<lparr>cc_tasks := cc_tasks cc - {#t#} + ts\<rparr>"

text \<open>The \<open>select\<close> of \<open>uploadTraceEvents\<close>: enqueue, drop when the buffer is full, panic when closed.\<close>

definition offer_event :: "trace_event \<Rightarrow> trace_channel \<Rightarrow> (trace_channel \<times> bool) option" where
  "offer_event e ch =
     (if ch_closed ch then None
      else if length (ch_buffer ch) < TRACE_BUFFER_SIZE
      then Some (ch\<lparr>ch_buffer := ch_buffer ch @ [e]\<rparr>, True)
      else Some (ch, False))"

definition upload_next ::
  "string \<Rightarrow> service_id \<Rightarrow> trace_id \<Rightarrow> trace_event \<Rightarrow> trace_event list \<Rightarrow> bool \<Rightarrow> nat \<Rightarrow> nat \<Rightarrow> nat
    \<Rightarrow> cloudClient \<Rightarrow> cloudClient" where
  "upload_next c sid tid e es noMore resp ch drops cc =
     (case offer_event e (cc_channels cc ! ch) of
        None \<Rightarrow> cc\<lparr>cc_panic := True\<rparr>
      | Some (chan, taken) \<Rightarrow>
          replace_task (Uploading c sid tid (e # es) noMore resp ch drops)
            {#Uploading c sid tid es noMore resp ch (if taken then drops else Suc drops)#}
            (cc\<lparr>cc_channels := (cc_channels cc)[ch := chan]\<rparr>))"

definition upload_end ::
  "string \<Rightarrow> service_id \<Rightarrow> trace_id \<Rightarrow> bool \<Rightarrow> nat \<Rightarrow> nat \<Rightarrow> nat \<Rightarrow> cloudClient \<Rightarrow> cloudClient" where
  "upload_end c sid tid noMore resp ch drops cc =
     (let status = (if drops > 0 then StatusUnprocessableEntity else StatusAccepted);
          cc = respond (TraceEventResponse resp status (Some drops)) cc
      in replace_task (Uploading c sid tid [] noMore resp ch drops)
           (if noMore then {#Sending (UnregisterClientFromTrace c sid tid)#} else {#}) cc)"

text \<open>The collector goroutine of a trace receives the next event; it processes it on its own.\<close>

definition collect_next :: "nat \<Rightarrow> cloudClient \<Rightarrow> cloudClient" where
  "collect_next ch cc =
     (let chan = cc_channels cc ! ch
      in case ch_buffer chan of
           [] \<Rightarrow> cc
         | e # es \<Rightarrow>
             cc\<lparr>cc_channels := (cc_channels cc)[ch := chan\<lparr>ch_buffer := es, ch_received := ch_received chan @ [e]\<rparr>]\<rparr>)"

inductive cc_step :: "(trace_diff \<Rightarrow> nat) \<Rightarrow> cloudClient \<Rightarrow> cloudClient \<Rightarrow> bool" for diffSize where
  handle: "\<lbrakk>\<not> cc_panic cc; cc_main cc = []; eventChannel cc = e # q;
      \<And>A. distinct (rng A) \<and> set (rng A) = fset A\<rbrakk>
    \<Longrightarrow> cc_step diffSize cc (cc_handle rng diffSize e (cc\<lparr>eventChannel := q\<rparr>))"
| main_sends: "\<lbrakk>\<not> cc_panic cc; cc_main cc = e # m; has_room cc\<rbrakk>
    \<Longrightarrow> cc_step diffSize cc (enqueue_event e (cc\<lparr>cc_main := m\<rparr>))"
| register: "\<lbrakk>\<not> cc_panic cc; has_room cc\<rbrakk>
    \<Longrightarrow> cc_step diffSize cc
          (enqueue_event (RegistrationRequest c sid ts (cc_next cc)) (cc\<lparr>cc_next := Suc (cc_next cc)\<rparr>))"
| add_events: "\<lbrakk>\<not> cc_panic cc; has_room cc\<rbrakk>
    \<Longrightarrow> cc_step diffSize cc
          (enqueue_event (TraceEventRequest c sid tid es m (cc_next cc)) (cc\<lparr>cc_next := Suc (cc_next cc)\<rparr>))"
| beaten: "\<lbrakk>\<not> cc_panic cc; Beating \<in># cc_tasks cc\<rbrakk>
    \<Longrightarrow> cc_step diffSize cc (replace_task Beating {#Sending HeartbeatEvent#} cc)"
| polled: "\<lbrakk>\<not> cc_panic cc; Polling sid ts \<in># cc_tasks cc\<rbrakk>
    \<Longrightarrow> cc_step diffSize cc
          (replace_task (Polling sid ts) {#Sending (ChangedActiveTracesEvent sid diff)#} cc)"
| poll_failed: "\<lbrakk>\<not> cc_panic cc; Polling sid ts \<in># cc_tasks cc\<rbrakk>
    \<Longrightarrow> cc_step diffSize cc
          (replace_task (Polling sid ts) {#Sending (LongPollServiceEvent sid)#} cc)"
| task_sends: "\<lbrakk>\<not> cc_panic cc; Sending e \<in># cc_tasks cc; has_room cc\<rbrakk>
    \<Longrightarrow> cc_step diffSize cc (enqueue_event e (replace_task (Sending e) {#} cc))"
| uploads: "\<lbrakk>\<not> cc_panic cc; Uploading c sid tid (e # es) m resp ch drops \<in># cc_tasks cc\<rbrakk>
    \<Longrightarrow> cc_step diffSize cc (upload_next c sid tid e es m resp ch drops cc)"
| uploaded: "\<lbrakk>\<not> cc_panic cc; Uploading c sid tid [] m resp ch drops \<in># cc_tasks cc\<rbrakk>
    \<Longrightarrow> cc_step diffSize cc (upload_end c sid tid m resp ch drops cc)"
| collects: "\<lbrakk>\<not> cc_panic cc; ch < length (cc_channels cc)\<rbrakk>
    \<Longrightarrow> cc_step diffSize cc (collect_next ch cc)"

inductive cc_reachable :: "(trace_diff \<Rightarrow> nat) \<Rightarrow> cloudClient \<Rightarrow> bool" for diffSize where
  start: "cc_reachable diffSize cc_Run"
| step: "cc_reachable diffSize cc \<Longrightarrow> cc_step diffSize cc cc' \<Longrightarrow> cc_reachable diffSize cc'"

section \<open>One long poll per service\<close>

fun polls_event :: "service_id \<Rightarrow> cc_event \<Rightarrow> bool" where
  "polls_event sid (LongPollServiceEvent s) = (s = sid)"
| "polls_event sid (ChangedActiveTracesEvent s d) = (s = sid)"
| "polls_event sid _ = False"

fun polls_task :: "service_id \<Rightarrow> cc_task \<Rightarrow> bool" where
  "polls_task sid (Polling s ts) = (s = sid)"
| "polls_task sid (Sending e) = polls_event sid e"
| "polls_task sid _ = False"

text \<open>How many polls of a service are under way or to be started, wherever they are.\<close>

definition polls :: "service_id \<Rightarrow> cloudClient \<Rightarrow> nat" where
  "polls sid cc =
     length (filter (polls_event sid) (eventChannel cc)) + length (filter (polls_event sid) (cc_main cc)) +
     size (filter_mset (polls_task sid) (cc_tasks cc))"

definition registered :: "service_id \<Rightarrow> cloudClient \<Rightarrow> bool" where
  "registered sid cc \<longleftrightarrow> fmlookup (serviceInfoByID cc) sid \<noteq> None"

definition poll_inv :: "cloudClient \<Rightarrow> bool" where
  "poll_inv cc \<longleftrightarrow> cc_panic cc \<or> (\<forall>sid. polls sid cc = (if registered sid cc then 1 else 0))"

text \<open>What the operations on the table leave alone: which services there are, and all events and tasks.\<close>

definition same_flow :: "cloudClient \<Rightarrow> cloudClient \<Rightarrow> bool" where
  "same_flow cc cc' \<longleftrightarrow> (\<forall>s. registered s cc' = registered s cc) \<and> eventChannel cc' = eventChannel cc \<and>
     cc_main cc' = cc_main cc \<and> cc_tasks cc' = cc_tasks cc \<and> cc_next cc' = cc_next cc"

lemma same_flow_refl [simp]: "same_flow cc cc"
  by (simp add: same_flow_def)

lemma same_flow_trans [trans]: "same_flow a b \<Longrightarrow> same_flow b c \<Longrightarrow> same_flow a c"
  by (simp add: same_flow_def)

lemma same_flow_polls: "same_flow cc cc' \<Longrightarrow> polls s cc' = polls s cc"
  by (simp add: same_flow_def polls_def)

lemma same_flow_put: "registered sid cc \<Longrightarrow> same_flow cc (put_service sid si cc)"
  by (auto simp: same_flow_def put_service_def registered_def)

lemma getInfo_registered: "getInfo sid tid cc = (Some si, x) \<Longrightarrow> registered sid cc"
  by (auto simp: getInfo_def registered_def split: option.splits)

lemma same_flow_put_trace: "registered sid cc \<Longrightarrow> same_flow cc (put_trace sid si tid ti cc)"
  by (simp add: put_trace_def same_flow_put)

lemma same_flow_fields:
  "same_flow cc (cc\<lparr>cc_channels := a\<rparr>)" "same_flow cc (cc\<lparr>cc_responses := b\<rparr>)" "same_flow cc (cc\<lparr>cc_panic := p\<rparr>)"
  by (simp_all add: same_flow_def registered_def)

lemma same_flow_close: "same_flow cc (close_channel ch cc)"
  by (simp add: close_channel_def same_flow_fields)

lemma same_flow_start: "same_flow cc (startTraceEventCollector sid lo cc)"
proof (cases "getInfo sid (lo_TraceID lo) cc")
  case (Pair s t)
  show ?thesis
  proof (cases s)
    case None
    with Pair show ?thesis by (simp add: startTraceEventCollector_def)
  next
    case (Some si)
    with Pair have r: "registered sid cc" by (auto dest: getInfo_registered)
    then have "registered sid (cc\<lparr>cc_channels := a\<rparr>)" for a by (simp add: registered_def)
    with r Pair Some show ?thesis
      by (auto simp: startTraceEventCollector_def Let_def same_flow_put_trace split: option.splits
          intro: same_flow_trans [OF same_flow_fields(1) same_flow_put_trace])
  qed
qed

lemma same_flow_unregister: "same_flow cc (unregisterTrace sid tid cc)"
  by (auto simp: unregisterTrace_def Let_def split: option.splits prod.splits
      dest!: getInfo_registered intro: same_flow_trans [OF same_flow_put same_flow_close])

lemma same_flow_deactivate: "same_flow cc (deactivate_trace sid tid cc)"
  by (auto simp: deactivate_trace_def Let_def same_flow_put_trace split: option.splits prod.splits
      dest!: getInfo_registered intro: same_flow_trans [OF same_flow_put_trace same_flow_unregister])

lemma same_flow_add_client: "same_flow cc (add_client sid c cc tid)"
  by (auto simp: add_client_def same_flow_put_trace split: option.splits prod.splits
      dest!: getInfo_registered)

lemma same_flow_join: "same_flow cc (join_trace c lo cc)"
  by (auto simp: join_trace_def same_flow_fields same_flow_add_client split: option.splits)

lemma same_flow_fold:
  assumes "\<And>x cc. same_flow cc (f x cc)"
  shows "same_flow cc (fold f xs cc)"
proof (induction xs arbitrary: cc)
  case (Cons x xs)
  have "same_flow cc (f x cc)" by (rule assms)
  also have "same_flow (f x cc) (fold f xs (f x cc))" by (rule Cons.IH)
  finally show ?case by simp
qed simp

lemma same_flow_answer: "same_flow cc (answer_client diff named cc)"
  by (auto simp: answer_client_def respond_def
      intro: same_flow_trans [OF same_flow_fields(2) same_flow_fold [OF same_flow_join]])

lemma same_flow_take: "take_channels sid cc = (chs, cc') \<Longrightarrow> same_flow cc cc'"
  by (auto simp: take_channels_def registered_def split: option.splits intro: same_flow_put)

lemmas same_flow_ops = same_flow_start same_flow_unregister same_flow_deactivate same_flow_add_client
  same_flow_join same_flow_answer

lemma polls_simps [simp]:
  "polls s (main_send e cc) = polls s cc + (if polls_event s e then 1 else 0)"
  "polls s (spawn t cc) = polls s cc + (if polls_task s t then 1 else 0)"
  "polls s (enqueue_event e cc) = polls s cc + (if polls_event s e then 1 else 0)"
  "polls s (respond r cc) = polls s cc"
  "polls s (put_service sid si cc) = polls s cc"
  "polls s (put_trace sid si tid ti cc) = polls s cc"
  "polls s (cc\<lparr>cc_next := n\<rparr>) = polls s cc"
  "polls s (cc\<lparr>cc_channels := cs\<rparr>) = polls s cc"
  "polls s (cc\<lparr>cc_responses := rs\<rparr>) = polls s cc"
  by (simp_all add: polls_def main_send_def spawn_def enqueue_event_def respond_def put_service_def
      put_trace_def)

lemma registered_simps [simp]:
  "registered s (main_send e cc) = registered s cc"
  "registered s (spawn t cc) = registered s cc"
  "registered s (enqueue_event e cc) = registered s cc"
  "registered s (respond r cc) = registered s cc"
  "registered s (put_service sid si cc) = (s = sid \<or> registered s cc)"
  "registered s (put_trace sid si tid ti cc) = (s = sid \<or> registered s cc)"
  "registered s (replace_task t ts cc) = registered s cc"
  "registered s (cc\<lparr>eventChannel := q\<rparr>) = registered s cc"
  "registered s (cc\<lparr>cc_main := q\<rparr>) = registered s cc"
  "registered s (cc\<lparr>cc_next := n\<rparr>) = registered s cc"
  "registered s (cc\<lparr>cc_channels := cs\<rparr>) = registered s cc"
  by (simp_all add: registered_def main_send_def spawn_def enqueue_event_def respond_def put_service_def
      put_trace_def replace_task_def)

lemma polls_replace:
  "t \<in># cc_tasks cc \<Longrightarrow>
   polls s (replace_task t ts cc) + (if polls_task s t then 1 else 0)
     = polls s cc + size (filter_mset (polls_task s) ts)"
  by (auto simp: polls_def replace_task_def dest!: multi_member_split)

lemma polls_pop: "eventChannel cc = e # q \<Longrightarrow>
    polls s cc = polls s (cc\<lparr>eventChannel := q\<rparr>) + (if polls_event s e then 1 else 0)"
  by (simp add: polls_def)

text \<open>A handler starts exactly the polls that its event stood for, and one for a new service.\<close>

definition poll_balance :: "cc_event \<Rightarrow> cloudClient \<Rightarrow> cloudClient \<Rightarrow> bool" where
  "poll_balance e cc cc' \<longleftrightarrow> cc_panic cc' \<or>
     (\<forall>s. (registered s cc \<longrightarrow> registered s cc') \<and>
        polls s cc' = polls s cc + (if polls_event s e \<and> registered s cc then 1 else 0) +
          (if registered s cc' \<and> \<not> registered s cc then 1 else 0))"

lemma balance_same: "same_flow cc cc' \<Longrightarrow> \<forall>s. \<not> (polls_event s e \<and> registered s cc) \<Longrightarrow> poll_balance e cc cc'"
  by (auto simp: poll_balance_def same_flow_polls same_flow_def)

lemma same_flow_respond: "same_flow cc (respond r cc)"
  by (simp add: respond_def same_flow_fields)

lemma same_flow_trans3: "same_flow a b \<Longrightarrow> poll_balance e cc a \<Longrightarrow> cc_panic b = cc_panic a \<Longrightarrow> poll_balance e cc b"
  by (auto simp: poll_balance_def same_flow_polls same_flow_def) (auto simp: polls_def)

lemma add_client_panic [simp]: "cc_panic (add_client sid c cc tid) = cc_panic cc"
  by (auto simp: add_client_def put_trace_def put_service_def split: option.splits prod.splits)

lemma fold_add_client_panic [simp]:
  "cc_panic (fold (\<lambda>tid cc. add_client sid c cc tid) ts cc) = cc_panic cc"
  by (induction ts arbitrary: cc) auto

lemma registration_balance:
  "poll_balance (RegistrationRequest c sid ts ch) cc (handle_registration rng dsz c sid ts ch cc)"
proof -
  obtain si cc1 where e: "ensureServiceRegistered sid cc = (si, cc1)" by fastforce
  have p: "poll_balance (RegistrationRequest c sid ts ch) cc cc1" and r: "registered sid cc1"
    using e by (auto simp: ensureServiceRegistered_def poll_balance_def registered_def Let_def
        main_send_def put_service_def polls_def split: option.splits if_splits)
  let ?cc' = "handle_registration rng dsz c sid ts ch cc"
  have "same_flow cc1 ?cc'" and "cc_panic ?cc' = cc_panic cc1"
    using r by (auto simp: handle_registration_def e Let_def same_flow_put respond_def put_service_def
        split: prod.splits
        intro: same_flow_trans [OF same_flow_fields(2) same_flow_fold [OF same_flow_add_client]]
          same_flow_put [unfolded put_service_def])
  with p show ?thesis by (metis same_flow_trans3)
qed

lemma longPoll_balance: "poll_balance (LongPollServiceEvent sid) cc (handle_longPoll rng sid cc)"
  by (auto simp: handle_longPoll_def poll_balance_def registered_def spawn_def polls_def split: option.splits)

lemma heartbeat_balance: "poll_balance HeartbeatEvent cc (handle_heartbeat cc)"
  by (auto simp: handle_heartbeat_def poll_balance_def)

lemma traceEvents_balance:
  "poll_balance (TraceEventRequest c sid tid es m ch) cc (handle_traceEvents c sid tid es m ch cc)"
  by (auto simp: handle_traceEvents_def poll_balance_def Let_def split: option.splits prod.splits
      dest!: getInfo_registered)

lemma unregisterClient_balance:
  "poll_balance (UnregisterClientFromTrace c sid tid) cc (handle_unregisterClient c sid tid cc)"
  by (rule balance_same)
    (auto simp: handle_unregisterClient_def Let_def same_flow_put_trace split: option.splits prod.splits
      dest!: getInfo_registered intro: same_flow_trans [OF same_flow_put_trace same_flow_unregister])

lemma changedTraces_balance:
  "poll_balance (ChangedActiveTracesEvent sid diff) cc (handle_changedTraces sid diff cc)"
proof (cases "registered sid cc")
  case False
  then show ?thesis by (auto simp: handle_changedTraces_def registered_def poll_balance_def)
next
  case True
  define cc1 where "cc1 = fold (startTraceEventCollector sid) (ActivatedTraces diff) cc"
  define cc2 where "cc2 = fold (deactivate_trace sid) (DeactivatedTraces diff) cc1"
  obtain chs cc3 where t: "take_channels sid cc2 = (chs, cc3)" by fastforce
  define cc4 where "cc4 = fold (answer_client diff) chs cc3"
  have "same_flow cc cc1" unfolding cc1_def by (intro same_flow_fold same_flow_start)
  also have "same_flow cc1 cc2" unfolding cc2_def by (intro same_flow_fold same_flow_deactivate)
  also have "same_flow cc2 cc3" using t by (rule same_flow_take)
  also have "same_flow cc3 cc4" unfolding cc4_def by (intro same_flow_fold same_flow_answer)
  finally have f: "same_flow cc cc4" .
  have "handle_changedTraces sid diff cc = (if cc_panic cc4 then cc4 else main_send (LongPollServiceEvent sid) cc4)"
    using True by (auto simp: handle_changedTraces_def registered_def t Let_def
        simp flip: cc1_def cc2_def cc4_def)
  with f True show ?thesis
    by (auto simp: poll_balance_def same_flow_polls same_flow_def)
qed

lemma handle_balance: "poll_balance e cc (cc_handle rng dsz e cc)"
  by (cases e) (simp_all add: registration_balance longPoll_balance heartbeat_balance
      traceEvents_balance unregisterClient_balance changedTraces_balance)

lemma poll_inv_handle:
  assumes "poll_inv cc" and "\<not> cc_panic cc" and "eventChannel cc = e # q"
  shows "poll_inv (cc_handle rng dsz e (cc\<lparr>eventChannel := q\<rparr>))"
proof -
  let ?c = "cc\<lparr>eventChannel := q\<rparr>" and ?c' = "cc_handle rng dsz e (cc\<lparr>eventChannel := q\<rparr>)"
  have b: "poll_balance e ?c ?c'" by (rule handle_balance)
  have "polls s ?c' = (if registered s ?c' then 1 else 0)" if "\<not> cc_panic ?c'" for s
  proof -
    have i: "polls s ?c + (if polls_event s e then 1 else 0) = (if registered s cc then 1 else 0)"
      using assms polls_pop [OF assms(3), of s] by (auto simp: poll_inv_def)
    have k: "registered s cc \<longrightarrow> registered s ?c'"
      and "polls s ?c' = polls s ?c + (if polls_event s e \<and> registered s cc then 1 else 0) +
          (if registered s ?c' \<and> \<not> registered s cc then 1 else 0)"
      using b that by (auto simp: poll_balance_def)
    with i show ?thesis by (auto split: if_splits)
  qed
  then show ?thesis by (auto simp: poll_inv_def)
qed

lemma poll_inv_step:
  assumes "cc_step dsz cc cc'" and "poll_inv cc"
  shows "poll_inv cc'"
  using assms
proof cases
  case (handle e q rng)
  with assms(2) poll_inv_handle show ?thesis by blast
next
  case (main_sends e m)
  have "polls s (enqueue_event e (cc\<lparr>cc_main := m\<rparr>)) = polls s cc" for s
    using main_sends by (simp add: polls_def enqueue_event_def)
  with main_sends assms(2) show ?thesis by (simp add: poll_inv_def enqueue_event_def [of e])
next
  case (task_sends e)
  have "polls s cc' = polls s cc" for s
    using polls_replace [of "Sending e" cc s "{#}"] task_sends by (auto split: if_splits)
  with task_sends assms(2) show ?thesis by (simp add: poll_inv_def enqueue_event_def replace_task_def registered_def)
next
  case (polled sid ts diff)
  have "polls s cc' = polls s cc" for s
    using polls_replace [of "Polling sid ts" cc s "{#Sending (ChangedActiveTracesEvent sid diff)#}"] polled by (auto split: if_splits)
  with polled assms(2) show ?thesis by (simp add: poll_inv_def replace_task_def registered_def)
next
  case (poll_failed sid ts)
  have "polls s cc' = polls s cc" for s
    using polls_replace [of "Polling sid ts" cc s "{#Sending (LongPollServiceEvent sid)#}"] poll_failed by (auto split: if_splits)
  with poll_failed assms(2) show ?thesis by (simp add: poll_inv_def replace_task_def registered_def)
next
  case beaten
  have "polls s cc' = polls s cc" for s
    using polls_replace [of Beating cc s "{#Sending HeartbeatEvent#}"] beaten by (auto split: if_splits)
  with beaten assms(2) show ?thesis by (simp add: poll_inv_def replace_task_def registered_def)
next
  case (uploads c sid tid e es m resp ch drops)
  show ?thesis
  proof (cases "offer_event e (cc_channels cc ! ch)")
    case None
    with uploads show ?thesis by (simp add: upload_next_def poll_inv_def)
  next
    case (Some r)
    then obtain chan taken where r: "offer_event e (cc_channels cc ! ch) = Some (chan, taken)" by (cases r) auto
    let ?t = "Uploading c sid tid (e # es) m resp ch drops"
    have "polls s cc' = polls s cc" for s
      using polls_replace [of ?t "cc\<lparr>cc_channels := (cc_channels cc)[ch := chan]\<rparr>" s
          "{#Uploading c sid tid es m resp ch (if taken then drops else Suc drops)#}"] uploads r
      by (simp add: upload_next_def)
    with uploads r assms(2) show ?thesis
      by (simp add: poll_inv_def upload_next_def)
  qed
next
  case (uploaded c sid tid m resp ch drops)
  have "polls s cc' = polls s cc" for s
    using polls_replace [of "Uploading c sid tid [] m resp ch drops"
        "respond (TraceEventResponse resp (if drops > 0 then StatusUnprocessableEntity else StatusAccepted) (Some drops)) cc" s
        "if m then {#Sending (UnregisterClientFromTrace c sid tid)#} else {#}"] uploaded
    by (auto simp: upload_end_def Let_def respond_def split: if_splits)
  with uploaded assms(2) show ?thesis
    by (simp add: poll_inv_def upload_end_def Let_def)
next
  case (collects ch)
  with assms(2) show ?thesis
    by (auto simp: poll_inv_def collect_next_def Let_def split: list.splits)
qed (auto simp: poll_inv_def enqueue_event_def polls_def registered_def)

text \<open>
  C9: whatever the interleaving of requests, polls, uploads and heartbeats, every registered service
  has exactly one long poll: queued, running, sleeping after an error, or answered and not yet handled;
  and no other service has one.
\<close>

theorem one_poll_per_service:
  assumes "cc_reachable dsz cc" and "\<not> cc_panic cc"
  shows "polls sid cc = (if registered sid cc then 1 else 0)"
proof -
  have "poll_inv cc" using assms(1)
  proof induction
    case start
    then show ?case by (simp add: poll_inv_def cc_Run_def newCloudClient_def polls_def registered_def)
  next
    case (step cc cc')
    then show ?case by (blast intro: poll_inv_step)
  qed
  with assms(2) show ?thesis by (simp add: poll_inv_def)
qed

section \<open>The table of traces\<close>

definition trace_at :: "cloudClient \<Rightarrow> service_id \<Rightarrow> trace_id \<Rightarrow> traceInfo option" where
  "trace_at cc sid tid = snd (getInfo sid tid cc)"

definition is_open :: "cloudClient \<Rightarrow> nat \<Rightarrow> bool" where
  "is_open cc ch \<longleftrightarrow> ch < length (cc_channels cc) \<and> \<not> ch_closed (cc_channels cc ! ch)"

definition in_use :: "traceInfo \<Rightarrow> bool" where
  "in_use ti \<longleftrightarrow> tr_active ti \<or> tr_clientNames ti \<noteq> {||}"

definition table_ok :: "cloudClient \<Rightarrow> bool" where
  "table_ok cc \<longleftrightarrow>
     (\<forall>sid tid ti. trace_at cc sid tid = Some ti \<longrightarrow> in_use ti \<and> is_open cc (tr_channel ti)) \<and>
     (\<forall>sid tid ti sid' tid' ti'. trace_at cc sid tid = Some ti \<and> trace_at cc sid' tid' = Some ti' \<and>
        tr_channel ti = tr_channel ti' \<longrightarrow> sid = sid' \<and> tid = tid')"

lemma table_okI:
  assumes "\<And>s t ti. trace_at cc s t = Some ti \<Longrightarrow> in_use ti"
    and "\<And>s t ti. trace_at cc s t = Some ti \<Longrightarrow> is_open cc (tr_channel ti)"
    and "\<And>s t ti s' t' ti'. trace_at cc s t = Some ti \<Longrightarrow> trace_at cc s' t' = Some ti' \<Longrightarrow>
      tr_channel ti = tr_channel ti' \<Longrightarrow> (s, t) = (s', t')"
  shows "table_ok cc"
  unfolding table_ok_def using assms by blast

lemma table_okD:
  assumes "table_ok cc" and "trace_at cc s t = Some ti"
  shows "in_use ti" "is_open cc (tr_channel ti)"
    "trace_at cc s' t' = Some ti' \<Longrightarrow> tr_channel ti = tr_channel ti' \<Longrightarrow> (s, t) = (s', t')"
  using assms unfolding table_ok_def by blast+

lemma getInfo_some:
  "getInfo sid tid cc = (Some si, x) \<longleftrightarrow> fmlookup (serviceInfoByID cc) sid = Some si \<and> x = fmlookup (si_traces si) tid"
  by (auto simp: getInfo_def split: option.splits)

lemma getInfo_cases:
  obtains "getInfo sid tid cc = (None, None)" "trace_at cc sid tid = None"
  | si where "getInfo sid tid cc = (Some si, None)" "fmlookup (serviceInfoByID cc) sid = Some si"
      "trace_at cc sid tid = None"
  | si ti where "getInfo sid tid cc = (Some si, Some ti)" "fmlookup (serviceInfoByID cc) sid = Some si"
      "fmlookup (si_traces si) tid = Some ti" "trace_at cc sid tid = Some ti"
proof (cases "fmlookup (serviceInfoByID cc) sid")
  case None
  with that(1) show ?thesis by (simp add: getInfo_def trace_at_def)
next
  case (Some si)
  with that(2,3) show ?thesis
    by (cases "fmlookup (si_traces si) tid") (simp_all add: getInfo_def trace_at_def)
qed

lemma trace_at_put:
  "trace_at (put_service sid si cc) s t = (if s = sid then fmlookup (si_traces si) t else trace_at cc s t)"
  by (simp add: trace_at_def getInfo_def put_service_def)

lemma trace_at_lookup: "fmlookup (serviceInfoByID cc) sid = Some si \<Longrightarrow> trace_at cc sid t = fmlookup (si_traces si) t"
  by (simp add: trace_at_def getInfo_def)

lemma trace_at_put_trace:
  "fmlookup (serviceInfoByID cc) sid = Some si \<Longrightarrow>
   trace_at (put_trace sid si tid ti cc) s t = (if s = sid \<and> t = tid then Some ti else trace_at cc s t)"
  by (auto simp: put_trace_def trace_at_put trace_at_lookup)

lemma table_fields [simp]:
  "trace_at (main_send e cc) = trace_at cc" "is_open (main_send e cc) = is_open cc"
  "trace_at (spawn t cc) = trace_at cc" "is_open (spawn t cc) = is_open cc"
  "trace_at (respond r cc) = trace_at cc" "is_open (respond r cc) = is_open cc"
  "trace_at (enqueue_event e cc) = trace_at cc" "is_open (enqueue_event e cc) = is_open cc"
  "trace_at (replace_task t ts cc) = trace_at cc" "is_open (replace_task t ts cc) = is_open cc"
  "trace_at (cc\<lparr>eventChannel := q\<rparr>) = trace_at cc" "is_open (cc\<lparr>eventChannel := q\<rparr>) = is_open cc"
  "trace_at (cc\<lparr>cc_main := q\<rparr>) = trace_at cc" "is_open (cc\<lparr>cc_main := q\<rparr>) = is_open cc"
  "trace_at (cc\<lparr>cc_next := n\<rparr>) = trace_at cc" "is_open (cc\<lparr>cc_next := n\<rparr>) = is_open cc"
  "trace_at (cc\<lparr>cc_panic := p\<rparr>) = trace_at cc" "is_open (cc\<lparr>cc_panic := p\<rparr>) = is_open cc"
  "trace_at (cc\<lparr>cc_channels := cs\<rparr>) = trace_at cc"
  "is_open (put_service sid si cc) = is_open cc" "is_open (put_trace sid si tid ti cc) = is_open cc"
  by (auto simp: fun_eq_iff trace_at_def getInfo_def is_open_def main_send_def spawn_def respond_def
      enqueue_event_def replace_task_def put_service_def put_trace_def)

lemma table_ok_same:
  "trace_at cc' = trace_at cc \<Longrightarrow> is_open cc' = is_open cc \<Longrightarrow> table_ok cc' = table_ok cc"
  by (simp add: table_ok_def)

lemma table_ok_fields [simp]:
  "table_ok (main_send e cc) = table_ok cc" "table_ok (spawn t cc) = table_ok cc"
  "table_ok (respond r cc) = table_ok cc" "table_ok (enqueue_event e cc) = table_ok cc"
  "table_ok (replace_task t ts cc) = table_ok cc" "table_ok (cc\<lparr>eventChannel := q\<rparr>) = table_ok cc"
  "table_ok (cc\<lparr>cc_main := q\<rparr>) = table_ok cc" "table_ok (cc\<lparr>cc_next := n\<rparr>) = table_ok cc"
  "table_ok (cc\<lparr>cc_panic := p\<rparr>) = table_ok cc"
  by (rule table_ok_same; simp)+

lemma table_ok_put_same:
  "fmlookup (serviceInfoByID cc) sid = Some si \<Longrightarrow> si_traces si' = si_traces si \<Longrightarrow>
   table_ok (put_service sid si' cc) = table_ok cc"
  by (rule table_ok_same) (auto simp: fun_eq_iff trace_at_put trace_at_lookup)

lemma table_ok_update:
  assumes "table_ok cc" and "fmlookup (serviceInfoByID cc) sid = Some si"
    and "trace_at cc sid tid = Some ti" and "tr_channel ti' = tr_channel ti" and "in_use ti'"
  shows "table_ok (put_trace sid si tid ti' cc)"
proof (rule table_okI)
  have at: "trace_at (put_trace sid si tid ti' cc) s t = (if s = sid \<and> t = tid then Some ti' else trace_at cc s t)" for s t
    by (rule trace_at_put_trace [OF assms(2)])
  fix s t tj
  assume j: "trace_at (put_trace sid si tid ti' cc) s t = Some tj"
  then have old: "\<exists>to. trace_at cc s t = Some to \<and> tr_channel to = tr_channel tj"
    using assms(3,4) by (auto simp: at split: if_splits)
  show "in_use tj" using j assms(5) table_okD(1) [OF assms(1)] by (auto simp: at split: if_splits)
  show "is_open (put_trace sid si tid ti' cc) (tr_channel tj)"
    using old table_okD(2) [OF assms(1)] by fastforce
  fix s' t' tk
  assume k: "trace_at (put_trace sid si tid ti' cc) s' t' = Some tk" "tr_channel tj = tr_channel tk"
  then have "\<exists>to. trace_at cc s' t' = Some to \<and> tr_channel to = tr_channel tk"
    using assms(3,4) by (auto simp: at split: if_splits)
  with old k(2) table_okD(3) [OF assms(1)] show "(s, t) = (s', t')" by metis
qed

lemma table_ok_start: "table_ok cc \<Longrightarrow> table_ok (startTraceEventCollector sid lo cc)"
proof (cases rule: getInfo_cases [of sid "lo_TraceID lo" cc])
  case 1
  assume "table_ok cc"
  with 1 show ?thesis by (simp add: startTraceEventCollector_def)
next
  case (2 si)
  assume ok: "table_ok cc"
  let ?cc = "cc\<lparr>cc_channels := cc_channels cc @ [\<lparr>ch_buffer = [], ch_closed = False, ch_received = []\<rparr>]\<rparr>"
  have open_: "is_open ?cc ch \<longleftrightarrow> is_open cc ch \<or> ch = length (cc_channels cc)" for ch
    by (auto simp: is_open_def nth_append)
  have fresh: "trace_at cc s t = Some ti \<Longrightarrow> tr_channel ti \<noteq> length (cc_channels cc)" for s t ti
    using table_okD(2) [OF ok] by (fastforce simp: is_open_def)
  have look: "fmlookup (serviceInfoByID ?cc) sid = Some si" using 2 by simp
  have run: "startTraceEventCollector sid lo cc =
      put_trace sid si (lo_TraceID lo) (newTraceInfo lo (length (cc_channels cc))) ?cc"
    using 2(1) by (simp add: startTraceEventCollector_def Let_def)
  have at: "trace_at (startTraceEventCollector sid lo cc) s t =
      (if s = sid \<and> t = lo_TraceID lo then Some (newTraceInfo lo (length (cc_channels cc))) else trace_at cc s t)" for s t
    unfolding run by (simp add: trace_at_put_trace [OF look])
  have op: "is_open (startTraceEventCollector sid lo cc) ch \<longleftrightarrow> is_open cc ch \<or> ch = length (cc_channels cc)" for ch
    unfolding run by (simp add: open_)
  show ?thesis
  proof (rule table_okI)
    fix s t ti
    assume j: "trace_at (startTraceEventCollector sid lo cc) s t = Some ti"
    then show "in_use ti"
      using table_okD(1) [OF ok] by (auto simp: at newTraceInfo_def in_use_def split: if_splits)
    show "is_open (startTraceEventCollector sid lo cc) (tr_channel ti)"
      using j table_okD(2) [OF ok] by (auto simp: at op newTraceInfo_def split: if_splits)
    fix s' t' ti'
    assume "trace_at (startTraceEventCollector sid lo cc) s' t' = Some ti'" "tr_channel ti = tr_channel ti'"
    note k = this
    have new: "(s, t) = (sid, lo_TraceID lo)"
      if "trace_at (startTraceEventCollector sid lo cc) s t = Some ti" "tr_channel ti = length (cc_channels cc)"
      for s t ti using that fresh by (auto simp: at split: if_splits)
    show "(s, t) = (s', t')"
    proof (cases "tr_channel ti = length (cc_channels cc)")
      case True
      with new [OF j] new [OF k(1)] k(2) show ?thesis by simp
    next
      case False
      with j k have "trace_at cc s t = Some ti" "trace_at cc s' t' = Some ti'"
        by (auto simp: at newTraceInfo_def split: if_splits)
      then show ?thesis using table_okD(3) [OF ok] k(2) by blast
    qed
  qed
next
  case (3 si ti)
  assume "table_ok cc"
  with 3 show ?thesis
    by (auto simp: startTraceEventCollector_def in_use_def intro: table_ok_update)
qed

text \<open>Closing the channel of a trace together with its removal from the table.\<close>

lemma table_ok_remove:
  assumes ok: "table_ok cc" and si: "fmlookup (serviceInfoByID cc) sid = Some si"
    and ti: "trace_at cc sid tid = Some ti"
    and m: "\<And>t. t \<noteq> tid \<Longrightarrow> fmlookup m t = fmlookup (si_traces si) t"
  shows "table_ok (close_channel (tr_channel ti) (put_service sid (si\<lparr>si_traces := fmdrop tid m\<rparr>) cc))"
proof -
  let ?cc = "close_channel (tr_channel ti) (put_service sid (si\<lparr>si_traces := fmdrop tid m\<rparr>) cc)"
  have at: "trace_at ?cc s t = (if s = sid \<and> t = tid then None else trace_at cc s t)" for s t
    using si m by (auto simp: close_channel_def trace_at_put trace_at_lookup)
  have open_: "is_open ?cc ch" if "is_open cc ch" "ch \<noteq> tr_channel ti" for ch
    using that by (simp add: is_open_def close_channel_def put_service_def)
  have "tr_channel ti' \<noteq> tr_channel ti" if "trace_at cc s t = Some ti'" "\<not> (s = sid \<and> t = tid)" for s t ti'
    using table_okD(3) [OF ok ti that(1)] that(2) by auto
  note other = this
  show ?thesis
  proof (rule table_okI)
    fix s t tj
    assume "trace_at ?cc s t = Some tj"
    then have j: "trace_at cc s t = Some tj" "\<not> (s = sid \<and> t = tid)" by (simp_all add: at split: if_splits)
    show "in_use tj" using table_okD(1) [OF ok j(1)] .
    show "is_open ?cc (tr_channel tj)" using table_okD(2) [OF ok j(1)] other [OF j] by (rule open_)
    fix s' t' tk
    assume "trace_at ?cc s' t' = Some tk" "tr_channel tj = tr_channel tk"
    then show "(s, t) = (s', t')" using table_okD(3) [OF ok j(1)] by (simp add: at split: if_splits)
  qed
qed

lemma table_ok_retire:
  assumes ok: "table_ok cc" and g: "getInfo sid tid cc = (Some si, Some ti)"
    and "tr_channel ti' = tr_channel ti" and "\<not> in_use ti'"
  shows "table_ok (unregisterTrace sid tid (put_trace sid si tid ti' cc))"
proof -
  have si: "fmlookup (serviceInfoByID cc) sid = Some si" and ti: "trace_at cc sid tid = Some ti"
    using g by (simp_all add: getInfo_some trace_at_lookup)
  have look: "getInfo sid tid (put_trace sid si tid ti' cc)
      = (Some (si\<lparr>si_traces := fmupd tid ti' (si_traces si)\<rparr>), Some ti')"
    by (simp add: getInfo_def put_trace_def put_service_def)
  have twice: "put_service sid a (put_trace sid si tid ti' cc) = put_service sid a cc" for a
    by (simp add: put_trace_def put_service_def)
  have "unregisterTrace sid tid (put_trace sid si tid ti' cc) =
      close_channel (tr_channel ti) (put_service sid
        (si\<lparr>si_traces := fmdrop tid (fmupd tid ti' (si_traces si))\<rparr>) cc)"
    using assms(3,4) by (simp add: unregisterTrace_def look twice in_use_def)
  then show ?thesis using table_ok_remove [OF ok si ti, of "fmupd tid ti' (si_traces si)"] by simp
qed

lemma table_ok_deactivate: "table_ok cc \<Longrightarrow> table_ok (deactivate_trace sid tid cc)"
proof (cases rule: getInfo_cases [of sid tid cc])
  case (3 si ti)
  assume ok: "table_ok cc"
  show ?thesis
  proof (cases "tr_clientNames ti = {||}")
    case True
    with table_ok_retire [OF ok 3(1), of "ti\<lparr>tr_active := False\<rparr>"] 3 show ?thesis
      by (simp add: deactivate_trace_def Let_def in_use_def)
  next
    case False
    with table_ok_update [OF ok 3(2,4), of "ti\<lparr>tr_active := False\<rparr>"] 3 show ?thesis
      by (simp add: deactivate_trace_def Let_def in_use_def)
  qed
qed (simp_all add: deactivate_trace_def)

lemma table_ok_unregisterClient: "table_ok cc \<Longrightarrow> table_ok (handle_unregisterClient c sid tid cc)"
proof (cases rule: getInfo_cases [of sid tid cc])
  case (3 si ti)
  assume ok: "table_ok cc"
  let ?ti = "ti\<lparr>tr_clientNames := tr_clientNames ti |-| {|c|}\<rparr>"
  show ?thesis
  proof (cases "in_use ?ti")
    case True
    with table_ok_update [OF ok 3(2,4), of ?ti] 3 show ?thesis
      by (auto simp: handle_unregisterClient_def Let_def in_use_def)
  next
    case False
    with table_ok_retire [OF ok 3(1), of ?ti] 3 show ?thesis
      by (simp add: handle_unregisterClient_def Let_def in_use_def)
  qed
qed (simp_all add: handle_unregisterClient_def)

lemma table_ok_add_client: "table_ok cc \<Longrightarrow> table_ok (add_client sid c cc tid)"
proof (cases rule: getInfo_cases [of sid tid cc])
  case (3 si ti)
  assume "table_ok cc"
  from table_ok_update [OF this 3(2,4), of "ti\<lparr>tr_clientNames := finsert c (tr_clientNames ti)\<rparr>"] 3
  show ?thesis by (simp add: add_client_def in_use_def)
qed (simp_all add: add_client_def)

lemma table_ok_traceEvents: "table_ok cc \<Longrightarrow> table_ok (handle_traceEvents c sid tid es m ch cc)"
proof (cases rule: getInfo_cases [of sid tid cc])
  case (3 si ti)
  assume "table_ok cc"
  from table_ok_update [OF this 3(2,4), of "ti\<lparr>tr_clientNames := finsert c (tr_clientNames ti)\<rparr>"] 3
  show ?thesis
    by (simp add: handle_traceEvents_def in_use_def Let_def)
qed (simp_all add: handle_traceEvents_def)

lemma table_ok_join: "table_ok cc \<Longrightarrow> table_ok (join_trace c lo cc)"
  by (auto simp: join_trace_def table_ok_add_client split: option.splits)

lemma table_ok_fold:
  assumes "\<And>x cc. table_ok cc \<Longrightarrow> table_ok (f x cc)"
  shows "table_ok cc \<Longrightarrow> table_ok (fold f xs cc)"
  by (induction xs arbitrary: cc) (simp_all add: assms)

lemma table_ok_answer: "table_ok cc \<Longrightarrow> table_ok (answer_client diff named cc)"
  by (simp add: answer_client_def table_ok_fold table_ok_join)

lemma table_ok_take: "take_channels sid cc = (chs, cc') \<Longrightarrow> table_ok cc \<Longrightarrow> table_ok cc'"
  by (auto simp: take_channels_def table_ok_put_same split: option.splits)

lemma table_ok_ensure: "ensureServiceRegistered sid cc = (si, cc') \<Longrightarrow> table_ok cc \<Longrightarrow>
    table_ok cc' \<and> fmlookup (serviceInfoByID cc') sid = Some si"
proof (cases "fmlookup (serviceInfoByID cc) sid")
  case None
  assume e: "ensureServiceRegistered sid cc = (si, cc')" and "table_ok cc"
  from None have "trace_at (put_service sid newServiceInfo cc) = trace_at cc"
    by (auto simp: fun_eq_iff trace_at_put newServiceInfo_def) (simp add: trace_at_def getInfo_def)
  then have "table_ok (put_service sid newServiceInfo cc)"
    using \<open>table_ok cc\<close> table_ok_same [of "put_service sid newServiceInfo cc" cc] by simp
  moreover have "si = newServiceInfo" "cc' = main_send (LongPollServiceEvent sid) (put_service sid newServiceInfo cc)"
    using e None by (auto simp: ensureServiceRegistered_def Let_def)
  moreover have "fmlookup (serviceInfoByID (main_send e (put_service sid si cc))) sid = Some si" for e
    by (simp add: main_send_def put_service_def)
  ultimately show ?thesis by simp
qed (auto simp: ensureServiceRegistered_def)

lemma table_ok_registration:
  "table_ok cc \<Longrightarrow> table_ok (handle_registration rng dsz c sid ts ch cc)"
proof -
  assume ok: "table_ok cc"
  obtain si cc1 where e: "ensureServiceRegistered sid cc = (si, cc1)" by fastforce
  have ok1: "table_ok cc1" "fmlookup (serviceInfoByID cc1) sid = Some si"
    using table_ok_ensure [OF e ok] by auto
  have "table_ok (fold (\<lambda>tid cc. add_client sid c cc tid) tids (respond r cc1))" for r tids
    using ok1(1) by (intro table_ok_fold table_ok_add_client) simp_all
  with ok1 show ?thesis
    by (simp add: handle_registration_def e Let_def table_ok_put_same split: prod.splits)
qed

lemma table_ok_changed: "table_ok cc \<Longrightarrow> table_ok (handle_changedTraces sid diff cc)"
proof (cases "fmlookup (serviceInfoByID cc) sid")
  case (Some si)
  assume ok: "table_ok cc"
  define cc2 where "cc2 = fold (deactivate_trace sid) (DeactivatedTraces diff)
      (fold (startTraceEventCollector sid) (ActivatedTraces diff) cc)"
  have ok2: "table_ok cc2" unfolding cc2_def
    by (intro table_ok_fold [of "deactivate_trace sid"] table_ok_fold [of "startTraceEventCollector sid"]
        table_ok_deactivate table_ok_start ok)
  obtain chs cc3 where t: "take_channels sid cc2 = (chs, cc3)" by fastforce
  have "table_ok (fold (answer_client diff) chs cc3)"
    by (intro table_ok_fold table_ok_answer table_ok_take [OF t ok2])
  with Some t show ?thesis
    by (simp add: handle_changedTraces_def Let_def flip: cc2_def)
qed (simp add: handle_changedTraces_def)

lemma table_ok_handle: "table_ok cc \<Longrightarrow> table_ok (cc_handle rng dsz e cc)"
proof (cases e)
  case (LongPollServiceEvent sid)
  assume "table_ok cc"
  with LongPollServiceEvent show ?thesis by (simp add: handle_longPoll_def split: option.splits)
qed (simp_all add: handle_heartbeat_def table_ok_registration table_ok_traceEvents
    table_ok_unregisterClient table_ok_changed)

text \<open>Uploading and collecting change what is in a channel, never whether it is open.\<close>

lemma table_ok_channel:
  assumes "ch_closed chan = ch_closed (cc_channels cc ! ch)"
  shows "table_ok (cc\<lparr>cc_channels := (cc_channels cc)[ch := chan]\<rparr>) = table_ok cc"
proof (rule table_ok_same)
  show "is_open (cc\<lparr>cc_channels := (cc_channels cc)[ch := chan]\<rparr>) = is_open cc"
    using assms by (cases "ch < length (cc_channels cc)")
      (auto simp: fun_eq_iff is_open_def nth_list_update list_update_beyond)
qed simp

lemma offer_keeps_open: "offer_event e ch = Some (ch', b) \<Longrightarrow> ch_closed ch' = ch_closed ch"
  by (auto simp: offer_event_def split: if_splits)

lemma table_ok_step:
  assumes "cc_step dsz cc cc'" and "table_ok cc"
  shows "table_ok cc'"
  using assms
proof cases
  case (handle e q rng)
  with assms(2) show ?thesis by (simp add: table_ok_handle)
next
  case (uploads c sid tid e es m resp ch drops)
  show ?thesis
  proof (cases "offer_event e (cc_channels cc ! ch)")
    case None
    with uploads assms(2) show ?thesis by (simp add: upload_next_def)
  next
    case (Some r)
    then obtain chan taken where "offer_event e (cc_channels cc ! ch) = Some (chan, taken)" by (cases r) auto
    with uploads assms(2) show ?thesis
      by (simp add: upload_next_def table_ok_channel [OF offer_keeps_open])
  qed
next
  case (collects ch)
  with assms(2) show ?thesis
    by (auto simp: collect_next_def Let_def table_ok_channel split: list.splits)
qed (auto simp: upload_end_def Let_def)

lemma table_reachable: "cc_reachable dsz cc \<Longrightarrow> table_ok cc"
proof (induction rule: cc_reachable.induct)
  case start
  then show ?case
    by (simp add: table_ok_def trace_at_def getInfo_def cc_Run_def newCloudClient_def)
next
  case (step cc cc')
  then show ?case by (blast intro: table_ok_step)
qed

text \<open>
  In every reachable state the table of traces holds exactly what its comment says: each of its
  traces is active or some client is still sending events for it; the channel of each is open; and no
  two traces share a channel.
\<close>

theorem trace_table_sound:
  assumes "cc_reachable dsz cc" and "trace_at cc sid tid = Some ti"
  shows "(tr_active ti \<or> tr_clientNames ti \<noteq> {||}) \<and> is_open cc (tr_channel ti) \<and>
    (\<forall>sid' tid' ti'. trace_at cc sid' tid' = Some ti' \<and> tr_channel ti' = tr_channel ti \<longrightarrow>
       sid' = sid \<and> tid' = tid)"
proof -
  note t = table_okD [OF table_reachable [OF assms(1)] assms(2)]
  from t(1) have "tr_active ti \<or> tr_clientNames ti \<noteq> {||}" by (simp add: in_use_def)
  with t(2,3) show ?thesis by (metis prod.inject)
qed

end
