(* ===== verification/Cloud_Requests.thy ===== *)
theory Cloud_Requests
  imports Cloud_Client
begin

text \<open>
  What the daemon's clients see of the cloud client: each request is answered exactly once as long as
  the daemon lives, the difference sent to a client is exact, and two ways in which the goroutines
  of \<open>daemon/internal/cloud_client\<close> bring the daemon down or to a halt.
\<close>

section \<open>Every request is answered once\<close>

fun response_channel :: "cc_response \<Rightarrow> nat" where
  "response_channel (DiffResponse n d) = n"
| "response_channel (TraceEventResponse n s d) = n"

fun asks :: "nat \<Rightarrow> cc_event \<Rightarrow> bool" where
  "asks n (RegistrationRequest c sid ts ch) = (ch = n)"
| "asks n (TraceEventRequest c sid tid es m ch) = (ch = n)"
| "asks n _ = False"

fun task_asks :: "nat \<Rightarrow> cc_task \<Rightarrow> bool" where
  "task_asks n (Sending e) = asks n e"
| "task_asks n (Uploading c sid tid es m resp ch d) = (resp = n)"
| "task_asks n _ = False"

definition waiting_channels :: "cloudClient \<Rightarrow> (service_id, (string \<times> nat) list) fmap" where
  "waiting_channels cc = fmmap si_responseChannels (serviceInfoByID cc)"

definition waits :: "nat \<Rightarrow> (service_id, (string \<times> nat) list) fmap \<Rightarrow> nat" where
  "waits n m = (\<Sum>sid \<in> fmdom' m. count_list (map snd (the (fmlookup m sid))) n)"

definition answers :: "nat \<Rightarrow> cloudClient \<Rightarrow> nat" where
  "answers n cc = length (filter (\<lambda>r. response_channel r = n) (cc_responses cc))"

definition unanswered :: "nat \<Rightarrow> cloudClient \<Rightarrow> nat" where
  "unanswered n cc =
     length (filter (asks n) (eventChannel cc)) + length (filter (asks n) (cc_main cc)) +
     size (filter_mset (task_asks n) (cc_tasks cc)) + waits n (waiting_channels cc)"

definition answer_inv :: "cloudClient \<Rightarrow> bool" where
  "answer_inv cc \<longleftrightarrow> cc_panic cc \<or>
     (\<forall>n. answers n cc + unanswered n cc = (if n < cc_next cc then 1 else 0))"

lemma waits_upd:
  "waits n (fmupd sid l m) + (case fmlookup m sid of None \<Rightarrow> 0 | Some l' \<Rightarrow> count_list (map snd l') n)
     = waits n m + count_list (map snd l) n"
proof (cases "fmlookup m sid")
  case None
  then have "sid \<notin> fmdom' m" by (simp add: fmdom'_notI)
  then show ?thesis
    using None unfolding waits_def
    by (simp add: sum.insert fmdom'_fmupd) (intro sum.cong, auto)
next
  case (Some l')
  then have i: "sid \<in> fmdom' m" by (simp add: fmlookup_dom'_iff)
  have "waits n m = count_list (map snd l') n + (\<Sum>s \<in> fmdom' m - {sid}. count_list (map snd (the (fmlookup m s))) n)"
    unfolding waits_def using Some by (subst sum.remove [OF _ i]) simp_all
  moreover have "waits n (fmupd sid l m) = count_list (map snd l) n + (\<Sum>s \<in> fmdom' m - {sid}. count_list (map snd (the (fmlookup m s))) n)"
  proof -
    have "fmdom' (fmupd sid l m) = fmdom' m" using i by auto
    then show ?thesis
      unfolding waits_def by (simp add: sum.remove [OF _ i])
  qed
  ultimately show ?thesis using Some by simp
qed

definition keeps_answers :: "cloudClient \<Rightarrow> cloudClient \<Rightarrow> bool" where
  "keeps_answers cc cc' \<longleftrightarrow> waiting_channels cc' = waiting_channels cc \<and> cc_responses cc' = cc_responses cc \<and>
     eventChannel cc' = eventChannel cc \<and> cc_main cc' = cc_main cc \<and> cc_tasks cc' = cc_tasks cc \<and>
     cc_next cc' = cc_next cc"

lemma keeps_refl [simp]: "keeps_answers cc cc"
  by (simp add: keeps_answers_def)

lemma keeps_trans [trans]: "keeps_answers a b \<Longrightarrow> keeps_answers b c \<Longrightarrow> keeps_answers a c"
  by (simp add: keeps_answers_def)

lemma keeps_fields:
  "keeps_answers cc (cc\<lparr>cc_channels := a\<rparr>)" "keeps_answers cc (cc\<lparr>cc_panic := p\<rparr>)"
  "keeps_answers cc (close_channel ch cc)"
  by (simp_all add: keeps_answers_def waiting_channels_def close_channel_def)

lemma keeps_put:
  "fmlookup (serviceInfoByID cc) sid = Some si \<Longrightarrow> si_responseChannels si' = si_responseChannels si \<Longrightarrow>
   keeps_answers cc (put_service sid si' cc)"
  by (auto simp: keeps_answers_def waiting_channels_def put_service_def intro!: fmap_ext)

lemma keeps_put_trace:
  "getInfo sid tid cc = (Some si, x) \<Longrightarrow> keeps_answers cc (put_trace sid si tid' ti cc)"
  by (simp add: put_trace_def getInfo_some keeps_put)

lemma keeps_start: "keeps_answers cc (startTraceEventCollector sid lo cc)"
proof (cases rule: getInfo_cases [of sid "lo_TraceID lo" cc])
  case (2 si)
  then have "keeps_answers (cc\<lparr>cc_channels := a\<rparr>) (put_trace sid si tid' ti (cc\<lparr>cc_channels := a\<rparr>))" for a tid' ti
    by (simp add: put_trace_def keeps_put)
  with 2 show ?thesis
    by (auto simp: startTraceEventCollector_def Let_def intro: keeps_trans [OF keeps_fields(1)])
qed (auto simp: startTraceEventCollector_def intro: keeps_put_trace)

lemma keeps_unregister: "keeps_answers cc (unregisterTrace sid tid cc)"
proof (cases rule: getInfo_cases [of sid tid cc])
  case (3 si ti)
  then have "keeps_answers cc (put_service sid (si\<lparr>si_traces := m\<rparr>) cc)" for m by (simp add: keeps_put)
  with 3 show ?thesis
    by (auto simp: unregisterTrace_def intro: keeps_trans [OF _ keeps_fields(3)])
qed (simp_all add: unregisterTrace_def)

lemma keeps_deactivate: "keeps_answers cc (deactivate_trace sid tid cc)"
  by (auto simp: deactivate_trace_def Let_def split: option.splits prod.splits
      intro: keeps_put_trace keeps_trans [OF keeps_put_trace keeps_unregister])

lemma keeps_unregisterClient: "keeps_answers cc (handle_unregisterClient c sid tid cc)"
  by (auto simp: handle_unregisterClient_def Let_def split: option.splits prod.splits
      intro: keeps_put_trace keeps_trans [OF keeps_put_trace keeps_unregister])

lemma keeps_add_client: "keeps_answers cc (add_client sid c cc tid)"
  by (auto simp: add_client_def split: option.splits prod.splits intro: keeps_put_trace)

lemma keeps_join: "keeps_answers cc (join_trace c lo cc)"
  by (auto simp: join_trace_def keeps_fields keeps_add_client split: option.splits)

lemma keeps_fold:
  assumes "\<And>x cc. keeps_answers cc (f x cc)"
  shows "keeps_answers cc (fold f xs cc)"
proof (induction xs arbitrary: cc)
  case (Cons x xs)
  have "keeps_answers cc (f x cc)" by (rule assms)
  also have "keeps_answers (f x cc) (fold f xs (f x cc))" by (rule Cons.IH)
  finally show ?case by simp
qed simp

lemma unanswered_simps [simp]:
  "unanswered n (main_send e cc) = unanswered n cc + (if asks n e then 1 else 0)"
  "unanswered n (spawn t cc) = unanswered n cc + (if task_asks n t then 1 else 0)"
  "unanswered n (respond r cc) = unanswered n cc"
  "unanswered n (enqueue_event e cc) = unanswered n cc + (if asks n e then 1 else 0)"
  "unanswered n (cc\<lparr>cc_next := k\<rparr>) = unanswered n cc"
  "unanswered n (cc\<lparr>cc_channels := cs\<rparr>) = unanswered n cc"
  "answers n (main_send e cc) = answers n cc" "answers n (spawn t cc) = answers n cc"
  "answers n (enqueue_event e cc) = answers n cc"
  "answers n (respond r cc) = answers n cc + (if response_channel r = n then 1 else 0)"
  "answers n (cc\<lparr>eventChannel := q\<rparr>) = answers n cc"
  "answers n (cc\<lparr>cc_main := q\<rparr>) = answers n cc"
  "answers n (cc\<lparr>cc_next := k\<rparr>) = answers n cc"
  "answers n (cc\<lparr>cc_channels := cs\<rparr>) = answers n cc"
  "answers n (replace_task t ts cc) = answers n cc"
  by (simp_all add: unanswered_def answers_def main_send_def spawn_def respond_def enqueue_event_def
      waiting_channels_def replace_task_def)

lemma cc_next_simps [simp]:
  "cc_next (main_send e cc) = cc_next cc" "cc_next (spawn t cc) = cc_next cc"
  "cc_next (respond r cc) = cc_next cc" "cc_next (enqueue_event e cc) = cc_next cc"
  "cc_next (put_service sid si cc) = cc_next cc" "cc_next (replace_task t ts cc) = cc_next cc"
  by (simp_all add: main_send_def spawn_def respond_def enqueue_event_def put_service_def replace_task_def)

lemma unanswered_replace:
  "t \<in># cc_tasks cc \<Longrightarrow>
   unanswered n (replace_task t ts cc) + (if task_asks n t then 1 else 0)
     = unanswered n cc + size (filter_mset (task_asks n) ts)"
  by (auto simp: unanswered_def replace_task_def waiting_channels_def dest!: multi_member_split)

lemma unanswered_pop: "eventChannel cc = e # q \<Longrightarrow>
    unanswered n cc = unanswered n (cc\<lparr>eventChannel := q\<rparr>) + (if asks n e then 1 else 0)"
  by (simp add: unanswered_def waiting_channels_def)

lemma unanswered_keeps: "keeps_answers cc cc' \<Longrightarrow> unanswered n cc' = unanswered n cc \<and> answers n cc' = answers n cc"
  by (simp add: keeps_answers_def unanswered_def answers_def)

lemma unanswered_put:
  "unanswered n (put_service sid si cc) +
     (case fmlookup (serviceInfoByID cc) sid of None \<Rightarrow> 0
      | Some si' \<Rightarrow> count_list (map snd (si_responseChannels si')) n)
   = unanswered n cc + count_list (map snd (si_responseChannels si)) n"
proof -
  have w: "waiting_channels (put_service sid si cc) = fmupd sid (si_responseChannels si) (waiting_channels cc)"
    by (auto simp: waiting_channels_def put_service_def intro!: fmap_ext)
  from waits_upd [of n sid "si_responseChannels si" "waiting_channels cc"] show ?thesis
    unfolding unanswered_def w
    by (simp add: waiting_channels_def put_service_def split: option.splits)
qed

lemma answers_put [simp]: "answers n (put_service sid si cc) = answers n cc"
  by (simp add: answers_def put_service_def)

text \<open>A handler passes on what its event asks for: answered, or waiting to be.\<close>

definition answer_balance :: "cc_event \<Rightarrow> cloudClient \<Rightarrow> cloudClient \<Rightarrow> bool" where
  "answer_balance e cc cc' \<longleftrightarrow> cc_panic cc' \<or>
     (cc_next cc' = cc_next cc \<and>
      (\<forall>n. answers n cc' + unanswered n cc' = answers n cc + unanswered n cc + (if asks n e then 1 else 0)))"

lemma balance_keeps: "keeps_answers cc cc' \<Longrightarrow> \<forall>n. \<not> asks n e \<Longrightarrow> answer_balance e cc cc'"
  by (simp add: answer_balance_def unanswered_keeps) (simp add: keeps_answers_def)

lemma registration_answers:
  "answer_balance (RegistrationRequest c sid ts ch) cc (handle_registration rng dsz c sid ts ch cc)"
proof -
  obtain si cc1 where e: "ensureServiceRegistered sid cc = (si, cc1)" by fastforce
  have s: "fmlookup (serviceInfoByID cc1) sid = Some si" "cc_next cc1 = cc_next cc"
    using e by (auto simp: ensureServiceRegistered_def Let_def main_send_def put_service_def split: option.splits)
  have b: "answers n cc1 + unanswered n cc1 = answers n cc + unanswered n cc" for n
    using e unanswered_put [of n sid newServiceInfo cc]
    by (auto simp: ensureServiceRegistered_def Let_def newServiceInfo_def split: option.splits)
  obtain d tids where g: "getActiveTraceDiff rng si (fset_of_list ts) = (d, tids)" by fastforce
  show ?thesis
  proof (cases "dsz d = 0")
    case False
    let ?cc = "fold (\<lambda>tid cc. add_client sid c cc tid) tids (respond (DiffResponse ch d) cc1)"
    have k: "keeps_answers (respond (DiffResponse ch d) cc1) ?cc"
      by (intro keeps_fold keeps_add_client)
    then have "cc_next ?cc = cc_next cc" using s by (simp add: keeps_answers_def respond_def)
    with unanswered_keeps [OF k] False b show ?thesis
      by (simp add: handle_registration_def e g Let_def answer_balance_def)
  next
    case True
    let ?cc = "put_service sid (si\<lparr>si_responseChannels := si_responseChannels si @ [(c, ch)]\<rparr>) cc1"
    have "unanswered n ?cc = unanswered n cc1 + (if n = ch then 1 else 0)" for n
      using unanswered_put [of n sid "si\<lparr>si_responseChannels := si_responseChannels si @ [(c, ch)]\<rparr>" cc1] s
      by auto
    with True b s show ?thesis
      by (simp add: handle_registration_def e g Let_def answer_balance_def)
  qed
qed

lemma traceEvents_answers:
  "answer_balance (TraceEventRequest c sid tid es m ch) cc (handle_traceEvents c sid tid es m ch cc)"
proof (cases rule: getInfo_cases [of sid tid cc])
  case (3 si ti)
  have k: "keeps_answers cc (put_trace sid si tid ti' cc)" for ti' using 3(1) by (rule keeps_put_trace)
  have n: "cc_next (put_trace sid si tid ti' cc) = cc_next cc" for ti' using k by (simp add: keeps_answers_def)
  show ?thesis
    using 3 by (simp add: handle_traceEvents_def answer_balance_def Let_def n unanswered_keeps [OF k])
qed (simp_all add: handle_traceEvents_def answer_balance_def)

lemma answer_all:
  "\<not> cc_panic (fold (answer_client diff) named cc) \<Longrightarrow>
   unanswered n (fold (answer_client diff) named cc) = unanswered n cc \<and>
   answers n (fold (answer_client diff) named cc) = answers n cc + count_list (map snd named) n \<and>
   cc_next (fold (answer_client diff) named cc) = cc_next cc"
proof (induction named arbitrary: cc)
  case (Cons x named)
  show ?case
  proof (cases "cc_panic cc")
    case True
    have "fold (answer_client diff) xs cc = cc" for xs
      using True by (induction xs) (simp_all add: answer_client_def)
    from this [of "x # named"] True Cons.prems show ?thesis by simp
  next
    case False
    let ?r = "respond (DiffResponse (snd x) diff) cc"
    have k: "keeps_answers ?r (answer_client diff x cc)"
      using False by (simp add: answer_client_def keeps_fold [OF keeps_join])
    have "cc_next (answer_client diff x cc) = cc_next cc" using k by (simp add: keeps_answers_def)
    with Cons.IH [of "answer_client diff x cc"] Cons.prems unanswered_keeps [OF k, of n] show ?thesis
      by simp
  qed
qed simp

lemma changedTraces_answers:
  "answer_balance (ChangedActiveTracesEvent sid diff) cc (handle_changedTraces sid diff cc)"
proof (cases "fmlookup (serviceInfoByID cc) sid")
  case None
  then show ?thesis by (simp add: handle_changedTraces_def answer_balance_def)
next
  case (Some si0)
  define cc2 where "cc2 = fold (deactivate_trace sid) (DeactivatedTraces diff)
      (fold (startTraceEventCollector sid) (ActivatedTraces diff) cc)"
  have k: "keeps_answers cc cc2" unfolding cc2_def
    by (rule keeps_trans [OF keeps_fold keeps_fold]) (rule keeps_start, rule keeps_deactivate)
  obtain chs cc3 where t: "take_channels sid cc2 = (chs, cc3)" by fastforce
  have taken: "unanswered n cc3 + count_list (map snd chs) n = unanswered n cc2 \<and> answers n cc3 = answers n cc2"
    "cc_next cc3 = cc_next cc2" for n
    using t unanswered_put [of n sid "s\<lparr>si_responseChannels := []\<rparr>" cc2 for s]
    by (auto simp: take_channels_def split: option.splits)
  let ?cc4 = "fold (answer_client diff) chs cc3"
  have run: "handle_changedTraces sid diff cc = (if cc_panic ?cc4 then ?cc4 else main_send (LongPollServiceEvent sid) ?cc4)"
    using Some t by (simp add: handle_changedTraces_def Let_def flip: cc2_def)
  show ?thesis
  proof (cases "cc_panic ?cc4")
    case True
    with run show ?thesis by (simp add: answer_balance_def)
  next
    case False
    have "cc_next cc2 = cc_next cc" using k by (simp add: keeps_answers_def)
    with answer_all [OF False] taken unanswered_keeps [OF k] run False show ?thesis
      by (simp add: answer_balance_def) (metis add.commute add.left_commute)
  qed
qed

lemma heartbeat_answers: "answer_balance HeartbeatEvent cc (handle_heartbeat cc)"
  by (simp add: handle_heartbeat_def answer_balance_def)

lemma longPoll_answers: "answer_balance (LongPollServiceEvent sid) cc (handle_longPoll rng sid cc)"
  by (simp add: handle_longPoll_def answer_balance_def split: option.splits)

lemma handle_answers: "answer_balance e cc (cc_handle rng dsz e cc)"
proof (cases e)
  case (UnregisterClientFromTrace c sid tid)
  then show ?thesis by (simp add: balance_keeps keeps_unregisterClient)
qed (simp_all add: registration_answers traceEvents_answers changedTraces_answers heartbeat_answers
    longPoll_answers)

lemma answer_inv_same:
  assumes "answer_inv cc" and "\<not> cc_panic cc" and "cc_next cc' = cc_next cc"
    and "\<And>n. answers n cc' + unanswered n cc' = answers n cc + unanswered n cc"
  shows "answer_inv cc'"
  using assms unfolding answer_inv_def by metis

lemma answer_inv_new:
  assumes "answer_inv cc" and "\<not> cc_panic cc" and "cc_next cc' = Suc (cc_next cc)"
    and "\<And>n. answers n cc' = answers n cc"
    and "\<And>n. unanswered n cc' = unanswered n cc + (if n = cc_next cc then 1 else 0)"
  shows "answer_inv cc'"
proof -
  have "answers n cc' + unanswered n cc' = (if n < cc_next cc' then 1 else 0)" for n
    using assms(1-3) assms(4,5) [of n] unfolding answer_inv_def by (cases "n = cc_next cc") (auto simp: less_Suc_eq)
  then show ?thesis unfolding answer_inv_def by blast
qed

lemma answer_inv_step:
  assumes "cc_step dsz cc cc'" and "answer_inv cc"
  shows "answer_inv cc'"
  using assms
proof cases
  case (handle e q rng)
  let ?c = "cc\<lparr>eventChannel := q\<rparr>"
  have "answers n cc' + unanswered n cc' = (if n < cc_next cc' then 1 else 0)" if "\<not> cc_panic cc'" for n
  proof -
    have nx: "cc_next cc' = cc_next cc" and
      bal: "answers n cc' + unanswered n cc' = answers n ?c + unanswered n ?c + (if asks n e then 1 else 0)"
      using handle_answers [of e ?c rng dsz] handle(1) that by (auto simp: answer_balance_def)
    have inv: "answers n cc + unanswered n cc = (if n < cc_next cc then 1 else 0)"
      using assms(2) handle(2) by (simp add: answer_inv_def)
    have "answers n ?c = answers n cc" by simp
    with nx bal inv unanswered_pop [OF handle(4), of n] show ?thesis by simp
  qed
  then show ?thesis unfolding answer_inv_def by blast
next
  case (main_sends e m)
  then show ?thesis
    by (intro answer_inv_same [OF assms(2)]) (simp_all add: unanswered_def enqueue_event_def waiting_channels_def answers_def)
next
  case (task_sends e)
  then have "unanswered n cc' = unanswered n cc" for n
    using unanswered_replace [of "Sending e" cc n "{#}"] by (auto split: if_splits)
  with task_sends show ?thesis by (intro answer_inv_same [OF assms(2)]) simp_all
next
  case (polled sid ts diff)
  then have "unanswered n cc' = unanswered n cc" for n
    using unanswered_replace [of "Polling sid ts" cc n "{#Sending (ChangedActiveTracesEvent sid diff)#}"] by simp
  with polled show ?thesis by (intro answer_inv_same [OF assms(2)]) simp_all
next
  case (poll_failed sid ts)
  then have "unanswered n cc' = unanswered n cc" for n
    using unanswered_replace [of "Polling sid ts" cc n "{#Sending (LongPollServiceEvent sid)#}"] by simp
  with poll_failed show ?thesis by (intro answer_inv_same [OF assms(2)]) simp_all
next
  case beaten
  then have "unanswered n cc' = unanswered n cc" for n
    using unanswered_replace [of Beating cc n "{#Sending HeartbeatEvent#}"] by simp
  with beaten show ?thesis by (intro answer_inv_same [OF assms(2)]) simp_all
next
  case (uploads c sid tid e es m resp ch drops)
  show ?thesis
  proof (cases "offer_event e (cc_channels cc ! ch)")
    case None
    with uploads show ?thesis by (simp add: upload_next_def answer_inv_def)
  next
    case (Some r)
    then obtain chan taken where r: "offer_event e (cc_channels cc ! ch) = Some (chan, taken)" by (cases r) auto
    have "unanswered n cc' = unanswered n cc" for n
      using unanswered_replace [of "Uploading c sid tid (e # es) m resp ch drops"
          "cc\<lparr>cc_channels := (cc_channels cc)[ch := chan]\<rparr>" n
          "{#Uploading c sid tid es m resp ch (if taken then drops else Suc drops)#}"] uploads r
      by (auto simp: upload_next_def split: if_splits)
    with uploads r show ?thesis by (intro answer_inv_same [OF assms(2)]) (simp_all add: upload_next_def)
  qed
next
  case (uploaded c sid tid m resp ch drops)
  let ?t = "Uploading c sid tid [] m resp ch drops"
  let ?c = "respond (TraceEventResponse resp (if drops > 0 then StatusUnprocessableEntity else StatusAccepted) (Some drops)) cc"
  let ?ts = "if m then {#Sending (UnregisterClientFromTrace c sid tid)#} else {#}"
  have run: "cc' = replace_task ?t ?ts ?c" using uploaded by (simp add: upload_end_def Let_def)
  have "?t \<in># cc_tasks ?c" using uploaded by (simp add: respond_def)
  then have "unanswered n cc' + (if resp = n then 1 else 0) = unanswered n cc" for n
    unfolding run using unanswered_replace [of ?t ?c n ?ts] by simp
  moreover have "answers n cc' = answers n cc + (if resp = n then 1 else 0)" for n
    unfolding run by simp
  ultimately have "answers n cc' + unanswered n cc' = answers n cc + unanswered n cc" for n
    by (metis add.assoc add.commute)
  with uploaded show ?thesis
    by (intro answer_inv_same [OF assms(2)]) (simp_all add: upload_end_def Let_def)
next
  case (collects ch)
  then show ?thesis
    by (intro answer_inv_same [OF assms(2)]) (simp_all add: collect_next_def Let_def split: list.splits)
next
  case register
  then show ?thesis by (intro answer_inv_new [OF assms(2)]) auto
next
  case add_events
  then show ?thesis by (intro answer_inv_new [OF assms(2)]) auto
qed

lemma answer_reachable: "cc_reachable dsz cc \<Longrightarrow> answer_inv cc"
proof (induction rule: cc_reachable.induct)
  case start
  then show ?case
    by (simp add: answer_inv_def answers_def unanswered_def cc_Run_def newCloudClient_def waiting_channels_def
        waits_def)
next
  case (step cc cc')
  then show ?case by (blast intro: answer_inv_step)
qed

text \<open>
  C8: however requests, polls, uploads and heartbeats interleave, each request that has arrived is
  either answered, exactly once, or held in exactly one place that will answer it: queued, waiting for
  a change of its service, or being uploaded. Nothing is answered that was not asked.
\<close>

theorem requests_answered_once:
  assumes "cc_reachable dsz cc" and "\<not> cc_panic cc"
  shows "answers n cc + unanswered n cc = (if n < cc_next cc then 1 else 0)"
  using answer_reachable [OF assms(1)] assms(2) by (simp add: answer_inv_def)

section \<open>The difference sent to a client\<close>

text \<open>
  A client that knows the traces \<open>known\<close> and applies the difference knows exactly the active
  traces; the difference names no trace twice, activates none that is known, deactivates only
  known ones, and carries the logging options of those it activates.
\<close>

theorem active_diff_exact:
  assumes order: "\<And>A. distinct (rng A) \<and> set (rng A) = fset A"
  shows "let (d, activated) = getActiveTraceDiff rng si known in
     fset known - set (DeactivatedTraces d) \<union> set activated
       = {tid. \<exists>ti. fmlookup (si_traces si) tid = Some ti \<and> tr_active ti} \<and>
     set activated \<inter> fset known = {} \<and> set (DeactivatedTraces d) \<subseteq> fset known \<and>
     distinct activated \<and> distinct (DeactivatedTraces d) \<and>
     map Some (ActivatedTraces d)
       = map (\<lambda>tid. map_option tr_loggingOptions (fmlookup (si_traces si) tid)) activated"
proof -
  have cur: "set (getCurrentTraces rng si) = {tid. \<exists>ti. fmlookup (si_traces si) tid = Some ti \<and> tr_active ti}"
    "distinct (getCurrentTraces rng si)"
    using order [of "fmdom (si_traces si)"]
    by (auto simp: getCurrentTraces_def fmlookup_dom_iff split: option.splits)
  show ?thesis
    using order [of known] cur
    by (auto simp: getActiveTraceDiff_def Let_def split: option.splits)
qed

section \<open>Running a schedule\<close>

text \<open>A scheduler that performs one chosen action, for concrete runs; it takes only steps of \<open>cc_step\<close>.\<close>

datatype cc_action =
    Handle
  | Main_Sends
  | Register string service_id "trace_id list"
  | Add_Events string service_id trace_id "trace_event list" bool
  | Polled service_id "trace_id list" trace_diff
  | Task_Sends cc_event
  | Uploads string service_id trace_id trace_event "trace_event list" bool nat nat nat
  | Uploaded string service_id trace_id bool nat nat nat

fun perform :: "(trace_diff \<Rightarrow> nat) \<Rightarrow> cc_action \<Rightarrow> cloudClient \<Rightarrow> cloudClient option" where
  "perform dsz Handle cc =
     (case eventChannel cc of
        [] \<Rightarrow> None
      | e # q \<Rightarrow> if cc_main cc \<noteq> [] then None
          else Some (cc_handle sorted_list_of_fset dsz e (cc\<lparr>eventChannel := q\<rparr>)))"
| "perform dsz Main_Sends cc =
     (case cc_main cc of
        [] \<Rightarrow> None
      | e # m \<Rightarrow> if has_room cc then Some (enqueue_event e (cc\<lparr>cc_main := m\<rparr>)) else None)"
| "perform dsz (Register c sid ts) cc =
     (if has_room cc
      then Some (enqueue_event (RegistrationRequest c sid ts (cc_next cc)) (cc\<lparr>cc_next := Suc (cc_next cc)\<rparr>))
      else None)"
| "perform dsz (Add_Events c sid tid es m) cc =
     (if has_room cc
      then Some (enqueue_event (TraceEventRequest c sid tid es m (cc_next cc)) (cc\<lparr>cc_next := Suc (cc_next cc)\<rparr>))
      else None)"
| "perform dsz (Polled sid ts diff) cc =
     (if Polling sid ts \<in># cc_tasks cc
      then Some (replace_task (Polling sid ts) {#Sending (ChangedActiveTracesEvent sid diff)#} cc) else None)"
| "perform dsz (Task_Sends e) cc =
     (if Sending e \<in># cc_tasks cc \<and> has_room cc then Some (enqueue_event e (replace_task (Sending e) {#} cc))
      else None)"
| "perform dsz (Uploads c sid tid e es m resp ch d) cc =
     (if Uploading c sid tid (e # es) m resp ch d \<in># cc_tasks cc
      then Some (upload_next c sid tid e es m resp ch d cc) else None)"
| "perform dsz (Uploaded c sid tid m resp ch d) cc =
     (if Uploading c sid tid [] m resp ch d \<in># cc_tasks cc then Some (upload_end c sid tid m resp ch d cc)
      else None)"

fun perform_all :: "(trace_diff \<Rightarrow> nat) \<Rightarrow> cc_action list \<Rightarrow> cloudClient \<Rightarrow> cloudClient option" where
  "perform_all dsz [] cc = Some cc"
| "perform_all dsz (a # acts) cc =
     (if cc_panic cc then None
      else case perform dsz a cc of None \<Rightarrow> None | Some cc' \<Rightarrow> perform_all dsz acts cc')"

lemma sorted_order: "distinct (sorted_list_of_fset A) \<and> set (sorted_list_of_fset A) = fset A"
  for A :: "nat fset"
  by (simp add: sorted_list_of_fset.rep_eq)

lemma perform_steps: "perform dsz a cc = Some cc' \<Longrightarrow> \<not> cc_panic cc \<Longrightarrow> cc_step dsz cc cc'"
  by (cases a) (auto split: list.splits if_splits intro: cc_step.intros simp: sorted_order)

lemma perform_all_reaches:
  "perform_all dsz acts cc = Some cc' \<Longrightarrow> cc_reachable dsz cc \<Longrightarrow> cc_reachable dsz cc'"
proof (induction acts arbitrary: cc)
  case (Cons a acts)
  then obtain cc1 where "\<not> cc_panic cc" "perform dsz a cc = Some cc1" "perform_all dsz acts cc1 = Some cc'"
    by (auto split: if_splits option.splits)
  with Cons show ?case by (metis cc_reachable.step perform_steps)
qed simp

lemma perform_all_append:
  "perform_all dsz (xs @ ys) cc =
     (case perform_all dsz xs cc of None \<Rightarrow> None | Some cc' \<Rightarrow> perform_all dsz ys cc')"
  by (induction xs arbitrary: cc) (auto split: option.splits)


section \<open>How the daemon comes down\<close>

definition demo_size :: "trace_diff \<Rightarrow> nat" where
  "demo_size d = length (ActivatedTraces d) + length (DeactivatedTraces d)"

definition demo_options :: logging_options where
  "demo_options = \<lparr>lo_TraceID = 7, lo_ServiceID = 0, lo_FilterThirdPartyTrackers = False\<rparr>"

definition demo_on :: trace_diff where
  "demo_on = \<lparr>ActivatedTraces = [demo_options], DeactivatedTraces = []\<rparr>"

definition demo_off :: trace_diff where
  "demo_off = \<lparr>ActivatedTraces = [], DeactivatedTraces = [7]\<rparr>"

text \<open>A client registers for service 0, and the cloud activates trace 7.\<close>

definition demo_start :: "cc_action list" where
  "demo_start =
     [Register ''c'' 0 [], Handle, Handle, Main_Sends, Handle, Polled 0 [] demo_on,
      Task_Sends (ChangedActiveTracesEvent 0 demo_on), Handle]"

text \<open>
  The client sends two requests at the same time, the second with the end of its stream; the second
  upload ends first, and the trace is deactivated before the first upload sends its event.
\<close>

definition demo_close :: "cc_action list" where
  "demo_close =
     [Main_Sends, Handle, Add_Events ''c'' 0 7 [1] False, Add_Events ''c'' 0 7 [] True, Handle, Handle,
      Uploaded ''c'' 0 7 True 2 0 0, Polled 0 [7] demo_off,
      Task_Sends (UnregisterClientFromTrace ''c'' 0 7), Task_Sends (ChangedActiveTracesEvent 0 demo_off),
      Handle, Handle]"

lemmas demo_defs = demo_size_def demo_options_def demo_on_def demo_off_def

lemmas run_ops = cc_Run_def newCloudClient_def has_room_def enqueue_event_def MAIN_GOROUTINE_BUFFER_SIZE_def
  replace_task_def main_send_def spawn_def respond_def put_service_def put_trace_def getInfo_def
  ensureServiceRegistered_def newServiceInfo_def newTraceInfo_def getCurrentTraces_def getActiveTraceDiff_def
  startTraceEventCollector_def close_channel_def unregisterTrace_def handle_heartbeat_def handle_longPoll_def
  add_client_def handle_registration_def handle_traceEvents_def handle_unregisterClient_def
  deactivate_trace_def join_trace_def answer_client_def take_channels_def handle_changedTraces_def
  upload_next_def upload_end_def offer_event_def Let_def

lemma order_simps [simp]: "sorted_list_of_fset {||} = []" "sorted_list_of_fset {|x|} = [x]"
  for x :: nat
  by (simp_all add: sorted_list_of_fset.rep_eq)

lemma demo_start_run:
  "\<exists>cc. perform_all demo_size demo_start cc_Run = Some cc \<and> \<not> cc_panic cc \<and>
     cc_responses cc = [DiffResponse 0 demo_on] \<and> registered 0 cc \<and> \<not> registered 1 cc \<and>
     trace_at cc 0 7 = Some ((newTraceInfo demo_options 0)\<lparr>tr_clientNames := {|''c''|}\<rparr>) \<and> cc_next cc = 1"
  by (simp add: demo_start_def run_ops demo_defs trace_at_def registered_def)

lemma demo_start_obtain:
  obtains cc where "perform_all demo_size demo_start cc_Run = Some cc" "cc_reachable demo_size cc"
    "\<not> cc_panic cc" "registered 0 cc" "\<not> registered 1 cc" "cc_next cc = 1"
    "trace_at cc 0 7 = Some ((newTraceInfo demo_options 0)\<lparr>tr_clientNames := {|''c''|}\<rparr>)"
  using demo_start_run
  by (elim exE conjE) (rule that, auto intro: perform_all_reaches [OF _ cc_reachable.start])

lemma one_poll_per_service_witness:
  "\<exists>cc. perform_all demo_size demo_start cc_Run = Some cc \<and> polls 0 cc = 1 \<and> polls 1 cc = 0"
proof (rule demo_start_obtain)
  fix cc
  assume cc: "perform_all demo_size demo_start cc_Run = Some cc" "cc_reachable demo_size cc" "\<not> cc_panic cc"
    "registered 0 cc" "\<not> registered 1 cc"
  show ?thesis
    using cc one_poll_per_service [OF cc(2,3), of 0] one_poll_per_service [OF cc(2,3), of 1]
    by (intro exI [of _ cc]) simp
qed

lemma trace_table_sound_witness:
  "\<exists>cc. perform_all demo_size demo_start cc_Run = Some cc \<and> is_open cc 0"
proof (rule demo_start_obtain)
  fix cc
  assume cc: "perform_all demo_size demo_start cc_Run = Some cc" "cc_reachable demo_size cc"
    and t: "trace_at cc 0 7 = Some ((newTraceInfo demo_options 0)\<lparr>tr_clientNames := {|''c''|}\<rparr>)"
  show ?thesis
    using cc(1) trace_table_sound [OF cc(2) t] by (intro exI [of _ cc]) (simp add: newTraceInfo_def)
qed

lemma requests_answered_once_witness:
  "\<exists>cc. perform_all demo_size demo_start cc_Run = Some cc \<and>
     answers 0 cc + unanswered 0 cc = 1 \<and> answers 1 cc + unanswered 1 cc = 0"
proof (rule demo_start_obtain)
  fix cc
  assume cc: "perform_all demo_size demo_start cc_Run = Some cc" "cc_reachable demo_size cc" "\<not> cc_panic cc"
    "cc_next cc = 1"
  show ?thesis
    using cc(1,4) requests_answered_once [OF cc(2,3), of 0] requests_answered_once [OF cc(2,3), of 1]
    by (intro exI [of _ cc]) simp
qed

text \<open>Trace 7 is active, trace 8 is not any more, and the client knows 8 and 9.\<close>

definition demo_service :: serviceInfo where
  "demo_service =
     \<lparr>si_traces = fmap_of_list [(7, newTraceInfo demo_options 0), (8, (newTraceInfo demo_options 1)\<lparr>tr_active := False\<rparr>)],
      si_responseChannels = []\<rparr>"

lemma active_diff_exact_witness:
  "case getActiveTraceDiff sorted_list_of_fset demo_service {|8, 9|} of
     (d, activated) \<Rightarrow> {8, 9} - set (DeactivatedTraces d) \<union> set activated = {7}"
proof -
  have "{tid. \<exists>ti. fmlookup (si_traces demo_service) tid = Some ti \<and> tr_active ti} = {7}"
    by (auto simp: demo_service_def newTraceInfo_def fmlookup_of_list split: if_splits)
  with active_diff_exact [OF sorted_order, of demo_service "{|8, 9|}"] show ?thesis
    by (auto simp: Let_def split: prod.splits)
qed

lemma demo_close_run:
  "\<exists>cc. perform_all demo_size (demo_start @ demo_close) cc_Run = Some cc \<and> \<not> cc_panic cc \<and>
     trace_at cc 0 7 = None \<and> Uploading ''c'' 0 7 [1] False 1 0 0 \<in># cc_tasks cc \<and>
     map ch_closed (cc_channels cc) = [True]"
  by (simp add: demo_start_def demo_close_def run_ops demo_defs trace_at_def StatusAccepted_def eval_nat_numeral)

text \<open>
  An upload can find the channel of its trace closed, and sending on it brings the whole daemon
  down: a client whose last request, marked as the end of its events, overtakes an earlier one is
  unregistered from the trace, and a trace that is deactivated then is closed under the earlier upload.
\<close>

theorem upload_after_close_panics:
  "\<exists>cc cc'. cc_reachable demo_size cc \<and> \<not> cc_panic cc \<and> cc_step demo_size cc cc' \<and> cc_panic cc'"
proof -
  obtain cc where cc: "perform_all demo_size (demo_start @ demo_close) cc_Run = Some cc" "\<not> cc_panic cc"
    "Uploading ''c'' 0 7 [1] False 1 0 0 \<in># cc_tasks cc" "map ch_closed (cc_channels cc) = [True]"
    using demo_close_run by (elim exE conjE) (rule that)
  let ?cc = "upload_next ''c'' 0 7 1 [] False 1 0 0 cc"
  have r: "cc_reachable demo_size cc" using perform_all_reaches [OF cc(1) cc_reachable.start] .
  have s: "cc_step demo_size cc ?cc" using cc(2,3) by (rule cc_step.uploads)
  have "ch_closed (cc_channels cc ! 0)" using cc(4) by (cases "cc_channels cc") auto
  then have "cc_panic ?cc" by (simp add: upload_next_def offer_event_def)
  with r s cc(2) show ?thesis by (intro exI conjI)
qed

section \<open>How the daemon halts\<close>

definition halted :: "cloudClient \<Rightarrow> bool" where
  "halted cc \<longleftrightarrow> cc_main cc \<noteq> [] \<and> length (eventChannel cc) = MAIN_GOROUTINE_BUFFER_SIZE"

lemma halted_step:
  assumes "cc_step dsz cc cc'" and "halted cc"
  shows "halted cc' \<and> eventChannel cc' = eventChannel cc \<and> cc_main cc' = cc_main cc"
  using assms
  by cases (auto simp: halted_def has_room_def replace_task_def upload_next_def upload_end_def respond_def
      collect_next_def Let_def split: option.splits list.splits)

lemma halted_forever:
  "(cc_step dsz)\<^sup>*\<^sup>* cc cc' \<Longrightarrow> halted cc \<Longrightarrow>
   halted cc' \<and> eventChannel cc' = eventChannel cc \<and> cc_main cc' = cc_main cc"
  by (induction rule: rtranclp_induct) (use halted_step in \<open>force+\<close>)

lemma fill_channel:
  assumes "cc_reachable dsz cc" and "\<not> cc_panic cc"
    and "length (eventChannel cc) + k \<le> MAIN_GOROUTINE_BUFFER_SIZE"
  shows "\<exists>cc'. cc_reachable dsz cc' \<and> \<not> cc_panic cc' \<and> cc_main cc' = cc_main cc \<and>
    length (eventChannel cc') = length (eventChannel cc) + k"
  using assms
proof (induction k arbitrary: cc)
  case (Suc k)
  let ?cc = "enqueue_event (RegistrationRequest ''c'' 0 [] (cc_next cc)) (cc\<lparr>cc_next := Suc (cc_next cc)\<rparr>)"
  have "cc_step dsz cc ?cc" using Suc.prems by (intro cc_step.register) (simp_all add: has_room_def)
  with Suc.prems(1) have "cc_reachable dsz ?cc" by (rule cc_reachable.step)
  moreover have "\<not> cc_panic ?cc" "cc_main ?cc = cc_main cc" "length (eventChannel ?cc) = Suc (length (eventChannel cc))"
    using Suc.prems(2) by (simp_all add: enqueue_event_def)
  ultimately show ?case using Suc.IH [of ?cc] Suc.prems(3) by auto
qed auto

lemma first_registration:
  "\<exists>cc. perform_all dsz [Register ''c'' 0 [], Handle, Handle] cc_Run = Some cc \<and> \<not> cc_panic cc \<and>
     cc_main cc = [LongPollServiceEvent 0] \<and> eventChannel cc = []"
  by (cases "dsz \<lparr>ActivatedTraces = [], DeactivatedTraces = []\<rparr> = 0") (simp_all add: run_ops)

text \<open>
  The main goroutine can halt for ever: registering a service makes it send to the channel that
  it alone empties, and when fifty requests have filled the channel before the send, no step of any
  goroutine ever takes an event from it again.
\<close>

theorem main_goroutine_halts:
  "\<exists>cc. cc_reachable dsz cc \<and> \<not> cc_panic cc \<and>
     {cc'. (cc_step dsz)\<^sup>*\<^sup>* cc cc'} \<subseteq> {cc'. eventChannel cc' = eventChannel cc \<and> cc_main cc' = [LongPollServiceEvent 0]}"
proof -
  obtain cc where cc: "perform_all dsz [Register ''c'' 0 [], Handle, Handle] cc_Run = Some cc" "\<not> cc_panic cc"
    "cc_main cc = [LongPollServiceEvent 0]" "eventChannel cc = []"
    using first_registration [of dsz] by (elim exE conjE) (rule that)
  have "cc_reachable dsz cc" using perform_all_reaches [OF cc(1) cc_reachable.start] .
  from fill_channel [OF this cc(2), of MAIN_GOROUTINE_BUFFER_SIZE]
  obtain c2 where c2: "cc_reachable dsz c2" "\<not> cc_panic c2" "cc_main c2 = [LongPollServiceEvent 0]"
    "length (eventChannel c2) = MAIN_GOROUTINE_BUFFER_SIZE"
    unfolding cc(3,4) by (metis add_0 list.size(3) order_refl)
  have "halted c2" using c2(3,4) by (simp add: halted_def)
  have "{cc'. (cc_step dsz)\<^sup>*\<^sup>* c2 cc'} \<subseteq> {cc'. eventChannel cc' = eventChannel c2 \<and> cc_main cc' = [LongPollServiceEvent 0]}"
  proof (rule subsetI)
    fix cc'
    assume "cc' \<in> {cc'. (cc_step dsz)\<^sup>*\<^sup>* c2 cc'}"
    then have "(cc_step dsz)\<^sup>*\<^sup>* c2 cc'" by (rule CollectD)
    from halted_forever [OF this \<open>halted c2\<close>] c2(3)
    show "cc' \<in> {cc'. eventChannel cc' = eventChannel c2 \<and> cc_main cc' = [LongPollServiceEvent 0]}"
      by simp
  qed
  with c2(1,2) show ?thesis by (intro exI conjI)
qed

end
