(* ===== verification/Tcp_Flow.thy ===== *)
theory Tcp_Flow
  imports Network
begin

text \<open>
  \<open>pcap/stream.go\<close>: the flows of a TCP connection. The assembler (gopacket) hands a flow its bytes in
  stream order, in pieces; the flow chooses a parser for them, feeds it, and sends what it parsed to
  the capture's channel. The assembler and the parsers (akita-libs) are not part of the
  repository: a piece is a record with what the code reads of it, and the parsers are the record
  \<open>parser_factories\<close>, an argument of the operations.
\<close>

section \<open>Parsers and pieces of a stream\<close>

datatype 'k decision = NeedMoreData | Reject | Accept 'k | OtherDecision

text \<open>
  What \<open>Parse\<close> returns: more data needed, content with the number of bytes of the last piece that it
  did not use, or an error with the number of bytes it had consumed.
\<close>

datatype parse_result = ParseMore | ParseDone content nat | ParseError nat

record ('k, 'p) parser_factories =
  pf_Select :: "byte list \<Rightarrow> bool \<Rightarrow> 'k decision \<times> nat"
  pf_CreateParser :: "'k \<Rightarrow> uuid \<Rightarrow> u32 \<Rightarrow> u32 \<Rightarrow> 'p"
  pf_Parse :: "'p \<Rightarrow> byte list \<Rightarrow> bool \<Rightarrow> parse_result \<times> 'p"

text \<open>The context of a packet: none, a foreign one, or \<open>assemblerCtxWithSeq\<close>.\<close>

datatype asm_ctx = NilContext | OtherContext | ContextWithSeq instant u32 u32

text \<open>
  \<open>reassembly.ScatterGather\<close>: all the bytes, those kept from the last call first, and for each
  offset the time and the context of the packet it came in.
\<close>

record scatter_gather =
  sg_bytes :: "byte list"
  sg_isEnd :: bool
  sg_time :: "nat \<Rightarrow> instant"
  sg_ctx :: "nat \<Rightarrow> asm_ctx"

section \<open>State\<close>

text \<open>\<open>currentParser\<close> with the time of \<open>currentParserCtx\<close>: the two are set and cleared together.\<close>

record 'p tcp_flow =
  fl_netFlow :: "ip \<times> ip"
  fl_tcpFlow :: "u16 \<times> u16"
  fl_bidiID :: uuid
  currentParser :: "('p \<times> instant) option"
  unusedAcceptBuf :: "byte list"

text \<open>What the flows share: the channel, the clock (read \<open>clock_reads\<close> times so far) and the counters.\<close>

record capture =
  out_chan :: "traffic list"
  clock_reads :: nat
  CountNilAssemblerContext :: "64 word"
  CountNilAssemblerContextAfterParse :: "64 word"
  CountBadAssemblerContextType :: "64 word"

definition newTCPFlow :: "uuid \<Rightarrow> ip \<times> ip \<Rightarrow> u16 \<times> u16 \<Rightarrow> 'p tcp_flow" where
  "newTCPFlow bidiID nf tf =
     \<lparr>fl_netFlow = nf, fl_tcpFlow = tf, fl_bidiID = bidiID, currentParser = None, unusedAcceptBuf = []\<rparr>"

section \<open>Operations of a flow\<close>

definition clock_Now :: "(nat \<Rightarrow> instant) \<Rightarrow> capture \<Rightarrow> instant \<times> capture" where
  "clock_Now clock w = (clock (clock_reads w), w\<lparr>clock_reads := Suc (clock_reads w)\<rparr>)"

definition toPNT ::
  "(nat \<Rightarrow> instant) \<Rightarrow> 'p tcp_flow \<Rightarrow> instant \<Rightarrow> instant \<Rightarrow> content \<Rightarrow> capture \<Rightarrow> traffic \<times> capture" where
  "toPNT clock f firstPacketTime lastPacketTime c w =
     (let (firstPacketTime, w) = (if is_zero firstPacketTime then clock_Now clock w else (firstPacketTime, w));
          lastPacketTime = (if is_zero lastPacketTime then firstPacketTime else lastPacketTime)
      in (\<lparr>src_ip = fst (fl_netFlow f), src_port = uint (fst (fl_tcpFlow f)),
           dst_ip = snd (fl_netFlow f), dst_port = uint (snd (fl_tcpFlow f)),
           content = c, interface_name = [],
           observation_time = firstPacketTime, final_packet_time = lastPacketTime\<rparr>, w))"

definition send_out :: "traffic \<Rightarrow> capture \<Rightarrow> capture" where
  "send_out t w = w\<lparr>out_chan := out_chan w @ [t]\<rparr>"

definition send_PNT ::
  "(nat \<Rightarrow> instant) \<Rightarrow> 'p tcp_flow \<Rightarrow> instant \<Rightarrow> instant \<Rightarrow> content \<Rightarrow> capture \<Rightarrow> capture" where
  "send_PNT clock f t1 t2 c w = (let (t, w) = toPNT clock f t1 t2 c w in send_out t w)"

definition handleUnparseable :: "(nat \<Rightarrow> instant) \<Rightarrow> 'p tcp_flow \<Rightarrow> instant \<Rightarrow> nat \<Rightarrow> capture \<Rightarrow> capture" where
  "handleUnparseable clock f t n w = (if n > 0 then send_PNT clock f t t (DroppedBytes (int n)) w else w)"

text \<open>
  The choice of a parser in \<open>reassembledWithIgnore\<close>: either the call returns, with the offset given
  to \<open>KeepFrom\<close> if it was called, or a parser for the rest of the data has been created.
\<close>

definition select_parser ::
  "('k, 'p) parser_factories \<Rightarrow> (nat \<Rightarrow> instant) \<Rightarrow> nat \<Rightarrow> scatter_gather \<Rightarrow> byte list \<Rightarrow>
   'p tcp_flow \<Rightarrow> capture \<Rightarrow>
   ('p tcp_flow \<times> capture \<times> nat option) + (('p \<times> instant) \<times> byte list \<times> 'p tcp_flow \<times> capture)" where
  "select_parser P clock ignoreCount sg pktData f w =
     (let (decision, discardFront) = pf_Select P pktData (sg_isEnd sg);
          w = (if discardFront > 0 then handleUnparseable clock f (sg_time sg ignoreCount) discardFront w else w);
          pktData = drop discardFront pktData
      in case decision of
           NeedMoreData \<Rightarrow> Inl (f\<lparr>unusedAcceptBuf := pktData\<rparr>, w, Some (ignoreCount + discardFront))
         | Reject \<Rightarrow> Inl (f\<lparr>unusedAcceptBuf := []\<rparr>, w, None)
         | Accept factory \<Rightarrow>
             (let f = f\<lparr>unusedAcceptBuf := []\<rparr>
              in case sg_ctx sg (ignoreCount + discardFront) of
                   ContextWithSeq t sq ak \<Rightarrow>
                     Inr ((pf_CreateParser P factory (fl_bidiID f) sq ak, t), pktData, f, w)
                 | NilContext \<Rightarrow>
                     Inl (f, handleUnparseable clock f (sg_time sg ignoreCount) (length pktData)
                       (w\<lparr>CountNilAssemblerContext := CountNilAssemblerContext w + 1\<rparr>), None)
                 | OtherContext \<Rightarrow>
                     Inl (f, handleUnparseable clock f (sg_time sg ignoreCount) (length pktData)
                       (w\<lparr>CountBadAssemblerContextType := CountBadAssemblerContextType w + 1\<rparr>), None))
         | OtherDecision \<Rightarrow>
             Inl (f, handleUnparseable clock f (sg_time sg ignoreCount) (length pktData) w, None))"

text \<open>
  The end of a parse: \<open>parseEnd\<close> is the time of the packet that completed it, when its context is
  known.
\<close>

definition parse_complete ::
  "(nat \<Rightarrow> instant) \<Rightarrow> instant \<Rightarrow> instant option \<Rightarrow> content \<Rightarrow> 'p tcp_flow \<Rightarrow> capture \<Rightarrow> 'p tcp_flow \<times> capture" where
  "parse_complete clock parseStart ac c f w =
     (let (parseEnd, w) = (case ac of
            Some t \<Rightarrow> (t, w)
          | None \<Rightarrow> (parseStart, w\<lparr>CountNilAssemblerContextAfterParse := CountNilAssemblerContextAfterParse w + 1\<rparr>))
      in (f\<lparr>currentParser := None\<rparr>, send_PNT clock f parseStart parseEnd c w))"

text \<open>
  \<open>reassembledWithIgnore\<close> calls itself for the unused bytes of the last piece; with a parser that
  returned content without using a byte it would never return, hence the fuel, and \<open>None\<close> when it is used up.
\<close>

fun reassembledWithIgnore ::
  "('k, 'p) parser_factories \<Rightarrow> (nat \<Rightarrow> instant) \<Rightarrow> nat \<Rightarrow> nat \<Rightarrow> scatter_gather \<Rightarrow> instant option \<Rightarrow>
   'p tcp_flow \<Rightarrow> capture \<Rightarrow> ('p tcp_flow \<times> capture \<times> nat option) option" where
  "reassembledWithIgnore P clock 0 ignoreCount sg ac f w = None"
| "reassembledWithIgnore P clock (Suc fuel) ignoreCount sg ac f w =
     (let bytesAvailable = length (sg_bytes sg);
          pktData = drop ignoreCount (sg_bytes sg)
      in case (case currentParser f of
                 None \<Rightarrow> select_parser P clock ignoreCount sg pktData f w
               | Some parser \<Rightarrow> Inr (parser, pktData, f, w)) of
           Inl returned \<Rightarrow> Some returned
         | Inr ((p, parseStart), pktData, f, w) \<Rightarrow>
             (case pf_Parse P p pktData (sg_isEnd sg) of
                (ParseError numBytesConsumed, _) \<Rightarrow>
                  Some (f\<lparr>currentParser := None\<rparr>, handleUnparseable clock f parseStart numBytesConsumed w, None)
              | (ParseDone pnc unused, _) \<Rightarrow>
                  (let (f, w) = parse_complete clock parseStart ac pnc f w
                   in if unused > 0 then
                        if sg_isEnd sg
                        then reassembledWithIgnore P clock fuel (bytesAvailable - unused) sg ac f w
                        else Some (f, w, Some (bytesAvailable - unused))
                      else Some (f, w, None))
              | (ParseMore, p') \<Rightarrow> Some (f\<lparr>currentParser := Some (p', parseStart)\<rparr>, w, None)))"

definition reassembled ::
  "('k, 'p) parser_factories \<Rightarrow> (nat \<Rightarrow> instant) \<Rightarrow> scatter_gather \<Rightarrow> instant option \<Rightarrow>
   'p tcp_flow \<Rightarrow> capture \<Rightarrow> ('p tcp_flow \<times> capture \<times> nat option) option" where
  "reassembled P clock sg ac f w =
     reassembledWithIgnore P clock (length (sg_bytes sg) + 2) 0 sg ac f w"

definition reassemblyComplete ::
  "('k, 'p) parser_factories \<Rightarrow> (nat \<Rightarrow> instant) \<Rightarrow> 'p tcp_flow \<Rightarrow> capture \<Rightarrow> 'p tcp_flow \<times> capture" where
  "reassemblyComplete P clock f w =
     (case currentParser f of
        Some (p, t) \<Rightarrow>
          (f\<lparr>currentParser := None\<rparr>,
           (case pf_Parse P p [] True of
              (ParseError numBytesConsumed, _) \<Rightarrow> handleUnparseable clock f t numBytesConsumed w
            | (ParseDone pnc unused, _) \<Rightarrow> handleUnparseable clock f t unused (send_PNT clock f t t pnc w)
            | (ParseMore, _) \<Rightarrow> w))
      | None \<Rightarrow>
          (if unusedAcceptBuf f \<noteq> [] then
             (let (t1, w) = clock_Now clock w;
                  (t2, w) = clock_Now clock w
              in (f, send_PNT clock f t1 t2 (DroppedBytes (int (length (unusedAcceptBuf f)))) w))
           else (f, w)))"

section \<open>Connections\<close>

datatype flow_dir = TCPDirClientToServer | TCPDirServerToClient

fun dir_Reverse :: "flow_dir \<Rightarrow> flow_dir" where
  "dir_Reverse TCPDirClientToServer = TCPDirServerToClient"
| "dir_Reverse TCPDirServerToClient = TCPDirClientToServer"

text \<open>The flows are made when the first packet is seen.\<close>

record 'p tcp_stream =
  st_bidiID :: uuid
  st_netFlow :: "ip \<times> ip"
  st_flows :: "(flow_dir \<Rightarrow> 'p tcp_flow) option"

record tcp_header =
  th_SrcPort :: u16
  th_DstPort :: u16
  th_SYN :: bool
  th_ACK :: bool
  th_FIN :: bool
  th_RST :: bool
  th_payload :: nat

definition newTCPStream :: "uuid \<Rightarrow> ip \<times> ip \<Rightarrow> 'p tcp_stream" where
  "newTCPStream newUUID netFlow = \<lparr>st_bidiID = newUUID, st_netFlow = netFlow, st_flows = None\<rparr>"

definition stream_metadata :: "'p tcp_stream \<Rightarrow> tcp_header \<Rightarrow> instant \<Rightarrow> traffic" where
  "stream_metadata c tcp t =
     \<lparr>src_ip = fst (st_netFlow c), src_port = uint (th_SrcPort tcp),
      dst_ip = snd (st_netFlow c), dst_port = uint (th_DstPort tcp),
      content = TCPPacketMetadata
        \<lparr>tp_conn = st_bidiID c, tp_syn = th_SYN tcp, tp_ack = th_ACK tcp, tp_fin = th_FIN tcp,
         tp_rst = th_RST tcp, tp_payload_len = int (th_payload tcp)\<rparr>,
      interface_name = [], observation_time = t, final_packet_time = 0\<rparr>"

text \<open>Every packet is accepted, and the stream is started with it.\<close>

definition stream_Accept ::
  "tcp_header \<Rightarrow> flow_dir \<Rightarrow> instant \<Rightarrow> 'p tcp_stream \<Rightarrow> capture \<Rightarrow> bool \<times> 'p tcp_stream \<times> capture" where
  "stream_Accept tcp dir t c w =
     (let c = (case st_flows c of
            Some _ \<Rightarrow> c
          | None \<Rightarrow>
              (let s1 = newTCPFlow (st_bidiID c) (st_netFlow c) (th_SrcPort tcp, th_DstPort tcp);
                   s2 = newTCPFlow (st_bidiID c) (prod.swap (st_netFlow c)) (th_DstPort tcp, th_SrcPort tcp)
               in c\<lparr>st_flows := Some (\<lambda>d. if d = dir then s1 else s2)\<rparr>))
      in (True, c, send_out (stream_metadata c tcp t) w))"

definition ReassembledSG ::
  "('k, 'p) parser_factories \<Rightarrow> (nat \<Rightarrow> instant) \<Rightarrow> flow_dir \<Rightarrow> scatter_gather \<Rightarrow> instant option \<Rightarrow>
   'p tcp_stream \<Rightarrow> capture \<Rightarrow> ('p tcp_stream \<times> capture \<times> nat option) option" where
  "ReassembledSG P clock dir sg ac c w =
     (case st_flows c of
        None \<Rightarrow> Some (c, w, None)
      | Some flows \<Rightarrow>
          (case reassembled P clock sg ac (flows dir) w of
             None \<Rightarrow> None
           | Some (f, w, keep) \<Rightarrow> Some (c\<lparr>st_flows := Some (flows(dir := f))\<rparr>, w, keep)))"

text \<open>\<open>dirs\<close> is the order in which the range over the map of flows visits them.\<close>

fun complete_flows ::
  "('k, 'p) parser_factories \<Rightarrow> (nat \<Rightarrow> instant) \<Rightarrow> flow_dir list \<Rightarrow> (flow_dir \<Rightarrow> 'p tcp_flow) \<Rightarrow>
   capture \<Rightarrow> (flow_dir \<Rightarrow> 'p tcp_flow) \<times> capture" where
  "complete_flows P clock [] flows w = (flows, w)"
| "complete_flows P clock (dir # dirs) flows w =
     (let (f, w) = reassemblyComplete P clock (flows dir) w
      in complete_flows P clock dirs (flows(dir := f)) w)"

definition ReassemblyComplete ::
  "('k, 'p) parser_factories \<Rightarrow> (nat \<Rightarrow> instant) \<Rightarrow> flow_dir list \<Rightarrow> 'p tcp_stream \<Rightarrow> capture \<Rightarrow>
   bool \<times> 'p tcp_stream \<times> capture" where
  "ReassemblyComplete P clock dirs c w =
     (case st_flows c of
        None \<Rightarrow> (True, c, w)
      | Some flows \<Rightarrow>
          (let (flows, w) = complete_flows P clock dirs flows w
           in (True, c\<lparr>st_flows := Some flows\<rparr>, w)))"

section \<open>What a flow sends\<close>

definition endpoints :: "'p tcp_flow \<Rightarrow> (ip \<times> int) \<times> (ip \<times> int)" where
  "endpoints f =
     ((fst (fl_netFlow f), uint (fst (fl_tcpFlow f))), (snd (fl_netFlow f), uint (snd (fl_tcpFlow f))))"

definition sent :: "traffic \<Rightarrow> ((ip \<times> int) \<times> (ip \<times> int)) \<times> content" where
  "sent t = (((src_ip t, src_port t), (dst_ip t, dst_port t)), content t)"

lemma sent_send_out [simp]: "map sent (out_chan (send_out t w)) = map sent (out_chan w) @ [sent t]"
  by (simp add: send_out_def)

lemma sent_send_PNT [simp]:
  "map sent (out_chan (send_PNT clock f t1 t2 c w)) = map sent (out_chan w) @ [(endpoints f, c)]"
  by (simp add: send_PNT_def toPNT_def clock_Now_def Let_def sent_def endpoints_def send_out_def)

lemma endpoints_fields [simp]:
  "endpoints (f\<lparr>currentParser := a\<rparr>) = endpoints f" "endpoints (f\<lparr>unusedAcceptBuf := b\<rparr>) = endpoints f"
  by (simp_all add: endpoints_def)

lemma parse_complete_simps [simp]:
  "fst (parse_complete clock t ac c f w) = f\<lparr>currentParser := None\<rparr>"
  "map sent (out_chan (snd (parse_complete clock t ac c f w))) = map sent (out_chan w) @ [(endpoints f, c)]"
  by (simp_all add: parse_complete_def Let_def split: option.splits)

end
