(* ===== verification/Tcp_Framing.thy ===== *)
theory Tcp_Framing
  imports Tcp_Flow
begin

text \<open>
  The abstract specification of a flow: a stream that is a sequence of messages is sent on as exactly
  these messages, however the network cut it into pieces. What the flow relies on in the parsers
  and in the assembler is stated here: \<open>framed_format\<close> for the parsers, and the delivery of
  kept bytes in front of new ones for the assembler.
\<close>

section \<open>Parsers of self-delimiting messages\<close>

text \<open>
  \<open>msg k m\<close>: the bytes \<open>m\<close> are one message that the factory \<open>k\<close> is for, and \<open>build\<close> the content
  made of it. \<open>holds p k b s a d\<close>: the parser \<open>p\<close> has consumed the part \<open>d\<close> of a message. Parsers accept
  a message by its beginning, ask for more until it is complete, and leave alone what comes after it.
\<close>

definition framed_format ::
  "('k, 'p) parser_factories \<Rightarrow> ('k \<Rightarrow> byte list \<Rightarrow> bool) \<Rightarrow>
   ('k \<Rightarrow> uuid \<Rightarrow> u32 \<Rightarrow> u32 \<Rightarrow> byte list \<Rightarrow> content) \<Rightarrow>
   ('p \<Rightarrow> 'k \<Rightarrow> uuid \<Rightarrow> u32 \<Rightarrow> u32 \<Rightarrow> byte list \<Rightarrow> bool) \<Rightarrow> bool" where
  "framed_format P msg build holds \<longleftrightarrow>
     (\<forall>k. \<not> msg k []) \<and>
     (\<forall>b. pf_Select P [] b \<in> {(NeedMoreData, 0), (Reject, 0)}) \<and>
     (\<forall>k m x b. msg k m \<longrightarrow> pf_Select P (m @ x) b = (Accept k, 0)) \<and>
     (\<forall>k d e. msg k (d @ e) \<longrightarrow> d \<noteq> [] \<longrightarrow> e \<noteq> [] \<longrightarrow>
        pf_Select P d False \<in> {(NeedMoreData, 0), (Accept k, 0)}) \<and>
     (\<forall>k b s a. holds (pf_CreateParser P k b s a) k b s a []) \<and>
     (\<forall>p k b s a d e r. holds p k b s a d \<longrightarrow> msg k (d @ e @ r) \<longrightarrow> r \<noteq> [] \<longrightarrow>
        (\<exists>p'. pf_Parse P p e False = (ParseMore, p') \<and> holds p' k b s a (d @ e))) \<and>
     (\<forall>p k b s a d e x q. holds p k b s a d \<longrightarrow> msg k (d @ e) \<longrightarrow> e \<noteq> [] \<longrightarrow>
        fst (pf_Parse P p (e @ x) q) = ParseDone (build k b s a (d @ e)) (length x))"

lemmas framed_dest = framed_format_def [THEN iffD1]
lemma framed_nonempty: "framed_format P msg build holds \<Longrightarrow> msg k m \<Longrightarrow> m \<noteq> []"
  by (drule framed_dest, drule conjunct1, drule spec [of _ k]) auto

lemmas framed_nothing = framed_dest [THEN conjunct2, THEN conjunct1, rule_format]
lemmas framed_select_whole = framed_dest [THEN conjunct2, THEN conjunct2, THEN conjunct1, rule_format]
lemmas framed_part =
  framed_dest [THEN conjunct2, THEN conjunct2, THEN conjunct2, THEN conjunct1, rule_format]
lemmas framed_created =
  framed_dest [THEN conjunct2, THEN conjunct2, THEN conjunct2, THEN conjunct2, THEN conjunct1, rule_format]
lemmas framed_more =
  framed_dest [THEN conjunct2, THEN conjunct2, THEN conjunct2, THEN conjunct2, THEN conjunct2, THEN conjunct1,
    rule_format]
lemmas framed_done =
  framed_dest [THEN conjunct2, THEN conjunct2, THEN conjunct2, THEN conjunct2, THEN conjunct2, THEN conjunct2,
    rule_format]

lemma framed_select_nothing:
  assumes "framed_format P msg build holds"
  obtains "pf_Select P [] b = (NeedMoreData, 0)" | "pf_Select P [] b = (Reject, 0)"
  using framed_nothing [OF assms, of b] that by blast

lemma framed_select_part:
  assumes "framed_format P msg build holds" and "msg k (d @ e)" and "d \<noteq> []" and "e \<noteq> []"
  obtains "pf_Select P d False = (NeedMoreData, 0)" | "pf_Select P d False = (Accept k, 0)"
  using framed_part [OF assms] that by blast

text \<open>
  A parser that holds a proper part \<open>d\<close> of the message \<open>m\<close> and is given the next piece \<open>e\<close> of the
  stream either needs more of the message, or completes it and leaves the rest of the piece.
\<close>

lemma framed_parse:
  assumes ff: "framed_format P msg build holds" and h: "holds p k b s a d" and m: "msg k m"
    and d: "length d < length m" and stream: "d @ e @ fut = m @ rest"
  obtains (more) p' where "length (d @ e) < length m" "pf_Parse P p e False = (ParseMore, p')" "holds p' k b s a (d @ e)"
  | (complete) e1 x where "x @ fut = rest" "e = e1 @ x" "e1 \<noteq> []"
      "\<And>q. fst (pf_Parse P p e q) = ParseDone (build k b s a m) (length x)"
proof (cases "length (d @ e) < length m")
  case True
  have "take (length m) (d @ e @ fut) = m" using stream by simp
  with True have "m = (d @ e) @ take (length m - length (d @ e)) fut" by (simp add: take_append)
  then obtain r where r: "m = (d @ e) @ r" by blast
  with True have "r \<noteq> []" by auto
  have "msg k (d @ e @ r)" using m r by simp
  from framed_more [OF ff h this \<open>r \<noteq> []\<close>] more True show thesis by blast
next
  case False
  let ?e1 = "take (length m - length d) e" and ?x = "drop (length m - length d) e"
  have "take (length m) (d @ e @ fut) = m" using stream by simp
  with False d have whole: "m = d @ ?e1" by simp
  then have ne: "?e1 \<noteq> []" using d by auto
  have "?x @ fut = rest"
  proof -
    have "d @ ?e1 @ (?x @ fut) = (d @ ?e1) @ rest"
      using stream whole by (metis append.assoc append_take_drop_id)
    then show ?thesis by simp
  qed
  moreover have "fst (pf_Parse P p e q) = ParseDone (build k b s a m) (length ?x)" for q
  proof -
    have "msg k (d @ ?e1)" using m whole by simp
    from framed_done [OF ff h this ne, of ?x q] show ?thesis by (simp flip: whole)
  qed
  ultimately show thesis using complete [of ?x ?e1] ne by simp
qed


section \<open>Delivery by the assembler\<close>

text \<open>
  A delivery is a new piece of the stream, whether it is the last, and the time of the packet that
  caused it. Bytes kept with \<open>KeepFrom\<close> are delivered again in front of the next piece; \<open>time_at\<close> and
  \<open>ctx_at\<close> give the time and the context of the packet of each position of the stream.
\<close>

record delivery =
  dl_bytes :: "byte list"
  dl_end :: bool
  dl_ac :: "instant option"

record 'p flow_run =
  fr_flow :: "'p tcp_flow"
  fr_capture :: capture
  fr_kept :: "byte list"
  fr_pos :: nat

definition feed ::
  "('k, 'p) parser_factories \<Rightarrow> (nat \<Rightarrow> instant) \<Rightarrow> (nat \<Rightarrow> instant) \<Rightarrow> (nat \<Rightarrow> asm_ctx) \<Rightarrow>
   delivery \<Rightarrow> 'p flow_run \<Rightarrow> 'p flow_run option" where
  "feed P clock time_at ctx_at dl r =
     (let bytes = fr_kept r @ dl_bytes dl;
          sg = \<lparr>sg_bytes = bytes, sg_isEnd = dl_end dl,
                sg_time = (\<lambda>i. time_at (fr_pos r + i)), sg_ctx = (\<lambda>i. ctx_at (fr_pos r + i))\<rparr>
      in case reassembled P clock sg (dl_ac dl) (fr_flow r) (fr_capture r) of
           None \<Rightarrow> None
         | Some (f, w, keep) \<Rightarrow>
             (let n = (case keep of Some n \<Rightarrow> n | None \<Rightarrow> length bytes)
              in Some \<lparr>fr_flow = f, fr_capture = w, fr_kept = drop n bytes, fr_pos = fr_pos r + n\<rparr>))"

fun feed_all ::
  "('k, 'p) parser_factories \<Rightarrow> (nat \<Rightarrow> instant) \<Rightarrow> (nat \<Rightarrow> instant) \<Rightarrow> (nat \<Rightarrow> asm_ctx) \<Rightarrow>
   delivery list \<Rightarrow> 'p flow_run \<Rightarrow> 'p flow_run option" where
  "feed_all P clock time_at ctx_at [] r = Some r"
| "feed_all P clock time_at ctx_at (dl # dls) r =
     (case feed P clock time_at ctx_at dl r of
        None \<Rightarrow> None
      | Some r \<Rightarrow> feed_all P clock time_at ctx_at dls r)"

definition stream_bytes :: "delivery list \<Rightarrow> byte list" where
  "stream_bytes dls = concat (map dl_bytes dls)"

lemma feed_all_append:
  "feed_all P clock time_at ctx_at (xs @ ys) r =
     (case feed_all P clock time_at ctx_at xs r of
        None \<Rightarrow> None
      | Some r \<Rightarrow> feed_all P clock time_at ctx_at ys r)"
  by (induction xs arbitrary: r) (auto split: option.splits)

text \<open>The contents of the messages of a stream, the first of which starts at position \<open>q\<close>.\<close>

fun spec_contents ::
  "('k \<Rightarrow> uuid \<Rightarrow> u32 \<Rightarrow> u32 \<Rightarrow> byte list \<Rightarrow> content) \<Rightarrow> uuid \<Rightarrow> (nat \<Rightarrow> u32) \<Rightarrow> (nat \<Rightarrow> u32) \<Rightarrow> nat \<Rightarrow>
   ('k \<times> byte list) list \<Rightarrow> content list" where
  "spec_contents build b sq ak q [] = []"
| "spec_contents build b sq ak q ((k, m) # ms) =
     build k b (sq q) (ak q) m # spec_contents build b sq ak (q + length m) ms"

lemma spec_contents_append:
  "spec_contents build b sq ak q (ms @ ms') =
     spec_contents build b sq ak q ms @ spec_contents build b sq ak (q + length (concat (map snd ms))) ms'"
  by (induction ms arbitrary: q) (auto simp: add.assoc)

section \<open>Refinement\<close>

text \<open>
  Between deliveries: the messages \<open>ms\<close> still to be sent, the first of which starts at \<open>q\<close>, are in the
  kept bytes followed by the bytes to come, or a parser holds a part of the first.
\<close>

definition flow_waits ::
  "('k \<Rightarrow> byte list \<Rightarrow> bool) \<Rightarrow> ('p \<Rightarrow> 'k \<Rightarrow> uuid \<Rightarrow> u32 \<Rightarrow> u32 \<Rightarrow> byte list \<Rightarrow> bool) \<Rightarrow>
   (nat \<Rightarrow> u32) \<Rightarrow> (nat \<Rightarrow> u32) \<Rightarrow> ('k \<times> byte list) list \<Rightarrow> nat \<Rightarrow> byte list \<Rightarrow> 'p flow_run \<Rightarrow> bool" where
  "flow_waits msg holds sq ak ms q fut r \<longleftrightarrow>
     (\<forall>(k, m) \<in> set ms. msg k m) \<and>
     (case currentParser (fr_flow r) of
        None \<Rightarrow> fr_kept r @ fut = concat (map snd ms) \<and> fr_pos r = q
      | Some (p, t) \<Rightarrow>
          (\<exists>k m ms' d. ms = (k, m) # ms' \<and> holds p k (fl_bidiID (fr_flow r)) (sq q) (ak q) d \<and>
             length d < length m \<and> fr_kept r = [] \<and> unusedAcceptBuf (fr_flow r) = [] \<and> d @ fut = concat (map snd ms) \<and>
             fr_pos r = q + length d))"

lemma parse_complete_flow [simp]:
  "parse_complete clock t ac c f w = (f', w') \<Longrightarrow>
     f' = f\<lparr>currentParser := None\<rparr> \<and> map sent (out_chan w') = map sent (out_chan w) @ [(endpoints f, c)]"
  by (metis fst_conv parse_complete_simps snd_conv)


definition sends :: "'p tcp_flow \<Rightarrow> capture \<Rightarrow> content list \<Rightarrow> 'p tcp_flow \<Rightarrow> capture \<Rightarrow> bool" where
  "sends f w cs f' w' \<longleftrightarrow>
     endpoints f' = endpoints f \<and> fl_bidiID f' = fl_bidiID f \<and>
     map sent (out_chan w') = map sent (out_chan w) @ map (Pair (endpoints f)) cs"

lemma sends_trans: "sends f w cs f' w' \<Longrightarrow> sends f' w' cs' f'' w'' \<Longrightarrow> sends f w (cs @ cs') f'' w''"
  by (simp add: sends_def)

lemma sends_nothing [simp]:
  "sends f w [] (f\<lparr>unusedAcceptBuf := b\<rparr>) w" "sends f w [] (f\<lparr>currentParser := p\<rparr>) w"
  by (simp_all add: sends_def)

lemma sends_complete: "parse_complete clock t ac c f w = (f', w') \<Longrightarrow> sends f w [c] f' w'"
  by (auto simp: sends_def dest: parse_complete_flow)

text \<open>At the end of the stream every message that is left is sent, one call inside the other.\<close>

definition drained ::
  "'p tcp_flow \<Rightarrow> capture \<Rightarrow> content list \<Rightarrow> nat \<Rightarrow> ('p tcp_flow \<times> capture \<times> nat option) option \<Rightarrow> bool" where
  "drained f w cs n res \<longleftrightarrow>
     (\<exists>f' w' keep. res = Some (f', w', keep) \<and> currentParser f' = None \<and> unusedAcceptBuf f' = [] \<and>
        keep \<in> {None, Some n} \<and> sends f w cs f' w')"

lemma final_messages:
  assumes ff: "framed_format P msg build holds" and last: "sg_isEnd sg"
    and ctx: "\<And>i. sg_ctx sg i = ContextWithSeq (tm (pos + i)) (sq (pos + i)) (ak (pos + i))"
  shows "\<lbrakk>\<forall>(k, m) \<in> set ms. msg k m; currentParser f = None;
      drop ign (sg_bytes sg) = concat (map snd ms); ign \<le> length (sg_bytes sg); length ms < fuel\<rbrakk> \<Longrightarrow>
    drained f w (spec_contents build (fl_bidiID f) sq ak (pos + ign) ms) (length (sg_bytes sg))
      (reassembledWithIgnore P clock fuel ign sg ac f w)"
proof (induction ms arbitrary: ign f w fuel)
  case Nil
  then obtain fuel' where "fuel = Suc fuel'" by (cases fuel) auto
  with Nil show ?case
    by (cases rule: framed_select_nothing [OF ff, of True])
      (simp_all add: drained_def sends_def select_parser_def last Let_def)
next
  case (Cons km ms)
  obtain k m where km: "km = (k, m)" by fastforce
  obtain fuel' where fuel: "fuel = Suc fuel'" using Cons.prems by (cases fuel) auto
  define rest where "rest = concat (map snd ms)"
  let ?f = "f\<lparr>unusedAcceptBuf := []\<rparr>"
  let ?b = "fl_bidiID f" and ?q = "pos + ign"
  have m: "msg k m" and ms: "\<forall>(k, m) \<in> set ms. msg k m" using Cons.prems km by auto
  have data: "drop ign (sg_bytes sg) = m @ rest" using Cons.prems km by (simp add: rest_def)
  let ?p = "pf_CreateParser P k ?b (sq ?q) (ak ?q)"
  have sel: "select_parser P clock ign sg (m @ rest) f w = Inr ((?p, tm ?q), m @ rest, ?f, w)"
    by (simp add: select_parser_def framed_select_whole [OF ff m] ctx Let_def)
  have pars: "fst (pf_Parse P ?p (m @ rest) True) = ParseDone (build k ?b (sq ?q) (ak ?q) m) (length rest)"
    using framed_done [OF ff framed_created [OF ff], of k m ?b "sq ?q" "ak ?q" rest True]
      framed_nonempty [OF ff m] m by simp
  obtain p' where pars': "pf_Parse P ?p (m @ rest) True = (ParseDone (build k ?b (sq ?q) (ak ?q) m) (length rest), p')"
    using pars by (metis prod.collapse)
  obtain f1 w1 where pc: "parse_complete clock (tm ?q) ac (build k ?b (sq ?q) (ak ?q) m) ?f w = (f1, w1)"
    by fastforce
  note f1 = parse_complete_flow [OF pc]
  have run: "reassembledWithIgnore P clock fuel ign sg ac f w =
      (if length rest > 0 then reassembledWithIgnore P clock fuel' (length (sg_bytes sg) - length rest) sg ac f1 w1
       else Some (f1, w1, None))"
    using Cons.prems(2) by (simp add: fuel data sel pars' pc last Let_def)
  have split: "length (sg_bytes sg) - length rest = ign + length m"
    using arg_cong [OF data, of length] Cons.prems(4) by simp
  show ?case
  proof (cases "rest = []")
    case True
    then have "ms = []" using ms framed_nonempty [OF ff] by (cases ms) (auto simp: rest_def)
    with run f1 km True show ?thesis by (simp add: drained_def sends_def)
  next
    case False
    have d: "drop (ign + length m) (sg_bytes sg) = rest"
      using data by (metis add.commute append_eq_conv_conj drop_drop)
    have "drained f1 w1 (spec_contents build (fl_bidiID f1) sq ak (pos + (ign + length m)) ms) (length (sg_bytes sg))
        (reassembledWithIgnore P clock fuel' (ign + length m) sg ac f1 w1)"
      using Cons.prems f1 fuel split by (intro Cons.IH [OF ms _ d [unfolded rest_def]]) auto
    with False run f1 km split show ?thesis
      by (auto simp: drained_def sends_def add.assoc)
  qed
qed


text \<open>A call with the parser just created is a call with that parser in place.\<close>

lemma send_PNT_fields [simp]:
  "send_PNT clock (f\<lparr>currentParser := x\<rparr>) = send_PNT clock f"
  "handleUnparseable clock (f\<lparr>currentParser := x\<rparr>) = handleUnparseable clock f"
  by (simp_all add: fun_eq_iff send_PNT_def toPNT_def handleUnparseable_def)

lemma parse_complete_parser [simp]:
  "parse_complete clock t ac c (f\<lparr>currentParser := x\<rparr>) w = parse_complete clock t ac c f w"
  by (simp add: parse_complete_def)

lemma select_then_parse:
  assumes "currentParser f = None" and "data = drop ign (sg_bytes sg)"
    and "select_parser P clock ign sg data f w = Inr (parser, data, f', w')"
  shows "reassembledWithIgnore P clock (Suc fuel) ign sg ac f w =
    reassembledWithIgnore P clock (Suc fuel) ign sg ac (f'\<lparr>currentParser := Some parser\<rparr>) w'"
  using assms by (cases parser) (simp cong: parse_result.case_cong)

text \<open>A piece that is not the last, with a parser for the message \<open>m\<close> in place.\<close>

lemma piece_parsed:
  assumes ff: "framed_format P msg build holds" and p: "currentParser f = Some (p, t)"
    and h: "holds p k (fl_bidiID f) s a d" and m: "msg k m" and d: "length d < length m"
    and stream: "d @ e @ fut = m @ rest" and e: "drop ign (sg_bytes sg) = e" "ign \<le> length (sg_bytes sg)"
    and more: "\<not> sg_isEnd sg"
  obtains (held) p' where "length (d @ e) < length m" "holds p' k (fl_bidiID f) s a (d @ e)"
      "reassembledWithIgnore P clock (Suc fuel) ign sg ac f w = Some (f\<lparr>currentParser := Some (p', t)\<rparr>, w, None)"
  | (sent) x w' where "x @ fut = rest" "drop (length (sg_bytes sg) - length x) (sg_bytes sg) = x"
      "length x \<le> length (sg_bytes sg)" "length d + length e = length m + length x"
      "sends f w [build k (fl_bidiID f) s a m] (f\<lparr>currentParser := None\<rparr>) w'"
      "reassembledWithIgnore P clock (Suc fuel) ign sg ac f w =
         Some (f\<lparr>currentParser := None\<rparr>, w', if x = [] then None else Some (length (sg_bytes sg) - length x))"
proof (cases rule: framed_parse [OF ff h m d stream, case_names more complete])
  case (more p')
  then show thesis using assms by (intro held [of p']) simp_all
next
  case (complete e1 x)
  have "sg_bytes sg = (take ign (sg_bytes sg) @ e1) @ x"
    using e(1) complete(2) by (metis append.assoc append_take_drop_id)
  then obtain u where bytes: "sg_bytes sg = u @ x" by blast
  obtain pr where pr: "pf_Parse P p e False = (ParseDone (build k (fl_bidiID f) s a m) (length x), pr)"
    using complete(4) [of False] by (metis prod.collapse)
  obtain f' w' where pc: "parse_complete clock t ac (build k (fl_bidiID f) s a m) f w = (f', w')" by fastforce
  have f': "f' = f\<lparr>currentParser := None\<rparr>" using parse_complete_flow [OF pc] by simp
  have lens: "length d + length e = length m + length x"
    using arg_cong [OF stream, of length] complete(1) by auto
  have "drop (length (sg_bytes sg) - length x) (sg_bytes sg) = x" "length x \<le> length (sg_bytes sg)"
    by (simp_all add: bytes)
  then show thesis
    using complete(1) lens sends_complete [OF pc] f' p e more pr pc
    by (intro sent [of x w']) (simp_all add: Let_def)
qed


text \<open>One delivery that is not the last sends some of the messages and leaves the others waiting.\<close>

definition context_at :: "(nat \<Rightarrow> instant) \<Rightarrow> (nat \<Rightarrow> u32) \<Rightarrow> (nat \<Rightarrow> u32) \<Rightarrow> nat \<Rightarrow> asm_ctx" where
  "context_at tm sq ak i = ContextWithSeq (tm i) (sq i) (ak i)"

definition advanced ::
  "('k \<Rightarrow> byte list \<Rightarrow> bool) \<Rightarrow> ('k \<Rightarrow> uuid \<Rightarrow> u32 \<Rightarrow> u32 \<Rightarrow> byte list \<Rightarrow> content) \<Rightarrow>
   ('p \<Rightarrow> 'k \<Rightarrow> uuid \<Rightarrow> u32 \<Rightarrow> u32 \<Rightarrow> byte list \<Rightarrow> bool) \<Rightarrow> (nat \<Rightarrow> u32) \<Rightarrow> (nat \<Rightarrow> u32) \<Rightarrow>
   ('k \<times> byte list) list \<Rightarrow> nat \<Rightarrow> byte list \<Rightarrow> 'p flow_run \<Rightarrow> 'p flow_run option \<Rightarrow> bool" where
  "advanced msg build holds sq ak ms q fut r res \<longleftrightarrow>
     (\<exists>ms1 ms2 r'. res = Some r' \<and> ms = ms1 @ ms2 \<and>
        flow_waits msg holds sq ak ms2 (q + length (concat (map snd ms1))) fut r' \<and>
        sends (fr_flow r) (fr_capture r) (spec_contents build (fl_bidiID (fr_flow r)) sq ak q ms1)
          (fr_flow r') (fr_capture r'))"

lemma advanced_none:
  "res = Some r' \<Longrightarrow> flow_waits msg holds sq ak ms q fut r' \<Longrightarrow>
   sends (fr_flow r) (fr_capture r) [] (fr_flow r') (fr_capture r') \<Longrightarrow>
   advanced msg build holds sq ak ms q fut r res"
  unfolding advanced_def by (rule exI [of _ "[]"], rule exI [of _ ms]) simp

lemma advanced_one:
  "res = Some r' \<Longrightarrow> ms = (k, m) # ms' \<Longrightarrow> flow_waits msg holds sq ak ms' (q + length m) fut r' \<Longrightarrow>
   sends (fr_flow r) (fr_capture r) [build k (fl_bidiID (fr_flow r)) (sq q) (ak q) m] (fr_flow r') (fr_capture r') \<Longrightarrow>
   advanced msg build holds sq ak ms q fut r res"
  unfolding advanced_def by (rule exI [of _ "[(k, m)]"], rule exI [of _ ms']) simp

text \<open>The delivery with a parser in place for the first message, of which it holds the part \<open>d\<close>.\<close>

lemma feed_with_parser:
  assumes ff: "framed_format P msg build holds" and p: "currentParser f = Some (p, t)"
    and fr: "endpoints f = endpoints (fr_flow r)" "fl_bidiID f = fl_bidiID (fr_flow r)" "unusedAcceptBuf f = []"
    and h: "holds p k (fl_bidiID f) (sq q) (ak q) d" and d: "length d < length m"
    and ms: "ms = (k, m) # ms'" "\<forall>(k, m) \<in> set ms. msg k m"
    and bytes: "bytes = fr_kept r @ dl_bytes dl" and stream: "d @ bytes @ fut = concat (map snd ms)"
    and pos: "fr_pos r = q + length d"
    and sg: "sg_bytes sg = bytes" "\<not> sg_isEnd sg"
  shows "advanced msg build holds sq ak ms q fut r
    (case reassembledWithIgnore P clock (Suc fuel) 0 sg ac f (fr_capture r) of
       None \<Rightarrow> None
     | Some (f, w, keep) \<Rightarrow>
         (let n = (case keep of Some n \<Rightarrow> n | None \<Rightarrow> length bytes)
          in Some \<lparr>fr_flow = f, fr_capture = w, fr_kept = drop n bytes, fr_pos = fr_pos r + n\<rparr>))"
proof -
  have m: "msg k m" and ms': "\<forall>(k, m) \<in> set ms'. msg k m" using ms by auto
  have s: "d @ bytes @ fut = m @ concat (map snd ms')" using stream ms by simp
  have e: "drop 0 (sg_bytes sg) = bytes" "0 \<le> length (sg_bytes sg)" by (simp_all add: sg)
  show ?thesis
  proof (cases rule: piece_parsed [OF ff p h m d s e sg(2), where fuel = fuel and clock = clock and ac = ac
        and w = "fr_capture r", case_names held sent])
    case (held p')
    show ?thesis
      using held fr ms pos stream
      by (intro advanced_none [where r' = "\<lparr>fr_flow = f\<lparr>currentParser := Some (p', t)\<rparr>, fr_capture = fr_capture r,
            fr_kept = [], fr_pos = fr_pos r + length bytes\<rparr>"])
        (auto simp: flow_waits_def sends_def)
  next
    case (sent x w')
    let ?n = "length bytes - length x"
    have n: "q + length d + ?n = q + length m" using sent(3,4) sg(1) by simp
    show ?thesis
      using sent(1,2,3,5,6) fr ms ms' pos sg n
      by (intro advanced_one [where r' = "\<lparr>fr_flow = f\<lparr>currentParser := None\<rparr>, fr_capture = w',
            fr_kept = x, fr_pos = fr_pos r + ?n\<rparr>"])
        (auto simp: flow_waits_def sends_def split: if_splits)
  qed
qed


lemma select_first:
  assumes ff: "framed_format P msg build holds" and m: "msg k m" and ne: "bytes \<noteq> []"
    and stream: "bytes @ fut = m @ rest"
  shows "pf_Select P bytes False \<in> {(NeedMoreData, 0), (Accept k, 0)}"
proof (cases "length bytes < length m")
  case True
  have "take (length m) (bytes @ fut) = m" using stream by simp
  with True have m': "m = bytes @ take (length m - length bytes) fut" by simp
  with True have "take (length m - length bytes) fut \<noteq> []" by auto
  moreover have "msg k (bytes @ take (length m - length bytes) fut)" using m m' by simp
  ultimately show ?thesis using framed_part [OF ff] ne by blast
next
  case False
  have "take (length m) (bytes @ fut) = m" using stream by simp
  with False have "bytes = m @ drop (length m) bytes"
    by (metis append_take_drop_id linorder_not_less take_append take_all_iff append_Nil2 diff_is_0_eq take_0)
  then have "pf_Select P bytes False = (Accept k, 0)"
    using framed_select_whole [OF ff m] by metis
  then show ?thesis by simp
qed

lemma feed_step:
  assumes ff: "framed_format P msg build holds" and w: "flow_waits msg holds sq ak ms q (dl_bytes dl @ fut) r"
    and more: "\<not> dl_end dl"
  shows "advanced msg build holds sq ak ms q fut r (feed P clock time_at (context_at tm sq ak) dl r)"
proof -
  let ?f = "fr_flow r" and ?w = "fr_capture r"
  define bytes where "bytes = fr_kept r @ dl_bytes dl"
  define sg where "sg = \<lparr>sg_bytes = bytes, sg_isEnd = dl_end dl, sg_time = (\<lambda>i. time_at (fr_pos r + i)),
      sg_ctx = (\<lambda>i. context_at tm sq ak (fr_pos r + i))\<rparr>"
  have sg: "sg_bytes sg = bytes" "\<not> sg_isEnd sg" using more by (simp_all add: sg_def)
  have feed: "feed P clock time_at (context_at tm sq ak) dl r =
      (case reassembledWithIgnore P clock (Suc (Suc (length bytes))) 0 sg (dl_ac dl) ?f ?w of
         None \<Rightarrow> None
       | Some (f, w, keep) \<Rightarrow>
           (let n = (case keep of Some n \<Rightarrow> n | None \<Rightarrow> length bytes)
            in Some \<lparr>fr_flow = f, fr_capture = w, fr_kept = drop n bytes, fr_pos = fr_pos r + n\<rparr>))"
    by (simp add: feed_def reassembled_def sg_def Let_def flip: bytes_def del: reassembledWithIgnore.simps)
  have ms: "\<forall>(k, m) \<in> set ms. msg k m" using w by (simp add: flow_waits_def)
  show ?thesis
  proof (cases "currentParser ?f")
    case (Some pt)
    then obtain p t where p: "currentParser ?f = Some (p, t)" by (cases pt) auto
    with w obtain k m ms' d where wd: "ms = (k, m) # ms'" "holds p k (fl_bidiID ?f) (sq q) (ak q) d"
      "length d < length m" "fr_kept r = []" "unusedAcceptBuf ?f = []"
      "d @ dl_bytes dl @ fut = concat (map snd ms)" "fr_pos r = q + length d"
      by (auto simp: flow_waits_def)
    show ?thesis unfolding feed
      by (rule feed_with_parser [where d = d and k = k and m = m and p = p and t = t and ms' = ms'])
        (use ff p wd ms sg in \<open>simp_all add: bytes_def\<close>)
  next
    case None
    with w have stream: "bytes @ fut = concat (map snd ms)" and pos: "fr_pos r = q"
      by (simp_all add: flow_waits_def bytes_def)
    show ?thesis
    proof (cases "bytes = []")
      case True
      have "advanced msg build holds sq ak ms q fut r (Some \<lparr>fr_flow = ?f\<lparr>unusedAcceptBuf := []\<rparr>,
          fr_capture = ?w, fr_kept = [], fr_pos = fr_pos r\<rparr>)"
        using None stream True pos ms
        by (intro advanced_none [OF refl]) (simp_all add: flow_waits_def)
      then show ?thesis unfolding feed
        using None True sg
        by (cases rule: framed_select_nothing [OF ff, of False]) (simp_all add: select_parser_def Let_def)
    next
      case False
      with stream ms framed_nonempty [OF ff] obtain k m ms' where km: "ms = (k, m) # ms'"
        by (cases ms) auto
      have m: "msg k m" using ms km by simp
      have "bytes @ fut = m @ concat (map snd ms')" using stream km by simp
      from select_first [OF ff m False this]
      consider (need) "pf_Select P bytes False = (NeedMoreData, 0)" | (accept) "pf_Select P bytes False = (Accept k, 0)"
        by blast
      then show ?thesis
      proof cases
        case need
        have "advanced msg build holds sq ak ms q fut r (Some \<lparr>fr_flow = ?f\<lparr>unusedAcceptBuf := bytes\<rparr>,
            fr_capture = ?w, fr_kept = bytes, fr_pos = fr_pos r\<rparr>)"
          using None stream pos ms by (intro advanced_none [OF refl]) (simp_all add: flow_waits_def)
        then show ?thesis unfolding feed
          using None need sg by (simp add: select_parser_def Let_def)
      next
        case accept
        let ?p = "pf_CreateParser P k (fl_bidiID ?f) (sq q) (ak q)"
        let ?g = "?f\<lparr>unusedAcceptBuf := []\<rparr>"
        have sel: "select_parser P clock 0 sg bytes ?f ?w = Inr ((?p, tm q), bytes, ?g, ?w)"
          using accept sg pos by (simp add: select_parser_def Let_def) (simp add: sg_def context_at_def)
        have d0: "bytes = drop 0 (sg_bytes sg)" by (simp add: sg)
        show ?thesis unfolding feed select_then_parse [OF None d0 sel]
          by (rule feed_with_parser [where d = "[]" and k = k and m = m and p = ?p and t = "tm q" and ms' = ms'])
            (use ff ms km framed_created [OF ff] framed_nonempty [OF ff m] stream pos sg in
              \<open>simp_all add: bytes_def\<close>)
      qed
    qed
  qed
qed


lemma feed_all_steps:
  assumes ff: "framed_format P msg build holds"
  shows "\<forall>dl \<in> set dls. \<not> dl_end dl \<Longrightarrow> flow_waits msg holds sq ak ms q (stream_bytes dls @ fut) r \<Longrightarrow>
    advanced msg build holds sq ak ms q fut r (feed_all P clock time_at (context_at tm sq ak) dls r)"
proof (induction dls arbitrary: ms q r)
  case Nil
  then show ?case by (intro advanced_none [OF feed_all.simps(1)]) (simp_all add: stream_bytes_def sends_def)
next
  case (Cons dl dls)
  have w: "flow_waits msg holds sq ak ms q (dl_bytes dl @ (stream_bytes dls @ fut)) r"
    using Cons.prems(2) by (simp add: stream_bytes_def)
  from feed_step [OF ff w, where clock = clock and time_at = time_at and tm = tm] Cons.prems(1) obtain ms1 ms2 r1 where
    s1: "feed P clock time_at (context_at tm sq ak) dl r = Some r1" "ms = ms1 @ ms2"
      "flow_waits msg holds sq ak ms2 (q + length (concat (map snd ms1))) (stream_bytes dls @ fut) r1"
      "sends (fr_flow r) (fr_capture r) (spec_contents build (fl_bidiID (fr_flow r)) sq ak q ms1)
         (fr_flow r1) (fr_capture r1)"
    unfolding advanced_def by (auto simp del: length_concat)
  from Cons.IH [OF _ s1(3)] Cons.prems(1) obtain ms3 ms4 r2 where
    s2: "feed_all P clock time_at (context_at tm sq ak) dls r1 = Some r2" "ms2 = ms3 @ ms4"
      "flow_waits msg holds sq ak ms4 (q + length (concat (map snd ms1)) + length (concat (map snd ms3))) fut r2"
      "sends (fr_flow r1) (fr_capture r1)
         (spec_contents build (fl_bidiID (fr_flow r1)) sq ak (q + length (concat (map snd ms1))) ms3)
         (fr_flow r2) (fr_capture r2)"
    unfolding advanced_def by (auto simp del: length_concat)
  have "fl_bidiID (fr_flow r1) = fl_bidiID (fr_flow r)" using s1(4) by (simp add: sends_def)
  with s1 s2 sends_trans [OF s1(4) s2(4)] show ?case
    unfolding advanced_def
    by (intro exI [of _ "ms1 @ ms3"] exI [of _ ms4] exI [of _ r2])
      (simp add: spec_contents_append add.assoc del: length_concat)
qed

lemma messages_fit:
  "framed_format P msg build holds \<Longrightarrow> \<forall>(k, m) \<in> set ms. msg k m \<Longrightarrow> length ms \<le> length (concat (map snd ms))"
proof (induction ms)
  case (Cons km ms)
  obtain k m where km: "km = (k, m)" by fastforce
  with Cons.prems have "m \<noteq> []" using framed_nonempty [OF Cons.prems(1), of k m] by simp
  with Cons km show ?case by (cases m) auto
qed simp

lemma feed_last:
  assumes ff: "framed_format P msg build holds" and w: "flow_waits msg holds sq ak ms q (dl_bytes dl) r"
    and last: "dl_end dl"
  shows "\<exists>r'. feed P clock time_at (context_at tm sq ak) dl r = Some r' \<and> fr_kept r' = [] \<and>
    currentParser (fr_flow r') = None \<and> unusedAcceptBuf (fr_flow r') = [] \<and>
    sends (fr_flow r) (fr_capture r) (spec_contents build (fl_bidiID (fr_flow r)) sq ak q ms)
      (fr_flow r') (fr_capture r')"
proof -
  let ?f = "fr_flow r" and ?w = "fr_capture r"
  define bytes where "bytes = fr_kept r @ dl_bytes dl"
  define sg where "sg = \<lparr>sg_bytes = bytes, sg_isEnd = dl_end dl, sg_time = (\<lambda>i. time_at (fr_pos r + i)),
      sg_ctx = (\<lambda>i. context_at tm sq ak (fr_pos r + i))\<rparr>"
  have sg: "sg_bytes sg = bytes" "sg_isEnd sg" using last by (simp_all add: sg_def)
  have ctx: "sg_ctx sg i = ContextWithSeq (tm (fr_pos r + i)) (sq (fr_pos r + i)) (ak (fr_pos r + i))" for i
    by (simp add: sg_def context_at_def)
  have ms: "\<forall>(k, m) \<in> set ms. msg k m" using w by (simp add: flow_waits_def)
  have feed: "feed P clock time_at (context_at tm sq ak) dl r =
      (case reassembledWithIgnore P clock (Suc (Suc (length bytes))) 0 sg (dl_ac dl) ?f ?w of
         None \<Rightarrow> None
       | Some (f, w, keep) \<Rightarrow>
           (let n = (case keep of Some n \<Rightarrow> n | None \<Rightarrow> length bytes)
            in Some \<lparr>fr_flow = f, fr_capture = w, fr_kept = drop n bytes, fr_pos = fr_pos r + n\<rparr>))"
    by (simp add: feed_def reassembled_def sg_def Let_def flip: bytes_def del: reassembledWithIgnore.simps)
  have drained: "drained ?f ?w (spec_contents build (fl_bidiID ?f) sq ak q ms) (length bytes)
      (reassembledWithIgnore P clock (Suc (Suc (length bytes))) 0 sg (dl_ac dl) ?f ?w)"
  proof (cases "currentParser ?f")
    case None
    with w have stream: "bytes = concat (map snd ms)" and pos: "fr_pos r = q"
      by (simp_all add: flow_waits_def bytes_def)
    have "drop 0 (sg_bytes sg) = concat (map snd ms)" using stream by (simp add: sg)
    moreover have "length ms < Suc (Suc (length bytes))" using messages_fit [OF ff ms] stream by simp
    ultimately show ?thesis
      using final_messages [OF ff sg(2) ctx ms None, of 0] pos sg(1) by (simp del: reassembledWithIgnore.simps)
  next
    case (Some pt)
    then obtain p t where p: "currentParser ?f = Some (p, t)" by (cases pt) auto
    with w obtain k m ms' d where wd: "ms = (k, m) # ms'" "holds p k (fl_bidiID ?f) (sq q) (ak q) d"
      "length d < length m" "bytes = dl_bytes dl" "unusedAcceptBuf ?f = []"
      "d @ bytes @ [] = m @ concat (map snd ms')" "fr_pos r = q + length d"
      by (auto simp: flow_waits_def bytes_def)
    have m: "msg k m" and ms': "\<forall>(k, m) \<in> set ms'. msg k m" using ms wd(1) by auto
    show ?thesis
    proof (cases rule: framed_parse [OF ff wd(2) m wd(3,6), case_names more complete])
      case (more p')
      with arg_cong [OF wd(6), of length] show ?thesis by simp
    next
      case (complete e1 x)
      obtain pr where pr: "pf_Parse P p bytes True = (ParseDone (build k (fl_bidiID ?f) (sq q) (ak q) m) (length x), pr)"
        using complete(4) [of True] by (metis prod.collapse)
      obtain f1 w1 where pc: "parse_complete clock t (dl_ac dl) (build k (fl_bidiID ?f) (sq q) (ak q) m) ?f ?w = (f1, w1)"
        by fastforce
      note f1 = parse_complete_flow [OF pc] and s1 = sends_complete [OF pc]
      have x: "x = concat (map snd ms')" using complete(1) by simp
      have run: "reassembledWithIgnore P clock (Suc (Suc (length bytes))) 0 sg (dl_ac dl) ?f ?w =
          (if x \<noteq> [] then reassembledWithIgnore P clock (Suc (length bytes)) (length bytes - length x) sg (dl_ac dl) f1 w1
           else Some (f1, w1, None))"
        unfolding reassembledWithIgnore.simps(2) using p pr pc sg
        by (simp add: Let_def del: reassembledWithIgnore.simps)
      show ?thesis
      proof (cases "x = []")
        case True
        then have "ms' = []" using ms' framed_nonempty [OF ff] x by (cases ms') auto
        with True run f1 s1 wd show ?thesis by (simp add: drained_def)
      next
        case False
        have d: "drop (length bytes - length x) (sg_bytes sg) = concat (map snd ms')"
          using complete(2) x sg(1) by simp
        have q: "fr_pos r + (length bytes - length x) = q + length m"
          using arg_cong [OF wd(6), of length] wd(7) complete(2) x by simp
        have "length ms' < Suc (length bytes)" using messages_fit [OF ff ms'] x complete(2) by simp
        then have "drained f1 w1 (spec_contents build (fl_bidiID f1) sq ak (q + length m) ms') (length bytes)
            (reassembledWithIgnore P clock (Suc (length bytes)) (length bytes - length x) sg (dl_ac dl) f1 w1)"
          using final_messages [OF ff sg(2) ctx ms' _ d, of f1] f1 q sg(1) by (simp del: reassembledWithIgnore.simps)
        with False run f1 s1 wd(1) show ?thesis
          by (auto simp: drained_def sends_def simp del: reassembledWithIgnore.simps)
      qed
    qed
  qed
  then show ?thesis unfolding feed by (auto simp: drained_def)
qed



section \<open>A concrete format\<close>

text \<open>
  Messages that begin with the number of bytes that follow, for the witnesses: it is not a format of
  the program, whose parsers are in akita-libs, but it shows that there are parsers of which all that
  \<open>framed_format\<close> says is true.
\<close>

definition demo_msg :: "unit \<Rightarrow> byte list \<Rightarrow> bool" where
  "demo_msg k m \<longleftrightarrow> m \<noteq> [] \<and> length m = Suc (unat (hd m))"

definition demo_build :: "unit \<Rightarrow> uuid \<Rightarrow> u32 \<Rightarrow> u32 \<Rightarrow> byte list \<Rightarrow> content" where
  "demo_build k b s a m = HTTPRequest ((sample_request b (uint s))\<lparr>rq_body := tl m\<rparr>)"

definition demo_parse ::
  "uuid \<times> u32 \<times> u32 \<times> byte list \<Rightarrow> byte list \<Rightarrow> bool \<Rightarrow> parse_result \<times> (uuid \<times> u32 \<times> u32 \<times> byte list)" where
  "demo_parse p e q =
     (case p of (b, s, a, d) \<Rightarrow>
        (let d = d @ e; n = Suc (unat (hd d))
         in if d \<noteq> [] \<and> n \<le> length d
            then (ParseDone (demo_build () b s a (take n d)) (length d - n), p)
            else (ParseMore, (b, s, a, d))))"

definition demo_parsers :: "(unit, uuid \<times> u32 \<times> u32 \<times> byte list) parser_factories" where
  "demo_parsers =
     \<lparr>pf_Select = (\<lambda>d q. (if d = [] then NeedMoreData else Accept (), 0)),
      pf_CreateParser = (\<lambda>k b s a. (b, s, a, [])), pf_Parse = demo_parse\<rparr>"

definition demo_holds :: "uuid \<times> u32 \<times> u32 \<times> byte list \<Rightarrow> unit \<Rightarrow> uuid \<Rightarrow> u32 \<Rightarrow> u32 \<Rightarrow> byte list \<Rightarrow> bool" where
  "demo_holds p k b s a d \<longleftrightarrow> p = (b, s, a, d)"

lemma demo_parse_more:
  assumes "demo_msg () (d @ e @ r)" and "r \<noteq> []"
  shows "demo_parse (b, s, a, d) e False = (ParseMore, (b, s, a, d @ e))"
proof (cases "d @ e")
  case (Cons x xs)
  with assms have "hd (d @ e @ r) = x" by (metis append.assoc append_Cons list.sel(1))
  with assms have "length (d @ e) < Suc (unat x)" by (cases r) (simp_all add: demo_msg_def)
  moreover have "length d + length e = Suc (length xs)" using arg_cong [OF Cons, of length] by simp
  ultimately show ?thesis using Cons by (simp add: demo_parse_def Let_def)
qed (simp add: demo_parse_def)

lemma demo_parse_done:
  assumes "demo_msg () (d @ e)"
  shows "fst (demo_parse (b, s, a, d) (e @ x) q) = ParseDone (demo_build () b s a (d @ e)) (length x)"
proof -
  have ne: "d @ e \<noteq> []" and n: "Suc (unat (hd (d @ e))) = length (d @ e)" using assms by (simp_all add: demo_msg_def)
  have "hd (d @ e @ x) = hd (d @ e)" using ne by (metis append.assoc hd_append2)
  with ne n show ?thesis by (auto simp: demo_parse_def Let_def)
qed

lemma demo_framed: "framed_format demo_parsers demo_msg demo_build demo_holds"
  unfolding framed_format_def
  by (simp add: demo_parsers_def demo_holds_def demo_parse_more demo_parse_done)
    (simp add: demo_msg_def)

text \<open>Three messages in three pieces that cut them anywhere.\<close>

definition demo_messages :: "(unit \<times> byte list) list" where
  "demo_messages = [((), [1, 7]), ((), [2, 8, 9]), ((), [0])]"

definition demo_capture :: capture where
  "demo_capture =
     \<lparr>out_chan = [], clock_reads = 0, CountNilAssemblerContext = 0, CountNilAssemblerContextAfterParse = 0,
      CountBadAssemblerContextType = 0\<rparr>"


section \<open>What a connection leaves behind\<close>

text \<open>
  C40: when two messages arrive in one piece, the second is only looked at with the next piece; if the
  connection is closed before one arrives, for instance by the idle timeout, the second is neither
  parsed nor counted as dropped.
\<close>

theorem pipelined_message_lost:
  assumes "framed_format P msg build holds" and "msg k m" and "msg k' m'"
  shows "\<exists>r. feed P clock time_at (context_at tm sq ak) \<lparr>dl_bytes = m @ m', dl_end = False, dl_ac = ac\<rparr>
        \<lparr>fr_flow = newTCPFlow b nf tf, fr_capture = w, fr_kept = [], fr_pos = 0\<rparr> = Some r \<and>
      map sent (out_chan (snd (reassemblyComplete P clock (fr_flow r) (fr_capture r)))) =
        map sent (out_chan w) @
        [(((fst nf, uint (fst tf)), (snd nf, uint (snd tf))), build k b (sq 0) (ak 0) m)]"
proof -
  let ?f = "newTCPFlow b nf tf :: 'b tcp_flow"
  define sg where "sg = \<lparr>sg_bytes = m @ m', sg_isEnd = False, sg_time = (\<lambda>i. time_at (0 + i)),
      sg_ctx = (\<lambda>i. context_at tm sq ak (0 + i))\<rparr>"
  have ne: "m \<noteq> []" "m' \<noteq> []" using framed_nonempty [OF assms(1)] assms(2,3) by auto
  let ?p = "pf_CreateParser P k b (sq 0) (ak 0)"
  obtain pr where pr: "pf_Parse P ?p (m @ m') False = (ParseDone (build k b (sq 0) (ak 0) m) (length m'), pr)"
    using framed_done [OF assms(1) framed_created [OF assms(1)], of k m b "sq 0" "ak 0" m' False] assms(2) ne
    by (metis append_Nil prod.collapse)
  obtain f1 w1 where pc: "parse_complete clock (tm 0) ac (build k b (sq 0) (ak 0) m) (?f\<lparr>unusedAcceptBuf := []\<rparr>) w = (f1, w1)"
    by fastforce
  note f1 = parse_complete_flow [OF pc]
  have "select_parser P clock 0 sg (m @ m') ?f w = Inr ((?p, tm 0), m @ m', ?f\<lparr>unusedAcceptBuf := []\<rparr>, w)"
    using framed_select_whole [OF assms(1,2), of m' False]
    by (simp add: select_parser_def sg_def context_at_def newTCPFlow_def)
  then have "reassembledWithIgnore P clock (Suc (Suc (length (m @ m')))) 0 sg ac ?f w = Some (f1, w1, Some (length m))"
    unfolding reassembledWithIgnore.simps(2) using pr pc ne
    by (simp add: sg_def newTCPFlow_def Let_def del: reassembledWithIgnore.simps)
  then have "feed P clock time_at (context_at tm sq ak) \<lparr>dl_bytes = m @ m', dl_end = False, dl_ac = ac\<rparr>
      \<lparr>fr_flow = ?f, fr_capture = w, fr_kept = [], fr_pos = 0\<rparr>
      = Some \<lparr>fr_flow = f1, fr_capture = w1, fr_kept = m', fr_pos = length m\<rparr>"
    by (simp add: feed_def reassembled_def sg_def del: reassembledWithIgnore.simps)
  moreover have "map sent (out_chan (snd (reassemblyComplete P clock f1 w1))) =
      map sent (out_chan w) @ [(endpoints ?f, build k b (sq 0) (ak 0) m)]"
    using f1 by (simp add: reassemblyComplete_def)
  ultimately show ?thesis by (simp add: endpoints_def newTCPFlow_def)
qed

lemma pipelined_message_lost_witness:
  "\<exists>r. feed demo_parsers (\<lambda>n. 5) (\<lambda>i. 5) (context_at (\<lambda>i. 5) of_nat (\<lambda>i. 0))
        \<lparr>dl_bytes = [1, 7] @ [2, 8, 9], dl_end = False, dl_ac = Some 6\<rparr>
        \<lparr>fr_flow = newTCPFlow ''id'' ([10], [11]) (400, 80), fr_capture = demo_capture, fr_kept = [], fr_pos = 0\<rparr> = Some r \<and>
      length (out_chan (snd (reassemblyComplete demo_parsers (\<lambda>n. 5) (fr_flow r) (fr_capture r)))) = 1"
proof -
  have "demo_msg () [1, 7]" "demo_msg () [2, 8, 9]" by (simp_all add: demo_msg_def)
  from pipelined_message_lost [OF demo_framed this, of "\<lambda>n. 5" "\<lambda>i. 5" "\<lambda>i. 5" of_nat "\<lambda>i. 0" "Some 6" "''id''"
      "([10], [11])" "(400, 80)" demo_capture]
  obtain r where r: "feed demo_parsers (\<lambda>n. 5) (\<lambda>i. 5) (context_at (\<lambda>i. 5) of_nat (\<lambda>i. 0))
        \<lparr>dl_bytes = [1, 7] @ [2, 8, 9], dl_end = False, dl_ac = Some 6\<rparr>
        \<lparr>fr_flow = newTCPFlow ''id'' ([10], [11]) (400, 80), fr_capture = demo_capture, fr_kept = [], fr_pos = 0\<rparr> = Some r"
      "length (map sent (out_chan (snd (reassemblyComplete demo_parsers (\<lambda>n. 5) (fr_flow r) (fr_capture r))))) = 1"
    by (auto simp: demo_capture_def)
  then show ?thesis by (intro exI [of _ r]) simp
qed

end
