(* ===== verification/Packet_Capture.thy ===== *)
theory Packet_Capture
  imports Tcp_Flow Collectors
begin

text \<open>
  Reading packets from a network interface: the loop of \<open>pcap/net_parse.go\<close> that hands TCP segments to
  the assembler and sends on what it can say of the other packets, the collection of its output in
  \<open>pcap/run.go\<close>, and the addresses of an interface in \<open>pcap/pcap.go\<close>. The assembler (gopacket) is
  the record \<open>assembler\<close>, an argument of the operations.
\<close>

section \<open>Packets\<close>

text \<open>The network layer with its flow and the length of its payload.\<close>

datatype network_layer =
    IPv4Layer ip ip nat
  | IPv6Layer ip ip nat
  | OtherNetwork "ip \<times> ip" nat

fun NetworkFlow :: "network_layer \<Rightarrow> ip \<times> ip" where
  "NetworkFlow (IPv4Layer s d n) = (s, d)"
| "NetworkFlow (IPv6Layer s d n) = (s, d)"
| "NetworkFlow (OtherNetwork fl n) = fl"

fun network_payload :: "network_layer \<Rightarrow> nat" where
  "network_payload (IPv4Layer s d n) = n"
| "network_payload (IPv6Layer s d n) = n"
| "network_payload (OtherNetwork fl n) = n"

datatype transport_layer =
    TCPLayer tcp_header u32 u32
  | UDPLayer u16 u16 nat
  | OtherTransport nat

record packet =
  pk_network :: "network_layer option"
  pk_transport :: "transport_layer option"
  pk_metadata :: "instant option"

text \<open>
  The assembler with the streams it has made: \<open>AssembleWithContext\<close>, which may panic after it has done a
  part of its work, \<open>FlushAll\<close>, and \<open>FlushWithOptions\<close> with its two thresholds.
\<close>

record 'a assembler =
  as_Assemble :: "ip \<times> ip \<Rightarrow> tcp_header \<Rightarrow> asm_ctx \<Rightarrow> 'a \<times> capture \<Rightarrow> ('a \<times> capture) \<times> bool"
  as_FlushAll :: "'a \<times> capture \<Rightarrow> 'a \<times> capture"
  as_FlushWithOptions :: "instant \<Rightarrow> instant \<Rightarrow> 'a \<times> capture \<Rightarrow> 'a \<times> capture"

section \<open>One packet\<close>

definition dropped_traffic :: "ip \<times> ip \<Rightarrow> int \<times> int \<Rightarrow> nat \<Rightarrow> instant \<Rightarrow> traffic" where
  "dropped_traffic ips ports n t =
     \<lparr>src_ip = fst ips, src_port = fst ports, dst_ip = snd ips, dst_port = snd ports,
      content = DroppedBytes (int n), interface_name = [], observation_time = t, final_packet_time = 0\<rparr>"

fun packet_ips :: "network_layer \<Rightarrow> ip \<times> ip" where
  "packet_ips (IPv4Layer s d n) = (s, d)"
| "packet_ips (IPv6Layer s d n) = (s, d)"
| "packet_ips (OtherNetwork fl n) = ([], [])"

text \<open>
  \<open>contextFromTCPPacket\<close>: a packet without metadata is a nil dereference. The deferred \<open>recover\<close> of the
  caller turns a panic into a log line; what was done before it stays.
\<close>

definition contextFromTCPPacket :: "packet \<Rightarrow> u32 \<Rightarrow> u32 \<Rightarrow> asm_ctx option" where
  "contextFromTCPPacket p sq ak = map_option (\<lambda>t. ContextWithSeq t sq ak) (pk_metadata p)"

definition packetToParsedNetworkTraffic ::
  "'a assembler \<Rightarrow> (nat \<Rightarrow> instant) \<Rightarrow> packet \<Rightarrow> 'a \<times> capture \<Rightarrow> 'a \<times> capture" where
  "packetToParsedNetworkTraffic A clock p aw =
     (case pk_network p of
        None \<Rightarrow> aw
      | Some nl \<Rightarrow>
          (let (now, w) = clock_Now clock (snd aw);
               observationTime = (case pk_metadata p of
                   Some t \<Rightarrow> if \<not> is_zero t then t else now
                 | None \<Rightarrow> now);
               aw = (fst aw, w)
           in case pk_transport p of
                None \<Rightarrow> (fst aw, send_out (dropped_traffic (packet_ips nl) (0, 0) (network_payload nl) observationTime) w)
              | Some (TCPLayer h sq ak) \<Rightarrow>
                  (case contextFromTCPPacket p sq ak of
                     None \<Rightarrow> aw
                   | Some ctx \<Rightarrow> fst (as_Assemble A (NetworkFlow nl) h ctx aw))
              | Some (UDPLayer sp dp n) \<Rightarrow>
                  (fst aw, send_out (dropped_traffic (packet_ips nl) (uint sp, uint dp) n observationTime) w)
              | Some (OtherTransport n) \<Rightarrow>
                  (fst aw, send_out (dropped_traffic (packet_ips nl) (0, 0) n observationTime) w)))"

section \<open>The capture loop\<close>

definition StreamTimeoutSeconds :: int where "StreamTimeoutSeconds = 10"
definition StreamCloseTimeoutSeconds :: int where "StreamCloseTimeoutSeconds = 90"

text \<open>What the \<open>select\<close> of the loop receives: a packet, the end of the packets (closed or nil), or a tick.\<close>

datatype capture_event = PacketIn packet | PacketsEnd | Tick

text \<open>The state of the loop, with that of the observer, and whether the output channel is closed.\<close>

record ('a, 'o) capture_loop =
  cl_asm :: 'a
  cl_capture :: capture
  cl_observer :: 'o
  cl_closed :: bool

definition capture_step ::
  "'a assembler \<Rightarrow> (nat \<Rightarrow> instant) \<Rightarrow> (packet \<Rightarrow> 'o \<Rightarrow> 'o) \<Rightarrow> capture_event \<Rightarrow>
   ('a, 'o) capture_loop \<Rightarrow> ('a, 'o) capture_loop" where
  "capture_step A clock observer e l =
     (if cl_closed l then l
      else case e of
        PacketsEnd \<Rightarrow>
          (let (a, w) = as_FlushAll A (cl_asm l, cl_capture l)
           in l\<lparr>cl_asm := a, cl_capture := w, cl_closed := True\<rparr>)
      | PacketIn p \<Rightarrow>
          (let ob = observer p (cl_observer l);
               (a, w) = packetToParsedNetworkTraffic A clock p (cl_asm l, cl_capture l)
           in l\<lparr>cl_asm := a, cl_capture := w, cl_observer := ob\<rparr>)
      | Tick \<Rightarrow>
          (let (now, w) = clock_Now clock (cl_capture l);
               streamFlushThreshold = now - seconds StreamTimeoutSeconds;
               streamCloseThreshold = now - seconds StreamCloseTimeoutSeconds;
               (a, w) = as_FlushWithOptions A streamFlushThreshold streamCloseThreshold (cl_asm l, w)
           in l\<lparr>cl_asm := a, cl_capture := w\<rparr>))"

definition ParseFromInterface ::
  "'a assembler \<Rightarrow> (nat \<Rightarrow> instant) \<Rightarrow> (packet \<Rightarrow> 'o \<Rightarrow> 'o) \<Rightarrow> capture_event list \<Rightarrow>
   ('a, 'o) capture_loop \<Rightarrow> ('a, 'o) capture_loop" where
  "ParseFromInterface A clock observer es l = fold (capture_step A clock observer) es l"

section \<open>Collecting\<close>

text \<open>
  The observer that counts TCP segments, and the loop of \<open>Collect\<close>: it returns the first error of the
  collector, and the collector is closed in any case.
\<close>

definition CountTcpPackets :: "string \<Rightarrow> adder \<Rightarrow> packet \<Rightarrow> packet_counter \<Rightarrow> packet_counter" where
  "CountTcpPackets ifc add p s =
     (case pk_transport p of
        Some (TCPLayer h sq ak) \<Rightarrow>
          Update add (zero_counts\<lparr>pc_interface := ifc, pc_src_port := uint (th_SrcPort h),
            pc_dst_port := uint (th_DstPort h), pc_tcp := 1\<rparr>) s
      | _ \<Rightarrow> s)"

definition collect_loop ::
  "('s, 'e) downstream \<Rightarrow> string \<Rightarrow> traffic list \<Rightarrow> 's \<Rightarrow> 's \<times> 'e option" where
  "collect_loop process intf ts s = feed (\<lambda>t. process (t\<lparr>interface_name := intf\<rparr>)) ts s"

definition pcap_Collect ::
  "('s, 'e) downstream \<Rightarrow> ('s \<Rightarrow> 's) \<Rightarrow> string \<Rightarrow> 'e + traffic list \<Rightarrow> 's \<Rightarrow> 's \<times> 'e option" where
  "pcap_Collect process close intf parsed s =
     (case parsed of
        Inl e \<Rightarrow> (close s, Some e)
      | Inr ts \<Rightarrow> (case collect_loop process intf ts s of (s, r) \<Rightarrow> (close s, r)))"

section \<open>Addresses of an interface\<close>

text \<open>\<open>nextIP\<close> increments the bytes from the last one until one does not become zero.\<close>

fun nextIP_from :: "nat \<Rightarrow> ip \<Rightarrow> ip" where
  "nextIP_from 0 a = a"
| "nextIP_from (Suc i) a =
     (let a = a[i := a ! i + 1]
      in if a ! i > 0 then a else nextIP_from i a)"

definition nextIP :: "ip \<Rightarrow> ip" where
  "nextIP a = nextIP_from (length a) a"

text \<open>\<open>net.IP.Mask\<close> of the standard library; nil is the empty list.\<close>

definition ip_Mask :: "ip \<Rightarrow> byte list \<Rightarrow> ip" where
  "ip_Mask a mk =
     (let mk = (if length mk = 16 \<and> length a = 4 \<and> (\<forall>b \<in> set (take 12 mk). b = 255) then drop 12 mk else mk);
          a = (if length mk = 4 \<and> length a = 16 \<and> take 12 a = v4_in_v6_prefix then drop 12 a else a)
      in if length a \<noteq> length mk then []
         else map (\<lambda>(x, y). and x y) (zip a mk))"

datatype net_addr =
    TCPAddr ip
  | UDPAddr ip
  | IPNet ip "byte list"
  | IPAddr ip
  | OtherAddr

fun host_ip :: "net_addr \<Rightarrow> ip option" where
  "host_ip (TCPAddr a) = Some a"
| "host_ip (UDPAddr a) = Some a"
| "host_ip (IPNet a mk) = Some (nextIP (ip_Mask a mk))"
| "host_ip (IPAddr a) = None"
| "host_ip OtherAddr = None"

text \<open>\<open>addrs\<close> is what \<open>InterfaceByName\<close> and \<open>Addrs\<close> return.\<close>

definition getInterfaceAddrs :: "'e + net_addr list \<Rightarrow> 'e + ip list" where
  "getInterfaceAddrs addrs = map_sum id (List.map_filter host_ip) addrs"


section \<open>Incrementing an address\<close>

definition ip_value :: "ip \<Rightarrow> int" where
  "ip_value a = foldl (\<lambda>v b. 256 * v + uint b) 0 a"

lemma ip_value_append: "ip_value (a @ [b]) = 256 * ip_value a + uint b"
  by (simp add: ip_value_def)

lemma ip_value_nonneg: "0 \<le> ip_value a"
  by (induction a rule: rev_induct) (simp_all add: ip_value_append, simp add: ip_value_def)

lemma nextIP_append: "i \<le> length a \<Longrightarrow> nextIP_from i (a @ b) = nextIP_from i a @ b"
proof (induction i arbitrary: a)
  case (Suc i)
  then show ?case by (simp add: Let_def nth_append list_update_append)
qed simp

lemma nextIP_from_value:
  "ip_value (nextIP_from (length a) a) = (ip_value a + 1) mod 256 ^ length a"
proof (induction a rule: rev_induct)
  case Nil
  then show ?case by (simp add: ip_value_def)
next
  case (snoc b a)
  have bound: "ip_value x < 256 ^ length x" for x
  proof (induction x rule: rev_induct)
    case (snoc y ys)
    have "uint y < 256" using uint_lt2p [of y] by simp
    with snoc show ?case by (simp add: ip_value_append)
  qed (simp add: ip_value_def)
  have ub: "uint b < 256" "0 \<le> uint b" using uint_lt2p [of b] by simp_all
  show ?case
  proof (cases "b + 1 = 0")
    case True
    then have "b = 255" by (simp add: eq_neg_iff_add_eq_0 [symmetric])
    then have "uint b = 255" by simp
    have "nextIP_from (length (a @ [b])) (a @ [b]) = nextIP_from (length a) a @ [0]"
      using True by (simp add: Let_def nextIP_append)
    then have "ip_value (nextIP_from (length (a @ [b])) (a @ [b])) = 256 * ((ip_value a + 1) mod 256 ^ length a)"
      using snoc by (simp add: ip_value_append)
    also have "\<dots> = (256 * (ip_value a + 1)) mod (256 * 256 ^ length a)"
      by (simp add: mult_mod_right)
    finally show ?thesis using \<open>uint b = 255\<close> by (simp add: ip_value_append algebra_simps)
  next
    case False
    then have "b \<noteq> 255" by auto
    then have "uint b \<noteq> uint (255 :: byte)" by (metis word_uint_eqI)
    then have "uint (b + 1) = uint b + 1" using ub by (simp add: uint_word_ariths)
    have "nextIP_from (length (a @ [b])) (a @ [b]) = a @ [b + 1]"
      using False by (simp add: Let_def word_gt_0)
    then have "ip_value (nextIP_from (length (a @ [b])) (a @ [b])) = ip_value (a @ [b]) + 1"
      by (simp add: ip_value_append \<open>uint (b + 1) = uint b + 1\<close>)
    then show ?thesis using bound [of "a @ [b + 1]"] ip_value_nonneg [of "a @ [b]"]
      by (simp add: ip_value_append \<open>uint (b + 1) = uint b + 1\<close>)
  qed
qed


lemma length_nextIP_from [simp]: "length (nextIP_from i a) = length a"
  by (induction i arbitrary: a) (simp_all add: Let_def)

text \<open>
  \<open>nextIP\<close> is the successor of an address read as a big-endian number, and wraps around from the
  last address of its width to the first.
\<close>

theorem nextIP_successor:
  "ip_value (nextIP a) = (ip_value a + 1) mod 256 ^ length a \<and> length (nextIP a) = length a"
  by (simp add: nextIP_def nextIP_from_value)

section \<open>What the loop sees\<close>

text \<open>The packets read before the end of the packets.\<close>

fun packets_read :: "capture_event list \<Rightarrow> packet list" where
  "packets_read [] = []"
| "packets_read (PacketIn p # es) = p # packets_read es"
| "packets_read (Tick # es) = packets_read es"
| "packets_read (PacketsEnd # es) = []"

lemma closed_loop: "cl_closed l \<Longrightarrow> ParseFromInterface A clock observer es l = l"
  by (induction es) (simp_all add: ParseFromInterface_def capture_step_def)

lemma observer_sees:
  "\<not> cl_closed l \<Longrightarrow> cl_observer (ParseFromInterface A clock observer es l) = fold observer (packets_read es) (cl_observer l)"
proof (induction es arbitrary: l)
  case Nil
  then show ?case by (simp add: ParseFromInterface_def)
next
  case (Cons e es)
  have run: "ParseFromInterface A clock observer (e # es) l = ParseFromInterface A clock observer es (capture_step A clock observer e l)"
    by (simp add: ParseFromInterface_def)
  show ?case
  proof (cases e)
    case PacketsEnd
    then have "cl_closed (capture_step A clock observer e l)" "cl_observer (capture_step A clock observer e l) = cl_observer l"
      using Cons.prems by (simp_all add: capture_step_def Let_def split: prod.split)
    with run PacketsEnd show ?thesis by (simp add: closed_loop)
  next
    case (PacketIn p)
    then have "\<not> cl_closed (capture_step A clock observer e l)"
      "cl_observer (capture_step A clock observer e l) = observer p (cl_observer l)"
      using Cons.prems by (simp_all add: capture_step_def Let_def split: prod.split)
    with run PacketIn Cons.IH show ?thesis by simp
  next
    case Tick
    then have "\<not> cl_closed (capture_step A clock observer e l)" "cl_observer (capture_step A clock observer e l) = cl_observer l"
      using Cons.prems by (simp_all add: capture_step_def Let_def split: prod.split)
    with run Tick Cons.IH show ?thesis by simp
  qed
qed

fun is_tcp :: "packet \<Rightarrow> bool" where
  "is_tcp p = (case pk_transport p of Some (TCPLayer h sq ak) \<Rightarrow> True | _ \<Rightarrow> False)"

lemma count_tcp_total:
  assumes "adds_counts add"
  shows "pc_tcp (ps_total (fold (CountTcpPackets ifc add) ps s)) = pc_tcp (ps_total s) + int (length (filter is_tcp ps))"
proof (induction ps arbitrary: s)
  case (Cons p ps)
  have add: "pc_tcp (add a b) = pc_tcp a + pc_tcp b" for a b
    using adds_countsD [OF assms, of pc_tcp] by (simp add: counters_def)
  have "pc_tcp (ps_total (CountTcpPackets ifc add p s)) = pc_tcp (ps_total s) + (if is_tcp p then 1 else 0)"
    by (auto simp: CountTcpPackets_def Update_parts add split: option.splits transport_layer.splits)
  with Cons show ?case by simp
qed simp

text \<open>
  The observer of a capture counts each TCP segment that is read, those whose handling panics
  included, and nothing after the packets have ended.
\<close>

theorem tcp_segments_counted:
  assumes "adds_counts add" and "\<not> cl_closed l"
  shows "pc_tcp (ps_total (cl_observer (ParseFromInterface A clock (CountTcpPackets ifc add) es l))) =
    pc_tcp (ps_total (cl_observer l)) + int (length (filter is_tcp (packets_read es)))"
  by (simp add: observer_sees [OF assms(2)] count_tcp_total [OF assms(1)])

text \<open>An assembler that does nothing, and a segment without metadata, which makes its handling panic.\<close>

definition idle_assembler :: "unit assembler" where
  "idle_assembler =
     \<lparr>as_Assemble = (\<lambda>fl h c aw. (aw, False)), as_FlushAll = (\<lambda>aw. aw), as_FlushWithOptions = (\<lambda>t tc aw. aw)\<rparr>"

definition demo_segment :: packet where
  "demo_segment =
     \<lparr>pk_network = Some (IPv4Layer [10, 0, 0, 1] [10, 0, 0, 2] 40),
      pk_transport = Some (TCPLayer \<lparr>th_SrcPort = 400, th_DstPort = 80, th_SYN = True, th_ACK = False,
        th_FIN = False, th_RST = False, th_payload = 0\<rparr> 1 0),
      pk_metadata = None\<rparr>"

lemma tcp_segments_counted_witness:
  "pc_tcp (ps_total (cl_observer (ParseFromInterface idle_assembler (\<lambda>n. 5) (CountTcpPackets ''eth0'' sum_counts)
     [PacketIn demo_segment, Tick, PacketIn demo_segment, PacketsEnd, PacketIn demo_segment]
     \<lparr>cl_asm = (), cl_capture = \<lparr>out_chan = [], clock_reads = 0, CountNilAssemblerContext = 0,
        CountNilAssemblerContextAfterParse = 0, CountBadAssemblerContextType = 0\<rparr>,
      cl_observer = NewPacketCounter, cl_closed = False\<rparr>))) = 2"
  by (subst tcp_segments_counted [OF adds_counts_sum_counts])
    (simp_all add: NewPacketCounter_def zero_counts_def demo_segment_def)

end
