(* ===== verification/Apidump_Summary.thy ===== *)
theory Apidump_Summary
  imports Packet_Stats
begin

text \<open>
  \<open>apidump/summary.go\<close>: what the agent tells its user about a capture. Each call of the printer is one
  \<open>line\<close>, named for its message and carrying the values that are printed into it; colours and
  padding are left out. Counters are never negative, so Go's truncating division is \<open>div\<close>; a
  division by zero is a panic, and the result of an operation in which it may happen is \<open>None\<close> then.
\<close>

section \<open>State and lines\<close>

text \<open>The maps of interfaces and negation filters: only their keys matter here.\<close>

record apidump_summary =
  as_CapturingNegation :: bool
  as_Interfaces :: "string list"
  as_NegationFilters :: "string list"
  as_NumUserFilters :: int
  as_FilterSummary :: packet_counter
  as_PrefilterSummary :: packet_counter
  as_NegationSummary :: packet_counter

definition NewSummary ::
  "bool \<Rightarrow> string list \<Rightarrow> string list \<Rightarrow> int \<Rightarrow> packet_counter \<Rightarrow> packet_counter \<Rightarrow> packet_counter \<Rightarrow> apidump_summary" where
  "NewSummary capturingNegation interfaces negationFilters numUserFilters filterSummary prefilterSummary negationSummary =
     \<lparr>as_CapturingNegation = capturingNegation, as_Interfaces = interfaces, as_NegationFilters = negationFilters,
      as_NumUserFilters = numUserFilters, as_FilterSummary = filterSummary, as_PrefilterSummary = prefilterSummary,
      as_NegationSummary = negationSummary\<rparr>"

datatype line =
    MorePortsThan int int
  | TopPortsTitle
  | TopHostsTitle
  | PortHTTP int int int int int int int
  | PortMixed int
  | PortUnusual int
  | PortHTTP2 int int
  | PortFiltered int int int int int
  | PortTLS int int int int
  | PortHTTP2Only int int int int
  | PortUnparsed int int int
  | HostHTTP string int int
  | HostMixed string
  | HostFiltered string int
  | HostTLS string int
  | HostUnparsed string
  | AssemblyProblems "64 word" "64 word" "64 word"
  | ErrorsMayMiss
  | NoTCPAtAll
  | NoTCPMatching
  | CapturedTLS int int
  | CapturedUnparsed int int
  | AllFiltered int
  | TryNativeAgent
  | NoHTTPCalls
  | ResponsesOnly
  | RequestsOnly
  | CountsBefore
  | PerInterfaceTitle
  | InterfaceCounts string bool int int int int int
  | PerPortTitle
  | MatchTitle bool
  | PortCounts int int int int int int
  | NoPacketsCaptured
  | EndOfCounts

section \<open>Highlights per port\<close>

text \<open>
  \<open>sort.Slice\<close> puts ports with equal traffic in any order: the order in which the map is visited
  (the argument \<open>order\<close>) decides it.
\<close>

definition tcp_of :: "packet_count_summary \<Rightarrow> int \<Rightarrow> int" where
  "tcp_of smry p = (case fmlookup (sm_top_by_port smry) p of Some c \<Rightarrow> pc_tcp c | None \<Rightarrow> 0)"

definition sorted_ports :: "packet_count_summary \<Rightarrow> int list \<Rightarrow> int list" where
  "sorted_ports smry order = sort_key (\<lambda>p. - tcp_of smry p) order"

definition port_lines :: "apidump_summary \<Rightarrow> int \<Rightarrow> packet_counts \<Rightarrow> int \<Rightarrow> line list" where
  "port_lines s p thisPort pct =
     (if pc_http_req thisPort + pc_http_resp thisPort > 0 then
        [PortHTTP p (pc_tcp thisPort) pct (pc_http_req thisPort) (pc_http_resp thisPort) (pc_tls thisPort) (pc_unparsed thisPort)]
        @ (if pc_tls thisPort > 0 then [PortMixed p]
           else if pc_unparsed thisPort > pc_tcp thisPort * 3 div 10 then [PortUnusual p] else [])
        @ (if pc_http2 thisPort > 0 then [PortHTTP2 p (pc_http2 thisPort)] else [])
      else
        (let preFilter = TotalOnPort (as_PrefilterSummary s) p
         in if pc_http_req preFilter + pc_http_resp preFilter > 0 then
              [PortFiltered p (pc_tcp thisPort) pct (pc_http_req preFilter) (pc_http_resp preFilter)]
            else if pc_tls thisPort > 0 then [PortTLS p (pc_tcp thisPort) pct (pc_tls thisPort)]
            else if pc_http2 thisPort > 0 then [PortHTTP2Only p (pc_tcp thisPort) pct (pc_http2 thisPort)]
            else [PortUnparsed p (pc_tcp thisPort) pct]))"

fun port_loop ::
  "apidump_summary \<Rightarrow> packet_count_summary \<Rightarrow> int \<Rightarrow> nat \<Rightarrow> int \<Rightarrow> int list \<Rightarrow> line list" where
  "port_loop s smry totalTraffic i totalListed [] = []"
| "port_loop s smry totalTraffic i totalListed (p # ps) =
     (let thisPort = (case fmlookup (sm_top_by_port smry) p of Some c \<Rightarrow> c | None \<Rightarrow> zero_counts);
          pct = pc_tcp thisPort * 100 div totalTraffic;
          totalListed = totalListed + pc_tcp thisPort
      in if totalListed > totalTraffic \<or> (pct < 3 \<and> i \<ge> 2) then []
         else port_lines s p thisPort pct @ port_loop s smry totalTraffic (Suc i) totalListed ps)"

definition printPortHighlights ::
  "int list \<Rightarrow> apidump_summary \<Rightarrow> packet_count_summary \<Rightarrow> line list option" where
  "printPortHighlights order s smry =
     (let totalTraffic = pc_tcp (sm_total smry)
      in if totalTraffic = 0 \<and> order \<noteq> [] then None
         else Some (port_loop s smry totalTraffic 0 0 (sorted_ports smry order)))"

section \<open>Highlights per host\<close>

definition host_counts :: "packet_count_summary \<Rightarrow> string \<Rightarrow> packet_counts" where
  "host_counts smry h = (case fmlookup (sm_top_by_host smry) h of Some c \<Rightarrow> c | None \<Rightarrow> zero_counts)"

definition sorted_hosts :: "packet_count_summary \<Rightarrow> string list \<Rightarrow> string list" where
  "sorted_hosts smry order =
     sort_key (\<lambda>h. let c = host_counts smry h in
       (- (pc_http_req c + pc_tls c), - pc_http_req c, - pc_tls c, h)) order"

definition host_total :: "packet_counts \<Rightarrow> int" where
  "host_total c = pc_http_req c + pc_http_resp c + pc_tls c"

text \<open>\<open>printUpTo\<close>: how many of the sorted hosts are printed.\<close>

fun host_loop :: "packet_count_summary \<Rightarrow> int \<Rightarrow> nat \<Rightarrow> int \<Rightarrow> nat \<Rightarrow> string list \<Rightarrow> nat" where
  "host_loop smry totalCount i countSoFar printUpTo [] = printUpTo"
| "host_loop smry totalCount i countSoFar printUpTo (h # hs) =
     (let thisCount = host_total (host_counts smry h);
          pct = thisCount * 100 div totalCount;
          countSoFar = countSoFar + thisCount;
          pctSoFar = countSoFar * 100 div totalCount
      in if 80 < pctSoFar \<or> (pct < 3 \<and> i \<ge> 2) then printUpTo
         else host_loop smry totalCount (Suc i) countSoFar (i + 1) hs)"

definition host_lines :: "apidump_summary \<Rightarrow> packet_count_summary \<Rightarrow> string \<Rightarrow> line list" where
  "host_lines s smry h =
     (let thisHost = host_counts smry h
      in if pc_http_req thisHost + pc_http_resp thisHost > 0 then
           [HostHTTP h (pc_http_req thisHost) (pc_tls thisHost)] @ (if pc_tls thisHost > 0 then [HostMixed h] else [])
         else
           (let preFilter = TotalOnHost (as_PrefilterSummary s) h
            in if pc_http_req preFilter + pc_http_resp preFilter > 0 then [HostFiltered h (pc_http_req preFilter)]
               else if pc_tls thisHost > 0 then [HostTLS h (pc_tls thisHost)]
               else [HostUnparsed h]))"

definition printHostHighlights ::
  "string list \<Rightarrow> apidump_summary \<Rightarrow> packet_count_summary \<Rightarrow> line list option" where
  "printHostHighlights order s smry =
     (let totalCountForHosts = sum_list (map (\<lambda>h. host_total (host_counts smry h)) order);
          hosts = sorted_hosts smry order
      in if totalCountForHosts = 0 \<and> hosts \<noteq> [] then None
         else Some (concat (map (host_lines s smry) (take (host_loop smry totalCountForHosts 0 0 0 hosts) hosts))))"

section \<open>The summary\<close>

definition summaryLimit :: int where "summaryLimit = 20"

text \<open>
  \<open>orders\<close> are the orders in which the maps of ports, interfaces and hosts are visited to find the
  top ones, \<open>shown\<close> those in which the maps of the top ports and hosts are visited then.
\<close>

definition PrintPacketCountHighlights ::
  "int list \<times> string list \<times> string list \<Rightarrow> int list \<times> string list \<Rightarrow> apidump_summary \<Rightarrow> line list option" where
  "PrintPacketCountHighlights orders shown s =
     (let (ports, interfaces, hosts) = orders;
          smry = Summary ports interfaces hosts summaryLimit (as_FilterSummary s)
      in if pc_tcp (sm_total smry) = 0 then Some []
         else
           (let overflow = (case sm_port_overflow smry of
                  None \<Rightarrow> []
                | Some _ \<Rightarrow> [MorePortsThan (sm_overflow_limit smry) (min summaryLimit (sm_overflow_limit smry))])
            in case printPortHighlights (fst shown) s smry of
                 None \<Rightarrow> None
               | Some pls \<Rightarrow>
                   (case printHostHighlights (snd shown) s smry of
                      None \<Rightarrow> None
                    | Some hls \<Rightarrow> Some (overflow @ [TopPortsTitle] @ pls @ [TopHostsTitle] @ hls))))"

definition IsEmpty :: "apidump_summary \<Rightarrow> bool" where
  "IsEmpty s \<longleftrightarrow>
     pc_http_req (ps_total (as_FilterSummary s)) = 0 \<and> pc_http_resp (ps_total (as_FilterSummary s)) = 0"

text \<open>\<open>problems\<close> are the three counters of the flows, \<open>docker\<close> whether the agent runs in Docker on a Mac.\<close>

definition PrintWarnings :: "64 word \<times> 64 word \<times> 64 word \<Rightarrow> bool \<Rightarrow> apidump_summary \<Rightarrow> line list" where
  "PrintWarnings problems docker s =
     (let (nilCtx, nilAfter, badType) = problems;
          assembly = (if nilCtx > 0 \<or> nilAfter > 0 \<or> badType > 0
             then [AssemblyProblems nilCtx badType nilAfter, ErrorsMayMiss] else []);
          totalCount = ps_total (as_FilterSummary s)
      in assembly @
         (if pc_http_req totalCount = 0 \<and> pc_http_resp totalCount = 0 then
            (if pc_tcp totalCount = 0 then
               (if as_CapturingNegation s \<and> pc_tcp (ps_total (as_NegationSummary s)) = 0
                then [NoTCPAtAll] else [NoTCPMatching])
             else if pc_tls totalCount > 0 then [CapturedTLS (pc_tls totalCount) (pc_tcp totalCount)]
             else if pc_unparsed totalCount > 0 then [CapturedUnparsed (pc_tcp totalCount) (pc_unparsed totalCount)]
             else if as_NumUserFilters s > 0 \<and> pc_http_req (ps_total (as_PrefilterSummary s)) \<noteq> 0
             then [AllFiltered (pc_http_req (ps_total (as_PrefilterSummary s)))]
             else [])
            @ (if docker then [TryNativeAgent] else [])
            @ [NoHTTPCalls]
          else
            (if pc_http_req totalCount = 0 then [ResponsesOnly] else [])
            @ (if pc_http_resp totalCount = 0 then [RequestsOnly] else [])))"

section \<open>The counters\<close>

definition dump_ports :: "int list \<Rightarrow> bool \<Rightarrow> packet_counter \<Rightarrow> line list" where
  "dump_ports order matched summary =
     (let byPort = AllPorts order summary
      in [MatchTitle matched]
         @ map (\<lambda>c. PortCounts (pc_src_port c) (pc_tcp c) (pc_http_req c) (pc_http_resp c) (pc_tls c) (pc_unparsed c)) byPort
         @ (if byPort = [] then [NoPacketsCaptured] else []))"

definition dump_interface :: "string \<Rightarrow> bool \<Rightarrow> packet_counter \<Rightarrow> line" where
  "dump_interface n matched summary =
     (let c = TotalOnInterface summary n
      in InterfaceCounts n matched (pc_tcp c) (pc_http_req c) (pc_http_resp c) (pc_tls c) (pc_unparsed c))"

text \<open>The second summary, if there is one, is that of the packets that did not match.\<close>

definition DumpPacketCounters ::
  "int list \<Rightarrow> string list \<Rightarrow> packet_counter \<Rightarrow> packet_counter option \<Rightarrow> bool \<Rightarrow> line list" where
  "DumpPacketCounters order interfaces matchedSummary unmatchedSummary showInterface =
     (let toReport = (True, matchedSummary) #
            (case unmatchedSummary of Some u \<Rightarrow> [(False, u)] | None \<Rightarrow> [])
      in (if showInterface then
            PerInterfaceTitle # concat (map (\<lambda>n. map (\<lambda>(m, summary). dump_interface n m summary) toReport) interfaces)
          else [])
         @ [PerPortTitle]
         @ concat (map (\<lambda>(m, summary). dump_ports order m summary) toReport)
         @ [EndOfCounts])"

definition PrintPacketCounts ::
  "bool \<Rightarrow> int list \<Rightarrow> int list \<times> string list \<times> string list \<Rightarrow> int list \<times> string list \<Rightarrow> apidump_summary \<Rightarrow> line list option" where
  "PrintPacketCounts debug order orders shown s =
     map_option (\<lambda>highlights. highlights @
       (if debug then
          (if as_NegationFilters s = []
           then DumpPacketCounters order (as_Interfaces s) (as_FilterSummary s) None True
           else DumpPacketCounters order (as_Interfaces s) (as_FilterSummary s) (Some (as_NegationSummary s)) True)
          @ (if as_NumUserFilters s > 0
             then CountsBefore # DumpPacketCounters order (as_Interfaces s) (as_PrefilterSummary s) None False
             else [])
        else []))
       (PrintPacketCountHighlights orders shown s)"

section \<open>What is highlighted\<close>

text \<open>The ports for which the loop prints something.\<close>

fun listed_ports :: "packet_count_summary \<Rightarrow> int \<Rightarrow> nat \<Rightarrow> int \<Rightarrow> int list \<Rightarrow> int list" where
  "listed_ports smry totalTraffic i listed [] = []"
| "listed_ports smry totalTraffic i listed (p # ps) =
     (if listed + tcp_of smry p > totalTraffic \<or> (tcp_of smry p * 100 div totalTraffic < 3 \<and> i \<ge> 2) then []
      else p # listed_ports smry totalTraffic (Suc i) (listed + tcp_of smry p) ps)"

fun line_port :: "line \<Rightarrow> int option" where
  "line_port (PortHTTP p n pct rq rs ts un) = Some p"
| "line_port (PortMixed p) = Some p"
| "line_port (PortUnusual p) = Some p"
| "line_port (PortHTTP2 p n) = Some p"
| "line_port (PortFiltered p n pct rq rs) = Some p"
| "line_port (PortTLS p n pct ts) = Some p"
| "line_port (PortHTTP2Only p n pct h) = Some p"
| "line_port (PortUnparsed p n pct) = Some p"
| "line_port _ = None"

lemma port_lines_of: "line_port ` set (port_lines s p c pct) = {Some p}"
  by (auto simp: port_lines_def Let_def)

lemma tcp_of_simp: "pc_tcp (case fmlookup (sm_top_by_port smry) p of Some c \<Rightarrow> c | None \<Rightarrow> zero_counts) = tcp_of smry p"
  by (simp add: tcp_of_def zero_counts_def split: option.split)

lemma port_loop_ports:
  "line_port ` set (port_loop s smry t i listed ps) = Some ` set (listed_ports smry t i listed ps)"
  by (induction ps arbitrary: i listed) (simp_all add: Let_def tcp_of_simp image_Un port_lines_of)

lemma listed_bound:
  "listed \<le> t \<Longrightarrow> listed + sum_list (map (tcp_of smry) (listed_ports smry t i listed ps)) \<le> t"
proof (induction ps arbitrary: i listed)
  case (Cons p ps)
  show ?case
  proof (cases "listed + tcp_of smry p > t \<or> (tcp_of smry p * 100 div t < 3 \<and> i \<ge> 2)")
    case False
    with Cons.IH [of "listed + tcp_of smry p" "Suc i"] show ?thesis by auto
  qed (use Cons.prems in auto)
qed simp

lemma listed_prefix: "prefix (listed_ports smry t i listed ps) ps"
  by (induction ps arbitrary: i listed) auto

text \<open>
  The ports that are highlighted are the first ones by traffic, each is described, and the packets
  counted for them are together no more than the packets captured.
\<close>

theorem ports_listed_within_total:
  assumes "0 < pc_tcp (sm_total smry)"
  shows "case printPortHighlights order s smry of
      None \<Rightarrow> False
    | Some ls \<Rightarrow>
        (\<exists>ps. prefix ps (sorted_ports smry order) \<and> line_port ` set ls = Some ` set ps \<and>
           sum_list (map (tcp_of smry) ps) \<le> pc_tcp (sm_total smry))"
proof -
  let ?t = "pc_tcp (sm_total smry)" and ?ps = "sorted_ports smry order"
  have "sum_list (map (tcp_of smry) (listed_ports smry ?t 0 0 ?ps)) \<le> ?t"
    using listed_bound [of 0 ?t smry 0 ?ps] assms by simp
  moreover have "prefix (listed_ports smry ?t 0 0 ?ps) ?ps" by (rule listed_prefix)
  ultimately have "\<exists>ps. prefix ps ?ps \<and> line_port ` set (port_loop s smry ?t 0 0 ?ps) = Some ` set ps \<and>
      sum_list (map (tcp_of smry) ps) \<le> ?t"
    using port_loop_ports [of s smry ?t 0 0 ?ps] by (intro exI [of _ "listed_ports smry ?t 0 0 ?ps"]) simp
  with assms show ?thesis by (simp add: printPortHighlights_def Let_def)
qed

text \<open>A port with all the traffic, and its clients' ports.\<close>

definition demo_summary :: "packet_counter \<Rightarrow> apidump_summary" where
  "demo_summary s = NewSummary False [''eth0''] [] 0 s s NewPacketCounter"

definition demo_counter :: packet_counter where
  "demo_counter = fold (Update sum_counts)
     [zero_counts\<lparr>pc_interface := ''eth0'', pc_src_port := 4000, pc_dst_port := 80, pc_tcp := 2\<rparr>,
      zero_counts\<lparr>pc_interface := ''eth0'', pc_src_port := 4000, pc_dst_port := 80, pc_dst_host := ''api'',
        pc_http_req := 3\<rparr>] NewPacketCounter"

lemma demo_top:
  "Summary [80, 4000] [''eth0''] [''api''] 20 demo_counter =
     \<lparr>sm_total = zero_counts\<lparr>pc_tcp := 2, pc_http_req := 3\<rparr>,
      sm_top_by_port = fmap_of_list
        [(80, zero_counts\<lparr>pc_interface := ''*'', pc_src_port := 80, pc_tcp := 2, pc_http_req := 3\<rparr>),
         (4000, zero_counts\<lparr>pc_interface := ''*'', pc_src_port := 4000, pc_tcp := 2, pc_http_req := 3\<rparr>)],
      sm_top_by_interface = fmap_of_list
        [(''eth0'', zero_counts\<lparr>pc_interface := ''eth0'', pc_tcp := 2, pc_http_req := 3\<rparr>)],
      sm_top_by_host = fmap_of_list [(''api'', zero_counts\<lparr>pc_interface := ''*'', pc_src_host := ''api'', pc_http_req := 3\<rparr>)],
      sm_overflow_limit = 10000, sm_port_overflow = None, sm_interface_overflow = None, sm_host_overflow = None\<rparr>"
  by (simp add: demo_counter_def Summary_def TopN_def top_pairs_def entries_def map_filter_simps Update_def
      bounded_defs NewPacketCounter_def new_port_def new_host_def new_interface_def sum_counts_def
      zero_counts_def maxKeys_def insort_key.simps sort_key_def)


lemma ports_listed_within_total_witness:
  "case printPortHighlights [80, 4000] (demo_summary demo_counter)
        (Summary [80, 4000] [''eth0''] [''api''] 20 demo_counter) of
     None \<Rightarrow> False
   | Some ls \<Rightarrow> (\<exists>ps. prefix ps [80, 4000] \<and> line_port ` set ls = Some ` set ps)"
proof -
  let ?top = "Summary [80, 4000] [''eth0''] [''api''] 20 demo_counter"
  have "0 < pc_tcp (sm_total ?top)" by (simp add: demo_top)
  note shown = ports_listed_within_total [OF this, of "[80, 4000]" "demo_summary demo_counter"]
  have "sorted_ports ?top [80, 4000] = [80, 4000]"
    by (simp add: sorted_ports_def tcp_of_def demo_top sort_key_def zero_counts_def)
  with shown show ?thesis by (auto split: option.splits)
qed

text \<open>
  A host that accounts for more than 80 percent of the traffic is not highlighted, nor any other:
  the limit of 80 percent stops the list before the host that reaches it.
\<close>

theorem dominant_host_hidden:
  assumes "sorted_hosts smry order = h # hs"
    and "0 < sum_list (map (\<lambda>h. host_total (host_counts smry h)) order)"
    and "80 < host_total (host_counts smry h) * 100 div sum_list (map (\<lambda>h. host_total (host_counts smry h)) order)"
  shows "printHostHighlights order s smry = Some []"
  using assms by (simp add: printHostHighlights_def Let_def)

lemma dominant_host_hidden_witness:
  "printHostHighlights [''api''] (demo_summary demo_counter)
     (Summary [80, 4000] [''eth0''] [''api''] 20 demo_counter) = Some []"
proof -
  let ?top = "Summary [80, 4000] [''eth0''] [''api''] 20 demo_counter"
  have "sorted_hosts ?top [''api''] = [''api'']" by (simp add: sorted_hosts_def sort_key_def)
  then show ?thesis
    by (rule dominant_host_hidden) (simp_all add: demo_top host_counts_def host_total_def zero_counts_def)
qed

section \<open>Warnings\<close>

fun explains :: "line \<Rightarrow> bool" where
  "explains NoTCPAtAll = True"
| "explains NoTCPMatching = True"
| "explains (CapturedTLS n m) = True"
| "explains (CapturedUnparsed n m) = True"
| "explains (AllFiltered n) = True"
| "explains _ = False"

text \<open>
  The agent says that no HTTP calls were captured exactly when the trace is empty, and then explains
  it by at most one of the known causes.
\<close>

theorem empty_capture_reported:
  "(NoHTTPCalls \<in> set (PrintWarnings problems docker s)) = IsEmpty s \<and>
   length (filter explains (PrintWarnings problems docker s)) \<le> (if IsEmpty s then 1 else 0)"
  by (cases problems) (simp add: PrintWarnings_def IsEmpty_def Let_def)

end
