(* ===== verification/Interfaces.thy ===== *)
theory Interfaces
  imports Packet_Capture
begin

text \<open>
  \<open>apidump/net.go\<close>: which network interfaces are listened to, and with which BPF filters. The network
  interfaces, the permission to open them and the environment are arguments; messages to the user
  are left out, the errors that are returned are values.
\<close>

section \<open>Interfaces of the machine\<close>

text \<open>\<open>net.Interface\<close> with its name, the up flag, and what \<open>Addrs\<close> returns.\<close>

record net_interface =
  ni_Name :: string
  ni_up :: bool
  ni_Addrs :: "string + net_addr list"

record net_env =
  ne_InterfaceByName :: "string \<Rightarrow> string + net_interface"
  ne_Interfaces :: "string + net_interface list"
  ne_OpenLive :: "string \<Rightarrow> string option"
  ne_Geteuid :: int
  ne_InDocker :: bool

datatype apidump_error_type = PCAPPermission | PCAPInterfaceNotImplemented | PCAPInterfaceOther

datatype iface_error =
    InterfaceNotFound string string
  | NoInterfaceList string
  | NoAddresses string string
  | ApidumpError apidump_error_type string
  | FilterAndPort
  | AddrsFailed string
  | NoIPAddresses string

text \<open>An interface in the results: its addresses, or the interface itself if the user named it.\<close>

type_synonym interface_info = "string + net_addr list"

definition str_Contains :: "string \<Rightarrow> string \<Rightarrow> bool" where
  "str_Contains s sub = sublist sub s"

definition pcapPermErr_Error :: "string \<Rightarrow> string \<Rightarrow> string" where
  "pcapPermErr_Error iface e = ''failed to read packets from interface '' @ iface @ '': '' @ e"

text \<open>The errors are gathered from goroutines into a map; those of the interfaces that cannot be opened.\<close>

definition checkPcapPermissions :: "net_env \<Rightarrow> (string, interface_info) fmap \<Rightarrow> (string, string) fmap" where
  "checkPcapPermissions env interfaces =
     fmmap_keys (\<lambda>n _. pcapPermErr_Error n (the (ne_OpenLive env n)))
       (fmfilter (\<lambda>n. ne_OpenLive env n \<noteq> None) interfaces)"

definition showPermissionErrors :: "net_env \<Rightarrow> string \<Rightarrow> iface_error" where
  "showPermissionErrors env sampleError =
     (if str_Contains sampleError ''Operation not permitted'' then
        (if ne_Geteuid env = 0 then
           (if ne_InDocker env then ApidumpError PCAPPermission ''Insufficient permissions in container.''
            else ApidumpError PCAPPermission ''Insufficient permissions.'')
         else ApidumpError PCAPPermission ''Insufficient permissions, try using \"sudo\" to run as root.'')
      else if str_Contains sampleError ''SIOCETHTOOL(ETHTOOL_GET_TS_INFO) ioctl failed: Function not implemented''
      then ApidumpError PCAPInterfaceNotImplemented ''Unable to read network interfaces.''
      else ApidumpError PCAPInterfaceOther ''Error while checking permissions.'')"

fun named_interfaces :: "net_env \<Rightarrow> string list \<Rightarrow> (string, interface_info) fmap \<Rightarrow> iface_error + (string, interface_info) fmap" where
  "named_interfaces env [] results = Inr results"
| "named_interfaces env (n # ns) results =
     (case ne_InterfaceByName env n of
        Inl e \<Rightarrow> Inl (InterfaceNotFound n e)
      | Inr iface \<Rightarrow> named_interfaces env ns (fmupd n (ni_Addrs iface) results))"

fun up_interfaces :: "net_interface list \<Rightarrow> (string, interface_info) fmap \<Rightarrow> iface_error + (string, interface_info) fmap" where
  "up_interfaces [] results = Inr results"
| "up_interfaces (i # is) results =
     (if ni_up i then
        (case ni_Addrs i of
           Inl e \<Rightarrow> Inl (NoAddresses (ni_Name i) e)
         | Inr addrs \<Rightarrow>
             if addrs = [] then up_interfaces is results
             else up_interfaces is (fmupd (ni_Name i) (Inr addrs) results))
      else up_interfaces is results)"

text \<open>
  \<open>order\<close> is the order in which the range over the map of errors visits its keys: the error shown is
  the first one if the user named the interfaces, and the last one otherwise.
\<close>

definition getEligibleInterfaces ::
  "net_env \<Rightarrow> (string fset \<Rightarrow> string list) \<Rightarrow> string list \<Rightarrow> iface_error + (string, interface_info) fmap" where
  "getEligibleInterfaces env order userSpecified =
     (if userSpecified \<noteq> [] then
        (case named_interfaces env userSpecified fmempty of
           Inl e \<Rightarrow> Inl e
         | Inr results \<Rightarrow>
             (let ifaceErrs = checkPcapPermissions env results
              in case order (fmdom ifaceErrs) of
                   i # _ \<Rightarrow> Inl (showPermissionErrors env (the (fmlookup ifaceErrs i)))
                 | [] \<Rightarrow> Inr results))
      else
        (case ne_Interfaces env of
           Inl e \<Rightarrow> Inl (NoInterfaceList e)
         | Inr ifaces \<Rightarrow>
             (case up_interfaces ifaces fmempty of
                Inl e \<Rightarrow> Inl e
              | Inr results \<Rightarrow>
                  (let ifaceErrs = checkPcapPermissions env results;
                       failed = order (fmdom ifaceErrs);
                       sampleError = (if failed = [] then None else fmlookup ifaceErrs (last failed));
                       results = fold fmdrop failed results
                   in if results = fmempty then
                        (case sampleError of
                           Some e \<Rightarrow> Inl (showPermissionErrors env e)
                         | None \<Rightarrow> Inl (ApidumpError PCAPInterfaceOther ''Failed to automatically find interfaces.''))
                      else Inr results))))"

section \<open>Filters\<close>

fun addr_ip :: "net_addr \<Rightarrow> ip option" where
  "addr_ip (IPAddr a) = Some a"
| "addr_ip (IPNet a mk) = Some a"
| "addr_ip (TCPAddr a) = Some a"
| "addr_ip (UDPAddr a) = Some a"
| "addr_ip OtherAddr = None"

definition host_port_filter :: "(ip \<Rightarrow> string) \<Rightarrow> u16 \<Rightarrow> string \<Rightarrow> ip \<Rightarrow> string" where
  "host_port_filter ip_String port dir a =
     ''('' @ dir @ '' host '' @ ip_String a @ '' and '' @ dir @ '' port '' @ itoa (uint port) @ '')''"

fun str_Join :: "string list \<Rightarrow> string \<Rightarrow> string" where
  "str_Join [] sep = []"
| "str_Join [x] sep = x"
| "str_Join (x # xs) sep = x @ sep @ str_Join xs sep"

definition port_filter :: "(ip \<Rightarrow> string) \<Rightarrow> u16 \<Rightarrow> ip list \<Rightarrow> string" where
  "port_filter ip_String port ips =
     str_Join (concat (map (\<lambda>a. map (\<lambda>dir. host_port_filter ip_String port dir a) [''src'', ''dst'']) ips)) '' or ''"

fun interface_filters ::
  "(ip \<Rightarrow> string) \<Rightarrow> u16 \<Rightarrow> (string \<times> interface_info) list \<Rightarrow> (string, string) fmap \<Rightarrow> iface_error + (string, string) fmap" where
  "interface_filters ip_String port [] results = Inr results"
| "interface_filters ip_String port ((name, iface) # rest) results =
     (case iface of
        Inl e \<Rightarrow> Inl (AddrsFailed e)
      | Inr addrs \<Rightarrow>
          (let ips = List.map_filter addr_ip addrs
           in if ips = [] then Inl (NoIPAddresses name)
              else interface_filters ip_String port rest (fmupd name (port_filter ip_String port ips) results)))"

text \<open>\<open>order\<close> is the order in which the interfaces are visited.\<close>

definition getInboundBPFFilter ::
  "(ip \<Rightarrow> string) \<Rightarrow> string list \<Rightarrow> (string, interface_info) fmap \<Rightarrow> string \<Rightarrow> u16 \<Rightarrow> iface_error + (string, string) fmap" where
  "getInboundBPFFilter ip_String order interfaces bpfFilter port =
     (if bpfFilter \<noteq> [] then
        (if port > 0 then Inl FilterAndPort else Inr (fmmap (\<lambda>_. bpfFilter) interfaces))
      else if port = 0 then Inr (fmmap (\<lambda>_. []) interfaces)
      else interface_filters ip_String port
             (List.map_filter (\<lambda>n. map_option (Pair n) (fmlookup interfaces n)) order) fmempty)"

definition createBPFFilters ::
  "(ip \<Rightarrow> string) \<Rightarrow> string list \<Rightarrow> (string, interface_info) fmap \<Rightarrow> string \<Rightarrow> bool \<Rightarrow> u16 \<Rightarrow>
   iface_error + (string, string) fmap \<times> (string, string) fmap" where
  "createBPFFilters ip_String order interfaces bpfFilter createOutbound port =
     (case getInboundBPFFilter ip_String order interfaces bpfFilter port of
        Inl e \<Rightarrow> Inl e
      | Inr inboundFilters \<Rightarrow>
          Inr (inboundFilters,
            if createOutbound
            then fmmap (\<lambda>f. ''not ('' @ f @ '')'') (fmfilter (\<lambda>n. fmlookup inboundFilters n \<noteq> Some []) inboundFilters)
            else fmempty))"

section \<open>Which interfaces are used\<close>

text \<open>An interface that the agent can listen to: up, with addresses, and open to it.\<close>

definition usable :: "net_env \<Rightarrow> net_interface \<Rightarrow> bool" where
  "usable env i \<longleftrightarrow> ni_up i \<and> (\<exists>a as. ni_Addrs i = Inr (a # as)) \<and> ne_OpenLive env (ni_Name i) = None"

definition candidates :: "net_interface list \<Rightarrow> (string \<times> interface_info) list" where
  "candidates ifaces = map (\<lambda>i. (ni_Name i, ni_Addrs i)) (filter (\<lambda>i. ni_up i \<and> ni_Addrs i \<noteq> Inr []) ifaces)"

lemma up_interfaces_fails:
  "(\<exists>e. up_interfaces ifaces results = Inl e) \<longleftrightarrow> (\<exists>i \<in> set ifaces. ni_up i \<and> (\<exists>e. ni_Addrs i = Inl e))"
  by (induction ifaces arbitrary: results) (auto split: sum.splits)

lemma up_interfaces_run:
  "up_interfaces ifaces results = Inr m \<Longrightarrow> m = fold (\<lambda>(n, a). fmupd n a) (candidates ifaces) results"
  by (induction ifaces arbitrary: results) (auto simp: candidates_def split: if_splits sum.splits)

lemma fold_fmupd_lookup:
  "distinct (map fst xs) \<Longrightarrow> fmlookup (fold (\<lambda>(n, a). fmupd n a) xs m) k =
     (case map_of xs k of Some a \<Rightarrow> Some a | None \<Rightarrow> fmlookup m k)"
proof (induction xs arbitrary: m)
  case (Cons x xs)
  then show ?case
    by (cases x) (auto split: option.splits dest: map_of_SomeD intro: rev_image_eqI)
qed simp

lemma fold_fmdrop_lookup: "fmlookup (fold fmdrop ks m) k = (if k \<in> set ks then None else fmlookup m k)"
  by (induction ks arbitrary: m) auto

lemma permission_errors:
  "fmlookup (checkPcapPermissions env m) n =
     (if fmlookup m n \<noteq> None then map_option (pcapPermErr_Error n) (ne_OpenLive env n) else None)"
  by (auto simp: checkPcapPermissions_def fmlookup_fmmap_keys)

lemma distinct_candidates: "distinct (map ni_Name ifaces) \<Longrightarrow> distinct (map fst (candidates ifaces))"
  by (simp add: candidates_def comp_def distinct_map_filter)

lemma candidates_lookup:
  assumes "distinct (map ni_Name ifaces)"
  shows "map_of (candidates ifaces) n = Some x \<longleftrightarrow>
    (\<exists>i \<in> set ifaces. ni_Name i = n \<and> ni_up i \<and> ni_Addrs i = x \<and> x \<noteq> Inr [])"
  using map_of_eq_Some_iff [OF distinct_candidates [OF assms], of n x]
  by (auto simp: candidates_def image_iff)

text \<open>
  C35: without \<open>--interface\<close> the agent listens to exactly the interfaces that are up, have addresses and
  can be opened, whatever the order of the maps; it fails exactly when there is none, or when the
  addresses of one that is up cannot be read.
\<close>

theorem eligible_interfaces_exact:
  assumes order: "\<And>A. distinct (order A) \<and> set (order A) = fset A"
    and ifaces: "ne_Interfaces env = Inr ifaces" "distinct (map ni_Name ifaces)"
  shows "case getEligibleInterfaces env order [] of
      Inr m \<Rightarrow>
        \<not> (\<exists>i \<in> set ifaces. ni_up i \<and> (\<exists>e. ni_Addrs i = Inl e)) \<and> (\<exists>i \<in> set ifaces. usable env i) \<and>
        (\<forall>n x. (fmlookup m n = Some x) = (\<exists>i \<in> set ifaces. usable env i \<and> ni_Name i = n \<and> ni_Addrs i = x))
    | Inl e \<Rightarrow> (\<exists>i \<in> set ifaces. ni_up i \<and> (\<exists>e. ni_Addrs i = Inl e)) \<or> \<not> (\<exists>i \<in> set ifaces. usable env i)"
proof (cases "up_interfaces ifaces fmempty")
  case (Inl e)
  with up_interfaces_fails [of ifaces fmempty] show ?thesis
    by (simp add: getEligibleInterfaces_def ifaces)
next
  case (Inr results)
  have ok: "\<not> (\<exists>i \<in> set ifaces. ni_up i \<and> (\<exists>e. ni_Addrs i = Inl e))"
    using Inr up_interfaces_fails [of ifaces fmempty] by auto
  have res: "fmlookup results n = map_of (candidates ifaces) n" for n
    using up_interfaces_run [OF Inr] distinct_candidates [OF ifaces(2)]
    by (simp add: fold_fmupd_lookup split: option.split)
  define errs where "errs = checkPcapPermissions env results"
  define left where "left = fold fmdrop (order (fmdom errs)) results"
  have "fmlookup left n = Some x \<longleftrightarrow> fmlookup results n = Some x \<and> ne_OpenLive env n = None" for n x
    using order [of "fmdom errs"]
    by (auto simp: left_def fold_fmdrop_lookup errs_def fmlookup_dom_iff permission_errors)
  then have left: "fmlookup left n = Some x \<longleftrightarrow> (\<exists>i \<in> set ifaces. usable env i \<and> ni_Name i = n \<and> ni_Addrs i = x)" for n x
    using ok unfolding res candidates_lookup [OF ifaces(2)] usable_def
    by (metis neq_Nil_conv sum.exhaust_sel sum.inject(2))
  have run: "getEligibleInterfaces env order [] =
      (if left = fmempty then
         (case (if order (fmdom errs) = [] then None else fmlookup errs (last (order (fmdom errs)))) of
            Some e \<Rightarrow> Inl (showPermissionErrors env e)
          | None \<Rightarrow> Inl (ApidumpError PCAPInterfaceOther ''Failed to automatically find interfaces.''))
       else Inr left)"
    by (simp add: getEligibleInterfaces_def ifaces Inr Let_def flip: errs_def left_def)
  show ?thesis
  proof (cases "left = fmempty")
    case True
    then have "\<not> (\<exists>i \<in> set ifaces. usable env i)" using left by auto
    with run True show ?thesis by (simp split: option.split)
  next
    case False
    then obtain n x where "fmlookup left n = Some x" by (metis fmap_ext fmempty_lookup option.exhaust)
    then have "\<exists>i \<in> set ifaces. usable env i" using left by blast
    with run False ok left show ?thesis by simp
  qed
qed

text \<open>A machine with a usable interface, one that is down and one that may not be opened.\<close>

definition demo_env :: net_env where
  "demo_env =
     \<lparr>ne_InterfaceByName = (\<lambda>n. Inl ''none''),
      ne_Interfaces = Inr [\<lparr>ni_Name = ''lo'', ni_up = True, ni_Addrs = Inr [IPNet [127, 0, 0, 1] [255, 0, 0, 0]]\<rparr>,
        \<lparr>ni_Name = ''eth0'', ni_up = False, ni_Addrs = Inr [IPNet [10, 0, 0, 1] [255, 0, 0, 0]]\<rparr>,
        \<lparr>ni_Name = ''eth1'', ni_up = True, ni_Addrs = Inr [IPNet [10, 0, 0, 2] [255, 0, 0, 0]]\<rparr>],
      ne_OpenLive = (\<lambda>n. if n = ''eth1'' then Some ''Operation not permitted'' else None),
      ne_Geteuid = 0, ne_InDocker = False\<rparr>"

lemma eligible_interfaces_exact_witness:
  "case getEligibleInterfaces demo_env sorted_list_of_fset [] of
     Inr m \<Rightarrow> fmlookup m ''lo'' \<noteq> None \<and> fmlookup m ''eth0'' = None \<and> fmlookup m ''eth1'' = None
   | Inl e \<Rightarrow> False"
proof -
  have order: "distinct (sorted_list_of_fset A) \<and> set (sorted_list_of_fset A) = fset A" for A :: "string fset"
    by (simp add: sorted_list_of_fset.rep_eq)
  obtain ifaces where ifaces: "ne_Interfaces demo_env = Inr ifaces" "distinct (map ni_Name ifaces)"
    and ex: "\<exists>i \<in> set ifaces. usable demo_env i \<and> ni_Name i = ''lo''"
      "\<not> (\<exists>i \<in> set ifaces. usable demo_env i \<and> ni_Name i \<noteq> ''lo'')"
      "\<not> (\<exists>i \<in> set ifaces. ni_up i \<and> (\<exists>e. ni_Addrs i = Inl e))"
    by (simp add: demo_env_def usable_def)
  note shown = eligible_interfaces_exact [OF order ifaces]
  show ?thesis
  proof (cases "getEligibleInterfaces demo_env sorted_list_of_fset []")
    case (Inl e)
    with shown ex show ?thesis by auto
  next
    case (Inr m)
    with shown have m: "(fmlookup m n = Some x) = (\<exists>i \<in> set ifaces. usable demo_env i \<and> ni_Name i = n \<and> ni_Addrs i = x)" for n x
      by simp
    have "fmlookup m ''lo'' \<noteq> None" using m [of "''lo''"] ex(1) by blast
    moreover have "fmlookup m n = None" if "n \<noteq> ''lo''" for n using m [of n] ex(2) that by (cases "fmlookup m n") auto
    ultimately show ?thesis using Inr by simp
  qed
qed

end
