(* ===== verification/Har.thy ===== *)
theory Har
  imports Backend_Collector
begin

text \<open>
  \<open>apispec/har.go\<close>: the entries of a HAR file are turned into the messages of a capture. A HAR entry
  does not say when its packets arrived; times are made up for them so that the latency reported for
  the exchange is the one in the file. The conversion of the HAR request and response (akita-libs)
  and the loading of the file are arguments; \<open>float32\<close> milliseconds are exact rationals.
\<close>

section \<open>Entries\<close>

record timings =
  tg_Blocked :: "rat option"
  tg_DNS :: "rat option"
  tg_SSL :: "rat option"
  tg_Connect :: "rat option"
  tg_Send :: "rat option"
  tg_Wait :: "rat option"
  tg_Receive :: "rat option"

record ('q, 'r) har_entry =
  he_StartedDateTime :: instant
  he_Request :: "'q option"
  he_Response :: "'r option"
  he_Timings :: "timings option"

record timestamps =
  ts_RequestStart :: instant
  ts_RequestEnd :: instant
  ts_ResponseStart :: instant
  ts_ResponseEnd :: instant

text \<open>\<open>sampled_err.Errors\<close>: how many, and the first few.\<close>

record 'e sampled_errors =
  se_TotalCount :: int
  se_Samples :: "'e list"
  se_SampleCount :: nat

definition errs_Add :: "'e \<Rightarrow> 'e sampled_errors \<Rightarrow> 'e sampled_errors" where
  "errs_Add e errs =
     errs\<lparr>se_TotalCount := se_TotalCount errs + 1,
          se_Samples := (if length (se_Samples errs) < se_SampleCount errs then se_Samples errs @ [e] else se_Samples errs)\<rparr>"

section \<open>Operations\<close>

definition advanceTime :: "instant \<Rightarrow> rat option \<Rightarrow> instant" where
  "advanceTime current ms =
     (case ms of
        None \<Rightarrow> current
      | Some ms \<Rightarrow> if ms \<le> 0 then current else current + \<lfloor>ms * 1000000\<rfloor>)"

definition reconstructFromHAR :: "('q, 'r) har_entry \<Rightarrow> timestamps" where
  "reconstructFromHAR entry =
     (let currTime = he_StartedDateTime entry
      in if is_zero currTime then
           \<lparr>ts_RequestStart = 0, ts_RequestEnd = 0, ts_ResponseStart = 0, ts_ResponseEnd = 0\<rparr>
         else case he_Timings entry of
           None \<Rightarrow>
             \<lparr>ts_RequestStart = currTime, ts_RequestEnd = currTime, ts_ResponseStart = currTime,
              ts_ResponseEnd = currTime\<rparr>
         | Some tg \<Rightarrow>
             (let currTime = advanceTime currTime (tg_Blocked tg);
                  currTime = advanceTime currTime (tg_DNS tg);
                  requestStart = currTime;
                  currTime = advanceTime currTime (tg_Connect tg);
                  currTime = advanceTime currTime (tg_SSL tg);
                  currTime = advanceTime currTime (tg_Send tg);
                  requestEnd = currTime;
                  currTime = advanceTime currTime (tg_Wait tg);
                  responseStart = currTime;
                  currTime = advanceTime currTime (tg_Receive tg)
              in \<lparr>ts_RequestStart = requestStart, ts_RequestEnd = requestEnd, ts_ResponseStart = responseStart,
                  ts_ResponseEnd = currTime\<rparr>))"

definition har_traffic :: "instant \<Rightarrow> instant \<Rightarrow> content \<Rightarrow> traffic" where
  "har_traffic t1 t2 c =
     \<lparr>src_ip = [], src_port = 0, dst_ip = [], dst_port = 0, content = c, interface_name = [],
      observation_time = t1, final_packet_time = t2\<rparr>"

text \<open>The collector's error is ignored.\<close>

definition process_request ::
  "('s, 'x) downstream \<Rightarrow> ('q \<Rightarrow> 'e + http_request) \<Rightarrow> uuid \<Rightarrow> int \<Rightarrow> timestamps \<Rightarrow> 'q \<Rightarrow>
   's \<times> 'e sampled_errors \<times> bool \<Rightarrow> 's \<times> 'e sampled_errors \<times> bool" where
  "process_request process convertRequest harUUID seqNum ts q st =
     (case st of (s, errs, success) \<Rightarrow>
        (case convertRequest q of
           Inr req \<Rightarrow>
             (fst (process (har_traffic (ts_RequestStart ts) (ts_RequestEnd ts)
                (HTTPRequest (req\<lparr>rq_stream := harUUID, rq_seq := seqNum\<rparr>))) s), errs, success)
         | Inl e \<Rightarrow> (s, errs_Add e errs, False)))"

definition process_response ::
  "('s, 'x) downstream \<Rightarrow> ('r \<Rightarrow> 'e + http_response) \<Rightarrow> uuid \<Rightarrow> int \<Rightarrow> timestamps \<Rightarrow> 'r \<Rightarrow>
   's \<times> 'e sampled_errors \<times> bool \<Rightarrow> 's \<times> 'e sampled_errors \<times> bool" where
  "process_response process convertResponse harUUID seqNum ts r st =
     (case st of (s, errs, success) \<Rightarrow>
        (case convertResponse r of
           Inr resp \<Rightarrow>
             (fst (process (har_traffic (ts_ResponseStart ts) (ts_ResponseEnd ts)
                (HTTPResponse (resp\<lparr>rs_stream := harUUID, rs_seq := seqNum\<rparr>))) s), errs, success)
         | Inl e \<Rightarrow> (s, errs_Add e errs, False)))"

definition ProcessHAREntry ::
  "('s, 'x) downstream \<Rightarrow> ('q \<Rightarrow> 'e + http_request) \<Rightarrow> ('r \<Rightarrow> 'e + http_response) \<Rightarrow> uuid \<Rightarrow> int \<Rightarrow>
   ('q, 'r) har_entry \<Rightarrow> 's \<times> 'e sampled_errors \<Rightarrow> 's \<times> 'e sampled_errors \<times> bool" where
  "ProcessHAREntry process convertRequest convertResponse harUUID seqNum entry st =
     (let ts = reconstructFromHAR entry;
          st = (fst st, snd st, True);
          st = (case he_Request entry of
                  Some q \<Rightarrow> process_request process convertRequest harUUID seqNum ts q st
                | None \<Rightarrow> st)
      in case he_Response entry of
           Some r \<Rightarrow> process_response process convertResponse harUUID seqNum ts r st
         | None \<Rightarrow> st)"

fun har_loop ::
  "('s, 'x) downstream \<Rightarrow> ('q \<Rightarrow> 'e + http_request) \<Rightarrow> ('r \<Rightarrow> 'e + http_response) \<Rightarrow> uuid \<Rightarrow> int \<Rightarrow>
   ('q, 'r) har_entry list \<Rightarrow> 's \<times> 'e sampled_errors \<Rightarrow> int \<Rightarrow> 's \<times> 'e sampled_errors \<times> int" where
  "har_loop process cq cr harUUID i [] st n = (fst st, snd st, n)"
| "har_loop process cq cr harUUID i (entry # ents) st n =
     (case ProcessHAREntry process cq cr harUUID i entry st of
        (s, errs, success) \<Rightarrow> har_loop process cq cr harUUID (i + 1) ents (s, errs) (if success then n + 1 else n))"

definition ParseFromHAR ::
  "('s, 'x) downstream \<Rightarrow> ('q \<Rightarrow> 'e + http_request) \<Rightarrow> ('r \<Rightarrow> 'e + http_response) \<Rightarrow> uuid \<Rightarrow>
   ('q, 'r) har_entry list \<Rightarrow> 's \<Rightarrow> 's \<times> int \<times> 'e sampled_errors" where
  "ParseFromHAR process cq cr harUUID ents s =
     (case har_loop process cq cr harUUID 0 ents (s, \<lparr>se_TotalCount = 0, se_Samples = [], se_SampleCount = 3\<rparr>) 0 of
        (s, errs, n) \<Rightarrow> (s, n, errs))"

text \<open>\<open>loaded\<close> is what \<open>LoadCustomHARFromFile\<close> returns: whether the file is of outbound traffic, and its entries.\<close>

definition ProcessHAR ::
  "('s, 'x) downstream \<Rightarrow> ('q \<Rightarrow> 'e + http_request) \<Rightarrow> ('r \<Rightarrow> 'e + http_response) \<Rightarrow> uuid \<Rightarrow>
   'l + bool \<times> ('q, 'r) har_entry list \<Rightarrow> 's \<Rightarrow> 's \<times> ('l + int)" where
  "ProcessHAR process cq cr harUUID loaded s =
     (case loaded of
        Inl e \<Rightarrow> (s, Inl e)
      | Inr (outbound, ents) \<Rightarrow>
          if outbound then (s, Inr 0)
          else (case ParseFromHAR process cq cr harUUID ents s of (s, n, errs) \<Rightarrow> (s, Inr n)))"

section \<open>Times\<close>

lemma advance_later: "t \<le> advanceTime t ms"
  by (auto simp: advanceTime_def split: option.splits)

definition wait_time :: "('q, 'r) har_entry \<Rightarrow> duration" where
  "wait_time entry = (case he_Timings entry of None \<Rightarrow> 0 | Some tg \<Rightarrow> advanceTime 0 (tg_Wait tg))"

lemma advance_diff: "advanceTime t ms = t + advanceTime 0 ms"
  by (auto simp: advanceTime_def split: option.splits)

lemma reconstructed:
  assumes "0 < he_StartedDateTime entry"
  shows "ts_ResponseStart (reconstructFromHAR entry) - ts_RequestEnd (reconstructFromHAR entry) = wait_time entry"
    and "0 < ts_RequestStart (reconstructFromHAR entry)"
    and "ts_RequestStart (reconstructFromHAR entry) \<le> ts_RequestEnd (reconstructFromHAR entry)"
    and "ts_RequestEnd (reconstructFromHAR entry) \<le> ts_ResponseStart (reconstructFromHAR entry)"
    and "ts_ResponseStart (reconstructFromHAR entry) \<le> ts_ResponseEnd (reconstructFromHAR entry)"
proof -
  have l: "0 < t \<Longrightarrow> 0 < advanceTime t ms" for t ms using advance_later [of t ms] by simp
  show "ts_ResponseStart (reconstructFromHAR entry) - ts_RequestEnd (reconstructFromHAR entry) = wait_time entry"
    using assms by (simp add: reconstructFromHAR_def wait_time_def Let_def advance_diff [of "advanceTime t ms" for t ms] split: option.splits)
  show "0 < ts_RequestStart (reconstructFromHAR entry)"
    using assms by (simp add: reconstructFromHAR_def Let_def l split: option.splits)
  show "ts_RequestStart (reconstructFromHAR entry) \<le> ts_RequestEnd (reconstructFromHAR entry)"
    using assms by (auto simp: reconstructFromHAR_def Let_def split: option.splits)
      (meson advance_later order_trans)
  show "ts_RequestEnd (reconstructFromHAR entry) \<le> ts_ResponseStart (reconstructFromHAR entry)"
    "ts_ResponseStart (reconstructFromHAR entry) \<le> ts_ResponseEnd (reconstructFromHAR entry)"
    using assms by (auto simp: reconstructFromHAR_def Let_def advance_later split: option.splits)
qed


section \<open>The latency of an entry\<close>

text \<open>
  C13: the exchange of a HAR entry is reported with the latency of the file. Whatever the backend
  collector has seen before, as long as it was not this entry, processing an entry with a request and
  a response that can be converted succeeds and reports their exchange once, with the waiting time of
  the entry as its latency.
\<close>

theorem har_latency_reported:
  fixes parse :: "('p, 'id) parser"
  assumes parse: "parse = http_parser fuel env sha"
    and entry: "he_Request entry = Some q" "he_Response entry = Some r" "0 < he_StartedDateTime entry"
    and req: "convertRequest q = Inr req" "parse (HTTPRequest (req\<lparr>rq_stream := u, rq_seq := n\<rparr>)) = Inr (wq, k)"
      "rq_method req \<noteq> []"
    and resp: "convertResponse r = Inr resp" "parse (HTTPResponse (resp\<lparr>rs_stream := u, rs_seq := n\<rparr>)) = Inr (wr, k)"
    and pre: "\<forall>t. Message t \<in> set pre \<longrightarrow> message_key parse t \<noteq> Some k"
  shows "case ProcessHAREntry (backend_process parse plugins obf :: (('p, 'id) backend, unit) downstream)
        convertRequest convertResponse u n entry (bk_run parse plugins obf pre (NewBackendCollector session), errs) of
      (c, errs', success) \<Rightarrow>
        success \<and> errs' = errs \<and>
        filter (report_of k) (bk_batch c) = upload_report plugins obf
          ((new_witness_info (har_traffic (ts_RequestStart (reconstructFromHAR entry)) (ts_RequestEnd (reconstructFromHAR entry))
              (HTTPRequest (req\<lparr>rq_stream := u, rq_seq := n\<rparr>)))
            (Some \<lparr>im_args = im_args (the wq), im_responses = im_responses (the wr),
              im_meta = map_option (\<lambda>m. m\<lparr>mm_latency_us := microseconds (wait_time entry)\<rparr>) (im_meta (the wq))\<rparr>) k)
           \<lparr>wi_request_end := ts_RequestEnd (reconstructFromHAR entry)\<rparr>)"
proof -
  let ?ts = "reconstructFromHAR entry"
  let ?t1 = "har_traffic (ts_RequestStart ?ts) (ts_RequestEnd ?ts) (HTTPRequest (req\<lparr>rq_stream := u, rq_seq := n\<rparr>))"
  let ?t2 = "har_traffic (ts_ResponseStart ?ts) (ts_ResponseEnd ?ts) (HTTPResponse (resp\<lparr>rs_stream := u, rs_seq := n\<rparr>))"
  let ?c = "bk_run parse plugins obf pre (NewBackendCollector session)"
  note ts = reconstructed [OF entry(3)]
  have fields: "content ?t1 = HTTPRequest (req\<lparr>rq_stream := u, rq_seq := n\<rparr>)" "final_packet_time ?t1 = ts_RequestEnd ?ts"
    "content ?t2 = HTTPResponse (resp\<lparr>rs_stream := u, rs_seq := n\<rparr>)" "observation_time ?t2 = ts_ResponseStart ?ts"
    by (simp_all add: har_traffic_def)
  have run: "ProcessHAREntry (backend_process parse plugins obf :: (('p, 'id) backend, unit) downstream)
      convertRequest convertResponse u n entry (?c, errs)
      = (bk_run parse plugins obf (pre @ Message ?t1 # [] @ [Message ?t2]) (NewBackendCollector session), errs, True)"
    by (simp add: ProcessHAREntry_def process_request_def process_response_def entry req(1) resp(1) Let_def)
  have "filter (report_of k) (bk_batch (bk_run parse plugins obf (pre @ Message ?t1 # [] @ [Message ?t2]) (NewBackendCollector session)))
      = upload_report plugins obf ((new_witness_info ?t1 (exchange_witness ?t1 ?t2 wq wr) k)\<lparr>wi_request_end := final_packet_time ?t1\<rparr>)"
    by (rule conjunct1 [OF exchange_both_orders [OF parse fields(1) _ _ fields(3)]])
      (use req resp pre ts in \<open>simp_all add: fields\<close>)
  moreover have "exchange_witness ?t1 ?t2 wq wr = Some \<lparr>im_args = im_args (the wq), im_responses = im_responses (the wr),
      im_meta = map_option (\<lambda>m. m\<lparr>mm_latency_us := microseconds (wait_time entry)\<rparr>) (im_meta (the wq))\<rparr>"
    by (simp add: exchange_witness_def fields ts(1))
  ultimately show ?thesis by (simp add: run fields)
qed

definition demo_entry :: "(http_request, http_response) har_entry" where
  "demo_entry =
     \<lparr>he_StartedDateTime = 1000, he_Request = Some (sample_request ''x'' 7), he_Response = Some (sample_response ''y'' 8),
      he_Timings = Some \<lparr>tg_Blocked = None, tg_DNS = None, tg_SSL = Some (-1), tg_Connect = Some 1, tg_Send = Some 1,
        tg_Wait = Some 2, tg_Receive = Some 3\<rparr>\<rparr>"

lemma har_latency_reported_witness:
  "case ProcessHAREntry (backend_process plain_parser [] Some :: ((string, string) backend, unit) downstream)
      Inr Inr ''har'' 0 demo_entry (NewBackendCollector ''lrn'', \<lparr>se_TotalCount = 0, se_Samples = [] :: unit list, se_SampleCount = 3\<rparr>) of
     (c, errs, success) \<Rightarrow> success \<and>
       map (\<lambda>raw. case raw of
              WitnessReport w \<Rightarrow> map_option (\<lambda>m. map_option mm_latency_us (im_meta m)) (wi_witness w) | _ \<Rightarrow> None)
         (filter (report_of (witness_name ''har'' 0)) (bk_batch c)) = [Some (Some 2000)]"
proof -
  have req: "(sample_request ''x'' 7)\<lparr>rq_stream := ''har'', rq_seq := 0\<rparr> = sample_request ''har'' 0"
    and resp: "(sample_response ''y'' 8)\<lparr>rs_stream := ''har'', rs_seq := 0\<rparr> = sample_response ''har'' 0"
    by (simp_all add: sample_request_def sample_response_def)
  have wait: "wait_time demo_entry = 2000000"
    by (simp add: wait_time_def demo_entry_def advanceTime_def)
  have e: "he_Request demo_entry = Some (sample_request ''x'' 7)" "he_Response demo_entry = Some (sample_response ''y'' 8)"
    "0 < he_StartedDateTime demo_entry" and m: "rq_method (sample_request ''x'' 7) \<noteq> []"
    by (simp_all add: demo_entry_def sample_request_def)
  have p: "plain_parser (HTTPRequest ((sample_request ''x'' 7)\<lparr>rq_stream := ''har'', rq_seq := 0\<rparr>)) =
      Inr (Some \<lparr>im_args = Some fmempty, im_responses = None, im_meta = Some (parseMethodMeta (sample_request ''har'' 0))\<rparr>, witness_name ''har'' 0)"
    "plain_parser (HTTPResponse ((sample_response ''y'' 8)\<lparr>rs_stream := ''har'', rs_seq := 0\<rparr>)) =
      Inr (Some \<lparr>im_args = None, im_responses = Some fmempty, im_meta = Some UnknownHTTPMethodMeta\<rparr>, witness_name ''har'' 0)"
    unfolding req resp by (rule plain_parser_samples)+
  note shown = har_latency_reported [OF plain_parser_def e _ p(1) m _ p(2), where convertRequest = Inr and convertResponse = Inr
      and pre = "[]" and plugins = "[]" and obf = Some and session = "''lrn''"
      and errs = "\<lparr>se_TotalCount = 0, se_Samples = [] :: unit list, se_SampleCount = 3\<rparr>"]
  then show ?thesis
    by (auto simp: upload_report_def wait microseconds_def obfuscate_def)
qed

end
