(* ===== verification/Collector_Stack.thy ===== *)
theory Collector_Stack
  imports Rate_Limit Tcp_Tracker Tls_Tracker Backend_Collector
begin

text \<open>
  The stack of collectors that apidump.Run (apidump/apidump.go) builds for one interface and one filter,
  from the sink outwards: statistics, sampling, the rate limit, the filters on hosts and paths, the
  agent's own traffic, the count before the filters, the TLS and the TCP connection tracker. The state
  of the stack is the tower of the states of its layers; a layer that the flags leave out keeps its
  initial state. The rate limit is shared with the stacks of other interfaces, whose steps may change
  its part of the state between two steps of this one.
\<close>

section \<open>Layers\<close>

text \<open>
  A collector keeps \<open>Inv\<close> on the packets that satisfy \<open>P\<close>. A layer turns what the wrapped collector needs
  of its packets into what the layer needs of its own, as a weakest precondition.
\<close>

definition keeps :: "('i \<Rightarrow> bool) \<Rightarrow> ('s \<Rightarrow> bool) \<Rightarrow> ('i \<Rightarrow> 's \<Rightarrow> 's \<times> 'e option) \<Rightarrow> bool" where
  "keeps P Inv process \<longleftrightarrow> (\<forall>i s. P i \<longrightarrow> Inv s \<longrightarrow> Inv (fst (process i s)))"

lemma keepsD: "keeps P Inv process \<Longrightarrow> P i \<Longrightarrow> Inv s \<Longrightarrow> Inv (fst (process i s))"
  by (simp add: keeps_def)

lemma keepsD': "keeps P Inv process \<Longrightarrow> P i \<Longrightarrow> Inv s \<Longrightarrow> process i s = (s', err) \<Longrightarrow> Inv s'"
  by (metis fst_conv keepsD)

lemma keeps_mono: "keeps P Inv process \<Longrightarrow> (\<And>i. Q i \<Longrightarrow> P i) \<Longrightarrow> keeps Q Inv process"
  by (simp add: keeps_def)

locale layer =
  fixes process :: "('t \<Rightarrow> 's \<Rightarrow> 's \<times> 'e option) \<Rightarrow> 'i \<Rightarrow> 'w \<Rightarrow> 'w \<times> 'e option"
    and inner :: "'w \<Rightarrow> 's"
    and pre :: "('t \<Rightarrow> bool) \<Rightarrow> 'i \<Rightarrow> bool"
  assumes keeps_process: "keeps P Inv next \<Longrightarrow> keeps (pre P) (\<lambda>w. Inv (inner w)) (process next)"
begin

text \<open>Two layers make a layer.\<close>

lemma keeps_stacked:
  assumes "layer process' inner' pre'" "keeps P Inv next"
  shows "keeps (pre (pre' P)) (\<lambda>w. Inv (inner' (inner w))) (process (process' next))"
  by (rule keeps_process [OF layer.keeps_process [OF assms]])

end

text \<open>Every gate is a layer.\<close>

sublocale gate \<subseteq> layer process snd "\<lambda>P i. \<forall>g. admits g i \<longrightarrow> P (payload i)"
  by unfold_locales
    (auto simp: keeps_def process_eq split: prod.splits, metis fst_conv)

text \<open>A layer that a flag switches on or off.\<close>

definition optional_layer ::
  "bool \<Rightarrow> (('s, 'e) downstream \<Rightarrow> ('g \<times> 's, 'e) downstream) \<Rightarrow> ('s, 'e) downstream \<Rightarrow> ('g \<times> 's, 'e) downstream"
where
  "optional_layer used process next t w =
     (if used then process next t w
      else case w of (g, s) \<Rightarrow> case next t s of (s', err) \<Rightarrow> ((g, s'), err))"

lemma keeps_optional:
  assumes "keeps P Inv next" "used \<Longrightarrow> keeps Q (\<lambda>w. Inv (snd w)) (process next)"
  shows "keeps (\<lambda>t. if used then Q t else P t) (\<lambda>w. Inv (snd w)) (optional_layer used process next)"
  using assms by (auto simp: keeps_def optional_layer_def split: prod.splits) (metis fst_conv)

lemma keeps_optional_layer:
  assumes "layer process snd pre" "keeps P Inv next"
  shows "keeps (\<lambda>t. if used then pre P t else P t) (\<lambda>w. Inv (snd w)) (optional_layer used process next)"
  using keeps_optional [OF assms(2), of used "pre P" process] layer.keeps_process [OF assms] by blast

definition optional_close ::
  "bool \<Rightarrow> (('s, 'e) closer \<Rightarrow> ('g \<times> 's, 'e) closer) \<Rightarrow> ('s, 'e) closer \<Rightarrow> ('g \<times> 's, 'e) closer" where
  "optional_close used wrap close w = (if used then wrap close w else pass_close close w)"

text \<open>The rate limit as a layer of the tower, its state the limit and the arrivals.\<close>

definition rate_layer ::
  "rl_config \<Rightarrow> nat \<Rightarrow> instant \<Rightarrow> ('s, 'e) downstream \<Rightarrow> ((rate_limit \<times> arrivals) \<times> 's, 'e) downstream" where
  "rate_layer cfg c now next t w =
     (case w of ((r, m), s) \<Rightarrow>
        case rate_limit_process cfg c next now t (r, m, s) of ((r, m, s), err) \<Rightarrow> (((r, m), s), err))"

definition rate_layer_close ::
  "nat \<Rightarrow> ('s, 'e) closer \<Rightarrow> ((rate_limit \<times> arrivals) \<times> 's, 'e) closer" where
  "rate_layer_close c close w =
     (case w of ((r, m), s) \<Rightarrow>
        case rate_limit_close c close (r, m, s) of ((r, m, s), err) \<Rightarrow> (((r, m), s), err))"

interpretation rate: layer "rate_layer cfg c now" snd "\<lambda>P t. P t" for cfg c now
  by unfold_locales
    (auto simp: keeps_def rate_layer_def rate_limit_process_def Let_def
      split: prod.splits content.splits if_splits)

text \<open>The trackers add reports of their own.\<close>

definition makes_tls :: "(traffic \<Rightarrow> bool) \<Rightarrow> bool" where
  "makes_tls P \<longleftrightarrow> (\<forall>info. P (tls_report info))"

definition makes_tcp :: "(traffic \<Rightarrow> bool) \<Rightarrow> bool" where
  "makes_tcp P \<longleftrightarrow> (\<forall>info. P (tcp_report info))"

lemma keeps_tls_flush:
  "keeps P Inv next \<Longrightarrow> makes_tls P \<Longrightarrow> Inv s \<Longrightarrow> tls_flushConnection next k (c, s) = ((c', s'), r) \<Longrightarrow> Inv s'"
  by (auto simp: tls_flushConnection_def makes_tls_def dest: keepsD' split: option.splits prod.splits)

lemma keeps_hello:
  assumes "keeps P Inv next" "makes_tls P" "Inv s" "process_hello done add next now k packet (c, s) = ((c', s'), err)"
  shows "Inv s'"
  using assms(3,4)
  by (auto simp: process_hello_def Let_def dest: keeps_tls_flush [OF assms(1,2)] split: prod.splits if_splits)

interpretation tls: layer "\<lambda>(next :: ('s, 'e) downstream) t w. tls_process ops next now t w" snd "\<lambda>P t. P t \<and> makes_tls P"
  for ops :: "'e handshake_ops" and now
proof unfold_locales
  fix P Inv and "next" :: "('s, 'e) downstream"
  assume nxt: "keeps P Inv next"
  show "keeps (\<lambda>t. P t \<and> makes_tls P) (\<lambda>w. Inv (snd w)) (\<lambda>t w. tls_process ops next now t w)"
    unfolding keeps_def
  proof (intro allI impI, elim conjE)
    fix t and w :: "tls_collector \<times> 's"
    assume P: "P t" "makes_tls P" and w: "Inv (snd w)"
    have "Inv (snd (fst (process_hello d add next now k t w)))" for d add k
      using keeps_hello [OF nxt P(2) w] by (metis prod.collapse)
    then show "Inv (snd (fst (tls_process ops next now t w)))"
      using w P by (auto simp: tls_process_def dest: keepsD' [OF nxt P(1)] split: content.splits prod.splits)
  qed
qed

interpretation tcp: layer "\<lambda>next t w. tcp_process next now t w" snd "\<lambda>P t. P t" for now
  by unfold_locales
    (auto simp: keeps_def tcp_process_def split: content.splits prod.splits option.splits if_splits, (metis fst_conv)+)

lemma keeps_tcp_flush:
  "keeps P Inv next \<Longrightarrow> makes_tcp P \<Longrightarrow> Inv s \<Longrightarrow> Inv (snd (fst (tcp_flushConnection next k (c, s))))"
  by (auto simp: tcp_flushConnection_def makes_tcp_def dest: keepsD' split: option.splits prod.splits)

lemma keeps_flush_all: "keeps P Inv next \<Longrightarrow> makes_tcp P \<Longrightarrow> Inv s \<Longrightarrow> Inv (fst (flush_all next infos s))"
  by (induction infos arbitrary: s)
    (auto simp: makes_tcp_def dest: keepsD' split: prod.splits option.splits, metis fst_conv keepsD)

section \<open>The sink\<close>

text \<open>
  Which sink a stack ends in: nothing for the negated filter of a debugging run, the backend collector
  for a cloud trace, the HAR collector for a local path, both through the tee. The state of the sink is
  that of the backend collector and of the HAR logger.
\<close>

datatype sink = DummySink | BackendSink | LocalSink | TeeSink

definition choose_sink :: "bool \<Rightarrow> bool \<Rightarrow> bool \<Rightarrow> sink option" where
  "choose_sink matched akitaURI localPath =
     (if \<not> matched then Some DummySink
      else if akitaURI \<and> localPath then Some TeeSink
      else if akitaURI then Some BackendSink
      else if localPath then Some LocalSink
      else None)"

definition sink_process ::
  "sink \<Rightarrow> ('b, 'e) downstream \<Rightarrow> ('l, 'e) downstream \<Rightarrow> ('b \<times> 'l, 'e) downstream" where
  "sink_process k backend har t s =
     (case k of
        DummySink \<Rightarrow> (s, snd (dummy_process t ()))
      | BackendSink \<Rightarrow> (case backend t (fst s) of (b, err) \<Rightarrow> ((b, snd s), err))
      | LocalSink \<Rightarrow> (case har t (snd s) of (l, err) \<Rightarrow> ((fst s, l), err))
      | TeeSink \<Rightarrow> tee_process backend har t s)"

section \<open>Building the stack\<close>

record stack_config =
  sc_matched :: bool
  sc_SampleRate :: rat
  sc_rateLimited :: bool
  sc_hostExclusions :: "matcher list"
  sc_pathExclusions :: "matcher list"
  sc_hostAllowlist :: "matcher list"
  sc_pathAllowlist :: "matcher list"
  sc_dogfood :: bool
  sc_domain :: string
  sc_CollectTCPAndTLSReports :: bool

definition numUserFilters :: "stack_config \<Rightarrow> nat" where
  "numUserFilters cfg = length (sc_pathExclusions cfg) + length (sc_hostExclusions cfg)
     + length (sc_pathAllowlist cfg) + length (sc_hostAllowlist cfg)"

text \<open>The libraries the layers use: hashes, marker headers, handshake methods, the addition of counts.\<close>

record ('id, 'e) stack_env =
  se_xxhash :: "string \<Rightarrow> u32"
  se_sha :: "string \<Rightarrow> 'id"
  se_markers :: "string list"
  se_handshake :: "'e handshake_ops"
  se_add :: adder
  se_rl_config :: rl_config
  se_collector :: nat

type_synonym ('id, 's) filters_state =
  "'id fset option \<times> 'id fset option \<times> 'id fset option \<times> 'id fset option \<times> (rate_limit \<times> arrivals) \<times> packet_counter \<times> 's"

type_synonym ('id, 's) stack_state =
  "tcp_collector \<times> tls_collector \<times> packet_counter \<times> unit \<times> ('id, 's) filters_state"

definition statistics_stack ::
  "('id, 'e) stack_env \<Rightarrow> stack_config \<Rightarrow> ('s, 'e) downstream \<Rightarrow> instant
     \<Rightarrow> ((rate_limit \<times> arrivals) \<times> packet_counter \<times> 's, 'e) downstream" where
  "statistics_stack env cfg sink now =
     (let c = packet_count_process (sc_domain cfg) (sc_dogfood cfg) (Update (se_add env)) sink;
          c = NewSamplingCollector (se_xxhash env) (sc_SampleRate cfg) c
      in optional_layer (sc_rateLimited cfg) (rate_layer (se_rl_config env) (se_collector env) now) c)"

definition filters_stack ::
  "('id, 'e) stack_env \<Rightarrow> stack_config \<Rightarrow> ('s, 'e) downstream \<Rightarrow> (_ \<times> _ \<times> _ \<times> _ \<times> 's, 'e) downstream" where
  "filters_stack env cfg c =
     (let c = optional_layer (sc_hostExclusions cfg \<noteq> []) (NewHTTPHostFilterCollector (se_sha env) (sc_hostExclusions cfg)) c;
          c = optional_layer (sc_pathExclusions cfg \<noteq> []) (NewHTTPPathFilterCollector (se_sha env) (sc_pathExclusions cfg)) c;
          c = optional_layer (sc_hostAllowlist cfg \<noteq> []) (NewHTTPHostAllowlistCollector (se_sha env) (sc_hostAllowlist cfg)) c
      in optional_layer (sc_pathAllowlist cfg \<noteq> []) (NewHTTPPathAllowlistCollector (se_sha env) (sc_pathAllowlist cfg)) c)"

definition below_trackers ::
  "('id, 'e) stack_env \<Rightarrow> stack_config \<Rightarrow> ('s, 'e) downstream \<Rightarrow> instant
     \<Rightarrow> (packet_counter \<times> unit \<times> ('id, 's) filters_state, 'e) downstream" where
  "below_trackers env cfg sink now =
     (let c = statistics_stack env cfg sink now;
          c = filters_stack env cfg c;
          c = optional_layer (\<not> sc_dogfood cfg) (user_traffic_process (se_markers env)) c
      in optional_layer (sc_matched cfg \<and> 0 < numUserFilters cfg)
           (packet_count_process (sc_domain cfg) (sc_dogfood cfg) (Update (se_add env))) c)"

definition below_tcp ::
  "('id, 'e) stack_env \<Rightarrow> stack_config \<Rightarrow> ('s, 'e) downstream \<Rightarrow> instant
     \<Rightarrow> (tls_collector \<times> packet_counter \<times> unit \<times> ('id, 's) filters_state, 'e) downstream" where
  "below_tcp env cfg sink now =
     optional_layer (sc_CollectTCPAndTLSReports cfg) (\<lambda>next t w. tls_process (se_handshake env) next now t w)
       (below_trackers env cfg sink now)"

definition collector_stack ::
  "('id, 'e) stack_env \<Rightarrow> stack_config \<Rightarrow> ('s, 'e) downstream \<Rightarrow> instant
     \<Rightarrow> (('id, 's) stack_state, 'e) downstream" where
  "collector_stack env cfg sink now =
     optional_layer (sc_CollectTCPAndTLSReports cfg) (\<lambda>next t w. tcp_process next now t w)
       (below_tcp env cfg sink now)"

text \<open>
  \<open>Close\<close> of the stack closes each layer, from the outermost one. \<open>order\<close> is the order in which the TCP
  tracker visits its connections, \<open>sampled\<close> makes one error of several.
\<close>

definition stack_close ::
  "('id, 'e) stack_env \<Rightarrow> stack_config \<Rightarrow> ('s, 'e) downstream \<Rightarrow> instant \<Rightarrow> ('e list \<Rightarrow> 'e) \<Rightarrow> conn_id list
     \<Rightarrow> ('s, 'e) closer \<Rightarrow> (('id, 's) stack_state, 'e) closer" where
  "stack_close env cfg sink now sampled order close =
     (let c = pass_close close;
          c = optional_close (sc_rateLimited cfg) (rate_layer_close (se_collector env)) c;
          c = pass_close (pass_close (pass_close (pass_close c)));
          c = pass_close (pass_close c);
          c = optional_close (sc_CollectTCPAndTLSReports cfg) tls_close c
      in optional_close (sc_CollectTCPAndTLSReports cfg)
           (\<lambda>c w. tcp_close sampled (below_tcp env cfg sink now) c order w) c)"

text \<open>
  What happens to a stack: packets of the capture loop, the timers of the two trackers, and the steps of
  the sink's own goroutine, such as the periodic flush of the backend collector.
\<close>

datatype 's stack_event =
  StackPacket instant traffic | TcpTimer instant conn_id | TlsTimer conn_id | SinkEvent "'s \<Rightarrow> 's"

definition on_sink :: "('s \<Rightarrow> 's) \<Rightarrow> ('id, 's) stack_state \<Rightarrow> ('id, 's) stack_state" where
  "on_sink f w = (case w of (a, b, c, d, e, g, h, i, j, k, s) \<Rightarrow> (a, b, c, d, e, g, h, i, j, k, f s))"

fun stack_step ::
  "('id, 'e) stack_env \<Rightarrow> stack_config \<Rightarrow> ('s, 'e) downstream \<Rightarrow> 's stack_event \<Rightarrow> ('id, 's) stack_state \<Rightarrow> ('id, 's) stack_state"
where
  "stack_step env cfg sink (StackPacket now t) w = fst (collector_stack env cfg sink now t w)"
| "stack_step env cfg sink (TcpTimer now k) w = fst (tcp_flushConnection (below_tcp env cfg sink now) k w)"
| "stack_step env cfg sink (TlsTimer k) (c, w) = (c, tls_timeout k w)"
| "stack_step env cfg sink (SinkEvent f) w = on_sink f w"

definition new_stack :: "rate_limit \<Rightarrow> 's \<Rightarrow> ('id, 's) stack_state" where
  "new_stack r s =
     (NewTcpCollector, NewTlsCollector, NewPacketCounter, (), None, None, None, None, (r, fmempty), NewPacketCounter, s)"

definition stack_sink :: "('id, 's) stack_state \<Rightarrow> 's" where
  "stack_sink w = snd (snd (snd (snd (snd (snd (snd (snd (snd (snd w)))))))))"

lemma stack_sink_new [simp]: "stack_sink (new_stack r s) = s"
  by (simp add: stack_sink_def new_stack_def)

section \<open>What reaches the sink\<close>

text \<open>
  A packet is permitted when it is neither the agent's own nor a request that the user's patterns
  exclude. An empty list of patterns switches its filter off.
\<close>

definition requested :: "stack_config \<Rightarrow> http_request \<Rightarrow> bool" where
  "requested cfg q \<longleftrightarrow>
     host_filter (sc_hostExclusions cfg) q \<and> path_filter (sc_pathExclusions cfg) q
     \<and> (sc_hostAllowlist cfg \<noteq> [] \<longrightarrow> host_allowlist (sc_hostAllowlist cfg) q)
     \<and> (sc_pathAllowlist cfg \<noteq> [] \<longrightarrow> path_allowlist (sc_pathAllowlist cfg) q)"

definition permitted :: "string list \<Rightarrow> stack_config \<Rightarrow> traffic \<Rightarrow> bool" where
  "permitted markers cfg t \<longleftrightarrow>
     (sc_dogfood cfg \<or> \<not> ContainsCLITraffic markers t)
     \<and> (case content t of HTTPRequest q \<Rightarrow> requested cfg q | _ \<Rightarrow> True)"

lemma permitted_sort [simp]: "permitted markers cfg (sort_dns_names t) = permitted markers cfg t"
  by (simp add: permitted_def ContainsCLITraffic_def sort_dns_names_def split: content.splits)

lemma permitted_reports [simp]: "permitted markers cfg (tls_report l)" "permitted markers cfg (tcp_report i)"
  by (simp_all add: permitted_def ContainsCLITraffic_def tls_report_def tcp_report_def)

lemma keeps_sampling: "keeps P Inv next \<Longrightarrow> keeps P Inv (NewSamplingCollector hash r next)"
  by (auto simp: keeps_def NewSamplingCollector_def sampling_process_def split: prod.splits) (metis fst_conv)

lemma keeps_statistics:
  assumes "keeps P Inv sink"
  shows "keeps (\<lambda>t. P (sort_dns_names t)) (\<lambda>w. Inv (snd (snd w))) (statistics_stack env cfg sink now)"
  unfolding statistics_stack_def Let_def
  by (rule keeps_mono [OF keeps_optional_layer [OF rate.layer_axioms
        keeps_sampling [OF packet_count.keeps_process [OF assms]]]]) simp

lemma keeps_optional_filter:
  assumes "keeps P Inv next"
  shows "keeps (\<lambda>t. (used \<longrightarrow> \<not> rejected (Some f) (content t)) \<longrightarrow> P t) (\<lambda>w. Inv (snd w))
    (optional_layer used (request_filter_process sha (Some f)) next)"
  by (rule keeps_mono [OF keeps_optional_layer [OF request_filter.layer_axioms assms]])
    (auto simp: filter_admits_def)

definition filters_pass :: "stack_config \<Rightarrow> traffic \<Rightarrow> bool" where
  "filters_pass cfg t \<longleftrightarrow> (case content t of HTTPRequest q \<Rightarrow> requested cfg q | _ \<Rightarrow> True)"

lemma keeps_filters:
  assumes "keeps P Inv c"
  shows "keeps (\<lambda>t. filters_pass cfg t \<longrightarrow> P t) (\<lambda>w. Inv (snd (snd (snd (snd w))))) (filters_stack env cfg c)"
  unfolding filters_stack_def Let_def NewHTTPPathFilterCollector_def [abs_def] NewHTTPHostFilterCollector_def [abs_def]
    NewHTTPPathAllowlistCollector_def [abs_def] NewHTTPHostAllowlistCollector_def [abs_def]
  by (rule keeps_mono [OF keeps_optional_filter [OF keeps_optional_filter [OF keeps_optional_filter [OF keeps_optional_filter [OF assms]]]]])
    (auto simp: filters_pass_def requested_def host_filter_def path_filter_def split: content.splits option.splits)

text \<open>
  The layers below the trackers need \<open>P\<close> of the permitted packets only, and the trackers of the reports
  they make.
\<close>

definition plain_need :: "(traffic \<Rightarrow> bool) \<Rightarrow> bool" where
  "plain_need P \<longleftrightarrow> (\<forall>t. P (sort_dns_names t) = P t) \<and> makes_tls P \<and> makes_tcp P"

lemma plain_need_permitted: "plain_need P \<Longrightarrow> plain_need (\<lambda>t. permitted markers cfg t \<longrightarrow> P t)"
  by (simp add: plain_need_def makes_tls_def makes_tcp_def)

lemma keeps_below_trackers:
  assumes "keeps P Inv sink" "plain_need P"
  shows "keeps (\<lambda>t. permitted (se_markers env) cfg t \<longrightarrow> P t) (\<lambda>w. Inv (snd (snd (snd (snd (snd (snd (snd (snd w)))))))))
    (below_trackers env cfg sink now)"
proof -
  have sort: "P (sort_dns_names t) = P t" for t using assms(2) by (simp add: plain_need_def)
  note filters = keeps_filters [OF keeps_statistics [OF assms(1)], unfolded sort]
  have user: "keeps (\<lambda>t. permitted (se_markers env) cfg t \<longrightarrow> P t) (\<lambda>w. Inv (snd (snd (snd (snd (snd (snd (snd w))))))))
      (optional_layer (\<not> sc_dogfood cfg) (user_traffic_process (se_markers env))
        (filters_stack env cfg (statistics_stack env cfg sink now)))"
    by (rule keeps_mono [OF keeps_optional_layer [OF user_traffic.layer_axioms filters]])
      (auto simp: permitted_def filters_pass_def split: content.splits)
  show ?thesis
    unfolding below_trackers_def Let_def
    by (rule keeps_mono [OF keeps_optional_layer [OF packet_count.layer_axioms user]]) (simp add: sort)
qed

lemma keeps_below_tcp:
  assumes "keeps P Inv sink" "plain_need P"
  shows "keeps (\<lambda>t. permitted (se_markers env) cfg t \<longrightarrow> P t)
    (\<lambda>w. Inv (snd (snd (snd (snd (snd (snd (snd (snd (snd w)))))))))) (below_tcp env cfg sink now)"
  unfolding below_tcp_def
  by (rule keeps_mono [OF keeps_optional_layer [OF tls.layer_axioms keeps_below_trackers [OF assms]]])
    (use plain_need_permitted [OF assms(2)] in \<open>simp add: plain_need_def\<close>)

lemma keeps_collector_stack:
  assumes "keeps P Inv sink" "plain_need P"
  shows "keeps (\<lambda>t. permitted (se_markers env) cfg t \<longrightarrow> P t) (\<lambda>w. Inv (stack_sink w)) (collector_stack env cfg sink now)"
  unfolding collector_stack_def stack_sink_def
  by (rule keeps_mono [OF keeps_optional_layer [OF tcp.layer_axioms keeps_below_tcp [OF assms]]]) simp

text \<open>An event is fit for an invariant when its packet is, or its step of the sink keeps it.\<close>

fun event_ok :: "(traffic \<Rightarrow> bool) \<Rightarrow> ('s \<Rightarrow> bool) \<Rightarrow> 's stack_event \<Rightarrow> bool" where
  "event_ok P Inv (StackPacket now t) = P t"
| "event_ok P Inv (SinkEvent f) = (\<forall>s. Inv s \<longrightarrow> Inv (f s))"
| "event_ok P Inv _ = True"

lemma stack_run_keeps:
  assumes "keeps P Inv sink" "plain_need P"
  shows "\<forall>ev \<in> set evs. event_ok (\<lambda>t. permitted (se_markers env) cfg t \<longrightarrow> P t) Inv ev \<Longrightarrow>
    Inv (stack_sink w) \<Longrightarrow> Inv (stack_sink (fold (stack_step env cfg sink) evs w))"
proof (induction evs arbitrary: w)
  case (Cons ev evs)
  have "Inv (stack_sink (stack_step env cfg sink ev w))"
  proof (cases ev)
    case (StackPacket now t)
    then show ?thesis using keepsD [OF keeps_collector_stack [OF assms], of env cfg t w now] Cons.prems by auto
  next
    case (TcpTimer now k)
    have "Inv (snd (snd (snd (snd (snd (snd (snd (snd (snd (snd
        (fst (tcp_flushConnection (below_tcp env cfg sink now) k (fst w, snd w)))))))))))))"
      using keeps_tcp_flush [OF keeps_below_tcp [OF assms], of env cfg "snd w" now k "fst w"] Cons.prems
        plain_need_permitted [OF assms(2)]
      by (simp add: plain_need_def stack_sink_def)
    then show ?thesis using TcpTimer by (simp add: stack_sink_def)
  next
    case (TlsTimer k)
    then show ?thesis using Cons.prems
      by (cases w) (simp add: stack_sink_def tls_timeout_def split: prod.split)
  next
    case (SinkEvent f)
    then show ?thesis using Cons.prems by (auto simp: stack_sink_def on_sink_def split: prod.split)
  qed
  with Cons show ?case by simp
qed simp

text \<open>Closing: each layer closes the wrapped collector, and the TCP tracker flushes first.\<close>

definition closes :: "('s \<Rightarrow> bool) \<Rightarrow> ('s, 'e) closer \<Rightarrow> bool" where
  "closes Inv close \<longleftrightarrow> (\<forall>s. Inv s \<longrightarrow> Inv (fst (close s)))"

lemma closes_wrappers:
  assumes "closes Inv close"
  shows "closes (\<lambda>w. Inv (snd w)) (pass_close close)"
    and "closes (\<lambda>w. Inv (snd w)) (rate_layer_close c close)"
    and "closes (\<lambda>w. Inv (snd w)) (tls_close close)"
  using assms
  by (auto simp: closes_def pass_close_def rate_layer_close_def rate_limit_close_def tls_close_def split: prod.splits)

lemma closes_optional:
  "closes Inv close \<Longrightarrow> closes (\<lambda>w. Inv (snd w)) (wrap close) \<Longrightarrow> closes (\<lambda>w. Inv (snd w)) (optional_close used wrap close)"
  using closes_wrappers(1) [of Inv close] by (auto simp: closes_def optional_close_def)

lemma closes_tcp:
  fixes "next" :: "('s, 'e) downstream"
  assumes "keeps P Inv next" "makes_tcp P" "closes Inv close"
  shows "closes (\<lambda>w. Inv (snd w)) (\<lambda>w. tcp_close sampled next close order w)"
  unfolding closes_def
proof (intro allI impI)
  fix w :: "tcp_collector \<times> 's"
  assume "Inv (snd w)"
  then have "Inv (fst (flush_all next infos (snd w)))" for infos by (rule keeps_flush_all [OF assms(1,2)])
  then show "Inv (snd (fst (tcp_close sampled next close order w)))"
    using assms(3) by (simp add: tcp_close_def closes_def Let_def split: prod.split) (metis fst_conv snd_conv)
qed

lemma closes_stack:
  assumes "keeps P Inv sink" "plain_need P" "closes Inv close"
  shows "closes (\<lambda>w. Inv (stack_sink w)) (stack_close env cfg sink now sampled order close)"
proof -
  note stats = closes_wrappers(1) [OF assms(3)]
  note rate = closes_optional [where wrap = "rate_layer_close (se_collector env)",
      OF stats closes_wrappers(2) [OF stats], of "sc_rateLimited cfg"]
  note filters = closes_wrappers(1) [OF closes_wrappers(1) [OF closes_wrappers(1) [OF closes_wrappers(1) [OF
    closes_wrappers(1) [OF closes_wrappers(1) [OF rate]]]]]]
  note tls = closes_optional [where wrap = tls_close, OF filters closes_wrappers(3) [OF filters], of "sc_CollectTCPAndTLSReports cfg"]
  have makes: "makes_tcp (\<lambda>t. permitted (se_markers env) cfg t \<longrightarrow> P t)"
    using plain_need_permitted [OF assms(2)] by (simp add: plain_need_def)
  note tcp = closes_optional [where wrap = "\<lambda>c w. tcp_close sampled (below_tcp env cfg sink now) c order w",
      OF tls closes_tcp [OF keeps_below_tcp [OF assms(1,2)] makes tls], of "sc_CollectTCPAndTLSReports cfg"]
  show ?thesis using tcp unfolding stack_close_def stack_sink_def Let_def .
qed

text \<open>
  C3: excluded traffic reaches no sink. Whatever packets and timers a stack sees and however it is
  closed, an invariant that its sink keeps on permitted packets, and in closing, holds in the end: the
  sink never gets a request that the user's patterns exclude, nor a message of the agent itself.
\<close>

theorem excluded_traffic_kept_out:
  assumes "\<forall>t s. permitted (se_markers env) cfg t \<and> Inv s \<longrightarrow> Inv (fst (sink t s))"
    and "\<forall>f s. SinkEvent f \<in> set evs \<and> Inv s \<longrightarrow> Inv (f s)"
    and "\<forall>s. Inv s \<longrightarrow> Inv (fst (close s))" and "Inv s"
  shows "Inv (stack_sink (fold (stack_step env cfg sink) evs (new_stack r s)))
    \<and> Inv (stack_sink (fst (stack_close env cfg sink now sampled order close
          (fold (stack_step env cfg sink) evs (new_stack r s)))))"
proof -
  have sink: "keeps (permitted (se_markers env) cfg) Inv sink" using assms(1) by (simp add: keeps_def)
  have need: "plain_need (permitted (se_markers env) cfg)" by (simp add: plain_need_def makes_tls_def makes_tcp_def)
  have "event_ok (\<lambda>t. permitted (se_markers env) cfg t \<longrightarrow> permitted (se_markers env) cfg t) Inv ev" if "ev \<in> set evs" for ev
    using assms(2) that by (cases ev) auto
  then have run: "Inv (stack_sink (fold (stack_step env cfg sink) evs (new_stack r s)))"
    by (intro stack_run_keeps [OF sink need]) (simp_all add: assms(4))
  have "closes Inv close" using assms(3) by (simp add: closes_def)
  with sink need have "closes (\<lambda>w. Inv (stack_sink w)) (stack_close env cfg sink now sampled order close)"
    by (rule closes_stack)
  with run show ?thesis unfolding closes_def by blast
qed

text \<open>A stack for the witnesses: the requests to one host are excluded, everything else is recorded.\<close>

definition demo_stack_env :: "(string, string) stack_env" where
  "demo_stack_env =
     \<lparr>se_xxhash = (\<lambda>_. 0), se_sha = id, se_markers = [''X-Akita-Request-Id''],
      se_handshake = \<lparr>AddClientHello = (\<lambda>_ m. (m, None)), AddServerHello = (\<lambda>_ m. (m, None)), HandshakeComplete = (\<lambda>_. True)\<rparr>,
      se_add = sum_counts, se_rl_config = default_config, se_collector = 0\<rparr>"

definition demo_stack_config :: "matcher list \<Rightarrow> stack_config" where
  "demo_stack_config excluded =
     \<lparr>sc_matched = True, sc_SampleRate = 1, sc_rateLimited = False, sc_hostExclusions = excluded, sc_pathExclusions = [],
      sc_hostAllowlist = [], sc_pathAllowlist = [], sc_dogfood = False, sc_domain = ''api'', sc_CollectTCPAndTLSReports = True\<rparr>"

lemma excluded_traffic_kept_out_witness:
  "filter (\<lambda>t. case content t of HTTPRequest q \<Rightarrow> rq_host q = ''example.com'' | _ \<Rightarrow> False)
     (stack_sink (fold (stack_step demo_stack_env (demo_stack_config [\<lambda>h. h = ''example.com'']) record_sink)
        [StackPacket 0 (sample_traffic (HTTPRequest (sample_request ''a'' 1))), TcpTimer 1 ''c'']
        (new_stack (NewRateLimit default_config 60 0) []))) = []"
  using conjunct1 [OF excluded_traffic_kept_out [where env = demo_stack_env and cfg = "demo_stack_config [\<lambda>h. h = ''example.com'']"
      and Inv = "\<lambda>ts. \<forall>t \<in> set ts. permitted (se_markers demo_stack_env) (demo_stack_config [\<lambda>h. h = ''example.com'']) t"
      and sink = record_sink and close = "\<lambda>s. (s, None)" and s = "[]"
      and evs = "[StackPacket 0 (sample_traffic (HTTPRequest (sample_request ''a'' 1))), TcpTimer 1 ''c'']"
      and r = "NewRateLimit default_config 60 0"]]
  by (force simp: filter_empty_conv record_sink_def permitted_def requested_def demo_stack_config_def host_filter_def
      split: content.splits)

section \<open>Admission of an HTTP message\<close>

text \<open>Whether a message passes every layer, by the state of the layers.\<close>

definition filters_admit ::
  "('id, 'e) stack_env \<Rightarrow> stack_config \<Rightarrow> traffic \<Rightarrow> 'id fset option \<times> 'id fset option \<times> 'id fset option \<times> 'id fset option \<times> 's \<Rightarrow> bool" where
  "filters_admit env cfg t w \<longleftrightarrow>
     (case w of (pathAllow, hostAllow, pathExcl, hostExcl, _) \<Rightarrow>
        (sc_pathAllowlist cfg \<noteq> [] \<longrightarrow> filter_admits (se_sha env) (Some (path_allowlist (sc_pathAllowlist cfg))) pathAllow t)
        \<and> (sc_hostAllowlist cfg \<noteq> [] \<longrightarrow> filter_admits (se_sha env) (Some (host_allowlist (sc_hostAllowlist cfg))) hostAllow t)
        \<and> (sc_pathExclusions cfg \<noteq> [] \<longrightarrow> filter_admits (se_sha env) (Some (path_filter (sc_pathExclusions cfg))) pathExcl t)
        \<and> (sc_hostExclusions cfg \<noteq> [] \<longrightarrow> filter_admits (se_sha env) (Some (host_filter (sc_hostExclusions cfg))) hostExcl t))"

definition statistics_admit :: "('id, 'e) stack_env \<Rightarrow> stack_config \<Rightarrow> traffic \<Rightarrow> (rate_limit \<times> arrivals) \<times> 's \<Rightarrow> bool" where
  "statistics_admit env cfg t w \<longleftrightarrow>
     (sc_rateLimited cfg \<longrightarrow> hands_on (fst (fst w)) (snd (fst w)) t)
     \<and> (sc_SampleRate cfg = 1 \<or> includeSample (se_xxhash env) (max_uint32 * sc_SampleRate cfg) (sample_key (content t)))"

definition passes :: "('id, 'e) stack_env \<Rightarrow> stack_config \<Rightarrow> traffic \<Rightarrow> ('id, 's) stack_state \<Rightarrow> bool" where
  "passes env cfg t w \<longleftrightarrow>
     (case w of (_, _, _, _, f) \<Rightarrow>
        (sc_dogfood cfg \<or> \<not> ContainsCLITraffic (se_markers env) t)
        \<and> filters_admit env cfg t f
        \<and> statistics_admit env cfg t (snd (snd (snd (snd f)))))"

text \<open>One layer at a time: the state of the sink after a message.\<close>

lemma sink_optional:
  "snd (fst (optional_layer used process next t w)) =
     (if used then snd (fst (process next t w)) else fst (next t (snd w)))"
  by (simp add: optional_layer_def split: prod.split)

lemma sink_filter:
  "snd (fst (request_filter_process sha f next t w)) = (if filter_admits sha f (fst w) t then fst (next t (snd w)) else snd w)"
  by (cases w) (simp add: request_filter.process_eq split: prod.split)

lemma sink_user:
  "snd (fst (user_traffic_process markers next t w)) = (if ContainsCLITraffic markers t then snd w else fst (next t (snd w)))"
  by (cases w) (simp add: user_traffic.process_eq split: prod.split)

lemma sink_count:
  "snd (fst (packet_count_process domain dogfood update next t w)) = fst (next (sort_dns_names t) (snd w))"
  by (cases w) (simp add: packet_count.process_eq split: prod.split)

lemma sink_sampling:
  "fst (NewSamplingCollector hash r next t s) =
     (if r = 1 \<or> includeSample hash (max_uint32 * r) (sample_key (content t)) then fst (next t s) else s)"
  by (simp add: NewSamplingCollector_def sampling_process_def split: prod.split)

lemma sink_rate:
  "snd (fst (rate_layer cfg c now next t w)) =
     (if hands_on (fst (fst w)) (snd (fst w)) t then fst (next t (snd w)) else snd w)"
  by (cases w) (auto simp: rate_layer_def rate_limit_process_def hands_on_def AllowHTTPRequest_def AllowOther_def Let_def
      split: prod.split content.split)

lemma sink_tls: "exchange_key (content t) \<noteq> None \<Longrightarrow> snd (fst (tls_process ops next now t w)) = fst (next t (snd w))"
  by (cases "content t") (auto simp: tls_process_def split: prod.split)

lemma sink_tcp: "exchange_key (content t) \<noteq> None \<Longrightarrow> snd (fst (tcp_process next now t w)) = fst (next t (snd w))"
  by (cases "content t") (auto simp: tcp_process_def split: prod.split)

lemma sort_http: "exchange_key (content t) \<noteq> None \<Longrightarrow> sort_dns_names t = t"
  by (cases "content t") (auto simp: sort_dns_names_def)

lemma sink_statistics:
  "snd (snd (fst (statistics_stack env cfg sink now t w))) =
     (if statistics_admit env cfg t w then fst (sink (sort_dns_names t) (snd (snd w))) else snd (snd w))"
  by (simp add: statistics_stack_def statistics_admit_def Let_def sink_optional sink_rate sink_sampling sink_count)

lemma sink_filters:
  "snd (snd (snd (snd (fst (filters_stack env cfg c t w))))) =
     (if filters_admit env cfg t w then fst (c t (snd (snd (snd (snd w))))) else snd (snd (snd (snd w))))"
  by (cases w rule: prod_cases5)
    (simp add: filters_stack_def filters_admit_def Let_def NewHTTPPathFilterCollector_def NewHTTPHostFilterCollector_def
      NewHTTPPathAllowlistCollector_def NewHTTPHostAllowlistCollector_def sink_optional sink_filter)

text \<open>
  An HTTP message reaches the sink exactly when every layer admits it, and then unchanged and once:
  it is not the agent's own, the filters that are in use admit it, the rate limit is in an active
  interval (a request) or knows the request it answers (a response), and it is sampled.
\<close>

theorem http_admission_exact:
  assumes "exchange_key (content t) \<noteq> None"
  shows "stack_sink (fst (collector_stack env cfg sink now t w)) =
    (if passes env cfg t w then fst (sink t (stack_sink w)) else stack_sink w)"
proof -
  have "stack_sink (fst (collector_stack env cfg sink now t w)) =
      snd (snd (snd (snd (snd (snd (snd (snd (fst (below_trackers env cfg sink now t (snd (snd w)))))))))))"
    by (simp add: stack_sink_def collector_stack_def below_tcp_def sink_optional sink_tcp [OF assms] sink_tls [OF assms])
  also have "\<dots> = (if passes env cfg t w then fst (sink t (stack_sink w)) else stack_sink w)"
    by (cases w rule: prod_cases5)
      (simp add: below_trackers_def Let_def sink_optional sink_count sort_http [OF assms] sink_user sink_filters
        sink_statistics passes_def stack_sink_def)
  finally show ?thesis .
qed

section \<open>A captured exchange\<close>

text \<open>The sink of a cloud trace: the backend collector, whose state comes with that of an idle HAR logger.\<close>

abbreviation cloud_sink where
  "cloud_sink parse plugins obf har \<equiv> sink_process BackendSink (backend_process parse plugins obf) har"

text \<open>The backend collector has run on events that satisfy \<open>Q\<close>, after the events \<open>evs\<close>.\<close>

definition ran ::
  "('p, 'id) parser \<Rightarrow> 'p plugin list \<Rightarrow> ('p \<Rightarrow> 'p option) \<Rightarrow> string \<Rightarrow> ('id bk_event \<Rightarrow> bool) \<Rightarrow> 'id bk_event list
     \<Rightarrow> ('p, 'id) backend \<times> 'l \<Rightarrow> bool" where
  "ran parse plugins obf session Q evs s \<longleftrightarrow>
     (\<exists>more_evs. (\<forall>ev \<in> set more_evs. Q ev)
        \<and> fst s = bk_run parse plugins obf (evs @ more_evs) (NewBackendCollector session))"

lemma backend_message:
  "fst (fst (cloud_sink parse plugins obf har t s)) = bk_step parse plugins obf (Message t) (fst s)"
  by (simp add: sink_process_def backend_process_def)

lemma ran_step:
  assumes "ran parse plugins obf session Q evs s" "Q ev" "fst s' = bk_step parse plugins obf ev (fst s)"
  shows "ran parse plugins obf session Q evs s'"
proof -
  obtain m where "\<forall>ev \<in> set m. Q ev" "fst s = bk_run parse plugins obf (evs @ m) (NewBackendCollector session)"
    using assms(1) by (auto simp: ran_def)
  with assms(2,3) show ?thesis
    unfolding ran_def by (intro exI [of _ "m @ [ev]"]) (simp del: bk_step.simps)
qed

lemma ran_start: "fst s = bk_run parse plugins obf evs (NewBackendCollector session) \<Longrightarrow> ran parse plugins obf session Q evs s"
  unfolding ran_def by (intro exI [of _ "[]"]) simp

lemma keeps_ran: "keeps (\<lambda>t. Q (Message t)) (ran parse plugins obf session Q evs) (cloud_sink parse plugins obf har)"
  unfolding keeps_def by (blast intro: ran_step backend_message)

lemma message_key_sort: "message_key parse (sort_dns_names t) = message_key parse t"
  by (simp add: message_key_def sort_dns_names_def split: content.split)

lemma plain_need_other: "plain_need (\<lambda>t. message_key parse t \<noteq> Some k)"
  by (simp add: plain_need_def makes_tls_def makes_tcp_def message_key_sort)
    (simp add: message_key_def tls_report_def tcp_report_def)

text \<open>The flushes of a run: the cutoff of each is not after the instants \<open>ts\<close>.\<close>

definition flushes_before :: "'p plugin list \<Rightarrow> ('p \<Rightarrow> 'p option) \<Rightarrow> instant set \<Rightarrow> (('p, 'id) backend \<times> 'l \<Rightarrow> ('p, 'id) backend \<times> 'l) \<Rightarrow> bool" where
  "flushes_before plugins obf ts f \<longleftrightarrow>
     (\<exists>now order. (\<forall>s. f s = (periodic_flush plugins obf now order (fst s), snd s))
        \<and> (\<forall>t \<in> ts. now - pairCacheExpiration \<le> t))"

text \<open>A stretch of the capture that does not contain messages of the exchange \<open>k\<close>.\<close>

definition other_traffic ::
  "('p, 'id) parser \<Rightarrow> 'p plugin list \<Rightarrow> ('p \<Rightarrow> 'p option) \<Rightarrow> 'id \<Rightarrow> instant set \<Rightarrow> (('p, 'id) backend \<times> 'l) stack_event list \<Rightarrow> bool"
where
  "other_traffic parse plugins obf k ts evs \<longleftrightarrow>
     (\<forall>now t. StackPacket now t \<in> set evs \<longrightarrow> message_key parse t \<noteq> Some k)
     \<and> (\<forall>f. SinkEvent f \<in> set evs \<longrightarrow> flushes_before plugins obf ts f)"

lemma ran_other_traffic:
  fixes parse :: "('p, 'id) parser" and w :: "('x, ('p, 'id) backend \<times> 'l) stack_state"
  assumes "other_traffic parse plugins obf k ts evs"
    "fst (stack_sink w) = bk_run parse plugins obf before (NewBackendCollector session)"
  shows "\<exists>m. (\<forall>ev \<in> set m. \<forall>t \<in> ts. quiet parse k t ev) \<and> (\<forall>t. Message t \<in> set m \<longrightarrow> message_key parse t \<noteq> Some k)
    \<and> fst (stack_sink (fold (stack_step env cfg (cloud_sink parse plugins obf har)) evs w))
        = bk_run parse plugins obf (before @ m) (NewBackendCollector session)"
proof -
  let ?Q = "\<lambda>ev. (\<forall>t \<in> ts. quiet parse k t ev) \<and> (\<forall>t. ev = Message t \<longrightarrow> message_key parse t \<noteq> Some k)"
  have sink: "keeps (\<lambda>t. message_key parse t \<noteq> Some k) (ran parse plugins obf session ?Q before) (cloud_sink parse plugins obf har)"
    by (rule keeps_mono [OF keeps_ran]) simp
  have flush: "ran parse plugins obf session ?Q before (f s)"
    if f: "flushes_before plugins obf ts f" and s: "ran parse plugins obf session ?Q before s" for f s
  proof -
    obtain now order where "f s = (periodic_flush plugins obf now order (fst s), snd s)" "\<forall>t \<in> ts. now - pairCacheExpiration \<le> t"
      using f unfolding flushes_before_def by blast
    then show ?thesis by (intro ran_step [OF s, of "FlushTick now order"]) simp_all
  qed
  have "\<forall>ev \<in> set evs. event_ok (\<lambda>t. permitted (se_markers env) cfg t \<longrightarrow> message_key parse t \<noteq> Some k)
      (ran parse plugins obf session ?Q before) ev"
  proof
    fix ev assume ev: "ev \<in> set evs"
    show "event_ok (\<lambda>t. permitted (se_markers env) cfg t \<longrightarrow> message_key parse t \<noteq> Some k)
        (ran parse plugins obf session ?Q before) ev"
    proof (cases ev)
      case (SinkEvent f)
      with assms(1) ev have f: "flushes_before plugins obf ts f" by (simp add: other_traffic_def)
      show ?thesis
        unfolding SinkEvent event_ok.simps
      proof (intro allI impI)
        fix s :: "('p, 'id) backend \<times> 'l"
        assume "ran parse plugins obf session ?Q before s"
        then show "ran parse plugins obf session ?Q before (f s)" by (rule flush [OF f])
      qed
    next
      case (StackPacket now t)
      with assms(1) ev have "message_key parse t \<noteq> Some k" unfolding other_traffic_def by blast
      then show ?thesis unfolding StackPacket by simp
    qed simp_all
  qed
  from stack_run_keeps [OF sink plain_need_other this ran_start [OF assms(2)]]
  show ?thesis unfolding ran_def by blast
qed

text \<open>
  C2: an exchange that the stack admits is reported once. Whatever else is captured before and between,
  the request and the response of an exchange that the layers admit, the response in time for the
  flushes, lead to exactly one report of the exchange (none if a plugin rejects it), with the content
  and the endpoints of the two messages.
\<close>

theorem captured_exchange_reported:
  fixes parse :: "('p, 'id) parser" and w0 :: "('id, ('p, 'id) backend \<times> 'l) stack_state"
  assumes parse: "parse = http_parser fuel henv sha"
    and req: "content req = HTTPRequest q" "parse (content req) = Inr (wq, k)" "rq_method q \<noteq> []"
    and resp: "content resp = HTTPResponse r" "parse (content resp) = Inr (wr, k)"
    and times: "final_packet_time req \<noteq> 0" "observation_time resp \<noteq> 0"
    and start: "fst (stack_sink w0) = NewBackendCollector session"
    and w1: "w1 = fold (stack_step env cfg (cloud_sink parse plugins obf har)) pre w0"
    and w2: "w2 = fold (stack_step env cfg (cloud_sink parse plugins obf har)) (StackPacket n1 req # mid) w1"
    and pre: "other_traffic parse plugins obf k {} pre"
    and mid: "other_traffic parse plugins obf k {observation_time req, observation_time resp} mid"
    and admitted: "passes env cfg req w1" "passes env cfg resp w2"
  shows "filter (report_of k) (bk_batch (fst (stack_sink (stack_step env cfg (cloud_sink parse plugins obf har) (StackPacket n2 resp) w2))))
    = upload_report plugins obf ((new_witness_info req (exchange_witness req resp wq wr) k)\<lparr>wi_request_end := final_packet_time req\<rparr>)"
proof -
  let ?sink = "cloud_sink parse plugins obf har" and ?new = "NewBackendCollector session"
  have "fst (stack_sink w0) = bk_run parse plugins obf [] ?new" using start by simp
  from ran_other_traffic [OF pre this, of env cfg har] obtain m1 where
    m1: "\<forall>t. Message t \<in> set m1 \<longrightarrow> message_key parse t \<noteq> Some k" "fst (stack_sink w1) = bk_run parse plugins obf m1 ?new"
    unfolding w1 append_Nil by blast
  have http: "exchange_key (content req) \<noteq> None" "exchange_key (content resp) \<noteq> None" by (simp_all add: req(1) resp(1))
  have "fst (stack_sink (stack_step env cfg ?sink (StackPacket n1 req) w1)) = bk_run parse plugins obf (m1 @ [Message req]) ?new"
    by (simp add: http_admission_exact [OF http(1)] admitted(1) backend_message m1(2) del: bk_step.simps)
  from ran_other_traffic [OF mid this, of env cfg har] obtain m2 where
    m2: "\<forall>ev \<in> set m2. \<forall>t \<in> {observation_time req, observation_time resp}. quiet parse k t ev"
      "fst (stack_sink w2) = bk_run parse plugins obf ((m1 @ [Message req]) @ m2) ?new"
    unfolding w2 fold_simps by blast
  have "fst (stack_sink (stack_step env cfg ?sink (StackPacket n2 resp) w2)) = bk_run parse plugins obf (m1 @ Message req # m2 @ [Message resp]) ?new"
    by (simp add: http_admission_exact [OF http(2)] admitted(2) backend_message m2(2) del: bk_step.simps)
  then show ?thesis
    using conjunct1 [OF exchange_both_orders [OF parse req resp times m1(1), of m2 plugins obf session]] m2(1) by simp
qed

text \<open>The witness: a stack that is rate limited and excludes another host, with other traffic in between.\<close>

definition limited_config :: stack_config where
  "limited_config = (demo_stack_config [\<lambda>h. h = ''other''])\<lparr>sc_rateLimited := True\<rparr>"

definition open_stack :: "(string, (string, string) backend \<times> unit) stack_state" where
  "open_stack = new_stack (startInterval 0 (NewRateLimit default_config 60 0)) (NewBackendCollector ''lrn'', ())"

abbreviation demo_cloud :: "((string, string) backend \<times> unit, string) downstream" where
  "demo_cloud \<equiv> cloud_sink plain_parser [] Some (\<lambda>_ l. (l, None))"

definition req_a :: traffic where "req_a = sample_traffic (HTTPRequest (sample_request ''a'' 1))"
definition resp_a :: traffic where "resp_a = sample_traffic (HTTPResponse (sample_response ''a'' 1))"

lemma not_cli: "\<not> ContainsCLITraffic ms req_a" "\<not> ContainsCLITraffic ms resp_a"
  by (simp_all add: ContainsCLITraffic_def req_a_def resp_a_def sample_request_def sample_response_def header_get_def list_ex_iff)

lemma open_passes_request: "passes demo_stack_env limited_config req_a open_stack"
  by (simp add: passes_def open_stack_def new_stack_def not_cli filters_admit_def limited_config_def demo_stack_config_def
      filter_admits_def statistics_admit_def hands_on_def startInterval_def)
    (simp add: req_a_def host_filter_def sample_request_def)

lemma after_request_passes_response:
  "passes demo_stack_env limited_config resp_a
     (fold (stack_step demo_stack_env limited_config demo_cloud) [StackPacket 5 req_a, TlsTimer ''c''] open_stack)"
  by (simp add: open_stack_def new_stack_def collector_stack_def below_tcp_def below_trackers_def
      filters_stack_def statistics_stack_def Let_def optional_layer_def limited_config_def demo_stack_config_def
      NewHTTPHostFilterCollector_def tcp_process_def tls_process_def req_a_def resp_a_def
      packet_count_process_def numUserFilters_def counted_def request_filter_process_def host_filter_def sort_dns_names_def
      user_traffic_process_def not_cli [unfolded req_a_def resp_a_def sample_request_def] rate_layer_def rate_limit_process_def AllowHTTPRequest_def startInterval_def
      NewRateLimit_def default_config_def NewSamplingCollector_def poll_epoch_def tls_timeout_def
      passes_def filters_admit_def filter_admits_def statistics_admit_def hands_on_def
      sample_request_def sink_process_def split: prod.split)

lemma captured_exchange_reported_witness:
  "length (filter (report_of (witness_name ''a'' 1)) (bk_batch (fst (stack_sink
      (stack_step demo_stack_env limited_config demo_cloud (StackPacket 9 resp_a)
        (fold (stack_step demo_stack_env limited_config demo_cloud) [StackPacket 5 req_a, TlsTimer ''c''] open_stack)))))) = 1"
proof -
  have start: "fst (stack_sink open_stack) = NewBackendCollector ''lrn''" by (simp add: open_stack_def)
  have req: "content req_a = HTTPRequest (sample_request ''a'' 1)" and resp: "content resp_a = HTTPResponse (sample_response ''a'' 1)"
    and m: "rq_method (sample_request ''a'' 1) \<noteq> []"
    and t: "final_packet_time req_a \<noteq> 0" "observation_time resp_a \<noteq> 0"
    by (simp_all add: req_a_def resp_a_def sample_request_def) (simp_all add: sample_traffic_def)
  have nil: "other_traffic plain_parser [] Some (witness_name ''a'' 1) {} ([] :: ((string, string) backend \<times> unit) stack_event list)"
    and timer: "other_traffic plain_parser [] Some (witness_name ''a'' 1) {observation_time req_a, observation_time resp_a}
        ([TlsTimer ''c''] :: ((string, string) backend \<times> unit) stack_event list)"
    by (simp_all add: other_traffic_def)
  have parsed: "plain_parser (content req_a) = Inr (Some \<lparr>im_args = Some fmempty, im_responses = None, im_meta = Some (parseMethodMeta (sample_request ''a'' 1))\<rparr>, witness_name ''a'' 1)"
    "plain_parser (content resp_a) = Inr (Some \<lparr>im_args = None, im_responses = Some fmempty, im_meta = Some UnknownHTTPMethodMeta\<rparr>, witness_name ''a'' 1)"
    unfolding req resp by (rule plain_parser_samples)+
  have w1: "open_stack = fold (stack_step demo_stack_env limited_config demo_cloud) [] open_stack" by simp
  show ?thesis
    by (subst captured_exchange_reported [OF plain_parser_def req parsed(1) m resp parsed(2) t start w1 refl nil timer
          open_passes_request after_request_passes_response])
      (simp add: upload_report_def)
qed

end
