(* ===== verification/Trace_Tags.thy ===== *)
theory Trace_Tags
  imports Prelude
begin

text \<open>
  The tags of a trace: ci/ (the CI system from the environment), deployment/deployment.go (the
  deployment from the environment) and \<open>collectTraceTags\<close> of apidump/apidump.go. The environment is a
  function, as \<open>os.LookupEnv\<close> sees it. Debug output is left out.
\<close>

section \<open>Keys and the environment\<close>

text \<open>The reserved keys are constants of akita-libs' package tags, one constructor each.\<close>

datatype tag_key =
    XAkitaCI | XAkitaSource | XAkitaDeployment | XAkitaGitRepoURL | XAkitaGitBranch | XAkitaGitCommit
  | XAkitaGitHubPRURL | XAkitaCircleCIBuildURL | XAkitaTravisBuildWebURL | XAkitaTravisJobWebURL
  | XAkitaAWSRegion | XAkitaECSTask | XAkitaECSService
  | XAkitaKubernetesNamespace | XAkitaKubernetesNode | XAkitaKubernetesHostIP | XAkitaKubernetesPod
  | XAkitaKubernetesPodIP | XAkitaKubernetesDaemonset
  | XAkitaDumpInterfacesFlag | XAkitaDumpFilterFlag | OtherKey string

type_synonym tags = "(tag_key, string) fmap"
type_synonym environment = "string \<Rightarrow> string option"

definition Getenv :: "environment \<Rightarrow> string \<Rightarrow> string" where
  "Getenv env v = (case env v of Some s \<Rightarrow> s | None \<Rightarrow> [])"

text \<open>\<open>strconv.ParseBool\<close>.\<close>

definition ParseBool :: "string \<Rightarrow> bool option" where
  "ParseBool s =
     (if s \<in> {''1'', ''t'', ''T'', ''TRUE'', ''true'', ''True''} then Some True
      else if s \<in> {''0'', ''f'', ''F'', ''FALSE'', ''false'', ''False''} then Some False
      else None)"

section \<open>CI systems\<close>

datatype CI = UnknownCI | CircleCI | Travis

fun CI_String :: "CI \<Rightarrow> string" where
  "CI_String CircleCI = ''CircleCI''"
| "CI_String Travis = ''Travis''"
| "CI_String UnknownCI = ''Unknown''"

text \<open>\<open>MarshalText\<close> and \<open>UnmarshalText\<close>.\<close>

definition CI_MarshalText :: "CI \<Rightarrow> string" where
  "CI_MarshalText c = CI_String c"

definition CI_UnmarshalText :: "string \<Rightarrow> CI" where
  "CI_UnmarshalText s =
     (if s = ''CircleCI'' then CircleCI else if s = ''Travis'' then Travis else UnknownCI)"

record pull_request =
  pr_URL :: string
  pr_Branch :: string
  pr_Commit :: string

text \<open>
  The libraries the CI code calls: parsing of a GitHub pull request's URL, printing of an https URL on
  github.com (\<open>net/url\<close>, which escapes the path) and \<open>path.Join\<close>.
\<close>

record ci_libs =
  ParsePullRequestURL :: "string \<Rightarrow> pull_request option"
  github_URL :: "string \<Rightarrow> string"
  path_Join :: "string list \<Rightarrow> string"

definition with_branch :: "string \<Rightarrow> string \<Rightarrow> pull_request option \<Rightarrow> pull_request option" where
  "with_branch branch commit pr = map_option (\<lambda>p. p\<lparr>pr_Branch := branch, pr_Commit := commit\<rparr>) pr"

definition circleCIInfo :: "ci_libs \<Rightarrow> environment \<Rightarrow> pull_request option \<times> tags" where
  "circleCIInfo libs env =
     (with_branch (Getenv env ''CIRCLE_BRANCH'') (Getenv env ''CIRCLE_SHA1'')
        (ParsePullRequestURL libs (Getenv env ''CIRCLE_PULL_REQUEST'')),
      fmap_of_list
        [(XAkitaCI, CI_String CircleCI),
         (XAkitaGitRepoURL, Getenv env ''CIRCLE_REPOSITORY_URL''),
         (XAkitaGitBranch, Getenv env ''CIRCLE_BRANCH''),
         (XAkitaGitCommit, Getenv env ''CIRCLE_SHA1''),
         (XAkitaGitHubPRURL, Getenv env ''CIRCLE_PULL_REQUEST''),
         (XAkitaCircleCIBuildURL, Getenv env ''CIRCLE_BUILD_URL'')])"

definition travisCIInfo :: "ci_libs \<Rightarrow> environment \<Rightarrow> pull_request option \<times> tags" where
  "travisCIInfo libs env =
     (let repoURL = github_URL libs (Getenv env ''TRAVIS_REPO_SLUG'');
          prURL = github_URL libs (path_Join libs [Getenv env ''TRAVIS_REPO_SLUG'', ''pull'', Getenv env ''TRAVIS_PULL_REQUEST''])
      in (with_branch (Getenv env ''TRAVIS_BRANCH'') (Getenv env ''TRAVIS_COMMIT'') (ParsePullRequestURL libs prURL),
          fmap_of_list
            [(XAkitaCI, CI_String Travis),
             (XAkitaGitRepoURL, repoURL),
             (XAkitaGitBranch, Getenv env ''TRAVIS_BRANCH''),
             (XAkitaGitCommit, Getenv env ''TRAVIS_COMMIT''),
             (XAkitaGitHubPRURL, prURL),
             (XAkitaTravisBuildWebURL, Getenv env ''TRAVIS_BUILD_WEB_URL''),
             (XAkitaTravisJobWebURL, Getenv env ''TRAVIS_JOB_WEB_URL'')]))"

definition GetCIInfo :: "ci_libs \<Rightarrow> environment \<Rightarrow> CI \<times> pull_request option \<times> tags" where
  "GetCIInfo libs env =
     (if ParseBool (Getenv env ''CI'') \<noteq> Some True then (UnknownCI, None, fmempty)
      else if ParseBool (Getenv env ''CIRCLECI'') = Some True then (CircleCI, circleCIInfo libs env)
      else if ParseBool (Getenv env ''TRAVIS'') = Some True then (Travis, travisCIInfo libs env)
      else (UnknownCI, None, fmempty))"

section \<open>Deployments\<close>

datatype Deployment = NoDeployment | AnyDeployment | UnknownDeployment | AWS | AWS_ECS | Kubernetes

fun Deployment_String :: "Deployment \<Rightarrow> string" where
  "Deployment_String NoDeployment = []"
| "Deployment_String AnyDeployment = ''any''"
| "Deployment_String UnknownDeployment = ''unknown''"
| "Deployment_String AWS = ''aws''"
| "Deployment_String AWS_ECS = ''aws-ecs''"
| "Deployment_String Kubernetes = ''kubernetes''"

fun environmentToTag :: "Deployment \<Rightarrow> (string \<times> tag_key) list" where
  "environmentToTag AnyDeployment = [(''POSTMAN_DEPLOYMENT_COMMIT'', XAkitaGitCommit)]"
| "environmentToTag AWS = [(''POSTMAN_AWS_REGION'', XAkitaAWSRegion)]"
| "environmentToTag AWS_ECS =
     [(''POSTMAN_AWS_REGION'', XAkitaAWSRegion), (''POSTMAN_ECS_TASK'', XAkitaECSTask),
      (''POSTMAN_ECS_SERVICE'', XAkitaECSService)]"
| "environmentToTag Kubernetes =
     [(''POSTMAN_K8S_NAMESPACE'', XAkitaKubernetesNamespace), (''POSTMAN_K8S_NODE'', XAkitaKubernetesNode),
      (''POSTMAN_K8S_HOST_IP'', XAkitaKubernetesHostIP), (''POSTMAN_K8S_POD'', XAkitaKubernetesPod),
      (''POSTMAN_K8S_POD_IP'', XAkitaKubernetesPodIP), (''POSTMAN_K8S_DAEMONSET'', XAkitaKubernetesDaemonset)]"
| "environmentToTag _ = []"

text \<open>The keys of one deployment differ, so the order in which its map is visited does not matter.\<close>

definition getTagsFromEnvironment :: "environment \<Rightarrow> Deployment \<Rightarrow> tags \<Rightarrow> tags \<times> bool" where
  "getTagsFromEnvironment env d tagset =
     fold (\<lambda>(envVar, tag) (tagset, found).
         if Getenv env envVar \<noteq> [] then (fmupd tag (Getenv env envVar) tagset, True) else (tagset, found))
       (environmentToTag d) (tagset, False)"

definition GetDeploymentInfo :: "environment \<Rightarrow> Deployment \<times> tags" where
  "GetDeploymentInfo env =
     (let deploymentType = NoDeployment;
          (tagset, found) = getTagsFromEnvironment env AnyDeployment fmempty;
          deploymentType = (if found then UnknownDeployment else deploymentType);
          (tagset, foundECS) = getTagsFromEnvironment env AWS_ECS tagset;
          (tagset, foundAWS) = (if foundECS then (tagset, False) else getTagsFromEnvironment env AWS tagset);
          deploymentType = (if foundECS then AWS_ECS else if foundAWS then AWS else deploymentType);
          (tagset, found) = getTagsFromEnvironment env Kubernetes tagset;
          deploymentType = (if found then Kubernetes else deploymentType)
      in (deploymentType, tagset))"

text \<open>The values of the source tag are constants of akita-libs' package tags.\<close>

record source_names =
  CISource :: string
  DeploymentSource :: string
  UserSource :: string

definition UpdateTags :: "source_names \<Rightarrow> environment \<Rightarrow> tags \<Rightarrow> tags" where
  "UpdateTags src env argsTags =
     (let (deploymentType, deploymentTags) = GetDeploymentInfo env;
          argsTags = (if deploymentType \<noteq> NoDeployment \<and> fmlookup argsTags XAkitaSource = None
                      then fmupd XAkitaSource (DeploymentSource src) argsTags else argsTags)
      in argsTags ++\<^sub>f deploymentTags)"

section \<open>The tags of a capture\<close>

definition DefaultDeployment :: string where "DefaultDeployment = ''default''"

fun join_strings :: "string \<Rightarrow> string list \<Rightarrow> string" where
  "join_strings sep [] = []"
| "join_strings sep [x] = x"
| "join_strings sep (x # xs) = x @ sep @ join_strings sep xs"

definition collectTraceTags ::
  "source_names \<Rightarrow> ci_libs \<Rightarrow> environment \<Rightarrow> string list \<Rightarrow> string \<Rightarrow> tags option \<Rightarrow> tags" where
  "collectTraceTags src libs env interfaces bpfFilter argsTags =
     (let traceTags = (case argsTags of Some t \<Rightarrow> t | None \<Rightarrow> fmempty);
          traceTags = (if interfaces \<noteq> [] then fmupd XAkitaDumpInterfacesFlag (join_strings '','' interfaces) traceTags else traceTags);
          traceTags = (if bpfFilter \<noteq> [] then fmupd XAkitaDumpFilterFlag bpfFilter traceTags else traceTags);
          (ciType, _, ciTags) = GetCIInfo libs env;
          traceTags = (if ciType \<noteq> UnknownCI then fmupd XAkitaSource (CISource src) (traceTags ++\<^sub>f ciTags) else traceTags);
          traceTags = fmupd XAkitaDeployment DefaultDeployment traceTags;
          traceTags = fmupd XAkitaSource (DeploymentSource src) traceTags;
          traceTags = UpdateTags src env traceTags
      in if fmlookup traceTags XAkitaSource = None then fmupd XAkitaSource (UserSource src) traceTags else traceTags)"

section \<open>Properties\<close>

text \<open>A tag that an environment variable of a deployment sets, the last one of them counting.\<close>

fun env_tag :: "environment \<Rightarrow> (string \<times> tag_key) list \<Rightarrow> tag_key \<Rightarrow> string option" where
  "env_tag env [] k = None"
| "env_tag env ((v, j) # vars) k =
     (case env_tag env vars k of Some s \<Rightarrow> Some s
      | None \<Rightarrow> if j = k \<and> Getenv env v \<noteq> [] then Some (Getenv env v) else None)"

lemma env_tag_append:
  "env_tag env (xs @ ys) k = (case env_tag env ys k of Some s \<Rightarrow> Some s | None \<Rightarrow> env_tag env xs k)"
  by (induction xs) (auto split: option.split)

abbreviation read_tag where
  "read_tag env \<equiv> \<lambda>(envVar, tag) (tagset, found).
     if Getenv env envVar \<noteq> [] then (fmupd tag (Getenv env envVar) tagset, True) else (tagset, found)"

lemma read_tags:
  "fmlookup (fst (fold (read_tag env) vars st)) k = (case env_tag env vars k of Some s \<Rightarrow> Some s | None \<Rightarrow> fmlookup (fst st) k)"
  "snd (fold (read_tag env) vars st) \<longleftrightarrow> snd st \<or> list_ex (\<lambda>(v, _). Getenv env v \<noteq> []) vars"
  by (induction vars arbitrary: st) (auto split: option.splits prod.splits)

lemma tags_from_environment:
  "fmlookup (fst (getTagsFromEnvironment env d ts)) k =
     (case env_tag env (environmentToTag d) k of Some s \<Rightarrow> Some s | None \<Rightarrow> fmlookup ts k)"
  "snd (getTagsFromEnvironment env d ts) \<longleftrightarrow> list_ex (\<lambda>(v, _). Getenv env v \<noteq> []) (environmentToTag d)"
  by (simp_all only: getTagsFromEnvironment_def read_tags fst_conv snd_conv simp_thms)

text \<open>The variables of all deployments, in the order in which they are read.\<close>

definition deployment_vars :: "(string \<times> tag_key) list" where
  "deployment_vars = environmentToTag AnyDeployment @ environmentToTag AWS_ECS @ environmentToTag Kubernetes"

lemma GetDeploymentInfo_eq:
  "GetDeploymentInfo env =
     (let (t1, any) = getTagsFromEnvironment env AnyDeployment fmempty;
          (t2, ecs) = getTagsFromEnvironment env AWS_ECS t1;
          (t3, k8s) = getTagsFromEnvironment env Kubernetes t2
      in (if k8s then Kubernetes else if ecs then AWS_ECS else if any then UnknownDeployment else NoDeployment, t3))"
proof -
  obtain t1 any where 1: "getTagsFromEnvironment env AnyDeployment fmempty = (t1, any)" by fastforce
  obtain t2 ecs where 2: "getTagsFromEnvironment env AWS_ECS t1 = (t2, ecs)" by fastforce
  have "ecs \<longleftrightarrow> list_ex (\<lambda>(v, _). Getenv env v \<noteq> []) (environmentToTag AWS_ECS)"
    using tags_from_environment(2) [of env AWS_ECS t1] unfolding 2 snd_conv .
  then have "getTagsFromEnvironment env AWS t2 = (t2, False)" if "\<not> ecs"
    using that by (simp add: getTagsFromEnvironment_def)
  then show ?thesis
    by (cases ecs) (simp_all add: GetDeploymentInfo_def 1 2 Let_def)
qed

lemma GetDeploymentInfo_tags: "fmlookup (snd (GetDeploymentInfo env)) k = env_tag env deployment_vars k"
proof -
  obtain t1 any where 1: "getTagsFromEnvironment env AnyDeployment fmempty = (t1, any)" by fastforce
  obtain t2 ecs where 2: "getTagsFromEnvironment env AWS_ECS t1 = (t2, ecs)" by fastforce
  obtain t3 k8s where 3: "getTagsFromEnvironment env Kubernetes t2 = (t3, k8s)" by fastforce
  have "fmlookup t1 k = env_tag env (environmentToTag AnyDeployment) k"
    using tags_from_environment(1) [of env AnyDeployment fmempty k] unfolding 1 by (simp split: option.splits)
  moreover have "fmlookup t2 k = (case env_tag env (environmentToTag AWS_ECS) k of Some s \<Rightarrow> Some s | None \<Rightarrow> fmlookup t1 k)"
    using tags_from_environment(1) [of env AWS_ECS t1 k] unfolding 2 fst_conv .
  moreover have "fmlookup t3 k = (case env_tag env (environmentToTag Kubernetes) k of Some s \<Rightarrow> Some s | None \<Rightarrow> fmlookup t2 k)"
    using tags_from_environment(1) [of env Kubernetes t2 k] unfolding 3 fst_conv .
  moreover have "snd (GetDeploymentInfo env) = t3" unfolding GetDeploymentInfo_eq 1 by (simp add: 2 3)
  ultimately show ?thesis
    unfolding deployment_vars_def env_tag_append
    by (simp split: option.split del: env_tag.simps environmentToTag.simps)
qed

text \<open>
  The kind of deployment: Kubernetes before ECS. Plain AWS is never found, its only variable being one
  of ECS.
\<close>

definition any_set :: "environment \<Rightarrow> Deployment \<Rightarrow> bool" where
  "any_set env d \<longleftrightarrow> list_ex (\<lambda>(v, _). Getenv env v \<noteq> []) (environmentToTag d)"

lemma deployment_type:
  "fst (GetDeploymentInfo env) =
     (if any_set env Kubernetes then Kubernetes else if any_set env AWS_ECS then AWS_ECS
      else if any_set env AnyDeployment then UnknownDeployment else NoDeployment)"
proof -
  obtain t1 any where 1: "getTagsFromEnvironment env AnyDeployment fmempty = (t1, any)" by fastforce
  obtain t2 ecs where 2: "getTagsFromEnvironment env AWS_ECS t1 = (t2, ecs)" by fastforce
  obtain t3 k8s where 3: "getTagsFromEnvironment env Kubernetes t2 = (t3, k8s)" by fastforce
  have "any \<longleftrightarrow> any_set env AnyDeployment" "ecs \<longleftrightarrow> any_set env AWS_ECS" "k8s \<longleftrightarrow> any_set env Kubernetes"
    using tags_from_environment(2) [of env AnyDeployment fmempty] tags_from_environment(2) [of env AWS_ECS t1]
      tags_from_environment(2) [of env Kubernetes t2]
    unfolding 1 2 3 snd_conv any_set_def .
  then show ?thesis unfolding GetDeploymentInfo_eq 1 by (simp add: 2 3)
qed

lemma aws_never_detected: "fst (GetDeploymentInfo env) \<noteq> AWS"
  by (simp add: deployment_type)

text \<open>
  C32: where a tag comes from. A variable of the deployment overrides everything; the source is always a
  deployment and the deployment always the default one, whatever the CI system or the user say; then
  come the tags of the CI system, the capture flags and the user's tags.
\<close>

theorem trace_tag_precedence:
  "fmlookup (collectTraceTags src libs env interfaces bpfFilter argsTags) k =
     (case env_tag env deployment_vars k of
        Some v \<Rightarrow> Some v
      | None \<Rightarrow>
          if k = XAkitaSource then Some (DeploymentSource src)
          else if k = XAkitaDeployment then Some ''default''
          else case fmlookup (snd (snd (GetCIInfo libs env))) k of
            Some v \<Rightarrow> Some v
          | None \<Rightarrow>
              if k = XAkitaDumpFilterFlag \<and> bpfFilter \<noteq> [] then Some bpfFilter
              else if k = XAkitaDumpInterfacesFlag \<and> interfaces \<noteq> [] then Some (join_strings '','' interfaces)
              else Option.bind argsTags (\<lambda>t. fmlookup t k))"
proof -
  obtain ty pr ci where ci: "GetCIInfo libs env = (ty, pr, ci)" by (cases "GetCIInfo libs env") auto
  have unknown: "ty = UnknownCI \<Longrightarrow> ci = fmempty"
    using ci by (auto simp: GetCIInfo_def circleCIInfo_def travisCIInfo_def Let_def split: if_splits)
  obtain d dt where d: "GetDeploymentInfo env = (d, dt)" by fastforce
  have dt: "fmlookup dt j = env_tag env deployment_vars j" for j using GetDeploymentInfo_tags [of env j] by (simp add: d)
  have none: "fmlookup dt XAkitaSource = None" "fmlookup dt XAkitaDeployment = None"
    unfolding dt by (simp_all add: deployment_vars_def)
  have add: "fmlookup (m ++\<^sub>f n) j = (case fmlookup n j of Some v \<Rightarrow> Some v | None \<Rightarrow> fmlookup m j)" for m n :: tags and j
    by (cases "fmlookup n j") (auto simp: fmdom_notI fmdomI)
  define base where "base = (case argsTags of Some t \<Rightarrow> t | None \<Rightarrow> fmempty)"
  define t1 where "t1 = (if interfaces \<noteq> [] then fmupd XAkitaDumpInterfacesFlag (join_strings '','' interfaces) base else base)"
  define t2 where "t2 = (if bpfFilter \<noteq> [] then fmupd XAkitaDumpFilterFlag bpfFilter t1 else t1)"
  define t3 where "t3 = (if ty \<noteq> UnknownCI then fmupd XAkitaSource (CISource src) (t2 ++\<^sub>f ci) else t2)"
  have base: "fmlookup base k = Option.bind argsTags (\<lambda>t. fmlookup t k)"
    by (cases argsTags) (simp_all add: base_def)
  have t3: "fmlookup t3 k = (case fmlookup ci k of Some v \<Rightarrow> Some v | None \<Rightarrow> fmlookup t2 k)" if "k \<noteq> XAkitaSource"
    using that unknown by (cases "ty = UnknownCI") (simp_all add: t3_def add del: fmlookup_add)
  have "collectTraceTags src libs env interfaces bpfFilter argsTags =
      fmupd XAkitaSource (DeploymentSource src) (fmupd XAkitaDeployment ''default'' t3) ++\<^sub>f dt"
    by (simp add: collectTraceTags_def UpdateTags_def Let_def ci d DefaultDeployment_def t3_def t2_def t1_def base_def
        add none del: fmlookup_add)
  then have "fmlookup (collectTraceTags src libs env interfaces bpfFilter argsTags) k =
      (case fmlookup dt k of Some v \<Rightarrow> Some v
       | None \<Rightarrow> if k = XAkitaSource then Some (DeploymentSource src)
           else if k = XAkitaDeployment then Some ''default'' else fmlookup t3 k)"
    by (simp add: add del: fmlookup_add split: option.split)
  note total = this
  have t2: "fmlookup t2 k =
      (if k = XAkitaDumpFilterFlag \<and> bpfFilter \<noteq> [] then Some bpfFilter
       else if k = XAkitaDumpInterfacesFlag \<and> interfaces \<noteq> [] then Some (join_strings '','' interfaces)
       else Option.bind argsTags (\<lambda>t. fmlookup t k))"
    unfolding base [symmetric] by (simp add: t2_def t1_def)
  show ?thesis
    unfolding total dt
    by (cases "k = XAkitaSource") (simp_all only: t3 [unfolded t2] ci snd_conv simp_thms if_False if_True not_False_eq_True)
qed

end
