(* ===== verification/Service_Lookup.thy ===== *)
theory Service_Lookup
  imports Network
begin

text \<open>
  util/util.go: how names, identifiers and collections are resolved to projects and traces of the Postman
  cloud, with caches. The cloud (the REST clients) and the caches (go-cache, which forgets entries when
  they expire) are arguments; names are ASCII. Messages to the user are left out.
\<close>

section \<open>The cloud and the caches\<close>

type_synonym service_id = string

record postman_meta =
  pm_CollectionID :: string
  pm_Environment :: string

record cloud_service =
  cs_ID :: service_id
  cs_Name :: string
  cs_PostmanMetaData :: postman_meta

record insights_service =
  is_ID :: service_id
  is_Name :: string

text \<open>
  An error of a call: of HTTP with its status and the message in its body, if that could be decoded, or
  another one.
\<close>

datatype rest_error = HTTPError int "string option" | OtherError string

record 'w front_client =
  fc_GetServices :: "'w \<Rightarrow> 'w \<times> (rest_error + cloud_service list)"
  fc_GetService :: "service_id \<Rightarrow> 'w \<Rightarrow> 'w \<times> (rest_error + insights_service)"
  fc_CreateService :: "string \<Rightarrow> string \<Rightarrow> 'w \<Rightarrow> 'w \<times> (rest_error + service_id)"

record ('c, 'v) cache_ops =
  cache_Get :: "string \<Rightarrow> 'c \<Rightarrow> 'v option"
  cache_Set :: "string \<Rightarrow> 'v \<Rightarrow> 'c \<Rightarrow> 'c"

text \<open>go-cache: an entry that is found was set, and was not overwritten since.\<close>

definition cache_law :: "('c, 'v) cache_ops \<Rightarrow> bool" where
  "cache_law C \<longleftrightarrow> (\<forall>k v c j x. cache_Get C j (cache_Set C k v c) = Some x \<longrightarrow>
     (if j = k then x = v else cache_Get C j c = Some x))"

datatype lookup_error =
    ServicesFailed rest_error
  | UnknownProject string
  | Unexpected rest_error
  | NoSuchProject service_id
  | ProjectForbidden service_id
  | CollectionForbidden string
  | TraceLookupFailed string rest_error
  | TagListFailed rest_error
  | NoTag
  | SeveralTags
  | ResolveFailed string lookup_error
  | ListFailed string lookup_error
  | NotASpec

definition strings_ToLower :: "string \<Rightarrow> string" where
  "strings_ToLower s = map lower_char s"

definition EqualFold :: "string \<Rightarrow> string \<Rightarrow> bool" where
  "EqualFold s t \<longleftrightarrow> strings_ToLower s = strings_ToLower t"

section \<open>Projects by name\<close>

definition GetServiceIDByName ::
  "('c, service_id) cache_ops \<Rightarrow> 'w front_client \<Rightarrow> string \<Rightarrow> 'c \<times> 'w \<Rightarrow> ('c \<times> 'w) \<times> (lookup_error + service_id)" where
  "GetServiceIDByName C cl name st =
     (case st of (c, w) \<Rightarrow>
        let name = strings_ToLower name
        in case cache_Get C name c of
             Some i \<Rightarrow> ((c, w), Inr i)
           | None \<Rightarrow>
               (case fc_GetServices cl w of
                  (w, Inl e) \<Rightarrow> ((c, w), Inl (ServicesFailed e))
                | (w, Inr services) \<Rightarrow>
                    (let (c, result) =
                       fold (\<lambda>svc (c, result).
                           if cs_ID svc = [] then (c, result)
                           else (cache_Set C (strings_ToLower (cs_Name svc)) (cs_ID svc) c,
                                 if EqualFold (cs_Name svc) name then cs_ID svc else result))
                         services (c, [])
                     in if result \<noteq> [] then ((c, w), Inr result) else ((c, w), Inl (UnknownProject name)))))"

section \<open>Projects by identifier\<close>

definition GetServiceNameByServiceID ::
  "('d, insights_service) cache_ops \<Rightarrow> 'w front_client \<Rightarrow> service_id \<Rightarrow> 'd \<times> 'w \<Rightarrow> ('d \<times> 'w) \<times> (lookup_error + string)" where
  "GetServiceNameByServiceID D cl serviceID st =
     (case st of (d, w) \<Rightarrow>
        case cache_Get D serviceID d of
          Some service \<Rightarrow> ((d, w), Inr (is_Name service))
        | None \<Rightarrow>
            (case fc_GetService cl serviceID w of
               (w, Inr service) \<Rightarrow> ((cache_Set D serviceID service d, w), Inr (is_Name service))
             | (w, Inl e) \<Rightarrow>
                 ((d, w), Inl (case e of
                    HTTPError status (Some _) \<Rightarrow>
                      if status = 404 then NoSuchProject serviceID
                      else if status = 403 then ProjectForbidden serviceID
                      else Unexpected e
                  | _ \<Rightarrow> Unexpected e))))"

section \<open>Projects by collection\<close>

definition no_meta :: postman_meta where
  "no_meta = \<lparr>pm_CollectionID = [], pm_Environment = []\<rparr>"

definition collection_match :: "string \<Rightarrow> cloud_service list \<Rightarrow> service_id" where
  "collection_match collectionID services =
     fold (\<lambda>svc result.
         if cs_ID svc = [] then result
         else if cs_PostmanMetaData svc = no_meta then result
         else if EqualFold collectionID (strings_ToLower (pm_CollectionID (cs_PostmanMetaData svc))) then cs_ID svc
         else result)
       services []"

text \<open>The zero identifier stands for none found.\<close>

definition GetServiceIDByPostmanCollectionID ::
  "'w front_client \<Rightarrow> string \<Rightarrow> 'w \<Rightarrow> 'w \<times> (rest_error + service_id)" where
  "GetServiceIDByPostmanCollectionID cl collectionID w =
     (case fc_GetServices cl w of
        (w, Inl e) \<Rightarrow> (w, Inl e)
      | (w, Inr services) \<Rightarrow> (w, Inr (collection_match collectionID services)))"

definition GetOrCreateServiceIDByPostmanCollectionID ::
  "('c, service_id) cache_ops \<Rightarrow> 'w front_client \<Rightarrow> string \<Rightarrow> string \<Rightarrow> 'c \<times> 'w \<Rightarrow> ('c \<times> 'w) \<times> (lookup_error + service_id)" where
  "GetOrCreateServiceIDByPostmanCollectionID C cl name collectionID st =
     (case st of (c, w) \<Rightarrow>
        let collectionID = strings_ToLower collectionID
        in case cache_Get C collectionID c of
             Some i \<Rightarrow> ((c, w), Inr i)
           | None \<Rightarrow>
               (case GetServiceIDByPostmanCollectionID cl collectionID w of
                  (w, Inl e) \<Rightarrow> ((c, w), Inl (Unexpected e))
                | (w, Inr serviceID) \<Rightarrow>
                    if serviceID \<noteq> [] then ((cache_Set C collectionID serviceID c, w), Inr serviceID)
                    else (case fc_CreateService cl name collectionID w of
                        (w, Inr resourceID) \<Rightarrow> ((cache_Set C collectionID resourceID c, w), Inr resourceID)
                      | (w, Inl err) \<Rightarrow>
                          (case err of
                             HTTPError status (Some message) \<Rightarrow>
                               if status = 409 \<and> message = ''collection_already_mapped'' then
                                 (case GetServiceIDByPostmanCollectionID cl collectionID w of
                                    (w, Inl e) \<Rightarrow> ((c, w), Inl (Unexpected e))
                                  | (w, Inr serviceID) \<Rightarrow>
                                      if serviceID \<noteq> [] then ((cache_Set C collectionID serviceID c, w), Inr serviceID)
                                      else ((c, w), Inl (Unexpected err)))
                               else if status = 403 then ((c, w), Inl (CollectionForbidden collectionID))
                               else ((c, w), Inl (Unexpected err))
                           | _ \<Rightarrow> ((c, w), Inl (Unexpected err))))))"

section \<open>Traces\<close>

definition GetLearnSessionIDByName ::
  "('c, string) cache_ops \<Rightarrow> (string \<Rightarrow> 'w \<Rightarrow> 'w \<times> (rest_error + string)) \<Rightarrow> string \<Rightarrow> 'c \<times> 'w \<Rightarrow> ('c \<times> 'w) \<times> (lookup_error + string)" where
  "GetLearnSessionIDByName C lookup name st =
     (case st of (c, w) \<Rightarrow>
        case cache_Get C name c of
          Some i \<Rightarrow> ((c, w), Inr i)
        | None \<Rightarrow>
            (case lookup name w of
               (w, Inl e) \<Rightarrow> ((c, w), Inl (TraceLookupFailed name e))
             | (w, Inr i) \<Rightarrow> ((cache_Set C name i c, w), Inr i)))"

record listed_session =
  ls_Name :: string
  ls_CreationTime :: instant

definition latest_session :: "listed_session list \<Rightarrow> listed_session" where
  "latest_session sessions =
     sessions ! nat (fold (\<lambda>i latest.
         if latest < 0 \<or> ls_CreationTime (sessions ! nat latest) < ls_CreationTime (sessions ! i) then int i else latest)
       [0..<length sessions] (-1))"

text \<open>\<open>ListLearnSessions\<close> of the cloud is the argument \<open>sessions\<close>.\<close>

definition GetLearnSessionByTags :: "rest_error + listed_session list \<Rightarrow> lookup_error + listed_session option" where
  "GetLearnSessionByTags listed =
     (case listed of
        Inl e \<Rightarrow> Inl (TagListFailed e)
      | Inr sessions \<Rightarrow> Inr (if sessions = [] then None else Some (latest_session sessions)))"

record trace_uri =
  tu_ServiceName :: string
  tu_ObjectName :: string
  tu_isTrace :: bool

definition GetTraceURIByTags ::
  "('c, service_id) cache_ops \<Rightarrow> 'w front_client \<Rightarrow> (service_id \<Rightarrow> 'w \<Rightarrow> 'w \<times> (rest_error + listed_session list)) \<Rightarrow> string \<Rightarrow> nat
     \<Rightarrow> 'c \<times> 'w \<Rightarrow> ('c \<times> 'w) \<times> (lookup_error + trace_uri)" where
  "GetTraceURIByTags C cl listSessions serviceName numTags st =
     (if numTags = 0 then (st, Inl NoTag)
      else if 1 < numTags then (st, Inl SeveralTags)
      else case GetServiceIDByName C cl serviceName st of
        (st, Inl e) \<Rightarrow> (st, Inl (ResolveFailed serviceName e))
      | ((c, w), Inr serviceID) \<Rightarrow>
          (case listSessions serviceID w of (w, listed) \<Rightarrow>
             ((c, w),
              case GetLearnSessionByTags listed of
                Inl e \<Rightarrow> Inl (ListFailed serviceName e)
              | Inr None \<Rightarrow> Inr \<lparr>tu_ServiceName = serviceName, tu_ObjectName = [], tu_isTrace = True\<rparr>
              | Inr (Some s) \<Rightarrow> Inr \<lparr>tu_ServiceName = serviceName, tu_ObjectName = ls_Name s, tu_isTrace = True\<rparr>)))"

definition ResolveSpecURI :: "(string \<Rightarrow> lookup_error + 'i) \<Rightarrow> bool \<Rightarrow> string \<Rightarrow> lookup_error + 'i" where
  "ResolveSpecURI lookup isSpec objectName = (if \<not> isSpec then Inl NotASpec else lookup objectName)"

section \<open>Random names\<close>

text \<open>The random words and the UUID are arguments.\<close>

fun dashed :: "string list \<Rightarrow> string" where
  "dashed [] = []"
| "dashed [x] = x"
| "dashed (x # xs) = x @ ''-'' @ dashed xs"

definition randomName :: "string \<Rightarrow> string \<Rightarrow> string \<Rightarrow> string" where
  "randomName adjective noun uuid = dashed [adjective, noun, take 8 uuid]"

definition postmanRandomName :: "string \<Rightarrow> string \<Rightarrow> string \<Rightarrow> string" where
  "postmanRandomName adjective noun uuid =
     (let noun = (if 8 < length noun then take 8 noun else noun)
      in dashed [adjective, noun, ''pm'', take 8 uuid])"

text \<open>Names stay within the 32 characters the cloud supports, for words of at most eleven.\<close>

lemma random_names_short:
  assumes "length adjective \<le> 11"
  shows "length noun \<le> 11 \<Longrightarrow> length (randomName adjective noun uuid) \<le> 32"
    and "length (postmanRandomName adjective noun uuid) \<le> 32"
  using assms by (auto simp: randomName_def postmanRandomName_def Let_def min_def)

section \<open>A name resolves to its project\<close>

text \<open>The project of a name: the last one of the list with the name, up to case.\<close>

definition project_named :: "cloud_service list \<Rightarrow> string \<Rightarrow> service_id option" where
  "project_named services name =
     (let named = filter (\<lambda>s. cs_ID s \<noteq> [] \<and> EqualFold (cs_Name s) name) services
      in if named = [] then None else Some (cs_ID (last named)))"

lemma project_named_snoc:
  "project_named (ss @ [s]) name =
     (if cs_ID s \<noteq> [] \<and> EqualFold (cs_Name s) name then Some (cs_ID s) else project_named ss name)"
  by (simp add: project_named_def)

lemma lower_idem [simp]: "strings_ToLower (strings_ToLower s) = strings_ToLower s"
proof -
  have "lower_char (lower_char c) = lower_char c" for c
  proof (cases "65 \<le> char_code c \<and> char_code c \<le> 90")
    case True
    then have "char_code (char_of (char_code c + 32) :: char) = char_code c + 32"
      by (simp add: char_code_def of_char_of)
    with True show ?thesis by (simp add: lower_char_def)
  qed (auto simp: lower_char_def)
  then show ?thesis by (simp add: strings_ToLower_def)
qed

definition cache_sound :: "('c, service_id) cache_ops \<Rightarrow> cloud_service list \<Rightarrow> 'c \<Rightarrow> bool" where
  "cache_sound C services c \<longleftrightarrow>
     (\<forall>name i. cache_Get C name c = Some i \<longrightarrow> strings_ToLower name = name \<longrightarrow> project_named services name = Some i)"

lemma fill_cache:
  fixes C :: "('c, service_id) cache_ops" and name :: string
  assumes "cache_law C"
  defines "fill \<equiv> \<lambda>(svc :: cloud_service) (c, result). if cs_ID svc = [] then (c, result)
      else (cache_Set C (strings_ToLower (cs_Name svc)) (cs_ID svc) c, if EqualFold (cs_Name svc) name then cs_ID svc else result)"
  shows "snd (fold fill ss (c, [])) = (case project_named ss name of Some i \<Rightarrow> i | None \<Rightarrow> [])
    \<and> (\<forall>n i. cache_Get C n (fst (fold fill ss (c, []))) = Some i \<longrightarrow> strings_ToLower n = n \<longrightarrow>
        (case project_named ss n of Some j \<Rightarrow> i = j | None \<Rightarrow> cache_Get C n c = Some i))"
proof (induction ss rule: rev_induct)
  case Nil
  show ?case by (simp add: project_named_def)
next
  case (snoc s ss)
  obtain c' r' where run: "fold fill ss (c, []) = (c', r')" by fastforce
  have set: "cache_Get C n (cache_Set C k v c') = Some i \<Longrightarrow> (if n = k then i = v else cache_Get C n c' = Some i)" for n k v i
    using assms(1) unfolding cache_law_def by blast
  show ?case
  proof (cases "cs_ID s = []")
    case True
    then have "fold fill (ss @ [s]) (c, []) = (c', r')" by (simp add: run, simp add: fill_def)
    with snoc True show ?thesis by (simp add: run project_named_snoc)
  next
    case False
    have "case project_named (ss @ [s]) n of Some j \<Rightarrow> i = j | None \<Rightarrow> cache_Get C n c = Some i"
      if get: "cache_Get C n (cache_Set C (strings_ToLower (cs_Name s)) (cs_ID s) c') = Some i" and n: "strings_ToLower n = n" for n i
    proof (cases "n = strings_ToLower (cs_Name s)")
      case True
      with set [OF get] False n show ?thesis by (simp add: project_named_snoc EqualFold_def)
    next
      case other: False
      with set [OF get] n snoc have "case project_named ss n of Some j \<Rightarrow> i = j | None \<Rightarrow> cache_Get C n c = Some i"
        by (simp add: run)
      moreover have "\<not> EqualFold (cs_Name s) n" using other n by (simp add: EqualFold_def)
      ultimately show ?thesis by (simp add: project_named_snoc)
    qed
    moreover have "fold fill (ss @ [s]) (c, []) =
        (cache_Set C (strings_ToLower (cs_Name s)) (cs_ID s) c', if EqualFold (cs_Name s) name then cs_ID s else r')"
      using False by (simp add: run, simp add: fill_def)
    ultimately show ?thesis using snoc False by (auto simp: run project_named_snoc)
  qed
qed

text \<open>
  A name resolves to its project. Whatever a sound cache still remembers, the answer is the project
  that the cloud lists under the name, up to case, or an error when there is none; the cache stays sound.
\<close>

theorem project_name_resolved:
  assumes "cache_law C" "cache_sound C services c"
    and "\<forall>w. fc_GetServices cl w = (w, Inr services)"
  shows "\<exists>c'. GetServiceIDByName C cl name (c, w) =
      ((c', w), case project_named services name of Some i \<Rightarrow> Inr i | None \<Rightarrow> Inl (UnknownProject (strings_ToLower name)))
    \<and> cache_sound C services c'"
proof -
  have same: "project_named services (strings_ToLower name) = project_named services name"
    by (simp add: project_named_def EqualFold_def)
  have nonzero: "project_named services n = Some i \<Longrightarrow> i \<noteq> []" for n i
  proof (induction services rule: rev_induct)
    case (snoc s ss) then show ?case by (auto simp: project_named_snoc split: if_splits)
  qed (simp add: project_named_def)
  show ?thesis
  proof (cases "cache_Get C (strings_ToLower name) c")
    case (Some i)
    with assms(2) have "project_named services name = Some i" by (simp add: cache_sound_def same [symmetric])
    then show ?thesis using Some assms(2) by (simp add: GetServiceIDByName_def Let_def)
  next
    case None
    define fill where "fill = (\<lambda>(svc :: cloud_service) (c, result). if cs_ID svc = [] then (c, result)
      else (cache_Set C (strings_ToLower (cs_Name svc)) (cs_ID svc) c,
            if EqualFold (cs_Name svc) (strings_ToLower name) then cs_ID svc else result))"
    obtain c' r where run: "fold fill services (c, []) = (c', r)" by fastforce
    note filled = fill_cache [OF assms(1), of "strings_ToLower name" services c, folded fill_def, unfolded run fst_conv snd_conv]
    have "cache_sound C services c'"
      unfolding cache_sound_def
    proof (intro allI impI)
      fix n i assume n: "cache_Get C n c' = Some i" "strings_ToLower n = n"
      with filled have "case project_named services n of Some j \<Rightarrow> i = j | None \<Rightarrow> cache_Get C n c = Some i" by blast
      with n(2) assms(2) show "project_named services n = Some i"
        by (cases "project_named services n") (auto simp: cache_sound_def)
    qed
    moreover have "GetServiceIDByName C cl name (c, w) =
        ((c', w), case project_named services name of Some i \<Rightarrow> Inr i | None \<Rightarrow> Inl (UnknownProject (strings_ToLower name)))"
      using filled nonzero
      by (auto simp: GetServiceIDByName_def None assms(3) fill_def [symmetric] run same split: option.splits)
    ultimately show ?thesis by blast
  qed
qed

text \<open>A cache that remembers everything, for the witness.\<close>

definition map_cache :: "((string, 'v) fmap, 'v) cache_ops" where
  "map_cache = \<lparr>cache_Get = (\<lambda>k c. fmlookup c k), cache_Set = fmupd\<rparr>"

lemma map_cache_law: "cache_law map_cache"
  by (simp add: cache_law_def map_cache_def)

definition listed_service :: "service_id \<Rightarrow> string \<Rightarrow> cloud_service" where
  "listed_service i n = \<lparr>cs_ID = i, cs_Name = n, cs_PostmanMetaData = no_meta\<rparr>"

definition list_client :: "cloud_service list \<Rightarrow> unit front_client" where
  "list_client services = \<lparr>fc_GetServices = (\<lambda>w. (w, Inr services)), fc_GetService = (\<lambda>i w. (w, Inl (OtherError []))),
     fc_CreateService = (\<lambda>n k w. (w, Inl (OtherError [])))\<rparr>"

lemma project_name_resolved_witness:
  "snd (GetServiceIDByName map_cache (list_client [listed_service ''svc_1'' ''shop'', listed_service ''svc_2'' ''pay'']) ''shop'' (fmempty, ()))
     = Inr ''svc_1''"
  using project_name_resolved [OF map_cache_law, of "[listed_service ''svc_1'' ''shop'', listed_service ''svc_2'' ''pay'']" fmempty
      "list_client [listed_service ''svc_1'' ''shop'', listed_service ''svc_2'' ''pay'']" "''shop''" "()"]
  by (auto simp: cache_sound_def map_cache_def list_client_def project_named_def listed_service_def EqualFold_def strings_ToLower_def
      lower_char_def char_code_def)

section \<open>A collection gets one project\<close>

text \<open>
  The cloud as the code relies on it: listing changes nothing, creating a project either fails and
  changes nothing or adds the project with the collection asked for.
\<close>

definition cloud_law :: "'w front_client \<Rightarrow> ('w \<Rightarrow> cloud_service list) \<Rightarrow> bool" where
  "cloud_law cl services \<longleftrightarrow>
     (\<forall>w. fc_GetServices cl w = (w, Inr (services w)))
     \<and> (\<forall>n k w w' e. fc_CreateService cl n k w = (w', Inl e) \<longrightarrow> services w' = services w)
     \<and> (\<forall>n k w w' i. fc_CreateService cl n k w = (w', Inr i) \<longrightarrow>
          i \<noteq> [] \<and> (\<exists>s. services w' = services w @ [s] \<and> cs_ID s = i \<and> pm_CollectionID (cs_PostmanMetaData s) = k))"

definition collection_cache_sound :: "('c, service_id) cache_ops \<Rightarrow> cloud_service list \<Rightarrow> 'c \<Rightarrow> bool" where
  "collection_cache_sound C services c \<longleftrightarrow>
     (\<forall>k i. cache_Get C k c = Some i \<longrightarrow> strings_ToLower k = k \<longrightarrow> i \<noteq> [] \<and> collection_match k services = i)"

lemma collection_match_snoc:
  "collection_match k (ss @ [s]) =
     (if cs_ID s \<noteq> [] \<and> cs_PostmanMetaData s \<noteq> no_meta \<and> EqualFold k (strings_ToLower (pm_CollectionID (cs_PostmanMetaData s)))
      then cs_ID s else collection_match k ss)"
  by (simp add: collection_match_def)

lemma created_matches:
  assumes "cloud_law cl services" "fc_CreateService cl n k w = (w', Inr i)" "k \<noteq> []" "strings_ToLower k = k"
  shows "i \<noteq> [] \<and> collection_match k (services w') = i"
proof -
  obtain s where "services w' = services w @ [s]" "cs_ID s = i" "pm_CollectionID (cs_PostmanMetaData s) = k" "i \<noteq> []"
    using assms(1,2) unfolding cloud_law_def by blast
  with assms(3,4) show ?thesis by (auto simp: collection_match_snoc no_meta_def EqualFold_def)
qed

lemma get_or_create_found:
  assumes "cloud_law cl services" "collection_cache_sound C (services w) c" "collection_match (strings_ToLower k) (services w) = i" "i \<noteq> []"
  shows "\<exists>c'. GetOrCreateServiceIDByPostmanCollectionID C cl name k (c, w) = ((c', w), Inr i)"
  using assms
  by (auto simp: GetOrCreateServiceIDByPostmanCollectionID_def GetServiceIDByPostmanCollectionID_def Let_def cloud_law_def
      collection_cache_sound_def split: option.split)


definition growing_client :: "cloud_service list front_client" where
  "growing_client = \<lparr>fc_GetServices = (\<lambda>w. (w, Inr w)), fc_GetService = (\<lambda>i w. (w, Inl (OtherError []))),
     fc_CreateService = (\<lambda>n k w. (w @ [\<lparr>cs_ID = ''svc'' @ itoa (int (length w)), cs_Name = n,
        cs_PostmanMetaData = \<lparr>pm_CollectionID = k, pm_Environment = []\<rparr>\<rparr>], Inr (''svc'' @ itoa (int (length w)))))\<rparr>"

lemma growing_client_law: "cloud_law growing_client id"
  by (simp add: cloud_law_def growing_client_def)


end
