(* ===== verification/Apidump.thy ===== *)
theory Apidump
  imports Collector_Stack Apidump_Summary Interfaces Trace_Tags Service_Lookup
begin

text \<open>
  apidump/apidump.go, apidump/exec.go, apidump/error.go and location/location.go: a capture from the
  arguments to its result. The cloud, the network, the regular expressions, the operating system and the
  timing of what happens while the capture runs are arguments; messages are left out. The collectors that
  are started are values (\<open>planned\<close>), each of which runs as a stack of \<open>Collector_Stack\<close>.
\<close>

section \<open>Arguments\<close>

datatype object_type = TRACE | OtherObject string

record akita_uri =
  au_ServiceName :: string
  au_ObjectName :: string
  au_ObjectType :: "object_type option"

record location =
  lo_LocalPath :: "string option"
  lo_AkitaURI :: "akita_uri option"

definition no_location :: location where
  "no_location = \<lparr>lo_LocalPath = None, lo_AkitaURI = None\<rparr>"

text \<open>\<open>akiuri.Parse\<close> and the printing of a URI are akita-libs'.\<close>

definition location_String :: "(akita_uri \<Rightarrow> string) \<Rightarrow> location \<Rightarrow> string" where
  "location_String uri_String l =
     (case lo_LocalPath l of
        Some p \<Rightarrow> p
      | None \<Rightarrow> (case lo_AkitaURI l of Some u \<Rightarrow> uri_String u | None \<Rightarrow> []))"

definition location_Set :: "(string \<Rightarrow> akita_uri option) \<Rightarrow> string \<Rightarrow> location \<Rightarrow> location option" where
  "location_Set uri_Parse raw l =
     (if raw = [] then None
      else Some (case uri_Parse raw of
        Some u \<Rightarrow> l\<lparr>lo_AkitaURI := Some u\<rparr>
      | None \<Rightarrow> l\<lparr>lo_LocalPath := Some raw\<rparr>))"

definition location_IsSet :: "location \<Rightarrow> bool" where
  "location_IsSet l \<longleftrightarrow> lo_LocalPath l \<noteq> None \<or> lo_AkitaURI l \<noteq> None"

record apidump_args =
  ar_Out :: location
  ar_PostmanCollectionID :: string
  ar_ServiceID :: service_id
  ar_Interfaces :: "string list"
  ar_Filter :: string
  ar_Tags :: "tags option"
  ar_PathExclusions :: "string list"
  ar_HostExclusions :: "string list"
  ar_PathAllowlist :: "string list"
  ar_HostAllowlist :: "string list"
  ar_SampleRate :: rat
  ar_WitnessesPerMinute :: rat
  ar_ExecCommand :: string
  ar_ExecCommandUser :: string
  ar_LearnSessionLifetime :: duration
  ar_StatsLogDelay :: int
  ar_TelemetryInterval :: int
  ar_CollectTCPAndTLSReports :: bool
  ar_ParseTLSHandshakes :: bool
  ar_MaxWitnessSize_bytes :: int

definition TargetIsRemote :: "apidump_args \<Rightarrow> bool" where
  "TargetIsRemote args \<longleftrightarrow> lo_AkitaURI (ar_Out args) \<noteq> None \<or> ar_PostmanCollectionID args \<noteq> [] \<or> ar_ServiceID args \<noteq> []"

text \<open>
  \<open>lint\<close> removes empty patterns in place: the loop reads and writes one slice, \<open>i\<close> being the place of the
  next pattern that is kept.
\<close>

fun compact_loop :: "string list \<Rightarrow> nat \<Rightarrow> nat \<Rightarrow> nat \<Rightarrow> bool \<Rightarrow> string list \<times> nat \<times> bool" where
  "compact_loop xs j i 0 modified = (xs, i, modified)"
| "compact_loop xs j i (Suc n) modified =
     (if 0 < length (xs ! j) then compact_loop (xs[i := xs ! j]) (Suc j) (Suc i) n modified
      else compact_loop xs (Suc j) i n True)"

definition removeEmptyStrings :: "string list \<Rightarrow> string list \<times> bool" where
  "removeEmptyStrings xs =
     (case compact_loop xs 0 0 (length xs) False of (xs, i, modified) \<Rightarrow> (take i xs, modified))"

definition lint :: "apidump_args \<Rightarrow> apidump_args" where
  "lint args =
     args\<lparr>ar_PathExclusions := fst (removeEmptyStrings (ar_PathExclusions args)),
          ar_HostExclusions := fst (removeEmptyStrings (ar_HostExclusions args)),
          ar_PathAllowlist := fst (removeEmptyStrings (ar_PathAllowlist args)),
          ar_HostAllowlist := fst (removeEmptyStrings (ar_HostAllowlist args))\<rparr>"

section \<open>Errors\<close>

datatype error_type = OtherType | FromInterfaces apidump_error_type | InvalidFilters | TraceCreation

datatype run_error =
    LookupFailed lookup_error
  | NoInterfacesUsed iface_error
  | NoFilters iface_error
  | BadRegexp string string string
  | NotATraceURI
  | CannotRotate
  | NoBufferPool string
  | TraceLookup lookup_error
  | TraceNotCreated rest_error
  | LocalCollectorFailed string
  | InvalidOutput
  | AllInterfacesFailed
  | SubcommandFailed string
  | EmptyTrace

fun GetErrorTypeWithDefault :: "iface_error \<Rightarrow> error_type \<Rightarrow> error_type" where
  "GetErrorTypeWithDefault (ApidumpError t _) def = FromInterfaces t"
| "GetErrorTypeWithDefault _ def = def"

definition GetErrorType :: "iface_error \<Rightarrow> error_type" where
  "GetErrorType e = GetErrorTypeWithDefault e OtherType"

definition isBpfFilterError :: "string \<Rightarrow> bool" where
  "isBpfFilterError e = str_Contains e ''failed to set BPF filter''"

text \<open>
  What a step of the preparation gives: a value, or the error that \<open>Run\<close> returns, with the type under which
  it is reported to the cloud, if it is.
\<close>

type_synonym 'a attempt = "(error_type option \<times> run_error) + 'a"

definition then_do :: "'a attempt \<Rightarrow> ('a \<Rightarrow> 'b attempt) \<Rightarrow> 'b attempt" where
  "then_do a f = (case a of Inl e \<Rightarrow> Inl e | Inr x \<Rightarrow> f x)"

section \<open>The world of a capture\<close>

record apidump_env =
  ae_GetOrCreateService :: "string \<Rightarrow> lookup_error + service_id"
  ae_GetServiceName :: "service_id \<Rightarrow> lookup_error + string"
  ae_debug :: bool
  ae_dogfood :: bool
  ae_net :: net_env
  ae_key_order :: "string fset \<Rightarrow> string list"
  ae_ip_String :: "ip \<Rightarrow> string"
  ae_regexp_Compile :: "string \<Rightarrow> string + matcher"
  ae_random_name :: string
  ae_buffer_pool :: "string option"
  ae_NewLearnSession :: "service_id \<Rightarrow> string \<Rightarrow> tags \<Rightarrow> rest_error + string"
  ae_GetLearnSessionIDByName :: "service_id \<Rightarrow> string \<Rightarrow> lookup_error + string"
  ae_createLocalCollector :: "string \<Rightarrow> string \<Rightarrow> string option"
  ae_sources :: source_names
  ae_ci_libs :: ci_libs
  ae_environment :: environment
  ae_domain :: string

section \<open>Preparation\<close>

text \<open>\<open>LookupService\<close>: the backend service and its name.\<close>

definition LookupService :: "apidump_env \<Rightarrow> apidump_args \<Rightarrow> (service_id \<times> string) attempt" where
  "LookupService env args =
     (if \<not> TargetIsRemote args then Inr ([], [])
      else if ar_PostmanCollectionID args \<noteq> [] then
        (case ae_GetOrCreateService env (ar_PostmanCollectionID args) of
           Inl e \<Rightarrow> Inl (None, LookupFailed e)
         | Inr svc \<Rightarrow> Inr (svc, ''Postman_Collection_'' @ ar_PostmanCollectionID args))
      else
        (case ae_GetServiceName env (ar_ServiceID args) of
           Inl e \<Rightarrow> Inl (None, LookupFailed e)
         | Inr name \<Rightarrow> Inr (ar_ServiceID args, name)))"

fun compileRegexps :: "(string \<Rightarrow> string + matcher) \<Rightarrow> string list \<Rightarrow> string \<Rightarrow> run_error + matcher list" where
  "compileRegexps compile [] name = Inr []"
| "compileRegexps compile (f # fs) name =
     (case compile f of
        Inl e \<Rightarrow> Inl (BadRegexp name f e)
      | Inr r \<Rightarrow> (case compileRegexps compile fs name of Inl e \<Rightarrow> Inl e | Inr rs \<Rightarrow> Inr (r # rs)))"

definition compile_attempt :: "apidump_env \<Rightarrow> string list \<Rightarrow> string \<Rightarrow> matcher list attempt" where
  "compile_attempt env fs name =
     (case compileRegexps (ae_regexp_Compile env) fs name of
        Inl e \<Rightarrow> Inl (Some InvalidFilters, e) | Inr rs \<Rightarrow> Inr rs)"

text \<open>The output, with the missing parts of its URI filled in.\<close>

definition complete_output :: "apidump_env \<Rightarrow> apidump_args \<Rightarrow> string \<Rightarrow> location attempt" where
  "complete_output env args backendSvcName =
     (case lo_AkitaURI (ar_Out args) of
        Some uri \<Rightarrow>
          if au_ObjectType uri \<noteq> None \<and> au_ObjectType uri \<noteq> Some TRACE then Inl (None, NotATraceURI)
          else let uri = uri\<lparr>au_ObjectType := Some TRACE\<rparr>
            in if au_ObjectName uri = [] then Inr ((ar_Out args)\<lparr>lo_AkitaURI := Some (uri\<lparr>au_ObjectName := ae_random_name env\<rparr>)\<rparr>)
               else if ar_LearnSessionLifetime args \<noteq> 0 then Inl (None, CannotRotate)
               else Inr ((ar_Out args)\<lparr>lo_AkitaURI := Some uri\<rparr>)
      | None \<Rightarrow>
          if ar_PostmanCollectionID args \<noteq> [] \<or> ar_ServiceID args \<noteq> []
          then Inr ((ar_Out args)\<lparr>lo_AkitaURI := Some
                 \<lparr>au_ServiceName = backendSvcName, au_ObjectName = ae_random_name env, au_ObjectType = Some TRACE\<rparr>\<rparr>)
          else Inr (ar_Out args))"

text \<open>The shared trace; an error of HTTP is found through its wrapping. A name that exists is used again.\<close>

definition backend_trace :: "apidump_env \<Rightarrow> apidump_args \<Rightarrow> service_id \<Rightarrow> tags \<Rightarrow> location \<Rightarrow> string attempt" where
  "backend_trace env args backendSvc traceTags out =
     (if \<not> TargetIsRemote args then Inr []
      else case lo_AkitaURI out of
        None \<Rightarrow> Inr []
      | Some uri \<Rightarrow>
          (case ae_NewLearnSession env backendSvc (au_ObjectName uri) traceTags of
             Inr lrn \<Rightarrow> Inr lrn
           | Inl (HTTPError status message) \<Rightarrow>
               if status = 409 then
                 (case ae_GetLearnSessionIDByName env backendSvc (au_ObjectName uri) of
                    Inl e \<Rightarrow> Inl (None, TraceLookup e) | Inr lrn \<Rightarrow> Inr lrn)
               else Inl (Some TraceCreation, TraceNotCreated (HTTPError status message))
           | Inl e \<Rightarrow> Inl (Some TraceCreation, TraceNotCreated e)))"

text \<open>A collector that is started: its interface, its filter, how its stack is built and its sink.\<close>

record planned =
  pl_interface :: string
  pl_filter :: string
  pl_stack :: stack_config
  pl_sink :: sink

definition stack_config_of ::
  "apidump_env \<Rightarrow> apidump_args \<Rightarrow> matcher list \<Rightarrow> matcher list \<Rightarrow> matcher list \<Rightarrow> matcher list \<Rightarrow> bool \<Rightarrow> stack_config" where
  "stack_config_of env args pathExcl hostExcl pathAllow hostAllow matched =
     \<lparr>sc_matched = matched, sc_SampleRate = ar_SampleRate args, sc_rateLimited = (ar_WitnessesPerMinute args \<noteq> 0),
      sc_hostExclusions = hostExcl, sc_pathExclusions = pathExcl, sc_hostAllowlist = hostAllow, sc_pathAllowlist = pathAllow,
      sc_dogfood = ae_dogfood env, sc_domain = ae_domain env, sc_CollectTCPAndTLSReports = ar_CollectTCPAndTLSReports args\<rparr>"

text \<open>The loops over the filters: first all interfaces with the user's filter, then those with its negation.\<close>

fun plan_collectors :: "apidump_env \<Rightarrow> location \<Rightarrow> stack_config \<Rightarrow> (string \<times> string) list \<Rightarrow> planned list attempt" where
  "plan_collectors env out cfg [] = Inr []"
| "plan_collectors env out cfg ((interfaceName, bpf) # rest) =
     (let localError = (if sc_matched cfg then Option.bind (lo_LocalPath out) (ae_createLocalCollector env interfaceName) else None)
      in case localError of
           Some e \<Rightarrow> Inl (None, LocalCollectorFailed e)
         | None \<Rightarrow>
             (case choose_sink (sc_matched cfg) (lo_AkitaURI out \<noteq> None) (lo_LocalPath out \<noteq> None) of
                None \<Rightarrow> Inl (None, InvalidOutput)
              | Some sink \<Rightarrow>
                  then_do (plan_collectors env out cfg rest) (\<lambda>ps. Inr
                    (\<lparr>pl_interface = interfaceName, pl_filter = bpf, pl_stack = cfg, pl_sink = sink\<rparr> # ps))))"

definition entries_of :: "apidump_env \<Rightarrow> (string, string) fmap \<Rightarrow> (string \<times> string) list" where
  "entries_of env m = map (\<lambda>k. (k, the (fmlookup m k))) (ae_key_order env (fmdom m))"

record prepared =
  pp_backendSvc :: service_id
  pp_session :: string
  pp_output :: location
  pp_interfaces :: "(string, interface_info) fmap"
  pp_collectors :: "planned list"
  pp_toRotate :: nat

definition eligible_attempt :: "apidump_env \<Rightarrow> apidump_args \<Rightarrow> (string, interface_info) fmap attempt" where
  "eligible_attempt env args =
     (case getEligibleInterfaces (ae_net env) (ae_key_order env) (ar_Interfaces args) of
        Inl e \<Rightarrow> Inl (Some (GetErrorTypeWithDefault e (FromInterfaces PCAPInterfaceOther)), NoInterfacesUsed e)
      | Inr interfaces \<Rightarrow> Inr interfaces)"

definition filters_attempt ::
  "apidump_env \<Rightarrow> apidump_args \<Rightarrow> (string, interface_info) fmap \<Rightarrow> ((string, string) fmap \<times> (string, string) fmap) attempt" where
  "filters_attempt env args interfaces =
     (case createBPFFilters (ae_ip_String env) (ae_key_order env (fmdom interfaces)) interfaces (ar_Filter args) (ae_debug env) 0 of
        Inl e \<Rightarrow> Inl (Some InvalidFilters, NoFilters e)
      | Inr filters \<Rightarrow> Inr filters)"

definition prepare :: "apidump_env \<Rightarrow> apidump_args \<Rightarrow> prepared attempt" where
  "prepare env args =
     then_do (LookupService env args) (\<lambda>service.
     then_do (eligible_attempt env args) (\<lambda>interfaces.
     then_do (filters_attempt env args interfaces) (\<lambda>filters.
     then_do (compile_attempt env (ar_PathExclusions args) ''path exclusion'') (\<lambda>pathExclusions.
     then_do (compile_attempt env (ar_HostExclusions args) ''host exclusion'') (\<lambda>hostExclusions.
     then_do (compile_attempt env (ar_PathAllowlist args) ''path filter'') (\<lambda>pathAllowlist.
     then_do (compile_attempt env (ar_HostAllowlist args) ''host filter'') (\<lambda>hostAllowlist.
     then_do (complete_output env args (snd service)) (\<lambda>out.
     then_do (case ae_buffer_pool env of Some e \<Rightarrow> Inl (None, NoBufferPool e) | None \<Rightarrow> Inr ()) (\<lambda>_.
     then_do (backend_trace env args (fst service)
         (collectTraceTags (ae_sources env) (ae_ci_libs env) (ae_environment env) (ar_Interfaces args) (ar_Filter args) (ar_Tags args)) out) (\<lambda>backendLrn.
     then_do (plan_collectors env out (stack_config_of env args pathExclusions hostExclusions pathAllowlist hostAllowlist True)
         (entries_of env (fst filters))) (\<lambda>matched.
     then_do (plan_collectors env out (stack_config_of env args pathExclusions hostExclusions pathAllowlist hostAllowlist False)
         (entries_of env (snd filters))) (\<lambda>negated.
     Inr \<lparr>pp_backendSvc = fst service, pp_session = backendLrn, pp_output = out, pp_interfaces = interfaces,
          pp_collectors = matched @ negated,
          pp_toRotate = length (filter (\<lambda>p. pl_sink p = BackendSink \<or> pl_sink p = TeeSink) matched)\<rparr>))))))))))))"

section \<open>While the capture runs\<close>

text \<open>
  The \<open>select\<close> loop without a subcommand: a signal ends it, and so does an error when as many interfaces
  have one as there are collectors. \<open>None\<close> says that it still waits after these events.
\<close>

datatype wait_event = SignalReceived | CollectorFailed string string

type_synonym errors_by_interface = "(string, string) fmap"

fun wait_for_signal :: "nat \<Rightarrow> errors_by_interface \<Rightarrow> wait_event list \<Rightarrow> errors_by_interface option" where
  "wait_for_signal numCollectors errs [] = None"
| "wait_for_signal numCollectors errs (SignalReceived # evs) = Some errs"
| "wait_for_signal numCollectors errs (CollectorFailed n e # evs) =
     (let errs = fmupd n e errs
      in if map_len errs < numCollectors then wait_for_signal numCollectors errs evs else Some errs)"

text \<open>With a subcommand: the errors that are there when it has ended, unless it failed itself.\<close>

definition after_subcommand :: "string option \<Rightarrow> (string \<times> string) list \<Rightarrow> errors_by_interface \<times> string option" where
  "after_subcommand cmdErr errors =
     (case cmdErr of
        Some e \<Rightarrow> (fmempty, Some e)
      | None \<Rightarrow> (fold (\<lambda>(n, e) errs. fmupd n e errs) errors fmempty, None))"

text \<open>
  The end of \<open>Run\<close>: \<open>order\<close> visits the errors, the first one about a filter is reported. The summary is
  that of the counters when all collectors have stopped.
\<close>

definition filter_error_reports :: "string list \<Rightarrow> errors_by_interface \<Rightarrow> error_type list" where
  "filter_error_reports order errs =
     fst (fold (\<lambda>n (sent, reported).
        case fmlookup errs n of
          Some e \<Rightarrow> if isBpfFilterError e \<and> \<not> reported then (sent @ [InvalidFilters], True) else (sent, reported)
        | None \<Rightarrow> (sent, reported)) order ([], False))"

definition finish_capture ::
  "nat \<Rightarrow> string list \<Rightarrow> errors_by_interface \<Rightarrow> string option \<Rightarrow> apidump_summary \<Rightarrow> error_type list \<times> run_error option" where
  "finish_capture numCollectors order errs subcmdErr dumpSummary =
     (filter_error_reports order errs,
      if 0 < map_len errs \<and> map_len errs = numCollectors then Some AllInterfacesFailed
      else case subcmdErr of
        Some e \<Rightarrow> Some (SubcommandFailed e)
      | None \<Rightarrow> if IsEmpty dumpSummary then Some EmptyTrace else None)"

text \<open>
  What happens during a capture: the events for the loop, or the outcome of the subcommand and the errors
  that were pending then; and the summary in the end.
\<close>

record happening =
  hp_events :: "wait_event list"
  hp_cmdErr :: "string option"
  hp_pending :: "(string \<times> string) list"
  hp_summary :: apidump_summary

text \<open>
  \<open>Run\<close> of a session: the types of the errors reported to the cloud, which only happens for a remote
  target, and the result; \<open>None\<close> when it has not returned.
\<close>

definition send_reports :: "apidump_args \<Rightarrow> error_type list \<Rightarrow> error_type list" where
  "send_reports args ts = (if TargetIsRemote args then ts else [])"

definition session_Run :: "apidump_env \<Rightarrow> apidump_args \<Rightarrow> happening \<Rightarrow> (error_type list \<times> run_error option) option" where
  "session_Run env args h =
     (case prepare env args of
        Inl (report, e) \<Rightarrow> Some (send_reports args (case report of Some t \<Rightarrow> [t] | None \<Rightarrow> []), Some e)
      | Inr p \<Rightarrow>
          (let numCollectors = length (pp_collectors p);
               ended = (if ar_ExecCommand args \<noteq> []
                  then Some (after_subcommand (hp_cmdErr h) (hp_pending h))
                  else map_option (\<lambda>errs. (errs, None)) (wait_for_signal numCollectors fmempty (hp_events h)))
           in case ended of
                None \<Rightarrow> None
              | Some (errs, subcmdErr) \<Rightarrow>
                  (case finish_capture numCollectors (ae_key_order env (fmdom errs)) errs subcmdErr (hp_summary h) of
                     (reports, r) \<Rightarrow> Some (send_reports args reports, r))))"

definition apidump_Run :: "apidump_env \<Rightarrow> apidump_args \<Rightarrow> happening \<Rightarrow> (error_type list \<times> run_error option) option" where
  "apidump_Run env args h = session_Run env (lint args) h"

section \<open>Workers\<close>

text \<open>
  \<open>RotateLearnSession\<close>: at each tick a new trace is made; if that works, all backend collectors switch to
  it. The loop ends when \<open>done\<close> is closed.
\<close>

datatype rotate_event = RotateTick "rest_error + string" | RotateDone

fun RotateLearnSession :: "rotate_event list \<Rightarrow> ('p, 'id) backend list \<Rightarrow> ('p, 'id) backend list" where
  "RotateLearnSession [] cs = cs"
| "RotateLearnSession (RotateDone # evs) cs = cs"
| "RotateLearnSession (RotateTick r # evs) cs =
     (case r of
        Inl _ \<Rightarrow> RotateLearnSession evs cs
      | Inr backendLrn \<Rightarrow> RotateLearnSession evs (map (SwitchLearnSession backendLrn) cs))"

text \<open>
  \<open>TelemetryWorker\<close>: what it does, in order. A packet report carries the duration in seconds; the
  initial one the delay, under which the cloud keeps the report sent after the delay.
\<close>

datatype telemetry_act = SendInitialTelemetry int | PrintPacketCountsAndWarnings | SendPacketTelemetry int

datatype telemetry_tick = TelemetryTick instant | TelemetryDone

fun telemetry_ticks :: "instant \<Rightarrow> telemetry_tick list \<Rightarrow> telemetry_act list" where
  "telemetry_ticks startTime [] = []"
| "telemetry_ticks startTime (TelemetryDone # evs) = []"
| "telemetry_ticks startTime (TelemetryTick now # evs) =
     SendPacketTelemetry ((now - startTime) div seconds 1) # telemetry_ticks startTime evs"

definition TelemetryWorker :: "apidump_args \<Rightarrow> instant \<Rightarrow> telemetry_tick list \<Rightarrow> telemetry_act list" where
  "TelemetryWorker args startTime evs =
     (if ar_StatsLogDelay args \<le> 0 \<and> ar_TelemetryInterval args \<le> 0 then []
      else [SendInitialTelemetry (ar_StatsLogDelay args)]
        @ (if 0 < ar_StatsLogDelay args then [PrintPacketCountsAndWarnings, SendPacketTelemetry (ar_StatsLogDelay args)] else [])
        @ (if 0 < ar_TelemetryInterval args then telemetry_ticks startTime evs else []))"

section \<open>Local output and subcommands\<close>

text \<open>
  \<open>createLocalCollector\<close>: what \<open>os.Stat\<close> says about the path (nothing there, or whether it is a
  directory), whether a test file can be written, and whether the directory can be made.
\<close>

definition createLocalCollector :: "bool option \<Rightarrow> string option \<Rightarrow> string option \<Rightarrow> string \<Rightarrow> string option" where
  "createLocalCollector stat writeErr mkdirErr outDir =
     (case stat of
        Some isDir \<Rightarrow>
          if \<not> isDir then Some (outDir @ '' is not a directory'')
          else map_option (\<lambda>e. ''cannot access directory '' @ outDir @ '': '' @ e) writeErr
      | None \<Rightarrow> map_option (\<lambda>e. ''failed to create directory '' @ outDir @ '': '' @ e) mkdirErr)"

record os_user =
  ou_Uid :: string
  ou_Gid :: string
  ou_Name :: string

fun strings_Split_from :: "char \<Rightarrow> string \<Rightarrow> string \<Rightarrow> string list" where
  "strings_Split_from sep acc [] = [acc]"
| "strings_Split_from sep acc (c # cs) = (if c = sep then acc # strings_Split_from sep [] cs else strings_Split_from sep (acc @ [c]) cs)"

definition strings_Split :: "string \<Rightarrow> char \<Rightarrow> string list" where
  "strings_Split s sep = strings_Split_from sep [] s"

datatype command_error = NoSuchUser string | BadUid string | BadGid string | ImplicitRoot | EmptyCommand | ProcessFailed string

record command =
  co_args :: "string list"
  co_uid :: u32
  co_gid :: u32

text \<open>\<open>strconv.Atoi\<close> is the argument \<open>atoi\<close>, starting the process and waiting for it \<open>exec\<close>.\<close>

definition runCommand ::
  "(string \<Rightarrow> int option) \<Rightarrow> os_user option \<Rightarrow> (string \<Rightarrow> os_user option) \<Rightarrow> (command \<Rightarrow> string option) \<Rightarrow> string \<Rightarrow> string
     \<Rightarrow> command option \<times> command_error option" where
  "runCommand atoi current lookup exec username c =
     (case (if username = [] then current else lookup username) of
        None \<Rightarrow> (None, Some (NoSuchUser username))
      | Some runUser \<Rightarrow>
          (case atoi (ou_Uid runUser) of
             None \<Rightarrow> (None, Some (BadUid (ou_Name runUser)))
           | Some uid \<Rightarrow>
               (case atoi (ou_Gid runUser) of
                  None \<Rightarrow> (None, Some (BadGid (ou_Name runUser)))
                | Some gid \<Rightarrow>
                    if username = [] \<and> uid = 0 then (None, Some ImplicitRoot)
                    else let args = strings_Split c (CHR '' '')
                      in if args = [] then (None, Some EmptyCommand)
                         else let cmd = \<lparr>co_args = args, co_uid = word_of_int uid, co_gid = word_of_int gid\<rparr>
                           in (Some cmd, map_option ProcessFailed (exec cmd)))))"

section \<open>Patterns\<close>

lemma compact_loop_filter:
  "i \<le> j \<Longrightarrow> j + n = length xs \<Longrightarrow>
   (case compact_loop xs j i n m of (ys, k, m') \<Rightarrow> take k ys = take i xs @ filter (\<lambda>x. x \<noteq> []) (drop j xs)
      \<and> m' = (m \<or> [] \<in> set (drop j xs)))"
proof (induction n arbitrary: xs j i m)
  case (Suc n)
  have j: "j < length xs" using Suc.prems by simp
  then have drop: "drop j xs = xs ! j # drop (Suc j) xs" by (rule Cons_nth_drop_Suc [symmetric])
  show ?case
  proof (cases "xs ! j = []")
    case True
    with Suc.IH [of i "Suc j" xs True] Suc.prems drop show ?thesis by (auto split: prod.splits)
  next
    case False
    have "drop (Suc j) (xs[i := xs ! j]) = drop (Suc j) xs" "take (Suc i) (xs[i := xs ! j]) = take i xs @ [xs ! j]"
      using Suc.prems j by (simp_all add: take_Suc_conv_app_nth)
    with Suc.IH [of "Suc i" "Suc j" "xs[i := xs ! j]" m] Suc.prems drop False show ?thesis by (auto split: prod.splits)
  qed
qed simp

text \<open>Compacting in place is filtering.\<close>

lemma removeEmptyStrings_filter: "removeEmptyStrings xs = (filter (\<lambda>x. x \<noteq> []) xs, [] \<in> set xs)"
  using compact_loop_filter [of 0 0 "length xs" xs False] by (auto simp: removeEmptyStrings_def split: prod.splits)

section \<open>The collectors of a capture\<close>

text \<open>The order in which the keys of a map are visited lists each of them once.\<close>

definition visits :: "(string fset \<Rightarrow> string list) \<Rightarrow> bool" where
  "visits order \<longleftrightarrow> (\<forall>S. distinct (order S) \<and> set (order S) = fset S)"

lemma visits_length: "visits order \<Longrightarrow> length (order S) = fcard S"
  by (metis distinct_card fcard.rep_eq visits_def)

lemma then_doE:
  assumes "then_do a f = Inr y"
  obtains x where "a = Inr x" "f x = Inr y"
  using assms by (cases a) (auto simp: then_do_def)

lemma planned_collectors:
  "plan_collectors env out cfg fs = Inr ps \<Longrightarrow>
     map (\<lambda>p. (pl_interface p, pl_filter p)) ps = fs
     \<and> (\<forall>p \<in> set ps. pl_stack p = cfg \<and>
          choose_sink (sc_matched cfg) (lo_AkitaURI out \<noteq> None) (lo_LocalPath out \<noteq> None) = Some (pl_sink p))"
  by (induction env out cfg fs arbitrary: ps rule: plan_collectors.induct)
    (auto simp: Let_def split: option.splits elim!: then_doE)

text \<open>What a preparation that succeeds has done.\<close>

lemma prepareE:
  assumes "prepare env args = Inr p"
  obtains interfaces filters matched negated out pe he pa ha where
    "eligible_attempt env args = Inr interfaces" "filters_attempt env args interfaces = Inr filters"
    "plan_collectors env out (stack_config_of env args pe he pa ha True) (entries_of env (fst filters)) = Inr matched"
    "plan_collectors env out (stack_config_of env args pe he pa ha False) (entries_of env (snd filters)) = Inr negated"
    "pp_interfaces p = interfaces" "pp_collectors p = matched @ negated" "pp_output p = out"
  using assms unfolding prepare_def
  by (elim then_doE) (rule that, assumption+, auto)

lemma filters_of_interfaces:
  assumes "filters_attempt env args interfaces = Inr filters"
  shows "fst filters = fmmap (\<lambda>_. ar_Filter args) interfaces"
    and "fmdom (snd filters) = (if ae_debug env \<and> ar_Filter args \<noteq> [] then fmdom interfaces else {||})"
proof -
  have "fmdom (fmfilter (\<lambda>n. fmlookup (fmmap (\<lambda>_. f) interfaces) n \<noteq> Some []) (fmmap (\<lambda>_. f) interfaces)) = fmdom interfaces"
    if "f \<noteq> []" for f :: string using that by (auto simp: fmfilter_alt_defs intro!: fmdomI) 
  with assms show "fst filters = fmmap (\<lambda>_. ar_Filter args) interfaces"
    "fmdom (snd filters) = (if ae_debug env \<and> ar_Filter args \<noteq> [] then fmdom interfaces else {||})"
    by (auto simp: filters_attempt_def createBPFFilters_def getInboundBPFFilter_def split: if_splits)
qed

lemma filter_entries_keys: "visits (ae_key_order env) \<Longrightarrow> map fst (entries_of env m) = ae_key_order env (fmdom m)"
  by (simp add: entries_of_def comp_def)

lemma collectors_interfaces:
  assumes "plan_collectors env out cfg (entries_of env m) = Inr ps" "visits (ae_key_order env)"
  shows "map pl_interface ps = ae_key_order env (fmdom m)" "length ps = map_len m"
    "c \<in> set ps \<Longrightarrow> pl_filter c = the (fmlookup m (pl_interface c)) \<and> pl_interface c |\<in>| fmdom m"
proof -
  note planned = planned_collectors [OF assms(1)]
  then have "map fst (map (\<lambda>p. (pl_interface p, pl_filter p)) ps) = map fst (entries_of env m)" by simp
  then show keys: "map pl_interface ps = ae_key_order env (fmdom m)" using filter_entries_keys [OF assms(2)] by (simp add: comp_def)
  then have "length ps = length (ae_key_order env (fmdom m))" by (metis length_map)
  then show "length ps = map_len m" using visits_length [OF assms(2)] by simp
  assume c: "c \<in> set ps"
  then have "(pl_interface c, pl_filter c) \<in> set (entries_of env m)" using planned by (metis (no_types, lifting) image_eqI list.set_map)
  moreover have "pl_interface c \<in> set (ae_key_order env (fmdom m))" using c keys by (metis image_eqI list.set_map)
  ultimately show "pl_filter c = the (fmlookup m (pl_interface c)) \<and> pl_interface c |\<in>| fmdom m"
    using assms(2) by (auto simp: entries_of_def visits_def)
qed

lemma planned_sink:
  assumes "plan_collectors env out (stack_config_of env args pe he pa ha b) fs = Inr ps" "c \<in> set ps"
  shows "sc_matched (pl_stack c) = b" "b = (pl_sink c \<noteq> DummySink)"
proof -
  have "pl_stack c = stack_config_of env args pe he pa ha b"
    and "choose_sink b (lo_AkitaURI out \<noteq> None) (lo_LocalPath out \<noteq> None) = Some (pl_sink c)"
    using planned_collectors [OF assms(1)] assms(2) by (auto simp: stack_config_of_def)
  then show "sc_matched (pl_stack c) = b" "b = (pl_sink c \<noteq> DummySink)"
    by (auto simp: stack_config_of_def choose_sink_def split: if_splits)
qed

lemma map_len_pos:
  assumes "m \<noteq> fmempty"
  shows "0 < map_len m"
proof (rule ccontr)
  assume "\<not> 0 < map_len m"
  then have "fset (fmdom m) = {}" by (simp add: fcard.rep_eq)
  then have "m = fmempty" by (intro fmap_ext) (metis empty_iff fmdom_notD fmempty_lookup)
  with assms show False by simp
qed

text \<open>
  C24: every interface that is listened to gets one collector with the user's filter, whose sink is the
  cloud or the local output; the collectors of the negated filter, which only count for debugging, have
  no sink.
\<close>

theorem one_collector_per_interface:
  assumes "prepare env args = Inr p" "visits (ae_key_order env)"
  shows "distinct (map pl_interface (filter (\<lambda>c. sc_matched (pl_stack c)) (pp_collectors p)))
    \<and> set (map pl_interface (filter (\<lambda>c. sc_matched (pl_stack c)) (pp_collectors p))) = fset (fmdom (pp_interfaces p))
    \<and> (\<forall>c \<in> set (pp_collectors p).
         if sc_matched (pl_stack c) then pl_filter c = ar_Filter args \<and> pl_sink c \<noteq> DummySink else pl_sink c = DummySink)"
proof -
  obtain interfaces filters matched negated out pe he pa ha where
    parts: "filters_attempt env args interfaces = Inr filters"
      "plan_collectors env out (stack_config_of env args pe he pa ha True) (entries_of env (fst filters)) = Inr matched"
      "plan_collectors env out (stack_config_of env args pe he pa ha False) (entries_of env (snd filters)) = Inr negated"
    and p: "pp_interfaces p = interfaces" "pp_collectors p = matched @ negated"
    by (rule prepareE [OF assms(1)]) blast
  have m: "sc_matched (pl_stack c) \<and> pl_sink c \<noteq> DummySink" if "c \<in> set matched" for c
    using planned_sink [OF parts(2) that] by simp
  have n: "\<not> sc_matched (pl_stack c) \<and> pl_sink c = DummySink" if "c \<in> set negated" for c
    using planned_sink [OF parts(3) that] by simp
  have split: "filter (\<lambda>c. sc_matched (pl_stack c)) (matched @ negated) = matched"
    using m n by simp
  have "pl_filter c = ar_Filter args" if "c \<in> set matched" for c
  proof -
    have "pl_filter c = the (fmlookup (fmmap (\<lambda>_. ar_Filter args) interfaces) (pl_interface c))"
      and "pl_interface c |\<in>| fmdom interfaces"
      using collectors_interfaces(3) [OF parts(2) assms(2) that] by (simp_all add: filters_of_interfaces(1) [OF parts(1)])
    then show ?thesis by (auto simp: fmlookup_dom_iff)
  qed
  moreover have "map pl_interface matched = ae_key_order env (fmdom interfaces)"
    using collectors_interfaces(1) [OF parts(2) assms(2)] by (simp add: filters_of_interfaces(1) [OF parts(1)])
  ultimately show ?thesis
    unfolding p split using assms(2) m n by (auto simp: visits_def)
qed

section \<open>How a capture ends\<close>

lemma wait_still:
  assumes "\<forall>ev \<in> set evs. \<exists>n e. ev = CollectorFailed n e \<and> n |\<in>| S" "fcard S < k"
  shows "fmdom errs |\<subseteq>| S \<Longrightarrow> wait_for_signal k errs evs = None"
  using assms(1)
proof (induction evs arbitrary: errs)
  case (Cons ev evs)
  then obtain n e where ev: "ev = CollectorFailed n e" "n |\<in>| S" by auto
  have sub: "fmdom (fmupd n e errs) |\<subseteq>| S" using ev(2) Cons.prems(1) by auto
  then have "map_len (fmupd n e errs) < k" using assms(2) fcard_mono [OF sub] by simp
  with Cons.IH [OF sub] Cons.prems(2) show ?case by (simp add: ev(1) Let_def)
qed simp

lemma wait_ends:
  assumes "\<forall>ev \<in> set evs. \<exists>n e. ev = CollectorFailed n e \<and> n |\<in>| S" "fcard S = k"
    and "\<forall>n. n |\<in>| S \<longrightarrow> n |\<in>| fmdom errs \<or> (\<exists>e. CollectorFailed n e \<in> set evs)"
    and "fmdom errs |\<subseteq>| S" "map_len errs < k"
  shows "\<exists>errs'. wait_for_signal k errs evs = Some errs' \<and> map_len errs' = k"
  using assms(1,3,4,5)
proof (induction evs arbitrary: errs)
  case Nil
  then have "fmdom errs = S" by auto
  with Nil assms(2) show ?case by simp
next
  case (Cons ev evs)
  then obtain n e where ev: "ev = CollectorFailed n e" "n |\<in>| S" by auto
  have sub: "fmdom (fmupd n e errs) |\<subseteq>| S" using ev(2) Cons.prems(3) by auto
  then have le: "map_len (fmupd n e errs) \<le> k" using assms(2) fcard_mono by metis
  show ?case
  proof (cases "map_len (fmupd n e errs) < k")
    case True
    have "\<forall>n'. n' |\<in>| S \<longrightarrow> n' |\<in>| fmdom (fmupd n e errs) \<or> (\<exists>e. CollectorFailed n' e \<in> set evs)"
      using Cons.prems(2) by (auto simp: ev(1))
    then obtain errs' where "wait_for_signal k (fmupd n e errs) evs = Some errs'" "map_len errs' = k"
      using Cons.IH [of "fmupd n e errs"] Cons.prems(1) sub True by auto
    with True show ?thesis by (simp add: ev(1) Let_def)
  next
    case False
    with le show ?thesis by (simp add: ev(1) Let_def)
  qed
qed

lemma number_of_collectors:
  assumes "prepare env args = Inr p" "visits (ae_key_order env)"
  shows "length (pp_collectors p) =
    (if ae_debug env \<and> ar_Filter args \<noteq> [] then 2 * map_len (pp_interfaces p) else map_len (pp_interfaces p))"
proof -
  obtain interfaces filters matched negated out pe he pa ha where
    parts: "filters_attempt env args interfaces = Inr filters"
      "plan_collectors env out (stack_config_of env args pe he pa ha True) (entries_of env (fst filters)) = Inr matched"
      "plan_collectors env out (stack_config_of env args pe he pa ha False) (entries_of env (snd filters)) = Inr negated"
    and p: "pp_interfaces p = interfaces" "pp_collectors p = matched @ negated"
    by (rule prepareE [OF assms(1)]) blast
  show ?thesis
    using collectors_interfaces(2) [OF parts(2) assms(2)] collectors_interfaces(2) [OF parts(3) assms(2)]
    by (simp add: p filters_of_interfaces [OF parts(1)])
qed


text \<open>
  A debugged capture does not end so. With a filter and debugging there are two collectors per
  interface, but errors are kept by interface: however many of them fail, \<open>Run\<close> waits on.
\<close>

theorem debugged_capture_hangs:
  assumes "prepare env args = Inr p" "visits (ae_key_order env)" "ar_ExecCommand args = []"
    and "ae_debug env" "ar_Filter args \<noteq> []" "pp_interfaces p \<noteq> fmempty"
    and "\<forall>ev \<in> set (hp_events h). \<exists>n e. ev = CollectorFailed n e \<and> n |\<in>| fmdom (pp_interfaces p)"
  shows "session_Run env args h = None"
proof -
  have pos: "0 < map_len (pp_interfaces p)"
    using assms(6) by (rule map_len_pos)
  have k: "length (pp_collectors p) = 2 * map_len (pp_interfaces p)"
    using number_of_collectors [OF assms(1,2)] assms(4,5) by simp
  have "wait_for_signal (length (pp_collectors p)) fmempty (hp_events h) = None"
    by (rule wait_still [OF assms(7)]) (use k pos in auto)
  with assms(1,3) show ?thesis by (simp add: session_Run_def Let_def)
qed

section \<open>A capture on one interface\<close>

definition demo_apidump_env :: "bool \<Rightarrow> apidump_env" where
  "demo_apidump_env debug =
     \<lparr>ae_GetOrCreateService = (\<lambda>k. Inr ''svc''), ae_GetServiceName = (\<lambda>i. Inr ''shop''), ae_debug = debug, ae_dogfood = False,
      ae_net = \<lparr>ne_InterfaceByName = (\<lambda>n. Inr \<lparr>ni_Name = n, ni_up = True, ni_Addrs = Inr [IPAddr [10, 0, 0, 1]]\<rparr>),
        ne_Interfaces = Inr [], ne_OpenLive = (\<lambda>_. None), ne_Geteuid = 0, ne_InDocker = False\<rparr>,
      ae_key_order = sorted_list_of_fset, ae_ip_String = (\<lambda>_. ''10.0.0.1''), ae_regexp_Compile = (\<lambda>f. Inr (\<lambda>s. s = f)),
      ae_random_name = ''calm-otter'', ae_buffer_pool = None, ae_NewLearnSession = (\<lambda>_ _ _. Inr ''lrn''),
      ae_GetLearnSessionIDByName = (\<lambda>_ _. Inr ''lrn''), ae_createLocalCollector = (\<lambda>_ _. None),
      ae_sources = \<lparr>CISource = ''ci'', DeploymentSource = ''deployment'', UserSource = ''user''\<rparr>,
      ae_ci_libs = \<lparr>ParsePullRequestURL = (\<lambda>_. None), github_URL = id, path_Join = concat\<rparr>,
      ae_environment = Map.empty, ae_domain = ''api''\<rparr>"

definition demo_apidump_args :: apidump_args where
  "demo_apidump_args =
     \<lparr>ar_Out = no_location, ar_PostmanCollectionID = [], ar_ServiceID = ''svc'', ar_Interfaces = [''eth0''], ar_Filter = ''port 80'',
      ar_Tags = None, ar_PathExclusions = [], ar_HostExclusions = [''internal''], ar_PathAllowlist = [], ar_HostAllowlist = [],
      ar_SampleRate = 1, ar_WitnessesPerMinute = 1000, ar_ExecCommand = [], ar_ExecCommandUser = [],
      ar_LearnSessionLifetime = minutes 60, ar_StatsLogDelay = 60, ar_TelemetryInterval = 300, ar_CollectTCPAndTLSReports = False,
      ar_ParseTLSHandshakes = True, ar_MaxWitnessSize_bytes = 30000000\<rparr>"

lemma sorted_fset_simps: "sorted_list_of_fset {||} = ([] :: string list)" "sorted_list_of_fset {|x :: string|} = [x]"
  by (simp_all add: sorted_list_of_fset.rep_eq)

lemma demo_visits: "visits (ae_key_order (demo_apidump_env d))"
  by (simp add: visits_def demo_apidump_env_def sorted_list_of_fset.rep_eq)

text \<open>The preparation does not depend on the tags of the user and the subcommand.\<close>

lemma demo_prepared_any:
  assumes "a = demo_apidump_args\<lparr>ar_Tags := ts, ar_ExecCommand := c\<rparr>"
  obtains p where "prepare (demo_apidump_env d) a = Inr p" "fmdom (pp_interfaces p) = {|''eth0''|}"
proof -
  let ?m = "fmupd ''eth0'' (Inr [IPAddr [10, 0, 0, 1]]) fmempty :: (string, interface_info) fmap"
  have e: "eligible_attempt (demo_apidump_env d) a = Inr ?m"
    by (simp add: eligible_attempt_def getEligibleInterfaces_def demo_apidump_env_def assms demo_apidump_args_def
        checkPcapPermissions_def sorted_fset_simps Let_def)
  obtain f where f: "filters_attempt (demo_apidump_env d) a ?m = Inr f"
    by (simp add: filters_attempt_def createBPFFilters_def getInboundBPFFilter_def assms demo_apidump_args_def)
  have planned: "\<exists>ps. plan_collectors (demo_apidump_env d) out cfg fs = Inr ps"
    if "lo_LocalPath out = None" "lo_AkitaURI out \<noteq> None" for out cfg fs
    by (induction fs) (use that in \<open>auto simp: choose_sink_def then_do_def\<close>)
  obtain out where out: "complete_output (demo_apidump_env d) a ''shop'' = Inr out"
    "lo_LocalPath out = None" "lo_AkitaURI out \<noteq> None"
    by (simp add: complete_output_def assms demo_apidump_args_def no_location_def)
  have lrn: "backend_trace (demo_apidump_env d) a ''svc'' ts out =
      Inr (if TargetIsRemote a then ''lrn'' else [])" for ts
    using out(3) by (auto simp: backend_trace_def demo_apidump_env_def)
  have service: "LookupService (demo_apidump_env d) a = Inr (''svc'', ''shop'')"
    by (simp add: LookupService_def demo_apidump_env_def assms demo_apidump_args_def TargetIsRemote_def no_location_def)
  have compile: "\<exists>rs. compile_attempt (demo_apidump_env d) fs n = Inr rs" for fs n
  proof -
    have "\<exists>rs. compileRegexps (ae_regexp_Compile (demo_apidump_env d)) fs n = Inr rs"
      by (induction fs) (auto simp: demo_apidump_env_def)
    then show ?thesis by (auto simp: compile_attempt_def)
  qed
  have pool: "ae_buffer_pool (demo_apidump_env d) = None" by (simp add: demo_apidump_env_def)
  obtain pe he pa ha where
    "compile_attempt (demo_apidump_env d) (ar_PathExclusions a) ''path exclusion'' = Inr pe"
    "compile_attempt (demo_apidump_env d) (ar_HostExclusions a) ''host exclusion'' = Inr he"
    "compile_attempt (demo_apidump_env d) (ar_PathAllowlist a) ''path filter'' = Inr pa"
    "compile_attempt (demo_apidump_env d) (ar_HostAllowlist a) ''host filter'' = Inr ha"
    using compile by metis
  moreover obtain ps qs where
    "plan_collectors (demo_apidump_env d) out (stack_config_of (demo_apidump_env d) a pe he pa ha True)
       (entries_of (demo_apidump_env d) (fst f)) = Inr ps"
    "plan_collectors (demo_apidump_env d) out (stack_config_of (demo_apidump_env d) a pe he pa ha False)
       (entries_of (demo_apidump_env d) (snd f)) = Inr qs"
    using planned [OF out(2,3)] by metis
  ultimately have "\<exists>p. prepare (demo_apidump_env d) a = Inr p \<and> pp_interfaces p = ?m"
    by (simp add: prepare_def then_do_def service e f out(1) lrn pool)
  then obtain p where "prepare (demo_apidump_env d) a = Inr p" "pp_interfaces p = ?m" by blast
  then show ?thesis by (intro that [of p]) simp_all
qed

lemma demo_prepared:
  obtains p where "prepare (demo_apidump_env d) demo_apidump_args = Inr p" "fmdom (pp_interfaces p) = {|''eth0''|}"
  by (rule demo_prepared_any [where a = demo_apidump_args and ts = None and c = "[]"]) (simp_all add: demo_apidump_args_def)

lemma one_collector_per_interface_witness:
  "\<exists>p. prepare (demo_apidump_env True) demo_apidump_args = Inr p
     \<and> set (map pl_interface (filter (\<lambda>c. sc_matched (pl_stack c)) (pp_collectors p))) = {''eth0''}"
proof -
  obtain p where p: "prepare (demo_apidump_env True) demo_apidump_args = Inr p" "fmdom (pp_interfaces p) = {|''eth0''|}"
    by (rule demo_prepared)
  with one_collector_per_interface [OF p(1) demo_visits] show ?thesis by auto
qed

definition demo_happening :: happening where
  "demo_happening =
     \<lparr>hp_events = [CollectorFailed ''eth0'' ''failed to set BPF filter''], hp_cmdErr = None, hp_pending = [],
      hp_summary = NewSummary False [''eth0''] [] 0 NewPacketCounter NewPacketCounter NewPacketCounter\<rparr>"

lemma demo_facts:
  "ar_ExecCommand demo_apidump_args = []" "ar_Filter demo_apidump_args \<noteq> []" "ae_debug (demo_apidump_env d) = d"
  "hp_events demo_happening = [CollectorFailed ''eth0'' ''failed to set BPF filter'']"
  by (simp_all add: demo_apidump_args_def demo_apidump_env_def demo_happening_def)

lemma demo_events:
  assumes "fmdom m = {|''eth0''|}"
  shows "m \<noteq> fmempty" "\<forall>ev \<in> set (hp_events demo_happening). \<exists>n e. ev = CollectorFailed n e \<and> n |\<in>| fmdom m"
    "\<forall>n. n |\<in>| fmdom m \<longrightarrow> (\<exists>e. CollectorFailed n e \<in> set (hp_events demo_happening))"
proof -
  show "m \<noteq> fmempty" using assms by (metis fmdom_empty finsert_not_fempty)
qed (simp_all only: demo_facts(4) assms list.set(1,2) ball_simps fsingleton_iff insert_iff; blast)+


lemma debugged_capture_hangs_witness:
  "session_Run (demo_apidump_env True) demo_apidump_args demo_happening = None"
proof -
  obtain p where p: "prepare (demo_apidump_env True) demo_apidump_args = Inr p" "fmdom (pp_interfaces p) = {|''eth0''|}"
    by (rule demo_prepared)
  have "ae_debug (demo_apidump_env True)" by (simp add: demo_facts)
  then show ?thesis by (rule debugged_capture_hangs [OF p(1) demo_visits demo_facts(1) _ demo_facts(2) demo_events(1,2) [OF p(2)]])
qed

end
