(* ===== verification/Telemetry.thy ===== *)
theory Telemetry
  imports Trace_Tags
begin

text \<open>
  telemetry/telemetry.go: how the analytics client is set up once, whether it is switched off, and the
  events that are handed to it. Log messages are left out. Sending is the analytics library's: an event
  handed to a client that could be set up is recorded in \<open>te_tracked\<close>.
\<close>

section \<open>State\<close>

datatype event_value = PString string | PStrings "string list" | PInt int

type_synonym event_props = "(string, event_value) fmap"

record event_record =
  er_Count :: int
  er_NextSend :: instant

record telemetry =
  te_inited :: bool
  te_null :: bool
  te_enabled :: bool
  te_userID :: string
  te_teamID :: string
  te_APIErrors :: bool
  te_tracked :: "(string \<times> event_props) list"
  te_limits :: "(string, event_record) fmap"

definition fresh_telemetry :: telemetry where
  "fresh_telemetry = \<lparr>te_inited = False, te_null = True, te_enabled = False, te_userID = [], te_teamID = [],
     te_APIErrors = False, te_tracked = [], te_limits = fmempty\<rparr>"

text \<open>
  What the set-up reads: the environment, the key set at link time, whether the analytics client can be
  made, the credentials, the answer of the \<open>GetUser\<close> call, and the user and host of the machine.
\<close>

record telemetry_env =
  tv_environment :: environment
  tv_defaultAmplitudeKey :: string
  tv_NewClient :: "string \<Rightarrow> string \<Rightarrow> bool"
  tv_CredentialsPresent :: bool
  tv_GetUser :: "(string \<times> string) option"
  tv_DistinctIDFromCredentials :: string
  tv_CurrentUser :: "string option"
  tv_Hostname :: "string option"

section \<open>Operations\<close>

definition getUserIdentity :: "telemetry_env \<Rightarrow> bool \<Rightarrow> (string \<times> string) option" where
  "getUserIdentity env analyticsEnabled =
     (let i = Getenv (tv_environment env) ''POSTMAN_ANALYTICS_DISTINCT_ID'';
          user = (if tv_CredentialsPresent env \<and> analyticsEnabled then tv_GetUser env else None);
          keyID = tv_DistinctIDFromCredentials env
      in if i \<noteq> [] then Some (i, [])
         else case user of
           Some (uid, team) \<Rightarrow> Some (uid, team)
         | None \<Rightarrow>
             if keyID \<noteq> [] then Some (keyID, [])
             else (case tv_CurrentUser env of
                     None \<Rightarrow> None
                   | Some u \<Rightarrow> (case tv_Hostname env of None \<Rightarrow> Some (u, []) | Some h \<Rightarrow> Some (u @ ''@'' @ h, []))))"

definition opt_out_value :: "environment \<Rightarrow> string" where
  "opt_out_value env = Getenv env ''AKITA_DISABLE_TELEMETRY'' @ Getenv env ''POSTMAN_INSIGHTS_AGENT_DISABLE_TELEMETRY''"

definition doInit :: "telemetry_env \<Rightarrow> telemetry \<Rightarrow> telemetry" where
  "doInit env t =
     (let disableTelemetry = opt_out_value (tv_environment env);
          amplitudeEndpoint = Getenv (tv_environment env) ''POSTMAN_INSIGHTS_AGENT_AMPLITUDE_ENDPOINT'';
          key = Getenv (tv_environment env) ''POSTMAN_INSIGHTS_AGENT_AMPLITUDE_WRITE_KEY'';
          amplitudeKey = (if key = [] then tv_defaultAmplitudeKey env else key)
      in if disableTelemetry \<noteq> [] \<and> ParseBool disableTelemetry = Some True then t\<lparr>te_null := True\<rparr>
         else if amplitudeKey = [] then t\<lparr>te_null := True\<rparr>
         else if \<not> tv_NewClient env amplitudeKey amplitudeEndpoint then t\<lparr>te_null := True\<rparr>
         else case getUserIdentity env True of
           None \<Rightarrow> t\<lparr>te_enabled := True, te_userID := [], te_teamID := [], te_null := True\<rparr>
         | Some (uid, team) \<Rightarrow>
             t\<lparr>te_enabled := True, te_userID := uid, te_teamID := team, te_null := False, te_APIErrors := True\<rparr>)"

definition telemetry_Init :: "telemetry_env \<Rightarrow> telemetry \<Rightarrow> telemetry" where
  "telemetry_Init env t = (if te_inited t then t else (doInit env t)\<lparr>te_inited := True\<rparr>)"

definition upsert :: "string \<Rightarrow> event_value \<Rightarrow> event_props \<Rightarrow> event_props" where
  "upsert k v m = (case fmlookup m k of Some _ \<Rightarrow> m | None \<Rightarrow> fmupd k v m)"

definition tryTrackingEvent :: "telemetry_env \<Rightarrow> string \<Rightarrow> event_props \<Rightarrow> telemetry \<Rightarrow> telemetry" where
  "tryTrackingEvent env eventName eventProperties t =
     (let t = telemetry_Init env t;
          eventProperties = upsert ''user_id'' (PString (te_userID t)) eventProperties;
          eventProperties = (if te_teamID t \<noteq> [] then upsert ''team_id'' (PString (te_teamID t)) eventProperties else eventProperties)
      in if te_null t then t else t\<lparr>te_tracked := te_tracked t @ [(eventName, eventProperties)]\<rparr>)"

definition telemetry_Error :: "telemetry_env \<Rightarrow> string \<Rightarrow> string \<Rightarrow> telemetry \<Rightarrow> telemetry" where
  "telemetry_Error env inContext e =
     tryTrackingEvent env ''Operation - Errored'' (fmap_of_list [(''operation'', PString inContext), (''error'', PString e)])"

definition rateLimitDuration :: duration where "rateLimitDuration = seconds 60"

text \<open>\<open>now\<close> is both readings of the clock in a call.\<close>

definition RateLimitError :: "telemetry_env \<Rightarrow> string \<Rightarrow> string \<Rightarrow> instant \<Rightarrow> telemetry \<Rightarrow> telemetry" where
  "RateLimitError env inContext e now t =
     (let newRecord = \<lparr>er_Count = 0, er_NextSend = now + rateLimitDuration\<rparr>;
          event = (\<lambda>n. tryTrackingEvent env ''Operation - Rate Limited''
            (fmap_of_list [(''operation'', PString inContext), (''error'', PString e), (''count'', PInt n)]))
      in case fmlookup (te_limits t) inContext of
           None \<Rightarrow> event 1 (t\<lparr>te_limits := fmupd inContext newRecord (te_limits t)\<rparr>)
         | Some rec \<Rightarrow>
             if now < er_NextSend rec
             then t\<lparr>te_limits := fmupd inContext (rec\<lparr>er_Count := er_Count rec + 1\<rparr>) (te_limits t)\<rparr>
             else event (er_Count rec + 1) (t\<lparr>te_limits := fmupd inContext newRecord (te_limits t)\<rparr>))"

definition APIError :: "telemetry_env \<Rightarrow> string \<Rightarrow> string \<Rightarrow> string \<Rightarrow> telemetry \<Rightarrow> telemetry" where
  "APIError env meth path e =
     tryTrackingEvent env ''API Call - Errored''
       (fmap_of_list [(''method'', PString meth), (''path'', PString path), (''error'', PString e)])"

definition telemetry_Failure :: "telemetry_env \<Rightarrow> string \<Rightarrow> telemetry \<Rightarrow> telemetry" where
  "telemetry_Failure env message = tryTrackingEvent env ''Operation - Errored'' (fmap_of_list [(''error'', PString message)])"

definition telemetry_Success :: "telemetry_env \<Rightarrow> string \<Rightarrow> telemetry \<Rightarrow> telemetry" where
  "telemetry_Success env message = tryTrackingEvent env ''Operation - Succeeded'' (fmap_of_list [(''operation'', PString message)])"

definition WorkflowStep :: "telemetry_env \<Rightarrow> string \<Rightarrow> string \<Rightarrow> telemetry \<Rightarrow> telemetry" where
  "WorkflowStep env workflow message =
     tryTrackingEvent env ''Workflow Step - Executed'' (fmap_of_list [(''step'', PString message), (''workflow'', PString workflow)])"

definition CommandLine :: "telemetry_env \<Rightarrow> string \<Rightarrow> string list \<Rightarrow> telemetry \<Rightarrow> telemetry" where
  "CommandLine env command commandLine =
     tryTrackingEvent env ''Command - Executed'' (fmap_of_list [(''command'', PString command), (''command_line'', PStrings commandLine)])"

definition InstallIntegrationVersion :: "telemetry_env \<Rightarrow> string \<Rightarrow> string \<Rightarrow> string \<Rightarrow> string \<Rightarrow> telemetry \<Rightarrow> telemetry" where
  "InstallIntegrationVersion env integration arch platform version =
     tryTrackingEvent env ''Integration - Installed''
       (fmap_of_list [(''integration'', PString integration), (''architecture'', PString arch),
          (''version'', PString version), (''platform'', PString platform)])"

section \<open>Opting out\<close>

datatype telemetry_op =
    OpInit
  | OpError string string
  | OpRateLimit string string instant
  | OpAPIError string string string
  | OpFailure string
  | OpSuccess string
  | OpWorkflowStep string string
  | OpCommandLine string "string list"
  | OpInstall string string string string

fun telemetry_step :: "telemetry_env \<Rightarrow> telemetry_op \<Rightarrow> telemetry \<Rightarrow> telemetry" where
  "telemetry_step env OpInit = telemetry_Init env"
| "telemetry_step env (OpError c e) = telemetry_Error env c e"
| "telemetry_step env (OpRateLimit c e now) = RateLimitError env c e now"
| "telemetry_step env (OpAPIError m p e) = APIError env m p e"
| "telemetry_step env (OpFailure m) = telemetry_Failure env m"
| "telemetry_step env (OpSuccess m) = telemetry_Success env m"
| "telemetry_step env (OpWorkflowStep w m) = WorkflowStep env w m"
| "telemetry_step env (OpCommandLine c l) = CommandLine env c l"
| "telemetry_step env (OpInstall i a p v) = InstallIntegrationVersion env i a p v"

definition opted_out :: "environment \<Rightarrow> bool" where
  "opted_out env \<longleftrightarrow> ParseBool (opt_out_value env) = Some True"

definition silent :: "telemetry \<Rightarrow> bool" where
  "silent t \<longleftrightarrow> te_tracked t = [] \<and> (te_inited t \<longrightarrow> te_null t)"

lemma opted_out_nonempty: "opted_out env \<Longrightarrow> opt_out_value env \<noteq> []"
  by (auto simp: opted_out_def ParseBool_def)

lemma silent_track: "opted_out (tv_environment env) \<Longrightarrow> silent t \<Longrightarrow> silent (tryTrackingEvent env n ps t)"
  using opted_out_nonempty [of "tv_environment env"]
  by (auto simp: silent_def tryTrackingEvent_def telemetry_Init_def doInit_def opted_out_def Let_def)

lemma silent_step:
  assumes "opted_out (tv_environment env)" "silent t"
  shows "silent (telemetry_step env op t)"
proof (cases op)
  case OpInit
  then show ?thesis
    using assms opted_out_nonempty [OF assms(1)]
    by (auto simp: silent_def telemetry_Init_def doInit_def opted_out_def Let_def)
next
  case (OpRateLimit c e now)
  have "silent (t\<lparr>te_limits := m\<rparr>)" for m using assms(2) by (simp add: silent_def)
  then show ?thesis
    using silent_track [OF assms(1)] OpRateLimit by (simp add: RateLimitError_def Let_def split: option.split)
qed (simp_all add: silent_track [OF assms] telemetry_Error_def APIError_def telemetry_Failure_def
    telemetry_Success_def WorkflowStep_def CommandLine_def InstallIntegrationVersion_def)


definition working_env :: "environment \<Rightarrow> telemetry_env" where
  "working_env e = \<lparr>tv_environment = e, tv_defaultAmplitudeKey = ''key'', tv_NewClient = (\<lambda>_ _. True),
     tv_CredentialsPresent = True, tv_GetUser = Some (''7'', ''9''), tv_DistinctIDFromCredentials = [],
     tv_CurrentUser = None, tv_Hostname = None\<rparr>"


text \<open>
  Opting out with both variables is ignored, because their values are concatenated: with both of them
  \<open>true\<close>, an event is tracked.
\<close>

lemma both_opt_outs_ignored:
  "te_tracked (telemetry_step (working_env [''AKITA_DISABLE_TELEMETRY'' \<mapsto> ''true'', ''POSTMAN_INSIGHTS_AGENT_DISABLE_TELEMETRY'' \<mapsto> ''true''])
     (OpSuccess ''x'') fresh_telemetry) \<noteq> []"
  by (simp add: telemetry_Success_def tryTrackingEvent_def telemetry_Init_def fresh_telemetry_def doInit_def working_env_def
      opt_out_value_def Getenv_def ParseBool_def getUserIdentity_def Let_def)

section \<open>Errors that are limited\<close>

definition limited_count :: "string \<Rightarrow> string \<times> event_props \<Rightarrow> int" where
  "limited_count c ev =
     (if fst ev = ''Operation - Rate Limited'' \<and> fmlookup (snd ev) ''operation'' = Some (PString c)
      then (case fmlookup (snd ev) ''count'' of Some (PInt n) \<Rightarrow> n | _ \<Rightarrow> 0) else 0)"

definition held_back :: "telemetry \<Rightarrow> string \<Rightarrow> int" where
  "held_back t c = (case fmlookup (te_limits t) c of Some r \<Rightarrow> er_Count r | None \<Rightarrow> 0)"

definition reported :: "telemetry \<Rightarrow> string \<Rightarrow> int" where
  "reported t c = sum_list (map (limited_count c) (te_tracked t))"

fun run_limited :: "telemetry_env \<Rightarrow> (string \<times> string \<times> instant) list \<Rightarrow> telemetry \<Rightarrow> telemetry" where
  "run_limited env [] t = t"
| "run_limited env ((c, e, now) # calls) t = run_limited env calls (RateLimitError env c e now t)"

text \<open>The instants of the calls for \<open>c\<close> that sent an event.\<close>

fun send_times :: "telemetry_env \<Rightarrow> string \<Rightarrow> (string \<times> string \<times> instant) list \<Rightarrow> telemetry \<Rightarrow> instant list" where
  "send_times env c [] t = []"
| "send_times env c ((d, e, now) # calls) t =
     (let t' = RateLimitError env d e now t
      in (if d = c \<and> te_tracked t' \<noteq> te_tracked t then [now] else []) @ send_times env c calls t')"

definition live :: "telemetry \<Rightarrow> bool" where
  "live t \<longleftrightarrow> te_inited t \<and> \<not> te_null t"

lemma track_live:
  assumes "live t"
  obtains ps' where "tryTrackingEvent env n ps t = t\<lparr>te_tracked := te_tracked t @ [(n, ps')]\<rparr>"
    "\<And>k v. fmlookup ps k = Some v \<Longrightarrow> fmlookup ps' k = Some v"
proof -
  define ps' where "ps' = (if te_teamID t \<noteq> [] then upsert ''team_id'' (PString (te_teamID t)) (upsert ''user_id'' (PString (te_userID t)) ps)
      else upsert ''user_id'' (PString (te_userID t)) ps)"
  have "fmlookup ps' k = Some v" if "fmlookup ps k = Some v" for k v
    using that by (auto simp: ps'_def upsert_def split: option.splits)
  then show ?thesis
    using assms by (intro that [of ps']) (simp_all add: tryTrackingEvent_def telemetry_Init_def live_def ps'_def Let_def)
qed

text \<open>One call: it sends all that was held back and the error itself, or holds it back.\<close>

lemma RateLimitError_cases:
  assumes "live t"
  obtains (hold) rec where "fmlookup (te_limits t) c = Some rec" "now < er_NextSend rec"
      "RateLimitError env c e now t = t\<lparr>te_limits := fmupd c (rec\<lparr>er_Count := er_Count rec + 1\<rparr>) (te_limits t)\<rparr>"
  | (send) ps where "\<And>rec. fmlookup (te_limits t) c = Some rec \<Longrightarrow> er_NextSend rec \<le> now"
      "RateLimitError env c e now t = t\<lparr>te_limits := fmupd c \<lparr>er_Count = 0, er_NextSend = now + rateLimitDuration\<rparr> (te_limits t),
         te_tracked := te_tracked t @ [(''Operation - Rate Limited'', ps)]\<rparr>"
      "fmlookup ps ''operation'' = Some (PString c)" "fmlookup ps ''count'' = Some (PInt (held_back t c + 1))"
proof -
  let ?t = "t\<lparr>te_limits := fmupd c \<lparr>er_Count = 0, er_NextSend = now + rateLimitDuration\<rparr> (te_limits t)\<rparr>"
  have "live ?t" using assms by (simp add: live_def)
  then obtain ps where ps: "tryTrackingEvent env ''Operation - Rate Limited''
      (fmap_of_list [(''operation'', PString c), (''error'', PString e), (''count'', PInt (held_back t c + 1))]) ?t
      = ?t\<lparr>te_tracked := te_tracked ?t @ [(''Operation - Rate Limited'', ps)]\<rparr>"
    "\<And>k v. fmlookup (fmap_of_list [(''operation'', PString c), (''error'', PString e), (''count'', PInt (held_back t c + 1))]) k = Some v
      \<Longrightarrow> fmlookup ps k = Some v"
    by (rule track_live) blast
  have props: "fmlookup ps ''operation'' = Some (PString c)" "fmlookup ps ''count'' = Some (PInt (held_back t c + 1))"
    by (rule ps(2); simp)+
  show ?thesis
  proof (cases "fmlookup (te_limits t) c")
    case None
    then show ?thesis using ps(1) props by (intro send [of ps]) (simp_all add: RateLimitError_def held_back_def)
  next
    case (Some rec)
    show ?thesis
    proof (cases "now < er_NextSend rec")
      case True
      with Some show ?thesis by (intro hold [of rec]) (simp_all add: RateLimitError_def)
    next
      case False
      with Some ps(1) props show ?thesis by (intro send [of ps]) (simp_all add: RateLimitError_def held_back_def)
    qed
  qed
qed

lemma limited_balance:
  assumes "live t"
  shows "live (RateLimitError env c e now t)"
    and "reported (RateLimitError env c e now t) d + held_back (RateLimitError env c e now t) d
      = reported t d + held_back t d + (if d = c then 1 else 0)"
  by (cases rule: RateLimitError_cases [OF assms, of c now env e];
      use assms in \<open>auto simp: live_def reported_def held_back_def limited_count_def split: option.splits\<close>)+

lemma run_limited_balance:
  "live t \<Longrightarrow> reported (run_limited env calls t) c + held_back (run_limited env calls t) c
     = reported t c + held_back t c + int (length (filter (\<lambda>x. fst x = c) calls))"
  by (induction env calls t rule: run_limited.induct) (simp_all add: limited_balance)

text \<open>An event for \<open>c\<close> is sent no earlier than the next send that is noted for it.\<close>

lemma send_times_spaced:
  assumes "live t"
  shows "sorted_wrt (\<lambda>s u. s + rateLimitDuration \<le> u) (send_times env c calls t)
    \<and> (\<forall>u \<in> set (send_times env c calls t). \<forall>rec. fmlookup (te_limits t) c = Some rec \<longrightarrow> er_NextSend rec \<le> u)"
  using assms
proof (induction calls arbitrary: t)
  case (Cons call calls)
  obtain d e now where call: "call = (d, e, now)" by (cases call)
  let ?t = "RateLimitError env d e now t"
  note IH = Cons.IH [OF limited_balance(1) [OF Cons.prems, of env d e now]]
  show ?case
    unfolding call
  proof (cases rule: RateLimitError_cases [OF Cons.prems, of d now env e, case_names hold send])
    case (hold rec)
    have "te_tracked ?t = te_tracked t" unfolding hold(3) by simp
    moreover have "fmlookup (te_limits ?t) c = Some rec'"
      if "fmlookup (te_limits t) c = Some rec'" "c \<noteq> d" for rec' using that unfolding hold(3) by simp
    moreover have "er_NextSend rec \<le> u" if "c = d" "u \<in> set (send_times env c calls ?t)" for u
      using IH that unfolding hold(3) by auto
    ultimately show "sorted_wrt (\<lambda>s u. s + rateLimitDuration \<le> u) (send_times env c ((d, e, now) # calls) t)
        \<and> (\<forall>u \<in> set (send_times env c ((d, e, now) # calls) t). \<forall>rec. fmlookup (te_limits t) c = Some rec \<longrightarrow> er_NextSend rec \<le> u)"
      using IH hold(1) by (cases "c = d") (auto simp: Let_def)
  next
    case (send ps)
    have sent: "te_tracked ?t \<noteq> te_tracked t" unfolding send(2) by simp
    have later: "now + rateLimitDuration \<le> u" if "c = d" "u \<in> set (send_times env c calls ?t)" for u
      using IH that unfolding send(2) by auto
    have other: "fmlookup (te_limits ?t) c = fmlookup (te_limits t) c" if "c \<noteq> d" using that unfolding send(2) by simp
    show "sorted_wrt (\<lambda>s u. s + rateLimitDuration \<le> u) (send_times env c ((d, e, now) # calls) t)
        \<and> (\<forall>u \<in> set (send_times env c ((d, e, now) # calls) t). \<forall>rec. fmlookup (te_limits t) c = Some rec \<longrightarrow> er_NextSend rec \<le> u)"
    proof (cases "c = d")
      case True
      have "er_NextSend rec \<le> u" if "fmlookup (te_limits t) c = Some rec" "u \<in> set (send_times env c calls ?t)" for rec u
        using send(1) [of rec] later [OF True that(2)] that(1) True by (simp add: rateLimitDuration_def)
      with True IH later sent send(1) show ?thesis by (auto simp: Let_def)
    next
      case False
      with IH other show ?thesis by (auto simp: Let_def)
    qed
  qed
qed simp



end
