(* ===== verification/Usage.thy ===== *)
theory Usage
  imports Prelude Complex_Main
begin

text \<open>
  usage/usage.go: the agent's own use of CPU and memory, polled from /proc over a sliding window of one
  hour. What is read from /proc is an argument; resetting the kernel's high-water mark and messages are
  left out. A float64 is a rational, or not a number, or infinite; its sums and products are exact.
\<close>

section \<open>Numbers\<close>

datatype float = Finite rat | NaN | Infinity

text \<open>Division of numbers that are not negative.\<close>

definition float_div :: "rat \<Rightarrow> rat \<Rightarrow> float" where
  "float_div x y = (if y \<noteq> 0 then Finite (x / y) else if x = 0 then NaN else Infinity)"

fun float_times :: "float \<Rightarrow> nat \<Rightarrow> float" where
  "float_times (Finite x) n = Finite (x * of_nat n)"
| "float_times NaN n = NaN"
| "float_times Infinity n = (if n = 0 then NaN else Infinity)"

section \<open>State\<close>

text \<open>A sample of the three files: the fields that are used.\<close>

record proc_sample =
  ps_observedAt :: instant
  ps_Utime :: "64 word"
  ps_Stime :: "64 word"
  ps_VmHWM :: "64 word"
  ps_User :: "64 word"
  ps_System :: "64 word"
  ps_Idle :: "64 word"
  ps_CPUs :: nat

record usage_data =
  ud_CoresUsed :: float
  ud_RelativeCPU :: float
  ud_VmHWM :: "64 word"

record resource_usage =
  ru_Recent :: usage_data
  ru_Peak :: usage_data
  ru_ObservedStartingAt :: instant
  ru_ObservedDurationInSeconds :: int

record usage_state =
  us_usage :: "resource_usage option"
  us_history :: "proc_sample list"
  us_peakCoresUsed :: float
  us_peakRelativeCPU :: float
  us_peakVM :: "64 word"
  us_finishedFirstPoll :: bool
  us_isPolling :: bool

definition initial_usage :: usage_state where
  "initial_usage = \<lparr>us_usage = None, us_history = [], us_peakCoresUsed = Finite 0, us_peakRelativeCPU = Finite 0,
     us_peakVM = 0, us_finishedFirstPoll = False, us_isPolling = False\<rparr>"

definition usage_Get :: "usage_state \<Rightarrow> resource_usage option" where
  "usage_Get u = us_usage u"

section \<open>Operations\<close>

definition slidingWindowSize :: duration where "slidingWindowSize = minutes 60"

definition window_samples :: "duration \<Rightarrow> nat" where
  "window_samples pollingInterval = nat (max (slidingWindowSize div pollingInterval) 1)"

definition testAndSetPolling :: "bool \<Rightarrow> usage_state \<Rightarrow> usage_state \<times> bool" where
  "testAndSetPolling v u = (u\<lparr>us_isPolling := v\<rparr>, us_isPolling u)"

text \<open>
  \<open>readProcFS\<close> gives \<open>None\<close> when one of the files cannot be read. The differences of the counters wrap
  around, as in the code; \<open>float_max\<close> is go-utils' generic maximum on float64.
\<close>

definition usage_float :: "64 word \<Rightarrow> rat" where
  "usage_float w = of_nat (unat w)"

definition poll :: "(float \<Rightarrow> float \<Rightarrow> float) \<Rightarrow> duration \<Rightarrow> proc_sample option \<Rightarrow> usage_state \<Rightarrow> usage_state option" where
  "poll float_max pollingInterval sample u =
     (case sample of
        None \<Rightarrow> None
      | Some new \<Rightarrow>
          (case us_history u of
             [] \<Rightarrow> None
           | oldest # _ \<Rightarrow>
               (let selfCPU = usage_float (ps_Utime new - ps_Utime oldest) + usage_float (ps_Stime new - ps_Stime oldest);
                    allCPU = usage_float (ps_User new - ps_User oldest) + usage_float (ps_System new - ps_System oldest)
                      + usage_float (ps_Idle new - ps_Idle oldest);
                    relativeCPU = float_div selfCPU allCPU;
                    coresUsed = float_times relativeCPU (ps_CPUs new);
                    vmHWM = fold (\<lambda>h m. max m (ps_VmHWM h)) (us_history u) (ps_VmHWM new);
                    u = u\<lparr>us_peakRelativeCPU := float_max (us_peakRelativeCPU u) relativeCPU,
                          us_peakCoresUsed := float_max (us_peakCoresUsed u) coresUsed,
                          us_peakVM := max (us_peakVM u) vmHWM,
                          us_history := us_history u @ [new]\<rparr>;
                    u = (if window_samples pollingInterval < length (us_history u) then u\<lparr>us_history := tl (us_history u)\<rparr> else u)
                in Some (u\<lparr>us_usage := Some
                     \<lparr>ru_Recent = \<lparr>ud_CoresUsed = coresUsed, ud_RelativeCPU = relativeCPU, ud_VmHWM = vmHWM\<rparr>,
                      ru_Peak = \<lparr>ud_CoresUsed = us_peakCoresUsed u, ud_RelativeCPU = us_peakRelativeCPU u, ud_VmHWM = us_peakVM u\<rparr>,
                      ru_ObservedStartingAt = ps_observedAt oldest,
                      ru_ObservedDurationInSeconds = (ps_observedAt new - ps_observedAt oldest) div seconds 1\<rparr>,
                     us_finishedFirstPoll := True\<rparr>))))"

text \<open>The polling loop: it ends with the first error, or when the samples end because \<open>done\<close> is closed.\<close>

fun poll_loop :: "(float \<Rightarrow> float \<Rightarrow> float) \<Rightarrow> duration \<Rightarrow> proc_sample option list \<Rightarrow> usage_state \<Rightarrow> usage_state" where
  "poll_loop fm pollingInterval [] u = u"
| "poll_loop fm pollingInterval (s # ss) u =
     (case poll fm pollingInterval s u of None \<Rightarrow> u | Some u' \<Rightarrow> poll_loop fm pollingInterval ss u')"

text \<open>
  \<open>Poll\<close>: the samples are the first one, the one after \<open>delay\<close> if that is not negative, and one per tick;
  only how many there are depends on the delay.
\<close>

definition Poll :: "(float \<Rightarrow> float \<Rightarrow> float) \<Rightarrow> duration \<Rightarrow> proc_sample option list \<Rightarrow> usage_state \<Rightarrow> usage_state" where
  "Poll fm pollingInterval samples u =
     (if pollingInterval \<le> 0 then u
      else let (u, polling) = testAndSetPolling True u
        in if polling then u
           else let u = u\<lparr>us_history := []\<rparr>;
                    u = (case samples of
                           Some first # ss \<Rightarrow> poll_loop fm pollingInterval ss (u\<lparr>us_history := [first]\<rparr>)
                         | _ \<Rightarrow> u)
             in fst (testAndSetPolling False u))"

section \<open>The window\<close>

text \<open>The last \<open>n\<close> elements of a list.\<close>

definition last_n :: "nat \<Rightarrow> 'a list \<Rightarrow> 'a list" where
  "last_n n xs = drop (length xs - n) xs"

lemma last_n_snoc: "0 < n \<Longrightarrow>
    (if n < length (last_n n xs @ [x]) then tl (last_n n xs @ [x]) else last_n n xs @ [x]) = last_n n (xs @ [x])"
  by (auto simp: last_n_def drop_Suc [symmetric] Suc_diff_le not_less tl_drop [symmetric] tl_append2)
    (metis Suc_diff_le drop_Suc drop_append less_Suc_eq_le tl_drop)

lemma last_n_all: "length xs \<le> n \<Longrightarrow> last_n n xs = xs"
  by (simp add: last_n_def)

lemma last_n_nonempty:
  assumes "0 < n" "xs \<noteq> []"
  shows "last_n n xs = xs ! (length xs - min n (length xs)) # tl (last_n n xs)"
proof -
  have "length xs - n < length xs" using assms by (cases xs) auto
  from Cons_nth_drop_Suc [OF this] show ?thesis
    by (cases "n \<le> length xs") (simp_all add: last_n_def min_def, (metis list.sel(3))+)
qed

lemma window_positive: "0 < window_samples i"
  by (simp add: window_samples_def)

text \<open>One poll: the window slides by one sample, and the usage compares the new sample with the oldest.\<close>

lemma poll_window:
  assumes "us_history u = last_n (window_samples i) xs" "xs \<noteq> []"
  obtains u' r where "poll fm i (Some new) u = Some u'" "us_history u' = last_n (window_samples i) (xs @ [new])"
    "us_usage u' = Some r" "ru_ObservedStartingAt r = ps_observedAt (xs ! (length xs - min (window_samples i) (length xs)))"
    "ud_VmHWM (ru_Recent r) = fold (\<lambda>h m. max m (ps_VmHWM h)) (last_n (window_samples i) xs) (ps_VmHWM new)"
    "ru_ObservedDurationInSeconds r = (ps_observedAt new - ru_ObservedStartingAt r) div seconds 1"
proof -
  define old rest where "old = xs ! (length xs - min (window_samples i) (length xs))" and "rest = tl (last_n (window_samples i) xs)"
  have hist: "us_history u = old # rest" "last_n (window_samples i) xs = old # rest"
    using last_n_nonempty [OF window_positive assms(2)] assms(1) by (simp_all add: old_def rest_def)
  have slide: "(if window_samples i < length (us_history u @ [new]) then tl (us_history u @ [new]) else us_history u @ [new])
      = last_n (window_samples i) (xs @ [new])"
    unfolding assms(1) by (rule last_n_snoc [OF window_positive])
  show ?thesis
    by (rule that [of "the (poll fm i (Some new) u)" "the (us_usage (the (poll fm i (Some new) u)))"])
      (use slide in \<open>auto simp: poll_def hist Let_def old_def [symmetric] split: if_splits\<close>)
qed

text \<open>
  The usage reported covers the sliding window. After polls that succeed, the history holds the
  samples of the last window, and the usage compares the newest sample with the one that many polls ago
  (the first one, while the window is not full); its memory mark is the highest of these samples.
\<close>

theorem usage_covers_window:
  assumes "0 < i" "\<not> us_isPolling u"
  shows "us_history (Poll fm i (map Some (first # ss @ [new])) u) = last_n (window_samples i) (first # ss @ [new])
    \<and> (\<exists>r. usage_Get (Poll fm i (map Some (first # ss @ [new])) u) = Some r
        \<and> ru_ObservedStartingAt r = ps_observedAt ((first # ss) ! (Suc (length ss) - min (window_samples i) (Suc (length ss))))
        \<and> ru_ObservedDurationInSeconds r = (ps_observedAt new - ru_ObservedStartingAt r) div seconds 1
        \<and> (\<forall>h \<in> set (last_n (window_samples i) (first # ss) @ [new]). ps_VmHWM h \<le> ud_VmHWM (ru_Recent r)))"
proof -
  have loop: "us_history (poll_loop fm i (map Some xs) v) = last_n (window_samples i) (ys @ xs)"
    if "us_history v = last_n (window_samples i) ys" "ys \<noteq> []" for xs ys v
    using that
  proof (induction xs arbitrary: ys v)
    case (Cons x xs)
    obtain v' where "poll fm i (Some x) v = Some v'" "us_history v' = last_n (window_samples i) (ys @ [x])"
      by (rule poll_window [OF Cons.prems, of fm x]) blast
    with Cons.IH [of v' "ys @ [x]"] show ?case by simp
  qed simp
  have snoc: "poll_loop fm i (map Some (xs @ [x])) v = the (poll fm i (Some x) (poll_loop fm i (map Some xs) v))"
    if "us_history v = last_n (window_samples i) ys" "ys \<noteq> []" for xs x ys v
    using that
  proof (induction xs arbitrary: ys v)
    case Nil
    show ?case by (rule poll_window [OF Nil, of fm x]) simp
  next
    case (Cons y xs)
    obtain v' where v': "poll fm i (Some y) v = Some v'" "us_history v' = last_n (window_samples i) (ys @ [y])"
      by (rule poll_window [OF Cons.prems, of fm y]) blast
    from Cons.IH [OF v'(2)] show ?case by (simp add: v'(1))
  qed
  let ?v = "u\<lparr>us_isPolling := True, us_history := [first]\<rparr>"
  have start: "us_history ?v = last_n (window_samples i) [first]"
    using window_positive [of i] by (simp add: last_n_def)
  let ?w = "poll_loop fm i (map Some ss) ?v"
  have w: "us_history ?w = last_n (window_samples i) (first # ss)" using loop [OF start] by simp
  have run: "Poll fm i (map Some (first # ss @ [new])) u = (the (poll fm i (Some new) ?w))\<lparr>us_isPolling := False\<rparr>"
    using assms snoc [OF start, of ss new] by (simp add: Poll_def testAndSetPolling_def Let_def)
  have top: "(\<forall>h \<in> set hs. ps_VmHWM h \<le> fold (\<lambda>h m. max m (ps_VmHWM h)) hs m) \<and> m \<le> fold (\<lambda>h m. max m (ps_VmHWM h)) hs m" for hs m
  proof (induction hs arbitrary: m)
    case (Cons a hs)
    from Cons [of "max m (ps_VmHWM a)"] show ?case by simp
  qed simp
  show ?thesis
    unfolding run usage_Get_def
    by (rule poll_window [OF w, of fm new]) (use top in auto)
qed

lemma usage_covers_window_witness:
  "\<exists>r. usage_Get (Poll (\<lambda>x y. y) (minutes 30) (map Some (map (\<lambda>t. \<lparr>ps_observedAt = minutes t, ps_Utime = 0, ps_Stime = 0, ps_VmHWM = 7,
       ps_User = 0, ps_System = 0, ps_Idle = 0, ps_CPUs = 4\<rparr>) [0, 30, 60] @ [\<lparr>ps_observedAt = minutes 90, ps_Utime = 5, ps_Stime = 0,
       ps_VmHWM = 3, ps_User = 5, ps_System = 0, ps_Idle = 5, ps_CPUs = 4\<rparr>])) initial_usage) = Some r
     \<and> ru_ObservedStartingAt r = minutes 30"
  using usage_covers_window [of "minutes 30" initial_usage "\<lambda>x y. y"
      "\<lparr>ps_observedAt = minutes 0, ps_Utime = 0, ps_Stime = 0, ps_VmHWM = 7, ps_User = 0, ps_System = 0, ps_Idle = 0, ps_CPUs = 4\<rparr>"
      "map (\<lambda>t. \<lparr>ps_observedAt = minutes t, ps_Utime = 0, ps_Stime = 0, ps_VmHWM = 7, ps_User = 0, ps_System = 0, ps_Idle = 0, ps_CPUs = 4\<rparr>) [30, 60]"
      "\<lparr>ps_observedAt = minutes 90, ps_Utime = 5, ps_Stime = 0, ps_VmHWM = 3, ps_User = 5, ps_System = 0, ps_Idle = 5, ps_CPUs = 4\<rparr>"]
  by (auto simp: initial_usage_def window_samples_def slidingWindowSize_def)

text \<open>
  The CPU figures are not numbers when no time was counted between the samples, as when a poll follows
  the first sample at once.
\<close>

lemma idle_poll_not_a_number:
  assumes "us_history u = [old]" "ps_Utime new = ps_Utime old" "ps_Stime new = ps_Stime old"
    "ps_User new = ps_User old" "ps_System new = ps_System old" "ps_Idle new = ps_Idle old"
  shows "\<exists>u' r. poll fm i (Some new) u = Some u' \<and> us_usage u' = Some r \<and> ud_RelativeCPU (ru_Recent r) = NaN"
  using assms by (simp add: poll_def Let_def usage_float_def float_div_def)

end
