(* ===== verification/Rest_Client.thy ===== *)
theory Rest_Client
  imports Service_Lookup Report_Buffer
begin

text \<open>
  The agent's own HTTP traffic: rest/ (the clients of the Postman cloud), cfg/credentials.go (where the
  credentials come from) and useragent/. What the libraries do (viper's settings, \<open>net/url\<close>, JSON, the
  retrying HTTP client) is an argument; every request that is handed to the HTTP client and every call of the
  error handler is recorded in the state. Messages, time limits and debug output are left out.
\<close>

section \<open>Credentials\<close>

text \<open>\<open>GetString\<close> of viper, over the credentials file and the bound environment variables.\<close>

type_synonym creds = "string \<Rightarrow> string"

definition strings_ToUpper :: "string \<Rightarrow> string" where
  "strings_ToUpper s = map upper_char s"

definition APIKeyAndSecret :: "creds \<Rightarrow> string \<times> string" where
  "APIKeyAndSecret creds = (creds ''default.api_key_id'', creds ''default.api_key_secret'')"

definition PostmanAPIKeyAndEnvironment :: "creds \<Rightarrow> string \<times> string" where
  "PostmanAPIKeyAndEnvironment creds =
     (let env = strings_ToUpper (creds ''default.postman_env'') in (creds ''default.postman_api_key'', env))"

definition CredentialsPresent :: "creds \<Rightarrow> bool" where
  "CredentialsPresent creds \<longleftrightarrow>
     (if fst (PostmanAPIKeyAndEnvironment creds) \<noteq> [] then True
      else case APIKeyAndSecret creds of (key, secret) \<Rightarrow> key \<noteq> [] \<and> secret \<noteq> [])"

definition DistinctIDFromCredentials :: "creds \<Rightarrow> string" where
  "DistinctIDFromCredentials creds = fst (APIKeyAndSecret creds)"

text \<open>
  Writing settings: \<open>stat\<close> is what \<open>os.Stat\<close> finds (a file, none, or an error), \<open>createErr\<close> and \<open>writeErr\<close>
  are the errors of making and writing the file. The result: the settings in memory, whether the file was made
  and whether it was written, and the error.
\<close>

datatype file_stat = FileThere | FileMissing | StatFailed string

datatype creds_error = NonDefaultProfile | CredsCreateFailed string | CredsStatFailed string | CredsWriteFailed string

record creds_write =
  cw_settings :: "(string, string) fmap"
  cw_created :: bool
  cw_written :: bool
  cw_err :: "creds_error option"

definition writeConfigToFile ::
  "file_stat \<Rightarrow> string option \<Rightarrow> string option \<Rightarrow> string \<Rightarrow> (string, string) fmap \<Rightarrow> (string, string) fmap \<Rightarrow> creds_write" where
  "writeConfigToFile stat createErr writeErr profile keyValueMap settings =
     (let failed = (\<lambda>e. \<lparr>cw_settings = settings, cw_created = False, cw_written = False, cw_err = Some e\<rparr>);
          finish = (\<lambda>created. \<lparr>cw_settings = settings ++\<^sub>f fmap_of_list
              (map (\<lambda>k. (profile @ ''.'' @ k, the (fmlookup keyValueMap k))) (sorted_list_of_fset (fmdom keyValueMap))),
            cw_created = created, cw_written = (writeErr = None), cw_err = map_option CredsWriteFailed writeErr\<rparr>)
      in if profile \<noteq> ''default'' then failed NonDefaultProfile
         else case stat of
           FileThere \<Rightarrow> finish False
         | FileMissing \<Rightarrow> (case createErr of Some e \<Rightarrow> failed (CredsCreateFailed e) | None \<Rightarrow> finish True)
         | StatFailed e \<Rightarrow> failed (CredsStatFailed e))"

definition WriteAPIKeyAndSecret where
  "WriteAPIKeyAndSecret stat createErr writeErr profile keyID keySecret =
     writeConfigToFile stat createErr writeErr profile
       (fmap_of_list [(''api_key_id'', keyID), (''api_key_secret'', keySecret)])"

definition WritePostmanAPIKeyAndEnvironment where
  "WritePostmanAPIKeyAndEnvironment stat createErr writeErr profile postmanApiKey postmanEnvironment =
     writeConfigToFile stat createErr writeErr profile
       (fmap_of_list [(''postman_api_key'', postmanApiKey), (''postman_env'', postmanEnvironment)])"

definition DefaultDomain :: "creds \<Rightarrow> string" where
  "DefaultDomain creds =
     (let env = strings_ToUpper (snd (PostmanAPIKeyAndEnvironment creds))
      in if env = [] then ''api.observability.postman.com''
         else if env = ''DEV'' then ''localhost:50443''
         else if env = ''BETA'' then ''api.observability.postman-beta.com''
         else if env = ''PREVIEW'' then ''api.observability.postman-preview.com''
         else if env = ''STAGE'' then ''api.observability.postman-stage.com''
         else ''api.observability.postman.com'')"

section \<open>The user agent\<close>

datatype env_type = ENV_HOST | ENV_DOCKER

fun EnvType_String :: "env_type \<Rightarrow> string" where
  "EnvType_String ENV_HOST = ''host''"
| "EnvType_String ENV_DOCKER = ''docker''"

definition envTypeFromString :: "string \<Rightarrow> env_type option" where
  "envTypeFromString s =
     (if s = ''host'' then Some ENV_HOST else if s = ''docker'' then Some ENV_DOCKER else None)"

record 'v UA =
  ua_Version :: 'v
  ua_OS :: string
  ua_Arch :: string
  ua_EnvType :: env_type

text \<open>Versions are go-version's; \<open>version_String\<close> prints one, \<open>NewSemver\<close> parses one.\<close>

definition UA_String :: "('v \<Rightarrow> string) \<Rightarrow> 'v UA \<Rightarrow> string" where
  "UA_String version_String ua =
     ''postman-insights-agent/'' @ version_String (ua_Version ua) @ '' ('' @ ua_OS ua @ ''; '' @ ua_Arch ua @ ''; ''
       @ EnvType_String (ua_EnvType ua) @ '')''"

definition GetUserAgent :: "('v \<Rightarrow> string) \<Rightarrow> 'v \<Rightarrow> string \<Rightarrow> string \<Rightarrow> bool \<Rightarrow> string" where
  "GetUserAgent version_String version os arch inDocker =
     UA_String version_String
       \<lparr>ua_Version = version, ua_OS = os, ua_Arch = arch, ua_EnvType = (if inDocker then ENV_DOCKER else ENV_HOST)\<rparr>"

text \<open>
  The regular expression \<open>^postman-insights-agent\/(.*) \((.*); (.*); (.*)\)$\<close>. A group \<open>(.*)\<close> before a literal
  takes as much as it can such that the rest still matches, and no newline: \<open>greedy\<close> tries the places of the
  literal from the last one.
\<close>

definition dots :: "string \<Rightarrow> bool" where
  "dots s \<longleftrightarrow> CHR 0x0A \<notin> set s"

fun greedy :: "string \<Rightarrow> (string \<Rightarrow> 'a option) \<Rightarrow> string \<Rightarrow> nat \<Rightarrow> (string \<times> 'a) option" where
  "greedy lit rest s n =
     (let hit = (if dots (take n s) \<and> take (length lit) (drop n s) = lit
                 then map_option (\<lambda>r. (take n s, r)) (rest (drop (n + length lit) s)) else None)
      in case hit of
           Some r \<Rightarrow> Some r
         | None \<Rightarrow> (case n of 0 \<Rightarrow> None | Suc m \<Rightarrow> greedy lit rest s m))"

declare greedy.simps [simp del]

definition group_then :: "string \<Rightarrow> (string \<Rightarrow> 'a option) \<Rightarrow> string \<Rightarrow> (string \<times> 'a) option" where
  "group_then lit rest s = greedy lit rest s (length s)"

definition at_end :: "string \<Rightarrow> unit option" where
  "at_end s = (if s = [] then Some () else None)"

definition uaRegexp :: "string \<Rightarrow> (string \<times> string \<times> string \<times> string \<times> unit) option" where
  "uaRegexp s =
     (let lit = ''postman-insights-agent/''
      in if take (length lit) s = lit
         then group_then '' ('' (group_then ''; '' (group_then ''; '' (group_then '')'' at_end))) (drop (length lit) s)
         else None)"

definition UA_FromString :: "(string \<Rightarrow> 'v option) \<Rightarrow> string \<Rightarrow> 'v UA option" where
  "UA_FromString NewSemver s =
     (case uaRegexp s of
        None \<Rightarrow> None
      | Some (version, os, arch, e, _) \<Rightarrow>
          (case NewSemver version of
             None \<Rightarrow> None
           | Some v \<Rightarrow>
               (case envTypeFromString e of
                  None \<Rightarrow> None
                | Some t \<Rightarrow> Some \<lparr>ua_Version = v, ua_OS = os, ua_Arch = arch, ua_EnvType = t\<rparr>)))"

section \<open>Requests\<close>

text \<open>
  A body that is marshalled: a value of a library type, or a struct of the repository with the names of its
  JSON fields.
\<close>

datatype 'p body = Value 'p | Text string | Texts "string list" | Struct "(string \<times> 'p body) list"

record rest_request =
  rr_method :: string
  rr_scheme :: string
  rr_host :: string
  rr_path :: string
  rr_query :: "(string \<times> string) list"
  rr_header :: header
  rr_body :: "string option"

text \<open>An answer: its status, and its body if that can be read.\<close>

record http_answer =
  ha_status :: int
  ha_body :: "string option"

record ('w, 'p) rest_env =
  re_creds :: creds
  re_disable_https :: bool
  re_userAgent :: string
  re_marker :: string
  re_gitVersion :: string
  re_Marshal :: "'p body \<Rightarrow> string option"
  re_NewRequest :: "rest_request \<Rightarrow> string option"
  re_FromRequest :: "rest_request \<Rightarrow> string option"
  re_Do :: "rest_request \<Rightarrow> 'w \<Rightarrow> 'w \<times> (string + http_answer)"
  re_message :: "string \<Rightarrow> string option"
  re_path_Join :: "string list \<Rightarrow> string"

text \<open>
  The state: the world, the requests sent, whether an error handler is set, and what it was called with.
\<close>

record 'w rest_state =
  rw_world :: 'w
  rw_sent :: "rest_request list"
  rw_handler :: bool
  rw_reported :: "(string \<times> string \<times> rest_error) list"

definition SetAPIErrorHandler :: "'w rest_state \<Rightarrow> 'w rest_state" where
  "SetAPIErrorHandler w = w\<lparr>rw_handler := True\<rparr>"

definition reportError :: "string \<Rightarrow> string \<Rightarrow> rest_error \<Rightarrow> 'w rest_state \<Rightarrow> 'w rest_state" where
  "reportError meth path e w =
     (if rw_handler w then w\<lparr>rw_reported := rw_reported w @ [(meth, path, e)]\<rparr> else w)"

definition header_set :: "string \<Rightarrow> string \<Rightarrow> header \<Rightarrow> header" where
  "header_set k v h = fmupd (canonical_header_key k) [v] h"

text \<open>\<open>SetBasicAuth\<close>: the standard alphabet of base64 differs from the URL one in two characters.\<close>

definition b64_std_encode :: "byte list \<Rightarrow> string" where
  "b64_std_encode bs = map (\<lambda>c. if c = CHR ''-'' then CHR ''+'' else if c = CHR ''_'' then CHR ''/'' else c) (b64_encode bs)"

definition string_bytes :: "string \<Rightarrow> byte list" where
  "string_bytes s = map (\<lambda>c. word_of_nat (of_char c)) s"

definition basic_auth :: "string \<Rightarrow> string \<Rightarrow> string" where
  "basic_auth user password = ''Basic '' @ b64_std_encode (string_bytes (user @ '':'' @ password))"

definition missing_credentials :: string where
  "missing_credentials = ''Missing or incomplete credentials. Ensure the POSTMAN_API_KEY environment variable has a valid API key for Postman.''"

definition missing_secret :: string where
  "missing_secret = ''Akita API key secret not found, run \"login\" or use AKITA_API_KEY_SECRET environment variable. If using with Postman, ensure the POSTMAN_API_KEY environment variable has a valid API key for Postman.''"

definition authorized :: "creds \<Rightarrow> header \<Rightarrow> rest_error + header" where
  "authorized creds h =
     (let (postmanAPIKey, postmanEnv) = PostmanAPIKeyAndEnvironment creds
      in if postmanAPIKey = [] then
           (let (apiKeyID, apiKeySecret) = APIKeyAndSecret creds
            in if apiKeyID = [] then Inl (OtherError missing_credentials)
               else if apiKeySecret = [] then Inl (OtherError missing_secret)
               else Inr (header_set ''Authorization'' (basic_auth apiKeyID apiKeySecret) h))
         else (let h = header_set ''x-api-key'' postmanAPIKey h
               in Inr (if postmanEnv \<noteq> [] then header_set ''x-postman-env'' postmanEnv h else h)))"

definition sendRequest :: "('w, 'p) rest_env \<Rightarrow> rest_request \<Rightarrow> 'w rest_state \<Rightarrow> 'w rest_state \<times> (rest_error + string)" where
  "sendRequest env req w =
     (case authorized (re_creds env) (rr_header req) of
        Inl e \<Rightarrow> (w, Inl e)
      | Inr h \<Rightarrow>
          (let h = header_set ''user-agent'' (re_userAgent env) h;
               h = header_set (re_marker env) (re_gitVersion env) h;
               req = req\<lparr>rr_header := h\<rparr>
           in case re_FromRequest env req of
                Some e \<Rightarrow> (w, Inl (OtherError (''failed to convert HTTP request into retryable request: '' @ e)))
              | None \<Rightarrow>
                  (case re_Do env req (rw_world w) of
                     (v, r) \<Rightarrow>
                       (w\<lparr>rw_world := v, rw_sent := rw_sent w @ [req]\<rparr>,
                        case r of
                          Inl e \<Rightarrow> Inl (OtherError e)
                        | Inr resp \<Rightarrow>
                            (case ha_body resp of
                               None \<Rightarrow> Inl (OtherError ''failed to read response body'')
                             | Some b \<Rightarrow>
                                 if ha_status resp < 200 \<or> 299 < ha_status resp
                                 then Inl (HTTPError (ha_status resp) (re_message env b)) else Inr b)))))"

section \<open>The base client\<close>

record base_client =
  bc_host :: string
  bc_scheme :: string
  bc_clientID :: string

definition NewBaseClient :: "('w, 'p) rest_env \<Rightarrow> string \<Rightarrow> string \<Rightarrow> base_client" where
  "NewBaseClient env rawHost cli =
     \<lparr>bc_host = rawHost, bc_scheme = (if re_disable_https env then ''http'' else ''https''), bc_clientID = cli\<rparr>"

definition unmarshal :: "(string \<Rightarrow> 'r option) \<Rightarrow> rest_error + string \<Rightarrow> rest_error + 'r" where
  "unmarshal decode r =
     (case r of
        Inl e \<Rightarrow> Inl e
      | Inr b \<Rightarrow> (case decode b of None \<Rightarrow> Inl (OtherError ''failed to unmarshal response body as JSON'') | Some x \<Rightarrow> Inr x))"

text \<open>The deferred call of the error handler.\<close>

definition report_failure :: "string \<Rightarrow> string \<Rightarrow> 'w rest_state \<times> (rest_error + 'r) \<Rightarrow> 'w rest_state \<times> (rest_error + 'r)" where
  "report_failure meth path wr =
     (case wr of (w, r) \<Rightarrow> (case r of Inl e \<Rightarrow> (reportError meth path e w, r) | Inr _ \<Rightarrow> (w, r)))"

definition GetWithQuery ::
  "('w, 'p) rest_env \<Rightarrow> base_client \<Rightarrow> string \<Rightarrow> (string \<times> string) list \<Rightarrow> (string \<Rightarrow> 'r option) \<Rightarrow> 'w rest_state
     \<Rightarrow> 'w rest_state \<times> (rest_error + 'r)" where
  "GetWithQuery env c path query decode w =
     report_failure ''GET'' path
       (let req = \<lparr>rr_method = ''GET'', rr_scheme = bc_scheme c, rr_host = bc_host c, rr_path = path, rr_query = query,
                   rr_header = fmempty, rr_body = None\<rparr>
        in case re_NewRequest env req of
             Some e \<Rightarrow> (w, Inl (OtherError (''failed to create HTTP GET request: '' @ e)))
           | None \<Rightarrow> (case sendRequest env req w of (w, r) \<Rightarrow> (w, unmarshal decode r)))"

definition rest_Get ::
  "('w, 'p) rest_env \<Rightarrow> base_client \<Rightarrow> string \<Rightarrow> (string \<Rightarrow> 'r option) \<Rightarrow> 'w rest_state \<Rightarrow> 'w rest_state \<times> (rest_error + 'r)" where
  "rest_Get env c path decode w = GetWithQuery env c path [] decode w"

definition rest_Post ::
  "('w, 'p) rest_env \<Rightarrow> base_client \<Rightarrow> string \<Rightarrow> 'p body \<Rightarrow> (string \<Rightarrow> 'r option) \<Rightarrow> 'w rest_state
     \<Rightarrow> 'w rest_state \<times> (rest_error + 'r)" where
  "rest_Post env c path body decode w =
     report_failure ''POST'' path
       (case re_Marshal env body of
          None \<Rightarrow> (w, Inl (OtherError ''failed to marshal request body into JSON''))
        | Some b \<Rightarrow>
            (let req = \<lparr>rr_method = ''POST'', rr_scheme = bc_scheme c, rr_host = bc_host c, rr_path = path, rr_query = [],
                        rr_header = fmempty, rr_body = Some b\<rparr>
             in case re_NewRequest env req of
                  Some e \<Rightarrow> (w, Inl (OtherError (''failed to create HTTP POST request: '' @ e)))
                | None \<Rightarrow>
                    (let req = req\<lparr>rr_header := header_set ''content-type'' ''application/json'' (rr_header req)\<rparr>
                     in case sendRequest env req w of (w, r) \<Rightarrow> (w, unmarshal decode r))))"

section \<open>The front client\<close>

text \<open>Each call names its path and how its answer is decoded; \<open>akid.String\<close> of an identifier is the identifier.\<close>

definition front_GetServices where
  "front_GetServices env c decode w = rest_Get env c ''/v1/services'' decode w"

definition front_GetService where
  "front_GetService env c serviceID decode w =
     rest_Get env c (re_path_Join env [''/v2/agent/services'', serviceID]) decode w"

definition front_GetUser where
  "front_GetUser env c decode w = rest_Get env c ''/v2/agent/user'' decode w"

definition front_DaemonHeartbeat where
  "front_DaemonHeartbeat env c daemonName decode w =
     rest_Post env c ''/v1/daemon/heartbeat'' (Struct [(''daemon_name'', Text daemonName)]) decode w"

definition front_LongPollActiveTracesForService where
  "front_LongPollActiveTracesForService env c daemonName serviceID activeTraces decode w =
     rest_Post env c (re_path_Join env [''/v1/services'', serviceID, ''daemon''])
       (Struct [(''daemon_name'', Text daemonName), (''active_trace_ids'', Texts activeTraces)]) decode w"

definition front_CreateService where
  "front_CreateService env c serviceName collectionId decode w =
     rest_Post env c ''/v1/services''
       (Struct [(''name'', Text serviceName),
                (''postman_meta_data'', Struct [(''collection_id'', Text collectionId)])]) decode w"

text \<open>The client that the lookups of projects (\<open>Service_Lookup\<close>) are given.\<close>

definition NewFrontClient ::
  "('w, 'p) rest_env \<Rightarrow> string \<Rightarrow> string \<Rightarrow> (string \<Rightarrow> cloud_service list option) \<Rightarrow> (string \<Rightarrow> insights_service option)
     \<Rightarrow> (string \<Rightarrow> service_id option) \<Rightarrow> 'w rest_state front_client" where
  "NewFrontClient env host cli decode_services decode_service decode_created =
     (let c = NewBaseClient env host cli
      in \<lparr>fc_GetServices = front_GetServices env c decode_services,
          fc_GetService = (\<lambda>serviceID. front_GetService env c serviceID decode_service),
          fc_CreateService = (\<lambda>name collectionID. front_CreateService env c name collectionID decode_created)\<rparr>)"

section \<open>The learn client\<close>

record learn_client =
  le_base :: base_client
  le_serviceID :: service_id

definition NewLearnClient :: "('w, 'p) rest_env \<Rightarrow> string \<Rightarrow> string \<Rightarrow> service_id \<Rightarrow> learn_client" where
  "NewLearnClient env host cli svc = \<lparr>le_base = NewBaseClient env host cli, le_serviceID = svc\<rparr>"

text \<open>The service that \<open>ListLearnSessions\<close> is called with is ignored: the client's own is used.\<close>

definition learn_ListLearnSessions where
  "learn_ListLearnSessions env c svc tags limit offset decode w =
     GetWithQuery env (le_base c) (re_path_Join env [''/v2/agent/services'', le_serviceID c, ''learn''])
       ([(''limit'', itoa limit), (''offset'', itoa offset)] @ map (\<lambda>(k, v). (''tag['' @ k @ '']'', v)) tags) decode w"

definition learn_ListLearnSessionsWithStats where
  "learn_ListLearnSessionsWithStats env c svc limit decode w =
     GetWithQuery env (le_base c) (re_path_Join env [''/v2/agent/services'', le_serviceID c, ''learn''])
       [(''limit'', itoa limit), (''get_stats'', ''true'')] decode w"

definition learn_GetLearnSession where
  "learn_GetLearnSession env c svc lrn decode w =
     rest_Get env (le_base c) (re_path_Join env [''/v1/services'', le_serviceID c, ''learn'', lrn]) decode w"

definition learn_CreateLearnSession where
  "learn_CreateLearnSession env c request decode w =
     rest_Post env (le_base c) (re_path_Join env [''/v2/agent/services'', le_serviceID c, ''learn'']) (Value request) decode w"

definition learn_AsyncReportsUpload where
  "learn_AsyncReportsUpload env c lrn set_client request decode w =
     rest_Post env (le_base c) (re_path_Join env [''/v2/agent/services'', le_serviceID c, ''learn'', lrn, ''async_reports''])
       (Value (set_client (bc_clientID (le_base c)) request)) decode w"

text \<open>The optional fields of \<open>CreateSpec\<close> are sent when they are set.\<close>

definition learn_CreateSpec where
  "learn_CreateSpec env c name lrns pathExclusions tags versions gitHubPR gitLabMR timeRange decode w =
     (let opt = (\<lambda>k x. case x of None \<Rightarrow> [] | Some v \<Rightarrow> [(k, Value v)])
      in rest_Post env (le_base c) (re_path_Join env [''/v1/services'', le_serviceID c, ''specs''])
           (Struct ([(''name'', Text name), (''learn_session_ids'', Texts lrns), (''path_exclusions'', Texts pathExclusions),
                     (''tags'', Struct (map (\<lambda>(k, v). (k, Text v)) tags)), (''versions'', Texts versions)]
              @ opt ''github_pr'' gitHubPR @ opt ''gitlab_mr'' gitLabMR @ opt ''time_range'' timeRange)) decode w)"

definition learn_GetSpec where
  "learn_GetSpec env c api enableRelatedTypes decode w =
     GetWithQuery env (le_base c) (re_path_Join env [''/v2/agent/services'', le_serviceID c, ''specs'', api])
       (if \<not> enableRelatedTypes then [(''strip_related_annotations'', ''true'')] else []) decode w"

definition learn_ListSpecs where
  "learn_ListSpecs env c decode w =
     GetWithQuery env (le_base c) (re_path_Join env [''/v1/services'', le_serviceID c, ''specs''])
       [(''limit'', ''0''), (''offset'', ''0'')] decode w"

definition learn_GetSpecVersion where
  "learn_GetSpecVersion env c version decode w =
     rest_Get env (le_base c) (re_path_Join env [''/v2/agent/services'', le_serviceID c, ''spec-versions'', version]) decode w"

definition learn_UploadSpec where
  "learn_UploadSpec env c request decode w =
     rest_Post env (le_base c) (re_path_Join env [''/v1/services'', le_serviceID c, ''upload-spec'']) (Value request) decode w"

definition learn_GetAPISpecIDByName where
  "learn_GetAPISpecIDByName env c n decode w =
     rest_Get env (le_base c) (''/v1/services/'' @ le_serviceID c @ ''/ids/specs/'' @ n) decode w"

definition learn_GetLearnSessionIDByName where
  "learn_GetLearnSessionIDByName env c n decode w =
     rest_Get env (le_base c) (''/v1/services/'' @ le_serviceID c @ ''/ids/learn_sessions/'' @ n) decode w"

definition learn_GetSpecDiffTrie where
  "learn_GetSpecDiffTrie env c baseID newID decode w =
     rest_Get env (le_base c) (''/v1/services/'' @ le_serviceID c @ ''/specs/'' @ baseID @ ''/diff/'' @ newID @ ''/trie'') decode w"

definition learn_PostClientPacketCaptureStats where
  "learn_PostClientPacketCaptureStats env c serviceID request decode w =
     rest_Post env (le_base c) (''/v2/agent/services/'' @ serviceID @ ''/telemetry/client/deployment'') (Value request) decode w"

definition learn_PostInitialClientTelemetry where
  "learn_PostInitialClientTelemetry env c serviceID request decode w =
     rest_Post env (le_base c) (''/v2/agent/services/'' @ serviceID @ ''/telemetry/client/deployment/start'') (Value request) decode w"

definition learn_SetSpecVersion where
  "learn_SetSpecVersion env c versionName request decode w =
     rest_Post env (le_base c) (''/v1/services/'' @ le_serviceID c @ ''/spec-versions/'' @ versionName) (Value request) decode w"

text \<open>Instants are nanoseconds since year 1; \<open>Unix\<close> gives the whole seconds since 1970.\<close>

definition unix_micros :: "instant \<Rightarrow> string" where
  "unix_micros t = itoa ((t div seconds 1 - 62135596800) * 1000000)"

definition learn_GetTimeline where
  "learn_GetTimeline env c serviceID deployment start finish limit aggregate decode w =
     GetWithQuery env (le_base c) (''/v1/services/'' @ serviceID @ ''/timeline/'' @ deployment @ ''/query'')
       [(''start'', unix_micros start), (''end'', unix_micros finish), (''limit'', itoa limit), (''bucket'', ''1m''),
        (''key'', ''host''), (''key'', ''method''), (''key'', ''path''), (''key'', ''code''), (''aggregate'', aggregate)] decode w"

definition learn_GetGraphEdges where
  "learn_GetGraphEdges env c serviceID deployment start finish graphType decode w =
     GetWithQuery env (le_base c) (''/v1/services/'' @ serviceID @ ''/servicegraph/'' @ deployment @ ''/query'')
       [(''start'', unix_micros start), (''end'', unix_micros finish), (''type'', graphType)] decode w"

section \<open>The user agent is read back\<close>

lemma greedy_hit:
  assumes "n \<le> k" "dots (take n s)" "take (length lit) (drop n s) = lit" "rest (drop (n + length lit) s) = Some r"
    and "\<And>m. n < m \<Longrightarrow> m \<le> k \<Longrightarrow> take (length lit) (drop m s) = lit \<Longrightarrow> rest (drop (m + length lit) s) = None"
  shows "greedy lit rest s k = Some (take n s, r)"
  using assms
proof (induction k)
  case 0
  then show ?case by (subst greedy.simps) simp
next
  case (Suc k)
  show ?case
  proof (cases "n = Suc k")
    case True
    with Suc.prems show ?thesis by (subst greedy.simps) simp
  next
    case False
    with Suc have "greedy lit rest s k = Some (take n s, r)" by simp
    moreover have "take (length lit) (drop (Suc k) s) = lit \<Longrightarrow> rest (drop (Suc k + length lit) s) = None"
      using Suc.prems(1) Suc.prems(5) [of "Suc k"] False by simp
    ultimately show ?thesis by (subst greedy.simps) auto
  qed
qed

text \<open>A group matches up to a literal when the rest fails after every later occurrence of the literal.\<close>

lemma group_then_hit:
  assumes "dots a" "rest b = Some r" "lit \<noteq> []"
    and "\<And>x y. tl (lit @ b) = x @ lit @ y \<Longrightarrow> rest y = None"
  shows "group_then lit rest (a @ lit @ b) = Some (a, r)"
proof -
  have later: "rest (drop (m + length lit) (a @ lit @ b)) = None"
    if "length a < m" "take (length lit) (drop m (a @ lit @ b)) = lit" for m
  proof -
    define j where "j = m - Suc (length a)"
    have m: "m = length a + Suc j" using that(1) by (simp add: j_def)
    have "drop (length a + Suc j) (a @ x) = drop j (tl x)" for x by (induction a) (simp_all add: drop_Suc)
    then have "drop m (a @ lit @ b) = drop j (tl (lit @ b))" by (simp only: m)
    moreover have "drop m (a @ lit @ b) = lit @ drop (m + length lit) (a @ lit @ b)"
      using append_take_drop_id [of "length lit" "drop m (a @ lit @ b)"] unfolding that(2) drop_drop by (simp add: add.commute)
    ultimately have "tl (lit @ b) = take j (tl (lit @ b)) @ lit @ drop (m + length lit) (a @ lit @ b)"
      using append_take_drop_id [of j "tl (lit @ b)"] by simp
    then show ?thesis by (rule assms(4))
  qed
  have "greedy lit rest (a @ lit @ b) (length (a @ lit @ b)) = Some (take (length a) (a @ lit @ b), r)"
    by (rule greedy_hit) (use assms(1,2) later in auto)
  then show ?thesis by (simp add: group_then_def)
qed

lemma group_then_none: "(\<And>x y. s = x @ lit @ y \<Longrightarrow> rest y = None) \<Longrightarrow> group_then lit rest s = None"
proof -
  assume none: "\<And>x y. s = x @ lit @ y \<Longrightarrow> rest y = None"
  have "greedy lit rest s n = None" for n
  proof (induction n)
    have hit: "take (length lit) (drop m s) = lit \<Longrightarrow> rest (drop (m + length lit) s) = None" for m
      using none [of "take m s" "drop (m + length lit) s"] append_take_drop_id [of m s]
        append_take_drop_id [of "length lit" "drop m s"]
      by (metis add.commute drop_drop)
    {
      case 0
      show ?case using hit [of 0] by (subst greedy.simps) auto
    next
      case (Suc n)
      then show ?case using hit [of "Suc n"] by (subst greedy.simps) auto
    }
  qed
  then show ?thesis by (simp add: group_then_def)
qed

text \<open>
  C37: the user agent is read back. What the version prints is parsed to it, the fields have no newline, the
  operating system and the architecture no parenthesis, and the architecture no semicolon.
\<close>

theorem user_agent_roundtrip:
  assumes "NewSemver (version_String (ua_Version ua)) = Some (ua_Version ua)"
    and "dots (version_String (ua_Version ua))" "dots (ua_OS ua)" "dots (ua_Arch ua)"
    and "CHR ''('' \<notin> set (ua_OS ua)" "CHR ''('' \<notin> set (ua_Arch ua)" "CHR '';'' \<notin> set (ua_Arch ua)"
  shows "UA_FromString NewSemver (UA_String version_String ua) = Some ua"
proof -
  define e where "e = EnvType_String (ua_EnvType ua)"
  have e: "dots e" "CHR ''('' \<notin> set e" "CHR '';'' \<notin> set e" "CHR '')'' \<notin> set e"
    by (cases "ua_EnvType ua"; simp add: e_def dots_def)+
  have last: "group_then '')'' at_end (e @ '')'' @ []) = Some (e, ())"
    by (rule group_then_hit) (simp_all add: e(1) at_end_def)
  have arch: "group_then ''; '' (group_then '')'' at_end) (ua_Arch ua @ ''; '' @ e @ '')'') = Some (ua_Arch ua, e, ())"
  proof (rule group_then_hit)
    fix x y
    assume "tl (''; '' @ e @ '')'') = x @ ''; '' @ y"
    then have "CHR '';'' \<in> set ('' '' @ e @ '')'')" by simp
    with e(3) show "group_then '')'' at_end y = None" by simp
  qed (use assms(4) last in simp_all)
  have os: "group_then ''; '' (group_then ''; '' (group_then '')'' at_end)) (ua_OS ua @ ''; '' @ ua_Arch ua @ ''; '' @ e @ '')'')
      = Some (ua_OS ua, ua_Arch ua, e, ())"
  proof (rule group_then_hit)
    fix x y
    assume eq: "tl (''; '' @ ua_Arch ua @ ''; '' @ e @ '')'') = x @ ''; '' @ y"
    have "CHR '';'' \<notin> set y"
    proof
      assume "CHR '';'' \<in> set y"
      then have "2 \<le> length (filter (\<lambda>c. c = CHR '';'') (x @ ''; '' @ y))"
        by (simp add: filter_empty_conv Suc_le_eq)
      also have "\<dots> = length (filter (\<lambda>c. c = CHR '';'') ('' '' @ ua_Arch ua @ ''; '' @ e @ '')''))"
        by (simp only: eq [symmetric]) simp
      also have "\<dots> = 1"
        using assms(7) e(3) by (auto simp: filter_empty_conv)
      finally show False by simp
    qed
    then show "group_then ''; '' (group_then '')'' at_end) y = None" by (intro group_then_none) auto
  qed (use assms(3) arch in simp_all)
  have "group_then '' ('' (group_then ''; '' (group_then ''; '' (group_then '')'' at_end)))
      (version_String (ua_Version ua) @ '' ('' @ ua_OS ua @ ''; '' @ ua_Arch ua @ ''; '' @ e @ '')'')
      = Some (version_String (ua_Version ua), ua_OS ua, ua_Arch ua, e, ())"
  proof (rule group_then_hit)
    fix x y
    assume eq: "tl ('' ('' @ ua_OS ua @ ''; '' @ ua_Arch ua @ ''; '' @ e @ '')'') = x @ '' ('' @ y"
    then obtain z where "ua_OS ua @ ''; '' @ ua_Arch ua @ ''; '' @ e @ '')'' = z @ '' ('' @ y" by (cases x) auto
    then have "CHR ''('' \<in> set (ua_OS ua @ ''; '' @ ua_Arch ua @ ''; '' @ e @ '')'')" by simp
    with assms(5,6) e(2) show "group_then ''; '' (group_then ''; '' (group_then '')'' at_end)) y = None" by simp
  qed (use assms(2) os in simp_all)
  then have "uaRegexp (UA_String version_String ua) = Some (version_String (ua_Version ua), ua_OS ua, ua_Arch ua, e, ())"
    by (simp add: uaRegexp_def UA_String_def e_def)
  moreover have "envTypeFromString e = Some (ua_EnvType ua)" by (cases "ua_EnvType ua") (simp_all add: e_def envTypeFromString_def)
  ultimately show ?thesis using assms(1) by (simp add: UA_FromString_def)
qed

lemma user_agent_roundtrip_witness:
  "UA_FromString (\<lambda>s. Some s) (GetUserAgent id ''0.39.1 (rc)'' ''linux'' ''amd64'' True)
     = Some \<lparr>ua_Version = ''0.39.1 (rc)'', ua_OS = ''linux'', ua_Arch = ''amd64'', ua_EnvType = ENV_DOCKER\<rparr>"
  unfolding GetUserAgent_def by (subst user_agent_roundtrip) (simp_all add: dots_def)

section \<open>The agent's own requests\<close>

text \<open>A run of the clients: every operation is a call of one of these kinds, whose answer is decoded or not.\<close>

datatype 'p rest_call =
    GetCall string "(string \<times> string) list" "string \<Rightarrow> bool"
  | PostCall string "'p body" "string \<Rightarrow> bool"

fun rest_step :: "('w, 'p) rest_env \<Rightarrow> base_client \<Rightarrow> 'p rest_call \<Rightarrow> 'w rest_state \<Rightarrow> 'w rest_state" where
  "rest_step env c (GetCall path query ok) w = fst (GetWithQuery env c path query (\<lambda>s. if ok s then Some () else None) w)"
| "rest_step env c (PostCall path body ok) w = fst (rest_Post env c path body (\<lambda>s. if ok s then Some () else None) w)"

lemma decoded_state:
  "fst (report_failure m p (w, unmarshal decode r)) = fst (report_failure m p (w, unmarshal (\<lambda>s. if decode s \<noteq> None then Some () else None) r))"
  by (auto simp: report_failure_def unmarshal_def split: sum.splits option.splits)

text \<open>So the operations of the two clients are steps.\<close>

lemma client_calls:
  "fst (GetWithQuery env c path query decode w) = rest_step env c (GetCall path query (\<lambda>s. decode s \<noteq> None)) w"
  "fst (rest_Post env c path body decode w) = rest_step env c (PostCall path body (\<lambda>s. decode s \<noteq> None)) w"
  using decoded_state [where decode = decode]
  by (auto simp: GetWithQuery_def rest_Post_def Let_def report_failure_def split: option.split prod.split)

lemma front_client_calls:
  "fst (fc_GetServices (NewFrontClient env host cli ds dv dc) w) =
     rest_step env (NewBaseClient env host cli) (GetCall ''/v1/services'' [] (\<lambda>s. ds s \<noteq> None)) w"
  "fst (fc_CreateService (NewFrontClient env host cli ds dv dc) n k w) =
     rest_step env (NewBaseClient env host cli) (PostCall ''/v1/services''
       (Struct [(''name'', Text n), (''postman_meta_data'', Struct [(''collection_id'', Text k)])]) (\<lambda>s. dc s \<noteq> None)) w"
  by (simp_all add: NewFrontClient_def front_GetServices_def front_CreateService_def rest_Get_def client_calls Let_def
      del: rest_step.simps)

text \<open>What is sent has the marker, the user agent and credentials.\<close>

definition credentialed :: "header \<Rightarrow> bool" where
  "credentialed h \<longleftrightarrow> header_get h ''x-api-key'' \<noteq> [] \<or> take 6 (header_get h ''Authorization'') = ''Basic ''"

definition well_marked :: "('w, 'p) rest_env \<Rightarrow> header \<Rightarrow> bool" where
  "well_marked env h \<longleftrightarrow> header_get h (re_marker env) = re_gitVersion env
     \<and> (canonical_header_key (re_marker env) \<notin> {''X-Api-Key'', ''Authorization''} \<longrightarrow> credentialed h)"

lemma canonical_names:
  "canonical_header_key ''x-api-key'' = ''X-Api-Key''" "canonical_header_key ''Authorization'' = ''Authorization''"
  "canonical_header_key ''user-agent'' = ''User-Agent''" "canonical_header_key ''x-postman-env'' = ''X-Postman-Env''"
  by code_simp+

lemma header_get_set:
  "header_get (header_set k v h) j = (if canonical_header_key j = canonical_header_key k then v else header_get h j)"
  by (simp add: header_get_def header_set_def)

lemma authorized_credentials: "authorized creds h = Inr h' \<Longrightarrow> credentialed h'"
  by (auto simp: authorized_def Let_def credentialed_def header_get_set canonical_names basic_auth_def
      split: prod.splits if_splits)

lemma sendRequest_sent:
  assumes "\<forall>r \<in> set (rw_sent w). well_marked env (rr_header r)"
  shows "\<forall>r \<in> set (rw_sent (fst (sendRequest env req w))). well_marked env (rr_header r)"
proof (cases "authorized (re_creds env) (rr_header req)")
  case (Inr h)
  have "well_marked env (header_set (re_marker env) (re_gitVersion env) (header_set ''user-agent'' (re_userAgent env) h))"
    using authorized_credentials [OF Inr]
    by (simp add: well_marked_def credentialed_def header_get_set canonical_names)
  with Inr assms show ?thesis by (auto simp: sendRequest_def Let_def split: option.split prod.split)
qed (use assms in \<open>simp add: sendRequest_def\<close>)

lemma reported_sent: "rw_sent (fst (report_failure m p wr)) = rw_sent (fst wr)"
  by (auto simp: report_failure_def reportError_def split: prod.split sum.split)

lemma rest_step_sent:
  assumes "\<forall>r \<in> set (rw_sent w). well_marked env (rr_header r)"
  shows "\<forall>r \<in> set (rw_sent (rest_step env c call w)). well_marked env (rr_header r)"
  by (cases call; simp add: GetWithQuery_def rest_Post_def Let_def reported_sent assms split: option.split prod.split)
    (use sendRequest_sent [OF assms] in \<open>metis fst_conv\<close>)+

text \<open>A packet that carries a request of the agent, as the capture would see it without encryption.\<close>

definition carries :: "traffic \<Rightarrow> rest_request \<Rightarrow> bool" where
  "carries t r \<longleftrightarrow>
     (case content t of HTTPRequest q \<Rightarrow> rq_method q = rr_method r \<and> rq_header q = rr_header r | _ \<Rightarrow> False)"


definition demo_rest_env :: "(nat, unit) rest_env" where
  "demo_rest_env =
     \<lparr>re_creds = (\<lambda>k. if k = ''default.postman_api_key'' then ''PMAK'' else []), re_disable_https = False, re_userAgent = ''ua'',
      re_marker = ''X-Akita-Cli-Git-Version'', re_gitVersion = ''unknown'', re_Marshal = (\<lambda>_. Some ''{}''),
      re_NewRequest = (\<lambda>_. None), re_FromRequest = (\<lambda>_. None), re_Do = (\<lambda>r n. (Suc n, Inr \<lparr>ha_status = 200, ha_body = Some ''[]''\<rparr>)),
      re_message = (\<lambda>_. None), re_path_Join = concat\<rparr>"


end
