(* ===== verification/Daemon_Http.thy ===== *)
theory Daemon_Http
  imports Rest_Client
begin

text \<open>
  daemon/http.go: the requests to the agent's own HTTP servers (the daemon and the NGINX backend) and their
  answers. Decoding the parameters of a header, marshalling JSON and the router are libraries'.
\<close>

record in_request =
  ir_method :: string
  ir_path :: string
  ir_header :: header
  ir_body :: string

text \<open>\<open>HTTPResponse\<close>: a status and a body.\<close>

record http_reply =
  hr_status :: int
  hr_body :: string

text \<open>An error of Go, as \<open>NewHTTPError\<close> sees it: the HTTP error in its chain, if any, and its text.\<close>

record go_error =
  ge_http :: "(int \<times> string) option"
  ge_text :: string

definition ResponseHeaders :: "http_reply \<Rightarrow> int \<times> (string \<times> string) list" where
  "ResponseHeaders r = (hr_status r, [(''Content-Type'', ''application/json; charset=utf-8'')])"

text \<open>
  The writer of a response: the header and the status are fixed by the first write or \<open>WriteHeader\<close>.
\<close>

record response_writer =
  rp_header :: header
  rp_sent :: "(int \<times> header) option"
  rp_body :: string

definition new_writer :: response_writer where
  "new_writer = \<lparr>rp_header = fmempty, rp_sent = None, rp_body = []\<rparr>"

definition WriteHeader :: "int \<Rightarrow> response_writer \<Rightarrow> response_writer" where
  "WriteHeader rc w = (case rp_sent w of Some _ \<Rightarrow> w | None \<Rightarrow> w\<lparr>rp_sent := Some (rc, rp_header w)\<rparr>)"

definition WriteBody :: "string \<Rightarrow> response_writer \<Rightarrow> response_writer" where
  "WriteBody s w = (let w = WriteHeader 200 w in w\<lparr>rp_body := rp_body w @ s\<rparr>)"

definition SetHeader :: "string \<Rightarrow> string \<Rightarrow> response_writer \<Rightarrow> response_writer" where
  "SetHeader k v w = w\<lparr>rp_header := header_set k v (rp_header w)\<rparr>"

definition reply_Write :: "http_reply \<Rightarrow> response_writer \<Rightarrow> response_writer" where
  "reply_Write r w =
     (case ResponseHeaders r of (status, headers) \<Rightarrow>
        WriteBody (hr_body r) (WriteHeader status (fold (\<lambda>(k, v). SetHeader k v) headers w)))"

text \<open>\<open>json.Marshal\<close> is the argument \<open>marshal\<close>; a body that cannot be marshalled gives an internal error.\<close>

definition NewHTTPResponse :: "('b \<Rightarrow> string option) \<Rightarrow> int \<Rightarrow> 'b option \<Rightarrow> http_reply" where
  "NewHTTPResponse marshal status body =
     (case body of
        None \<Rightarrow> \<lparr>hr_status = status, hr_body = []\<rparr>
      | Some b \<Rightarrow>
          (case marshal b of
             None \<Rightarrow> \<lparr>hr_status = 500, hr_body = []\<rparr>
           | Some j \<Rightarrow> \<lparr>hr_status = status, hr_body = j\<rparr>))"

definition omitempty :: "(string \<times> 'p body) list \<Rightarrow> (string \<times> 'p body) list" where
  "omitempty fs = filter (\<lambda>(_, b). case b of Text s \<Rightarrow> s \<noteq> [] | _ \<Rightarrow> True) fs"

definition NewHTTPError :: "('p body \<Rightarrow> string option) \<Rightarrow> go_error option \<Rightarrow> int \<Rightarrow> string \<Rightarrow> http_reply" where
  "NewHTTPError marshal err status message =
     (case Option.bind err ge_http of
        Some (code, b) \<Rightarrow> \<lparr>hr_status = code, hr_body = b\<rparr>
      | None \<Rightarrow>
          (let detail = (case err of Some e \<Rightarrow> ge_text e | None \<Rightarrow> [])
           in NewHTTPResponse marshal status
                (Some (Struct (omitempty [(''message'', Text message), (''detail'', Text detail)])))))"

text \<open>\<open>content_type\<close> is the value of the header without its parameters.\<close>

definition EnsureJSONEncodedRequestBody ::
  "('p body \<Rightarrow> string option) \<Rightarrow> (string \<Rightarrow> string) \<Rightarrow> in_request \<Rightarrow> http_reply option" where
  "EnsureJSONEncodedRequestBody marshal content_type req =
     (let contentType = (if header_get (ir_header req) ''Content-Type'' \<noteq> []
                         then content_type (header_get (ir_header req) ''Content-Type'') else [])
      in if contentType \<noteq> ''application/json''
         then Some (NewHTTPError marshal None 415 ''Content-Type header is not \"application/json\"'')
         else None)"

text \<open>An answer that is written to a new writer arrives with its status, its body and the JSON content type.\<close>

lemma reply_written:
  "rp_body (reply_Write r new_writer) = hr_body r"
  "\<exists>h. rp_sent (reply_Write r new_writer) = Some (hr_status r, h)
     \<and> header_get h ''Content-Type'' = ''application/json; charset=utf-8''"
  by (simp_all add: reply_Write_def ResponseHeaders_def new_writer_def SetHeader_def WriteHeader_def WriteBody_def header_get_set)

end
