(* ===== verification/Nginx_Backend.thy ===== *)
theory Nginx_Backend
  imports Daemon_Http
begin

text \<open>
  integrations/nginx/schema.go, rest.go and backend.go: the server to which the NGINX module mirrors requests
  and responses, and the collector behind it (packet counts over the backend collector). Decoding JSON, parsing
  UUIDs, reading cookies and the router are arguments; what is printed is left out, except that the first
  success is announced once.
\<close>

section \<open>The schema\<close>

record mirrored_header =
  mh_Header :: string
  mh_Value :: string

record mirrored_request =
  mq_RequestID :: string
  mq_RequestStart :: instant
  mq_RequestArrived :: instant
  mq_NginxInternal :: bool
  mq_Method :: string
  mq_Host :: string
  mq_Path :: string
  mq_Headers :: "mirrored_header list"
  mq_Body :: string
  mq_Truncated :: "int option"

record mirrored_response =
  ms_RequestID :: string
  ms_ResponseStart :: instant
  ms_ResponseComplete :: instant
  ms_ResponseCode :: int
  ms_Headers :: "mirrored_header list"
  ms_Body :: string
  ms_Truncated :: "int option"

section \<open>The backend\<close>

record ('p, 'id) nginx_env =
  ne_marshal :: "'p body \<Rightarrow> string option"
  ne_content_type :: "string \<Rightarrow> string"
  ne_decode_request :: "string \<Rightarrow> string + mirrored_request"
  ne_decode_response :: "string \<Rightarrow> string + mirrored_response"
  ne_uuid_Parse :: "string \<Rightarrow> string + uuid"
  ne_request_cookies :: "header \<Rightarrow> (string \<times> string) list"
  ne_response_cookies :: "header \<Rightarrow> (string \<times> string) list"
  ne_parse :: "('p, 'id) parser"
  ne_plugins :: "'p plugin list"
  ne_obfuscate :: "'p \<Rightarrow> 'p option"
  ne_add :: adder
  ne_domain :: string
  ne_dogfood :: bool

record ('p, 'id) nginx_backend =
  nb_backendSvc :: service_id
  nb_startTime :: instant
  nb_summary :: packet_counter
  nb_collector :: "('p, 'id) backend"
  nb_success :: "string option"
  nb_errors :: "(string \<times> string) list"

text \<open>The zero UUID, which \<open>uuid.Parse\<close> returns with an error.\<close>

definition uuid_Nil :: uuid where
  "uuid_Nil = ''00000000-0000-0000-0000-000000000000''"

definition fakeNginxPort :: int where "fakeNginxPort = 80"

text \<open>\<open>telemetry.RateLimitError\<close>, by what it was called with.\<close>

definition limit_error :: "string \<Rightarrow> string \<Rightarrow> ('p, 'id) nginx_backend \<Rightarrow> ('p, 'id) nginx_backend" where
  "limit_error inContext e b = b\<lparr>nb_errors := nb_errors b @ [(inContext, e)]\<rparr>"

text \<open>The header is set after \<open>WriteHeader\<close>, as in the code.\<close>

definition writeTextResponse :: "int \<Rightarrow> string \<Rightarrow> response_writer \<Rightarrow> response_writer" where
  "writeTextResponse rc msg w = WriteBody msg (SetHeader ''Content-type'' ''text/plain'' (WriteHeader rc w))"

definition schemaToHttpHeader :: "mirrored_header list \<Rightarrow> header" where
  "schemaToHttpHeader headers =
     fold (\<lambda>h ret. fmupd (mh_Header h) ((case fmlookup ret (mh_Header h) of Some vs \<Rightarrow> vs | None \<Rightarrow> []) @ [mh_Value h]) ret)
       headers fmempty"

definition ReportSuccess :: "string \<Rightarrow> ('p, 'id) nginx_backend \<Rightarrow> ('p, 'id) nginx_backend" where
  "ReportSuccess host b = (case nb_success b of Some _ \<Rightarrow> b | None \<Rightarrow> b\<lparr>nb_success := Some host\<rparr>)"

text \<open>The wrapped collector counts and hands on; its errors are dropped.\<close>

definition nginx_process :: "('p, 'id) nginx_env \<Rightarrow> traffic \<Rightarrow> ('p, 'id) nginx_backend \<Rightarrow> ('p, 'id) nginx_backend" where
  "nginx_process env t b =
     (case packet_count_process (ne_domain env) (ne_dogfood env) (Update (ne_add env))
         (backend_process (ne_parse env) (ne_plugins env) (ne_obfuscate env) :: (('p, 'id) backend, unit) downstream)
         t (nb_summary b, nb_collector b) of
        ((summary, c), _) \<Rightarrow> b\<lparr>nb_summary := summary, nb_collector := c\<rparr>)"

definition nginx_traffic :: "instant \<Rightarrow> instant \<Rightarrow> content \<Rightarrow> traffic" where
  "nginx_traffic start finish c =
     \<lparr>src_ip = [], src_port = 54321, dst_ip = [], dst_port = fakeNginxPort, content = c, interface_name = ''nginx'',
      observation_time = start, final_packet_time = finish\<rparr>"

definition mirrored_traffic :: "('p, 'id) nginx_env \<Rightarrow> uuid \<Rightarrow> mirrored_request \<Rightarrow> traffic" where
  "mirrored_traffic env requestId m =
     (let headers = schemaToHttpHeader (mq_Headers m)
      in nginx_traffic (mq_RequestStart m) (mq_RequestArrived m) (HTTPRequest
           \<lparr>rq_stream = requestId, rq_seq = 1, rq_method = mq_Method m,
            rq_url = Some \<lparr>u_host = mq_Host m, u_path = mq_Path m, u_query = fmempty\<rparr>, rq_host = mq_Host m,
            rq_header = headers, rq_cookies = ne_request_cookies env headers, rq_body = string_bytes (mq_Body m),
            rq_decompressed = False\<rparr>))"

definition mirrored_answer :: "('p, 'id) nginx_env \<Rightarrow> uuid \<Rightarrow> mirrored_response \<Rightarrow> traffic" where
  "mirrored_answer env requestId m =
     (let headers = schemaToHttpHeader (ms_Headers m)
      in nginx_traffic (ms_ResponseStart m) (ms_ResponseComplete m) (HTTPResponse
           \<lparr>rs_stream = requestId, rs_seq = 1, rs_status = ms_ResponseCode m, rs_header = headers,
            rs_cookies = ne_response_cookies env headers, rs_body = string_bytes (ms_Body m), rs_decompressed = False\<rparr>))"

definition handleRequest ::
  "('p, 'id) nginx_env \<Rightarrow> in_request \<Rightarrow> ('p, 'id) nginx_backend \<Rightarrow> ('p, 'id) nginx_backend \<times> response_writer" where
  "handleRequest env req b =
     (case EnsureJSONEncodedRequestBody (ne_marshal env) (ne_content_type env) req of
        Some _ \<Rightarrow> (limit_error ''NGINX handleRequest'' ''Bad content-type'' b,
                   writeTextResponse 400 ''Expecting application/json body'' new_writer)
      | None \<Rightarrow>
          (case ne_decode_request env (ir_body req) of
             Inl e \<Rightarrow> (limit_error ''NGINX handleRequest'' e b, writeTextResponse 400 ''JSON decode error'' new_writer)
           | Inr m \<Rightarrow>
               (let (requestId, b, rw) = (case ne_uuid_Parse env (mq_RequestID m) of
                        Inr u \<Rightarrow> (u, b, new_writer)
                      | Inl e \<Rightarrow> (uuid_Nil, limit_error ''NGINX handleRequest'' e b,
                                  writeTextResponse 400 ''Bad request ID'' new_writer));
                    b = nginx_process env (mirrored_traffic env requestId m) b;
                    b = ReportSuccess (mq_Host m) b
                in (b, writeTextResponse 200 ''OK'' rw))))"

definition handleResponse ::
  "('p, 'id) nginx_env \<Rightarrow> in_request \<Rightarrow> ('p, 'id) nginx_backend \<Rightarrow> ('p, 'id) nginx_backend \<times> response_writer" where
  "handleResponse env req b =
     (case EnsureJSONEncodedRequestBody (ne_marshal env) (ne_content_type env) req of
        Some _ \<Rightarrow> (limit_error ''NGINX handleResonse'' ''Bad content-type'' b,
                   writeTextResponse 400 ''Expecting application/json body'' new_writer)
      | None \<Rightarrow>
          (case ne_decode_response env (ir_body req) of
             Inl e \<Rightarrow> (limit_error ''NGINX handleResponse'' e b, writeTextResponse 400 ''JSON decode error'' new_writer)
           | Inr m \<Rightarrow>
               (let (requestId, b, rw) = (case ne_uuid_Parse env (ms_RequestID m) of
                        Inr u \<Rightarrow> (u, b, new_writer)
                      | Inl e \<Rightarrow> (uuid_Nil, limit_error ''NGINX handleResponse'' e b,
                                  writeTextResponse 400 ''Bad request ID'' new_writer));
                    b = nginx_process env (mirrored_answer env requestId m) b
                in (b, writeTextResponse 200 ''OK'' rw))))"

definition handleUnexpected :: "in_request \<Rightarrow> ('p, 'id) nginx_backend \<Rightarrow> ('p, 'id) nginx_backend \<times> response_writer" where
  "handleUnexpected req b =
     (limit_error ''NGINX handleUnexpected'' (''Request for '' @ ir_method req @ '' '' @ ir_path req) b,
      writeTextResponse 404 ''Unexpected path or method'' new_writer)"

text \<open>The routes of \<open>RunServer\<close>.\<close>

definition nginx_serve ::
  "('p, 'id) nginx_env \<Rightarrow> in_request \<Rightarrow> ('p, 'id) nginx_backend \<Rightarrow> ('p, 'id) nginx_backend \<times> response_writer" where
  "nginx_serve env req b =
     (if ir_method req = ''POST'' \<and> ir_path req = ''/trace/v1/request'' then handleRequest env req b
      else if ir_method req = ''POST'' \<and> ir_path req = ''/trace/v1/response'' then handleResponse env req b
      else handleUnexpected req b)"

section \<open>Starting the server\<close>

text \<open>
  \<open>NewNginxBackend\<close>: \<open>service\<close> is the answer of \<open>GetServiceIDByName\<close>, \<open>learn\<close> that of \<open>NewLearnSession\<close>, whose
  only tag is the source.
\<close>

definition NewNginxBackend ::
  "instant \<Rightarrow> lookup_error + service_id \<Rightarrow> (service_id \<Rightarrow> string \<Rightarrow> string \<Rightarrow> string + 'l) \<Rightarrow> string
     \<Rightarrow> ('l \<Rightarrow> ('p, 'id) backend) \<Rightarrow> string + ('p, 'id) nginx_backend" where
  "NewNginxBackend now service learn traceName new_collector =
     (case service of
        Inl e \<Rightarrow> Inl ''failed to resolve the project''
      | Inr svc \<Rightarrow>
          (case learn svc traceName ''nginx'' of
             Inl e \<Rightarrow> Inl (''failed to create trace or fetch existing trace: '' @ e)
           | Inr lrn \<Rightarrow>
               Inr \<lparr>nb_backendSvc = svc, nb_startTime = now, nb_summary = NewPacketCounter,
                    nb_collector = new_collector lrn, nb_success = None, nb_errors = []\<rparr>))"

text \<open>
  \<open>RunServer\<close>: the error of the server, and what it did: nothing when the backend cannot be made, for which
  it returns no error; otherwise it reports the start, and the error with which listening ends.
\<close>

datatype nginx_act = NginxInitialTelemetry int | NginxErrorTelemetry string | NginxPacketTelemetry int

definition RunServer :: "int \<Rightarrow> string + ('p, 'id) nginx_backend \<Rightarrow> string option \<Rightarrow> nginx_act list \<times> string option" where
  "RunServer statsLogDelay created listenErr =
     (case created of
        Inl _ \<Rightarrow> ([], None)
      | Inr b \<Rightarrow>
          ([NginxInitialTelemetry statsLogDelay]
             @ (case listenErr of Some e \<Rightarrow> [NginxErrorTelemetry e] | None \<Rightarrow> []), listenErr))"

text \<open>\<open>TelemetryWorker\<close>: ticks until \<open>done\<close> is closed; \<open>None\<close> is that close.\<close>

fun nginx_ticks :: "instant \<Rightarrow> instant option list \<Rightarrow> nginx_act list" where
  "nginx_ticks startTime [] = []"
| "nginx_ticks startTime (None # ticks) = []"
| "nginx_ticks startTime (Some now # ticks) =
     NginxPacketTelemetry ((now - startTime) div seconds 1) # nginx_ticks startTime ticks"

definition nginx_TelemetryWorker :: "int \<Rightarrow> int \<Rightarrow> instant \<Rightarrow> instant option list \<Rightarrow> nginx_act list" where
  "nginx_TelemetryWorker statsLogDelay telemetryInterval startTime ticks =
     (if 0 < statsLogDelay then [NginxPacketTelemetry statsLogDelay] else [])
     @ (if 0 < telemetryInterval then nginx_ticks startTime ticks else [])"

section \<open>Mirrored exchanges\<close>

text \<open>The identifier under which a message is processed, and the message of a call, if it has one.\<close>

definition request_uuid :: "('p, 'id) nginx_env \<Rightarrow> string \<Rightarrow> uuid" where
  "request_uuid env i = (case ne_uuid_Parse env i of Inr u \<Rightarrow> u | Inl _ \<Rightarrow> uuid_Nil)"

definition served_message :: "('p, 'id) nginx_env \<Rightarrow> in_request \<Rightarrow> traffic option" where
  "served_message env req =
     (if ir_method req \<noteq> ''POST'' \<or> EnsureJSONEncodedRequestBody (ne_marshal env) (ne_content_type env) req \<noteq> None then None
      else if ir_path req = ''/trace/v1/request'' then
        (case ne_decode_request env (ir_body req) of
           Inl _ \<Rightarrow> None | Inr m \<Rightarrow> Some (mirrored_traffic env (request_uuid env (mq_RequestID m)) m))
      else if ir_path req = ''/trace/v1/response'' then
        (case ne_decode_response env (ir_body req) of
           Inl _ \<Rightarrow> None | Inr m \<Rightarrow> Some (mirrored_answer env (request_uuid env (ms_RequestID m)) m))
      else None)"

lemma nginx_fields [simp]:
  "nb_collector (limit_error c e b) = nb_collector b" "nb_collector (ReportSuccess h b) = nb_collector b"
  by (simp_all add: limit_error_def ReportSuccess_def split: option.split)

lemma mirrored_unsorted [simp]:
  "sort_dns_names (mirrored_traffic env u m) = mirrored_traffic env u m"
  "sort_dns_names (mirrored_answer env u a) = mirrored_answer env u a"
  by (simp_all add: sort_dns_names_def mirrored_traffic_def mirrored_answer_def nginx_traffic_def Let_def)

lemma nginx_process_collector:
  "nb_collector (nginx_process env t b) =
     bk_step (ne_parse env) (ne_plugins env) (ne_obfuscate env) (Message (sort_dns_names t)) (nb_collector b)"
  by (simp add: nginx_process_def packet_count_process_def Let_def split: prod.split)

lemma serve_collector:
  "nb_collector (fst (nginx_serve env req b)) =
     (case served_message env req of
        None \<Rightarrow> nb_collector b
      | Some t \<Rightarrow> bk_step (ne_parse env) (ne_plugins env) (ne_obfuscate env) (Message t) (nb_collector b))"
  by (auto simp: nginx_serve_def handleRequest_def handleResponse_def handleUnexpected_def served_message_def
      request_uuid_def Let_def nginx_process_collector simp del: bk_step.simps split: option.split sum.split)

definition serve_all :: "('p, 'id) nginx_env \<Rightarrow> in_request list \<Rightarrow> ('p, 'id) nginx_backend \<Rightarrow> ('p, 'id) nginx_backend" where
  "serve_all env reqs b = fold (\<lambda>req b. fst (nginx_serve env req b)) reqs b"

definition served :: "('p, 'id) nginx_env \<Rightarrow> in_request list \<Rightarrow> 'id bk_event list" where
  "served env reqs = map Message (List.map_filter (served_message env) reqs)"

lemma serve_all_collector:
  "nb_collector (serve_all env reqs b) =
     bk_run (ne_parse env) (ne_plugins env) (ne_obfuscate env) (served env reqs) (nb_collector b)"
  by (induction reqs arbitrary: b)
    (simp_all add: serve_all_def served_def serve_collector map_filter_simps del: bk_step.simps split: option.split)

text \<open>Two calls that are processed under one identifier make one exchange.\<close>

lemma mirrored_exchange:
  fixes env :: "('p, 'id) nginx_env"
  assumes parse: "ne_parse env = http_parser fuel henv sha"
    and req: "served_message env r1 = Some (mirrored_traffic env u m)" "ne_parse env (content (mirrored_traffic env u m)) = Inr (wq, k)"
      "mq_Method m \<noteq> []" "mq_RequestArrived m \<noteq> 0"
    and resp: "served_message env r2 = Some (mirrored_answer env u a)" "ne_parse env (content (mirrored_answer env u a)) = Inr (wr, k')"
      "ms_ResponseStart a \<noteq> 0"
    and other: "\<forall>r \<in> set (pre @ mid). \<forall>t. served_message env r = Some t \<longrightarrow> message_key (ne_parse env) t \<noteq> Some k"
    and start: "nb_collector b = NewBackendCollector session"
  shows "k' = k \<and> filter (report_of k) (bk_batch (nb_collector (serve_all env (pre @ r1 # mid @ [r2]) b)))
     = upload_report (ne_plugins env) (ne_obfuscate env)
         ((new_witness_info (mirrored_traffic env u m) (exchange_witness (mirrored_traffic env u m) (mirrored_answer env u a) wq wr) k)
           \<lparr>wi_request_end := mq_RequestArrived m\<rparr>)"
proof -
  let ?t1 = "mirrored_traffic env u m" and ?t2 = "mirrored_answer env u a"
  obtain q s where c: "content ?t1 = HTTPRequest q" "rq_method q = mq_Method m" "rq_stream q = u" "rq_seq q = 1"
    "content ?t2 = HTTPResponse s" "rs_stream s = u" "rs_seq s = 1"
    "final_packet_time ?t1 = mq_RequestArrived m" "observation_time ?t2 = ms_ResponseStart a"
    by (simp add: mirrored_traffic_def mirrored_answer_def nginx_traffic_def Let_def)
  have k: "k' = k"
    using http.parse_key [of fuel henv sha q wq k s wr k'] req(2) resp(2) c parse by simp
  have quiet: "\<forall>t. Message t \<in> set (served env rs) \<longrightarrow> message_key (ne_parse env) t \<noteq> Some k" if "set rs \<subseteq> set (pre @ mid)" for rs
    using other that by (fastforce simp: served_def List.map_filter_def)
  have "served env (pre @ r1 # mid @ [r2]) = served env pre @ Message ?t1 # served env mid @ [Message ?t2]"
    by (simp add: served_def List.map_filter_def req(1) resp(1))
  moreover have "\<forall>ev \<in> set (served env mid). quiet (ne_parse env) k (observation_time ?t1) ev \<and> quiet (ne_parse env) k (observation_time ?t2) ev"
    using quiet [of mid] by (auto simp: served_def)
  ultimately show ?thesis
    using exchange_both_orders [OF parse c(1) req(2) _ c(5) _ _ _ quiet [of pre], of wr "served env mid" "ne_plugins env" "ne_obfuscate env" session]
      req(3,4) resp(2,3) k c by (simp add: serve_all_collector start)
qed

definition mirrors_request :: "('p, 'id) nginx_env \<Rightarrow> in_request \<Rightarrow> mirrored_request \<Rightarrow> bool" where
  "mirrors_request env r m \<longleftrightarrow> ir_method r = ''POST'' \<and> ir_path r = ''/trace/v1/request''
     \<and> EnsureJSONEncodedRequestBody (ne_marshal env) (ne_content_type env) r = None
     \<and> ne_decode_request env (ir_body r) = Inr m \<and> mq_Method m \<noteq> [] \<and> mq_RequestArrived m \<noteq> 0"

definition mirrors_response :: "('p, 'id) nginx_env \<Rightarrow> in_request \<Rightarrow> mirrored_response \<Rightarrow> bool" where
  "mirrors_response env r a \<longleftrightarrow> ir_method r = ''POST'' \<and> ir_path r = ''/trace/v1/response''
     \<and> EnsureJSONEncodedRequestBody (ne_marshal env) (ne_content_type env) r = None
     \<and> ne_decode_response env (ir_body r) = Inr a \<and> ms_ResponseStart a \<noteq> 0"

lemma mirrors_served:
  "mirrors_request env r m \<Longrightarrow> served_message env r = Some (mirrored_traffic env (request_uuid env (mq_RequestID m)) m)"
  "mirrors_response env r' a \<Longrightarrow> served_message env r' = Some (mirrored_answer env (request_uuid env (ms_RequestID a)) a)"
  by (simp_all add: mirrors_request_def mirrors_response_def served_message_def)

text \<open>The status and the body with which a call is answered.\<close>

definition answered :: "response_writer \<Rightarrow> int \<times> string \<Rightarrow> bool" where
  "answered w r \<longleftrightarrow> map_option fst (rp_sent w) = Some (fst r) \<and> rp_body w = snd r"

lemmas writer_simps = writeTextResponse_def WriteHeader_def WriteBody_def SetHeader_def new_writer_def answered_def

lemma mirrors_answered:
  assumes "mirrors_request env r m"
  shows "ne_uuid_Parse env (mq_RequestID m) = Inr u \<Longrightarrow> answered (snd (nginx_serve env r b)) (200, ''OK'')"
    and "ne_uuid_Parse env (mq_RequestID m) = Inl e \<Longrightarrow> answered (snd (nginx_serve env r b)) (400, ''Bad request IDOK'')"
  using assms by (simp_all add: mirrors_request_def nginx_serve_def handleRequest_def Let_def writer_simps)


text \<open>
  Bad identifiers are confused. A request whose identifier does not parse is refused with status 400, but
  processed under the zero identifier, and so is a response: a request and a response of different exchanges,
  whose identifiers are both bad, are reported as one exchange.
\<close>

theorem bad_ids_confused:
  fixes env :: "('p, 'id) nginx_env"
  assumes parse: "ne_parse env = http_parser fuel henv sha"
    and calls: "mirrors_request env r1 m" "mirrors_response env r2 a" "ms_RequestID a \<noteq> mq_RequestID m"
      "ne_uuid_Parse env (mq_RequestID m) = Inl e1" "ne_uuid_Parse env (ms_RequestID a) = Inl e2"
    and parsed: "ne_parse env (content (mirrored_traffic env uuid_Nil m)) = Inr (wq, k)"
      "ne_parse env (content (mirrored_answer env uuid_Nil a)) = Inr (wr, k')"
    and start: "nb_collector b = NewBackendCollector session"
  shows "filter (report_of k) (bk_batch (nb_collector (serve_all env [r1, r2] b)))
     = upload_report (ne_plugins env) (ne_obfuscate env)
         ((new_witness_info (mirrored_traffic env uuid_Nil m)
             (exchange_witness (mirrored_traffic env uuid_Nil m) (mirrored_answer env uuid_Nil a) wq wr) k)
           \<lparr>wi_request_end := mq_RequestArrived m\<rparr>)
     \<and> answered (snd (nginx_serve env r1 b)) (400, ''Bad request IDOK'')"
proof -
  have u: "request_uuid env (mq_RequestID m) = uuid_Nil" "request_uuid env (ms_RequestID a) = uuid_Nil"
    by (simp_all add: request_uuid_def calls(4,5))
  have "mq_Method m \<noteq> []" "mq_RequestArrived m \<noteq> 0" "ms_ResponseStart a \<noteq> 0"
    using calls(1,2) by (simp_all add: mirrors_request_def mirrors_response_def)
  from mirrored_exchange [OF parse mirrors_served(1) [OF calls(1), unfolded u] parsed(1) this(1,2)
      mirrors_served(2) [OF calls(2), unfolded u] parsed(2) this(3), of "[]" "[]" b session]
  show ?thesis using mirrors_answered(2) [OF calls(1,4)] start by simp
qed

text \<open>Calls whose bodies are the identifiers; those that start with a digit parse.\<close>

definition demo_mirrored :: "string \<Rightarrow> mirrored_request" where
  "demo_mirrored s = \<lparr>mq_RequestID = s, mq_RequestStart = 10, mq_RequestArrived = 20, mq_NginxInternal = False,
     mq_Method = ''GET'', mq_Host = ''shop'', mq_Path = ''/'', mq_Headers = [], mq_Body = [], mq_Truncated = None\<rparr>"

definition demo_mirrored_answer :: "string \<Rightarrow> mirrored_response" where
  "demo_mirrored_answer s = \<lparr>ms_RequestID = s, ms_ResponseStart = 30, ms_ResponseComplete = 40, ms_ResponseCode = 200,
     ms_Headers = [], ms_Body = [], ms_Truncated = None\<rparr>"

definition demo_nginx_env :: "(string, string) nginx_env" where
  "demo_nginx_env =
     \<lparr>ne_marshal = (\<lambda>_. Some []), ne_content_type = id,
      ne_decode_request = (\<lambda>s. Inr (demo_mirrored s)),
      ne_decode_response = (\<lambda>s. Inr (demo_mirrored_answer s)),
      ne_uuid_Parse = (\<lambda>s. if s = ''7'' then Inr s else Inl ''invalid UUID''), ne_request_cookies = (\<lambda>_. []), ne_response_cookies = (\<lambda>_. []),
      ne_parse = plain_parser, ne_plugins = [], ne_obfuscate = Some, ne_add = sum_counts, ne_domain = ''api'', ne_dogfood = False\<rparr>"

definition demo_call :: "string \<Rightarrow> string \<Rightarrow> in_request" where
  "demo_call path i = \<lparr>ir_method = ''POST'', ir_path = path,
     ir_header = fmap_of_list [(''Content-Type'', [''application/json''])], ir_body = i\<rparr>"

definition demo_nginx :: "(string, string) nginx_backend" where
  "demo_nginx = \<lparr>nb_backendSvc = ''svc'', nb_startTime = 0, nb_summary = NewPacketCounter,
     nb_collector = NewBackendCollector ''lrn'', nb_success = None, nb_errors = []\<rparr>"

lemma demo_json: "EnsureJSONEncodedRequestBody (ne_marshal demo_nginx_env) (ne_content_type demo_nginx_env) (demo_call p i) = None"
proof -
  have "canonical_header_key ''Content-Type'' = ''Content-Type''" by code_simp
  then show ?thesis by (simp add: EnsureJSONEncodedRequestBody_def demo_nginx_env_def demo_call_def header_get_def)
qed

lemma demo_mirrors:
  "mirrors_request demo_nginx_env (demo_call ''/trace/v1/request'' i) (demo_mirrored i)"
  "mirrors_response demo_nginx_env (demo_call ''/trace/v1/response'' i) (demo_mirrored_answer i)"
  using demo_json by (simp_all add: mirrors_request_def mirrors_response_def demo_mirrored_def demo_mirrored_answer_def,
    simp_all add: demo_call_def demo_nginx_env_def demo_mirrored_def demo_mirrored_answer_def)

lemma demo_parsed:
  obtains wq wr where
    "ne_parse demo_nginx_env (content (mirrored_traffic demo_nginx_env u (demo_mirrored i))) = Inr (wq, witness_name u 1)"
    "ne_parse demo_nginx_env (content (mirrored_answer demo_nginx_env u (demo_mirrored_answer j))) = Inr (wr, witness_name u 1)"
  by (simp add: demo_nginx_env_def demo_mirrored_def demo_mirrored_answer_def mirrored_traffic_def mirrored_answer_def
      nginx_traffic_def schemaToHttpHeader_def string_bytes_def plain_parser_def http_parser_def ParseHTTP_def
      parseRequest_def parseResponse_def body_data_def parseQuery_def parseCookies_def parseHeader_def ToWitnessID_def Let_def)

lemma demo_nginx_fields:
  "ne_parse demo_nginx_env = http_parser 1 plain_env id" "ne_plugins demo_nginx_env = []" "ne_obfuscate demo_nginx_env = Some"
  "nb_collector demo_nginx = NewBackendCollector ''lrn''"
  "ne_uuid_Parse demo_nginx_env s = (if s = ''7'' then Inr s else Inl ''invalid UUID'')"
  "mq_RequestID (demo_mirrored i) = i" "ms_RequestID (demo_mirrored_answer i) = i"
  by (simp_all add: demo_nginx_env_def plain_parser_def demo_nginx_def demo_mirrored_def demo_mirrored_answer_def)

lemma one_report: "length (upload_report [] Some w) = 1"
  by (simp add: upload_report_def)


lemma bad_ids_confused_witness:
  "length (filter (report_of (witness_name uuid_Nil 1)) (bk_batch (nb_collector
     (serve_all demo_nginx_env [demo_call ''/trace/v1/request'' ''x'', demo_call ''/trace/v1/response'' ''y''] demo_nginx)))) = 1"
proof -
  obtain wq wr where p:
    "ne_parse demo_nginx_env (content (mirrored_traffic demo_nginx_env uuid_Nil (demo_mirrored ''x''))) = Inr (wq, witness_name uuid_Nil 1)"
    "ne_parse demo_nginx_env (content (mirrored_answer demo_nginx_env uuid_Nil (demo_mirrored_answer ''y''))) = Inr (wr, witness_name uuid_Nil 1)"
    by (rule demo_parsed)
  have "ms_RequestID (demo_mirrored_answer ''y'') \<noteq> mq_RequestID (demo_mirrored ''x'')"
    "ne_uuid_Parse demo_nginx_env (mq_RequestID (demo_mirrored ''x'')) = Inl ''invalid UUID''"
    "ne_uuid_Parse demo_nginx_env (ms_RequestID (demo_mirrored_answer ''y'')) = Inl ''invalid UUID''"
    by (simp_all add: demo_nginx_fields)
  from conjunct1 [OF bad_ids_confused [OF demo_nginx_fields(1) demo_mirrors this p demo_nginx_fields(4)]]
  show ?thesis by (simp add: demo_nginx_fields one_report)
qed

end
