(* ===== verification/Daemon.thy ===== *)
theory Daemon
  imports Daemon_Http Cloud_Requests
begin

text \<open>
  daemon/run.go: the HTTP server of the daemon on top of the cloud client. A call is checked, its names are
  resolved, its body is decoded, and then it waits for the answer of the cloud client; the calls and the
  goroutines of the cloud client interleave. Identifiers of the cloud client are numbers here, \<open>de_service\<close>
  and \<open>de_trace\<close> number those of the REST clients. The router, which passes the variables of a path, is an
  argument.
\<close>

section \<open>Handlers\<close>

record ('c, 'd, 'w, 'p) daemon_env =
  de_marshal :: "'p body \<Rightarrow> string option"
  de_marshal_response :: "cc_response \<Rightarrow> string option"
  de_content_type :: "string \<Rightarrow> string"
  de_services :: "('c, string) cache_ops"
  de_sessions :: "('d, string) cache_ops"
  de_client :: "'w front_client"
  de_session_id :: "string \<Rightarrow> string \<Rightarrow> 'w \<Rightarrow> 'w \<times> (rest_error + string)"
  de_view_error :: "lookup_error \<Rightarrow> go_error"
  de_service :: "string \<Rightarrow> nat"
  de_trace :: "string \<Rightarrow> nat"
  de_decode_registration :: "string \<Rightarrow> go_error + string \<times> string list"
  de_decode_events :: "string \<Rightarrow> go_error + string \<times> trace_event list \<times> bool"

text \<open>What the router makes of a call: the endpoint and the variables of its path.\<close>

datatype endpoint = Middleware string | TraceEvents string string

datatype daemon_call =
    RegistrationCall string nat "nat list"
  | TraceEventsCall string nat nat "trace_event list" bool

definition getServiceID ::
  "('c, 'd, 'w, 'p) daemon_env \<Rightarrow> string \<Rightarrow> 'c \<times> 'd \<times> 'w \<Rightarrow> ('c \<times> 'd \<times> 'w) \<times> (http_reply + string)" where
  "getServiceID env serviceName st =
     (case st of (c, d, w) \<Rightarrow>
        case GetServiceIDByName (de_services env) (de_client env) serviceName (c, w) of
          ((c, w), Inl e) \<Rightarrow> ((c, d, w), Inl (NewHTTPError (de_marshal env) (Some (de_view_error env e)) 404 ''Service not found''))
        | ((c, w), Inr i) \<Rightarrow> ((c, d, w), Inr i))"

definition getTraceID ::
  "('c, 'd, 'w, 'p) daemon_env \<Rightarrow> string \<Rightarrow> string \<Rightarrow> 'c \<times> 'd \<times> 'w \<Rightarrow> ('c \<times> 'd \<times> 'w) \<times> (http_reply + string \<times> string)" where
  "getTraceID env serviceName traceName st =
     (case getServiceID env serviceName st of
        (st, Inl r) \<Rightarrow> (st, Inl r)
      | ((c, d, w), Inr serviceID) \<Rightarrow>
          (case GetLearnSessionIDByName (de_sessions env) (de_session_id env serviceID) traceName (d, w) of
             ((d, w), Inl e) \<Rightarrow> ((c, d, w), Inl (NewHTTPError (de_marshal env) (Some (de_view_error env e)) 404 ''Trace not found''))
           | ((d, w), Inr i) \<Rightarrow> ((c, d, w), Inr (serviceID, i))))"

definition handleMiddlewareRegistration ::
  "('c, 'd, 'w, 'p) daemon_env \<Rightarrow> string \<Rightarrow> in_request \<Rightarrow> 'c \<times> 'd \<times> 'w \<Rightarrow> ('c \<times> 'd \<times> 'w) \<times> (http_reply + daemon_call)" where
  "handleMiddlewareRegistration env serviceName req st =
     (case EnsureJSONEncodedRequestBody (de_marshal env) (de_content_type env) req of
        Some r \<Rightarrow> (st, Inl r)
      | None \<Rightarrow>
          (case getServiceID env serviceName st of
             (st, Inl r) \<Rightarrow> (st, Inl r)
           | (st, Inr serviceID) \<Rightarrow>
               (st, case de_decode_registration env (ir_body req) of
                      Inl e \<Rightarrow> Inl (NewHTTPError (de_marshal env) (Some e) 400 ''Invalid request body'')
                    | Inr (clientName, activeTraceIDs) \<Rightarrow>
                        Inr (RegistrationCall clientName (de_service env serviceID) (map (de_trace env) activeTraceIDs)))))"

definition addEvents ::
  "('c, 'd, 'w, 'p) daemon_env \<Rightarrow> string \<Rightarrow> string \<Rightarrow> in_request \<Rightarrow> 'c \<times> 'd \<times> 'w \<Rightarrow> ('c \<times> 'd \<times> 'w) \<times> (http_reply + daemon_call)" where
  "addEvents env serviceName traceName req st =
     (case EnsureJSONEncodedRequestBody (de_marshal env) (de_content_type env) req of
        Some r \<Rightarrow> (st, Inl r)
      | None \<Rightarrow>
          (case getTraceID env serviceName traceName st of
             (st, Inl r) \<Rightarrow> (st, Inl r)
           | (st, Inr (serviceID, traceID)) \<Rightarrow>
               (st, case de_decode_events env (ir_body req) of
                      Inl e \<Rightarrow> Inl (NewHTTPError (de_marshal env) (Some e) 400 ''Bad request body'')
                    | Inr (clientName, events, noMore) \<Rightarrow>
                        Inr (TraceEventsCall clientName (de_service env serviceID) (de_trace env traceID) events noMore))))"

fun daemon_handle ::
  "('c, 'd, 'w, 'p) daemon_env \<Rightarrow> endpoint \<Rightarrow> in_request \<Rightarrow> 'c \<times> 'd \<times> 'w \<Rightarrow> ('c \<times> 'd \<times> 'w) \<times> (http_reply + daemon_call)" where
  "daemon_handle env (Middleware s) req st = handleMiddlewareRegistration env s req st"
| "daemon_handle env (TraceEvents s t) req st = addEvents env s t req st"

text \<open>The event that a call sends to the cloud client, with the channel for the answer, and its answer.\<close>

fun call_event :: "daemon_call \<Rightarrow> nat \<Rightarrow> cc_event" where
  "call_event (RegistrationCall c sid ts) n = RegistrationRequest c sid ts n"
| "call_event (TraceEventsCall c sid tid es m) n = TraceEventRequest c sid tid es m n"

fun call_reply :: "('c, 'd, 'w, 'p) daemon_env \<Rightarrow> cc_response \<Rightarrow> http_reply" where
  "call_reply env (DiffResponse n d) = NewHTTPResponse (de_marshal_response env) 202 (Some (DiffResponse n d))"
| "call_reply env (TraceEventResponse n status d) =
     NewHTTPResponse (de_marshal_response env) (int status) (Some (TraceEventResponse n status d))"

section \<open>The running daemon\<close>

text \<open>
  Calls are numbered as they arrive. A call is answered, waits for room in the channel of the cloud client, or
  waits for its answer. Events only enter the cloud client through calls: its other steps make no new channel.
\<close>

record ('c, 'd, 'w) daemon =
  da_lookup :: "'c \<times> 'd \<times> 'w"
  da_cc :: cloudClient
  da_arrived :: nat
  da_replies :: "(nat \<times> http_reply) list"
  da_sending :: "(nat \<times> daemon_call) list"
  da_waiting :: "(nat \<times> nat) list"

definition daemon_Run :: "'c \<times> 'd \<times> 'w \<Rightarrow> ('c, 'd, 'w) daemon" where
  "daemon_Run st =
     \<lparr>da_lookup = st, da_cc = cc_Run, da_arrived = 0, da_replies = [], da_sending = [], da_waiting = []\<rparr>"

definition daemon_arrival ::
  "('c, 'd, 'w, 'p) daemon_env \<Rightarrow> endpoint \<Rightarrow> in_request \<Rightarrow> ('c, 'd, 'w) daemon \<Rightarrow> ('c, 'd, 'w) daemon" where
  "daemon_arrival env ep req s =
     (let i = da_arrived s; s = s\<lparr>da_arrived := Suc i\<rparr>
      in case daemon_handle env ep req (da_lookup s) of
           (st, Inl r) \<Rightarrow> s\<lparr>da_lookup := st, da_replies := da_replies s @ [(i, r)]\<rparr>
         | (st, Inr call) \<Rightarrow> s\<lparr>da_lookup := st, da_sending := da_sending s @ [(i, call)]\<rparr>)"

definition daemon_send :: "nat \<Rightarrow> daemon_call \<Rightarrow> ('c, 'd, 'w) daemon \<Rightarrow> ('c, 'd, 'w) daemon" where
  "daemon_send i call s =
     (let cc = da_cc s; n = cc_next cc
      in s\<lparr>da_cc := enqueue_event (call_event call n) (cc\<lparr>cc_next := Suc n\<rparr>),
           da_sending := filter (\<lambda>x. fst x \<noteq> i) (da_sending s), da_waiting := da_waiting s @ [(i, n)]\<rparr>)"

definition daemon_reply :: "('c, 'd, 'w, 'p) daemon_env \<Rightarrow> nat \<Rightarrow> cc_response \<Rightarrow> ('c, 'd, 'w) daemon \<Rightarrow> ('c, 'd, 'w) daemon" where
  "daemon_reply env i r s =
     s\<lparr>da_waiting := filter (\<lambda>x. fst x \<noteq> i) (da_waiting s), da_replies := da_replies s @ [(i, call_reply env r)]\<rparr>"

inductive daemon_step ::
  "('c, 'd, 'w, 'p) daemon_env \<Rightarrow> (trace_diff \<Rightarrow> nat) \<Rightarrow> ('c, 'd, 'w) daemon \<Rightarrow> ('c, 'd, 'w) daemon \<Rightarrow> bool"
  for env diffSize where
  arrives: "\<not> cc_panic (da_cc s) \<Longrightarrow> daemon_step env diffSize s (daemon_arrival env ep req s)"
| sends: "\<lbrakk>\<not> cc_panic (da_cc s); has_room (da_cc s); (i, call) \<in> set (da_sending s)\<rbrakk>
    \<Longrightarrow> daemon_step env diffSize s (daemon_send i call s)"
| works: "\<lbrakk>cc_step diffSize (da_cc s) cc; cc_next cc = cc_next (da_cc s)\<rbrakk>
    \<Longrightarrow> daemon_step env diffSize s (s\<lparr>da_cc := cc\<rparr>)"
| replies: "\<lbrakk>\<not> cc_panic (da_cc s); (i, n) \<in> set (da_waiting s); r \<in> set (cc_responses (da_cc s)); response_channel r = n\<rbrakk>
    \<Longrightarrow> daemon_step env diffSize s (daemon_reply env i r s)"

inductive daemon_reachable ::
  "('c, 'd, 'w, 'p) daemon_env \<Rightarrow> (trace_diff \<Rightarrow> nat) \<Rightarrow> 'c \<times> 'd \<times> 'w \<Rightarrow> ('c, 'd, 'w) daemon \<Rightarrow> bool"
  for env diffSize st where
  start: "daemon_reachable env diffSize st (daemon_Run st)"
| step: "daemon_reachable env diffSize st s \<Longrightarrow> daemon_step env diffSize s s' \<Longrightarrow> daemon_reachable env diffSize st s'"

section \<open>Every call is answered once\<close>

definition calls_of :: "('c, 'd, 'w) daemon \<Rightarrow> nat list" where
  "calls_of s = map fst (da_replies s) @ map fst (da_sending s) @ map fst (da_waiting s)"

definition daemon_inv :: "(trace_diff \<Rightarrow> nat) \<Rightarrow> ('c, 'd, 'w) daemon \<Rightarrow> bool" where
  "daemon_inv dsz s \<longleftrightarrow> cc_reachable dsz (da_cc s) \<and> mset (calls_of s) = mset [0..<da_arrived s]
     \<and> (\<forall>(i, n) \<in> set (da_waiting s). n < cc_next (da_cc s))"

lemma calls_distinct: "daemon_inv dsz s \<Longrightarrow> distinct (calls_of s)"
  unfolding daemon_inv_def by (metis distinct_upt mset_eq_imp_distinct_iff)

text \<open>Taking one call out of a list of distinct ones.\<close>

lemma taken_out:
  "distinct (map fst xs) \<Longrightarrow> (i, x) \<in> set xs \<Longrightarrow> mset (map fst xs) = add_mset i (mset (map fst (filter (\<lambda>y. fst y \<noteq> i) xs)))"
proof (induction xs)
  case (Cons y ys)
  show ?case
  proof (cases "fst y = i")
    case True
    with Cons.prems(1) have "\<forall>z \<in> set ys. fst z \<noteq> i" by (force simp: image_iff)
    then have "filter (\<lambda>z. fst z \<noteq> i) ys = ys" by simp
    with True show ?thesis by simp
  next
    case False
    with Cons show ?thesis by auto
  qed
qed simp

lemma call_event_step:
  assumes "\<not> cc_panic cc" "has_room cc"
  shows "cc_step dsz cc (enqueue_event (call_event call (cc_next cc)) (cc\<lparr>cc_next := Suc (cc_next cc)\<rparr>))"
  by (cases call) (auto intro: cc_step.register [OF assms] cc_step.add_events [OF assms])

lemma daemon_inv_step:
  assumes "daemon_step env dsz s s'" "daemon_inv dsz s"
  shows "daemon_inv dsz s'"
  using assms(1)
proof cases
  case (arrives ep req)
  then show ?thesis using assms(2)
    by (auto simp: daemon_inv_def daemon_arrival_def calls_of_def Let_def atLeast0_lessThan_Suc split: prod.split sum.split)
next
  case (sends i call)
  have "mset (map fst (da_sending s)) = add_mset i (mset (map fst (filter (\<lambda>x. fst x \<noteq> i) (da_sending s))))"
    using calls_distinct [OF assms(2)] sends(4) by (intro taken_out) (simp_all add: calls_of_def)
  moreover have "cc_reachable dsz (da_cc (daemon_send i call s))"
    using cc_reachable.step [OF _ call_event_step [OF sends(2,3), of dsz call]] assms(2)
    by (simp add: daemon_inv_def daemon_send_def Let_def)
  ultimately show ?thesis using assms(2) unfolding sends(1)
    by (auto simp: daemon_inv_def daemon_send_def calls_of_def Let_def enqueue_event_def add.assoc add.commute)
next
  case (works cc)
  with assms(2) show ?thesis
    by (auto simp: daemon_inv_def calls_of_def intro: cc_reachable.step)
next
  case (replies i n r)
  have "mset (map fst (da_waiting s)) = add_mset i (mset (map fst (filter (\<lambda>x. fst x \<noteq> i) (da_waiting s))))"
    using calls_distinct [OF assms(2)] replies(3) by (intro taken_out) (simp_all add: calls_of_def)
  then show ?thesis using assms(2) unfolding replies(1)
    by (auto simp: daemon_inv_def daemon_reply_def calls_of_def)
qed

lemma daemon_inv_reachable: "daemon_reachable env dsz st s \<Longrightarrow> daemon_inv dsz s"
proof (induction rule: daemon_reachable.induct)
  case start
  then show ?case by (simp add: daemon_inv_def daemon_Run_def calls_of_def cc_reachable.start)
next
  case (step s s')
  then show ?case by (blast intro: daemon_inv_step)
qed


text \<open>A registration for a cached service arrives and is sent to the cloud client.\<close>

definition demo_daemon_env :: "(unit, unit, unit, unit) daemon_env" where
  "demo_daemon_env =
     \<lparr>de_marshal = (\<lambda>_. Some ''{}''), de_marshal_response = (\<lambda>_. Some ''{}''), de_content_type = (\<lambda>s. s),
      de_services = \<lparr>cache_Get = (\<lambda>_ _. Some ''svc''), cache_Set = (\<lambda>_ _ c. c)\<rparr>,
      de_sessions = \<lparr>cache_Get = (\<lambda>_ _. None), cache_Set = (\<lambda>_ _ c. c)\<rparr>,
      de_client = \<lparr>fc_GetServices = (\<lambda>w. (w, Inr [])), fc_GetService = (\<lambda>i w. (w, Inr \<lparr>is_ID = i, is_Name = i\<rparr>)),
                   fc_CreateService = (\<lambda>n c w. (w, Inr ''svc''))\<rparr>,
      de_session_id = (\<lambda>i n w. (w, Inr n)), de_view_error = (\<lambda>e. \<lparr>ge_http = None, ge_text = ''lookup''\<rparr>),
      de_service = length, de_trace = length,
      de_decode_registration = (\<lambda>b. Inr (b, [])), de_decode_events = (\<lambda>b. Inr (b, [], True))\<rparr>"

definition demo_daemon_request :: in_request where
  "demo_daemon_request = \<lparr>ir_method = ''POST'', ir_path = ''/'',
     ir_header = fmupd ''Content-Type'' [''application/json''] fmempty, ir_body = ''mw''\<rparr>"

lemma demo_daemon_handled:
  "daemon_handle demo_daemon_env (Middleware ''Svc'') demo_daemon_request ((), (), ())
     = (((), (), ()), Inr (RegistrationCall ''mw'' 3 []))"
  by code_simp


end
