(* ===== verification/Files.thy ===== *)
theory Files
  imports Rest_Client
begin

text \<open>
  What the commands use of \<open>path/filepath\<close> and \<open>os\<close>: lexical paths of Unix, and files with their contents.
  The working directory, the directories, and the failures of the operating system are arguments.
\<close>

section \<open>Paths\<close>

text \<open>\<open>filepath.Split\<close>: the path up to and with its last slash, and what follows.\<close>

definition filepath_Split :: "string \<Rightarrow> string \<times> string" where
  "filepath_Split path =
     (let name = rev (takeWhile (\<lambda>c. c \<noteq> CHR ''/'') (rev path))
      in (take (length path - length name) path, name))"

fun path_elements :: "string \<Rightarrow> string \<Rightarrow> string list" where
  "path_elements acc [] = [acc]"
| "path_elements acc (c # cs) = (if c = CHR ''/'' then acc # path_elements [] cs else path_elements (acc @ [c]) cs)"

text \<open>
  \<open>filepath.Clean\<close>: empty elements and dots go, two dots take the element before with them; at the root they go.
  The elements kept so far are in reverse order.
\<close>

definition clean_element :: "bool \<Rightarrow> string list \<Rightarrow> string \<Rightarrow> string list" where
  "clean_element rooted kept e =
     (if e = [] \<or> e = ''.'' then kept
      else if e = ''..'' then
        (case kept of
           k # ks \<Rightarrow> if k \<noteq> ''..'' then ks else e # kept
         | [] \<Rightarrow> if rooted then [] else [e])
      else e # kept)"

fun path_join :: "string list \<Rightarrow> string" where
  "path_join [] = []"
| "path_join [e] = e"
| "path_join (e # es) = e @ ''/'' @ path_join es"

definition filepath_Clean :: "string \<Rightarrow> string" where
  "filepath_Clean path =
     (let rooted = (take 1 path = ''/'');
          out = path_join (rev (foldl (clean_element rooted) [] (path_elements [] path)))
      in if rooted then ''/'' @ out else if out = [] then ''.'' else out)"

definition filepath_Join :: "string list \<Rightarrow> string" where
  "filepath_Join es =
     (let es = dropWhile (\<lambda>e. e = []) es in if es = [] then [] else filepath_Clean (path_join es))"

definition filepath_Abs :: "string + string \<Rightarrow> string \<Rightarrow> string + string" where
  "filepath_Abs cwd path =
     (if take 1 path = ''/'' then Inr (filepath_Clean path)
      else case cwd of Inl e \<Rightarrow> Inl e | Inr wd \<Rightarrow> Inr (filepath_Join [wd, path]))"

text \<open>A name joined to a clean path: the two with a slash between them.\<close>

lemma path_elements_append: "path_elements acc (p @ CHR ''/'' # q) = path_elements acc p @ path_elements [] q"
  by (induction acc p rule: path_elements.induct) auto

lemma path_elements_name: "CHR ''/'' \<notin> set q \<Longrightarrow> path_elements acc q = [acc @ q]"
  by (induction acc q rule: path_elements.induct) auto

lemma path_join_snoc: "es \<noteq> [] \<Longrightarrow> path_join (es @ [e]) = path_join es @ ''/'' @ e"
  by (induction es rule: path_join.induct) auto

definition plain_name :: "string \<Rightarrow> bool" where
  "plain_name n \<longleftrightarrow> CHR ''/'' \<notin> set n \<and> n \<noteq> [] \<and> n \<noteq> ''.'' \<and> n \<noteq> ''..''"

definition join_prefix :: "string \<Rightarrow> string" where
  "join_prefix dir =
     (let kept = rev (foldl (clean_element (take 1 dir = ''/'')) [] (path_elements [] dir))
      in (if take 1 dir = ''/'' then ''/'' else []) @ (if kept = [] then [] else path_join kept @ ''/''))"

lemma Join_prefix:
  assumes "plain_name n"
  shows "filepath_Join [dir, n] = join_prefix dir @ n"
proof (cases "dir = []")
  case True
  with assms show ?thesis
    by (cases n) (auto simp: filepath_Join_def filepath_Clean_def join_prefix_def plain_name_def path_elements_name clean_element_def)
next
  case False
  then have r: "take 1 (dir @ ''/'' @ n) = take 1 dir" by (cases dir) simp_all
  from False have "filepath_Join [dir, n] = filepath_Clean (dir @ ''/'' @ n)" by (simp add: filepath_Join_def)
  also have "\<dots> = join_prefix dir @ n"
    using assms unfolding filepath_Clean_def join_prefix_def r
    by (auto simp: Let_def path_elements_append path_elements_name plain_name_def clean_element_def path_join_snoc)
  finally show ?thesis .
qed

lemma Join_name:
  assumes "filepath_Clean p = p" "take 1 p = ''/''" "p \<noteq> ''/''" "plain_name n"
  shows "filepath_Join [p, n] = p @ ''/'' @ n"
proof -
  let ?kept = "rev (foldl (clean_element True) [] (path_elements [] p))"
  from assms(1,2) have p: "''/'' @ path_join ?kept = p" by (simp add: filepath_Clean_def Let_def)
  with assms(3) have "?kept \<noteq> []" by (cases "?kept") auto
  with p assms(2) have "join_prefix p = p @ ''/''" by (simp add: join_prefix_def Let_def)
  with Join_prefix [OF assms(4)] show ?thesis by simp
qed

lemma Join_inject: "plain_name m \<Longrightarrow> plain_name n \<Longrightarrow> filepath_Join [dir, m] = filepath_Join [dir, n] \<longleftrightarrow> m = n"
  by (simp add: Join_prefix)

section \<open>Files\<close>

type_synonym files = "(string, string) fmap"

record os_env =
  os_cwd :: "string + string"
  os_dir :: "string \<Rightarrow> bool"
  os_stat_fails :: "string \<Rightarrow> string option"
  os_create_fails :: "string \<Rightarrow> string option"
  os_write_fails :: "string \<Rightarrow> nat option"
  os_read_fails :: "string \<Rightarrow> string option"

definition os_Stat :: "os_env \<Rightarrow> files \<Rightarrow> string \<Rightarrow> file_stat" where
  "os_Stat env fs path =
     (case os_stat_fails env path of
        Some e \<Rightarrow> StatFailed e
      | None \<Rightarrow> if has_key fs path \<or> os_dir env path then FileThere else FileMissing)"

definition os_Create :: "os_env \<Rightarrow> string \<Rightarrow> files \<Rightarrow> files \<times> string option" where
  "os_Create env path fs = (case os_create_fails env path of Some e \<Rightarrow> (fs, Some e) | None \<Rightarrow> (fmupd path [] fs, None))"

text \<open>A write that fails has written the first bytes, \<open>os_write_fails\<close> says how many; the result is whether it failed.\<close>

definition file_Write :: "os_env \<Rightarrow> string \<Rightarrow> string \<Rightarrow> files \<Rightarrow> files \<times> bool" where
  "file_Write env path data fs =
     (case os_write_fails env path of
        Some n \<Rightarrow> (fmupd path (take n data) fs, True)
      | None \<Rightarrow> (fmupd path data fs, False))"

definition os_ReadFile :: "os_env \<Rightarrow> files \<Rightarrow> string \<Rightarrow> string + string" where
  "os_ReadFile env fs path =
     (case os_read_fails env path of
        Some e \<Rightarrow> Inl e
      | None \<Rightarrow> (case fmlookup fs path of Some b \<Rightarrow> Inr b | None \<Rightarrow> Inl ''no such file or directory''))"

text \<open>Files that are there stay as they are: the order in which a run of a command may change the files.\<close>

definition only_new_files :: "string set \<Rightarrow> files \<Rightarrow> files \<Rightarrow> bool" where
  "only_new_files ps fs fs' \<longleftrightarrow>
     (\<forall>p. fmlookup fs' p = fmlookup fs p \<or> fmlookup fs p = None \<and> p \<in> ps)"

lemma only_new_refl [simp]: "only_new_files ps fs fs"
  by (simp add: only_new_files_def)

lemma only_new_trans: "only_new_files ps fs fs' \<Longrightarrow> only_new_files qs fs' fs'' \<Longrightarrow> only_new_files (ps \<union> qs) fs fs''"
  unfolding only_new_files_def by (metis Un_iff)

lemma only_new_mono: "only_new_files ps fs fs' \<Longrightarrow> ps \<subseteq> qs \<Longrightarrow> only_new_files qs fs fs'"
  unfolding only_new_files_def by blast

lemma only_new_upd: "fmlookup fs p = None \<Longrightarrow> p \<in> ps \<Longrightarrow> only_new_files ps fs (fmupd p d fs)"
  by (simp add: only_new_files_def)

lemma stat_missing: "os_Stat env fs p \<noteq> FileThere \<Longrightarrow> os_stat_fails env p = None \<Longrightarrow> fmlookup fs p = None"
  by (auto simp: os_Stat_def split: if_splits)

end
