(* ===== verification/Kube_Inject.thy ===== *)
theory Kube_Inject
  imports Files
begin

text \<open>
  cmd/internal/kube: injecting the agent as a sidecar into the Deployments of a Kubernetes file, with the secrets
  it needs. The Kubernetes libraries (the YAML reader, the conversions between objects and Deployments, the
  marshaller) are arguments; so are the caches and the client with which a collection is looked up.
\<close>

section \<open>The injector\<close>

record group_version_kind =
  gvk_Group :: string
  gvk_Version :: string
  gvk_Kind :: string

text \<open>A Deployment as far as the injector looks into it: its namespace, its containers, and the rest.\<close>

record ('c, 'r) deployment =
  dp_Namespace :: string
  dp_Containers :: "'c list"
  dp_rest :: 'r

record ('o, 'j, 'c, 'r) kube_libs =
  kl_Read :: "string \<Rightarrow> (string + string) list"
  kl_ToJSON :: "string \<Rightarrow> string + 'j"
  kl_Decode :: "'j \<Rightarrow> string + 'o option"
  kl_GroupVersionKind :: "'o \<Rightarrow> group_version_kind"
  kl_FromUnstructured :: "'o \<Rightarrow> string + ('c, 'r) deployment"
  kl_ToUnstructured :: "('c, 'r) deployment \<Rightarrow> string + 'o"
  kl_Marshal :: "'o \<Rightarrow> string + string"
  kl_order :: "string list \<Rightarrow> string list"

text \<open>Errors as values: \<open>Wrap\<close> puts a text before the cause.\<close>

datatype kube_error = Plain string | Akita kube_error | Lookup lookup_error

definition wrap :: "string \<Rightarrow> string \<Rightarrow> string" where
  "wrap msg cause = msg @ '': '' @ cause"

definition fromRawObject :: "('o, 'j, 'c, 'r) kube_libs \<Rightarrow> string \<Rightarrow> string + 'o" where
  "fromRawObject L raw =
     (case kl_ToJSON L raw of
        Inl e \<Rightarrow> Inl e
      | Inr j \<Rightarrow>
          (case kl_Decode L j of
             Inl e \<Rightarrow> Inl e
           | Inr None \<Rightarrow> Inl ''unstructured conversion failed''
           | Inr (Some obj) \<Rightarrow> Inr obj))"

text \<open>The documents of the file up to its end, each read or an error.\<close>

fun read_objects :: "('o, 'j, 'c, 'r) kube_libs \<Rightarrow> 'o list \<Rightarrow> (string + string) list \<Rightarrow> string + 'o list" where
  "read_objects L objList [] = Inr objList"
| "read_objects L objList (Inl e # reads) = Inl (wrap ''failed to read raw yaml file'' e)"
| "read_objects L objList (Inr raw # reads) =
     (case fromRawObject L raw of
        Inl e \<Rightarrow> Inl (wrap ''failed to convert raw yaml resource to an unstructured object'' e)
      | Inr obj \<Rightarrow> read_objects L (objList @ [obj]) reads)"

definition getFile :: "os_env \<Rightarrow> files \<Rightarrow> string \<Rightarrow> string + string" where
  "getFile env fs filePath =
     (case filepath_Split filePath of
        (fileDir, fileName) \<Rightarrow>
          (case filepath_Abs (os_cwd env) fileDir of
             Inl e \<Rightarrow> Inl e
           | Inr absOutputDir \<Rightarrow>
               if os_Stat env fs absOutputDir = FileMissing
               then Inl (''directory '' @ absOutputDir @ '' does not exist'')
               else let absPath = filepath_Join [absOutputDir, fileName]
                    in if os_Stat env fs absPath = FileMissing
                       then Inl (''file '' @ absPath @ '' does not exist'')
                       else os_ReadFile env fs absPath))"

definition FromYAML :: "('o, 'j, 'c, 'r) kube_libs \<Rightarrow> os_env \<Rightarrow> files \<Rightarrow> string \<Rightarrow> string + 'o list" where
  "FromYAML L env fs filePath =
     (case getFile env fs filePath of
        Inl e \<Rightarrow> Inl (wrap ''failed to retrieve raw yaml file content'' e)
      | Inr yamlContent \<Rightarrow> read_objects L [] (kl_Read L yamlContent))"

definition isInjectable :: "group_version_kind \<Rightarrow> bool" where
  "isInjectable kind \<longleftrightarrow> kind = \<lparr>gvk_Group = ''apps'', gvk_Version = ''v1'', gvk_Kind = ''Deployment''\<rparr>"

definition toDeployment :: "('o, 'j, 'c, 'r) kube_libs \<Rightarrow> 'o \<Rightarrow> string + ('c, 'r) deployment" where
  "toDeployment L obj =
     (case kl_FromUnstructured L obj of
        Inl e \<Rightarrow> Inl (wrap ''failed to convert object to deployment during injection'' e)
      | Inr d \<Rightarrow> Inr d)"

text \<open>
  A set of strings is the list of its members in the order in which they were inserted; \<open>kl_order\<close> is the order
  in which \<open>AsSlice\<close> gives them.
\<close>

definition set_Insert :: "string \<Rightarrow> string list \<Rightarrow> string list" where
  "set_Insert x xs = (if x \<in> set xs then xs else xs @ [x])"

fun collect_namespaces :: "('o, 'j, 'c, 'r) kube_libs \<Rightarrow> string list \<Rightarrow> 'o list \<Rightarrow> string + string list" where
  "collect_namespaces L ns [] = Inr ns"
| "collect_namespaces L ns (obj # objects) =
     (if \<not> isInjectable (kl_GroupVersionKind L obj) then collect_namespaces L ns objects
      else case toDeployment L obj of
        Inl e \<Rightarrow> Inl (wrap ''failed to convert object to deployment during namespace discovery'' e)
      | Inr d \<Rightarrow> collect_namespaces L (set_Insert (if dp_Namespace d = [] then ''default'' else dp_Namespace d) ns) objects)"

definition InjectableNamespaces :: "('o, 'j, 'c, 'r) kube_libs \<Rightarrow> 'o list \<Rightarrow> string + string list" where
  "InjectableNamespaces L objects =
     (case collect_namespaces L [] objects of Inl e \<Rightarrow> Inl e | Inr ns \<Rightarrow> Inr (kl_order L ns))"

definition inject_object :: "('o, 'j, 'c, 'r) kube_libs \<Rightarrow> 'c \<Rightarrow> 'o \<Rightarrow> string + 'o" where
  "inject_object L sidecar obj =
     (if \<not> isInjectable (kl_GroupVersionKind L obj) then Inr obj
      else case toDeployment L obj of
        Inl e \<Rightarrow> Inl (wrap ''failed to convert object to deployment during injection'' e)
      | Inr d \<Rightarrow>
          (case kl_ToUnstructured L (d\<lparr>dp_Containers := dp_Containers d @ [sidecar]\<rparr>) of
             Inl e \<Rightarrow> Inl (wrap ''failed to convert injected deployment to unstructured object'' e)
           | Inr obj \<Rightarrow> Inr obj))"

text \<open>\<open>slices.MapWithErr\<close>: the results, or the first error.\<close>

fun MapWithErr :: "('a \<Rightarrow> 'e + 'b) \<Rightarrow> 'a list \<Rightarrow> 'e + 'b list" where
  "MapWithErr f [] = Inr []"
| "MapWithErr f (x # xs) =
     (case f x of Inl e \<Rightarrow> Inl e | Inr y \<Rightarrow> (case MapWithErr f xs of Inl e \<Rightarrow> Inl e | Inr ys \<Rightarrow> Inr (y # ys)))"

definition kube_Inject :: "('o, 'j, 'c, 'r) kube_libs \<Rightarrow> 'c \<Rightarrow> 'o list \<Rightarrow> string + 'o list" where
  "kube_Inject L sidecar objects = MapWithErr (inject_object L sidecar) objects"

definition line :: "string \<Rightarrow> string" where
  "line s = s @ [CHR 0x0A]"

fun write_objects :: "('o, 'j, 'c, 'r) kube_libs \<Rightarrow> string \<Rightarrow> 'o list \<Rightarrow> string + string" where
  "write_objects L out [] = Inr out"
| "write_objects L out (obj # objects) =
     (case kl_Marshal L obj of
        Inl e \<Rightarrow> Inl e
      | Inr raw \<Rightarrow> write_objects L (out @ line ''---'' @ raw) objects)"

definition ToRawYAML :: "('o, 'j, 'c, 'r) kube_libs \<Rightarrow> 'o list \<Rightarrow> 'c \<Rightarrow> string + string" where
  "ToRawYAML L objects sidecar =
     (case kube_Inject L sidecar objects of Inl e \<Rightarrow> Inl e | Inr injected \<Rightarrow> write_objects L [] injected)"

section \<open>Secrets\<close>

text \<open>template/postman-secret.tmpl with its two values; \<open>text/template\<close> puts them in as they are.\<close>

definition secretTemplate :: "string \<Rightarrow> string \<Rightarrow> string" where
  "secretTemplate Namespace APIKey =
     concat (map line [''apiVersion: v1'', ''kind: Secret'', ''metadata:'', ''  name: postman-agent-secrets'',
       ''  namespace: '' @ Namespace, ''type: Opaque'', ''data:'', ''  postman-api-key: '' @ APIKey])"

definition handlePostmanSecretGeneration :: "string \<Rightarrow> string \<Rightarrow> string" where
  "handlePostmanSecretGeneration namespace key = secretTemplate namespace (b64_std_encode (string_bytes key))"

record secretGenerationOptions =
  ShouldInject :: bool
  Filepath :: "string option"

definition resolveSecretGenerationOptions :: "string \<Rightarrow> secretGenerationOptions" where
  "resolveSecretGenerationOptions flagValue =
     (if flagValue = [] \<or> flagValue = ''false'' then \<lparr>ShouldInject = False, Filepath = None\<rparr>
      else if flagValue = ''true'' then \<lparr>ShouldInject = True, Filepath = None\<rparr>
      else \<lparr>ShouldInject = True, Filepath = Some flagValue\<rparr>)"

definition RequirePostmanAPICredentials :: "creds \<Rightarrow> kube_error + string" where
  "RequirePostmanAPICredentials creds =
     (case PostmanAPIKeyAndEnvironment creds of
        (key, _) \<Rightarrow> if key = [] then Inl (Akita (Plain ''Could not find a Postman API key to use'')) else Inr key)"

section \<open>The sidecar\<close>

text \<open>The fields of a container that the code sets; the others have their zero values.\<close>

datatype env_value = Literal string | SecretKeyRef string string

record sidecar =
  sc_Name :: string
  sc_Image :: string
  sc_Env :: "(string \<times> env_value) list"
  sc_PreStop :: "string list"
  sc_Args :: "string list"
  sc_AddCapabilities :: "string list"

definition akitaImage :: string where
  "akitaImage = ''docker.postman.com/postman-insights-agent:latest''"

definition createPostmanSidecar :: "creds \<Rightarrow> string \<Rightarrow> string \<Rightarrow> string \<Rightarrow> sidecar" where
  "createPostmanSidecar creds domain postmanCollectionID postmanEnvironment =
     \<lparr>sc_Name = ''postman-insights-agent'', sc_Image = akitaImage,
      sc_Env = [(''POSTMAN_API_KEY'', SecretKeyRef ''postman-agent-secrets'' ''postman-api-key'')]
        @ (if postmanEnvironment \<noteq> [] then [(''POSTMAN_ENV'', Literal postmanEnvironment)] else []),
      sc_PreStop = [''/bin/sh'', ''-c'',
        ''POSTMAN_INSIGHTS_AGENT_PID=$(pgrep postman-insights-agent) && kill -2 $POSTMAN_INSIGHTS_AGENT_PID && tail -f /proc/$POSTMAN_INSIGHTS_AGENT_PID/fd/1''],
      sc_Args = [''apidump'', ''--collection'', postmanCollectionID]
        @ (if domain \<noteq> DefaultDomain creds then [''--domain'', domain] else []),
      sc_AddCapabilities = [''NET_RAW'']\<rparr>"

section \<open>Writing the output\<close>

definition createFile :: "os_env \<Rightarrow> string \<Rightarrow> files \<Rightarrow> files \<times> (string + string)" where
  "createFile env path fs =
     (case filepath_Split path of
        (outputDir, outputName) \<Rightarrow>
          (case filepath_Abs (os_cwd env) outputDir of
             Inl e \<Rightarrow> (fs, Inl (wrap ''failed to resolve the absolute path of the output directory'' e))
           | Inr absOutputDir \<Rightarrow>
               if os_Stat env fs absOutputDir = FileMissing
               then (fs, Inl (''output directory '' @ absOutputDir @ '' does not exist''))
               else let outputFilePath = filepath_Join [absOutputDir, outputName]
                    in if os_Stat env fs outputFilePath = FileThere
                       then (fs, Inl (''output file '' @ outputFilePath @ '' already exists''))
                       else (case os_Create env outputFilePath fs of
                               (fs, Some e) \<Rightarrow> (fs, Inl (wrap ''failed to create the output file'' e))
                             | (fs, None) \<Rightarrow> (fs, Inr outputFilePath))))"

definition writeFile :: "os_env \<Rightarrow> string \<Rightarrow> string \<Rightarrow> files \<Rightarrow> files \<times> kube_error option" where
  "writeFile env data filePath fs =
     (case createFile env filePath fs of
        (fs, Inl e) \<Rightarrow> (fs, Some (Akita (Akita (Plain (wrap (''failed to create file '' @ filePath) e)))))
      | (fs, Inr f) \<Rightarrow>
          (case file_Write env f data fs of
             (fs, True) \<Rightarrow> (fs, Some (Plain (''failed to write to file '' @ filePath)))
           | (fs, False) \<Rightarrow> (fs, None)))"

section \<open>The command\<close>

record inject_flags =
  if_file :: string
  if_output :: string
  if_secret :: string
  if_collection :: string

record ('c, 'w) kube_session =
  ks_cache :: "('c, service_id) cache_ops"
  ks_client :: "'w front_client"
  ks_service_name :: string
  ks_creds :: creds
  ks_domain :: string
  ks_os :: os_env

record ('c, 'w) kube_state =
  kt_lookup :: "'c \<times> 'w"
  kt_files :: files
  kt_stdout :: string

definition lookupService :: "('c, 'w) kube_session \<Rightarrow> string \<Rightarrow> ('c, 'w) kube_state \<Rightarrow> ('c, 'w) kube_state \<times> kube_error option" where
  "lookupService S postmanCollectionID t =
     (case GetOrCreateServiceIDByPostmanCollectionID (ks_cache S) (ks_client S) (ks_service_name S) postmanCollectionID (kt_lookup t) of
        (l, r) \<Rightarrow> (t\<lparr>kt_lookup := l\<rparr>, case r of Inl e \<Rightarrow> Some (Lookup e) | Inr _ \<Rightarrow> None))"

definition secrets_for :: "string \<Rightarrow> string list \<Rightarrow> string" where
  "secrets_for key namespaces = concat (map (\<lambda>ns. line ''---'' @ handlePostmanSecretGeneration ns key) namespaces)"

definition generate_secrets ::
  "('o, 'j, sidecar, 'r) kube_libs \<Rightarrow> creds \<Rightarrow> secretGenerationOptions \<Rightarrow> 'o list \<Rightarrow> kube_error + string" where
  "generate_secrets L creds secretOpts objects =
     (if ShouldInject secretOpts then
        (case InjectableNamespaces L objects of
           Inl e \<Rightarrow> Inl (Plain e)
         | Inr namespaces \<Rightarrow>
             (case RequirePostmanAPICredentials creds of
                Inl e \<Rightarrow> Inl e
              | Inr key \<Rightarrow> Inr (secrets_for key namespaces)))
      else Inr [])"

definition inject_sidecars ::
  "('o, 'j, sidecar, 'r) kube_libs \<Rightarrow> ('c, 'w) kube_session \<Rightarrow> inject_flags \<Rightarrow> 'o list \<Rightarrow> string \<Rightarrow> ('c, 'w) kube_state
     \<Rightarrow> ('c, 'w) kube_state \<times> kube_error option" where
  "inject_sidecars L S fl objects out t =
     (let container = createPostmanSidecar (ks_creds S) (ks_domain S) (if_collection fl)
            (snd (PostmanAPIKeyAndEnvironment (ks_creds S)))
      in case ToRawYAML L objects container of
           Inl e \<Rightarrow> (t, Some (Akita (Plain (wrap ''Failed to inject sidecars'' e))))
         | Inr rawInjected \<Rightarrow>
             let out = out @ rawInjected
             in if if_output fl = [] then (t\<lparr>kt_stdout := kt_stdout t @ out\<rparr>, None)
                else (case writeFile (ks_os S) out (if_output fl) (kt_files t) of (fs, e) \<Rightarrow> (t\<lparr>kt_files := fs\<rparr>, e)))"

definition injectCmd ::
  "('o, 'j, sidecar, 'r) kube_libs \<Rightarrow> ('c, 'w) kube_session \<Rightarrow> inject_flags \<Rightarrow> ('c, 'w) kube_state
     \<Rightarrow> ('c, 'w) kube_state \<times> kube_error option" where
  "injectCmd L S fl t =
     (if if_collection fl = [] then (t, Some (Akita (Plain ''--collection must be specified.'')))
      else case lookupService S (if_collection fl) t of
        (t, Some e) \<Rightarrow> (t, Some e)
      | (t, None) \<Rightarrow>
          let secretOpts = resolveSecretGenerationOptions (if_secret fl)
          in if ShouldInject secretOpts \<and> Filepath secretOpts \<noteq> None \<and> if_output fl = []
             then (t, Some (Akita (Plain ''invalid flag usage'')))
             else (case FromYAML L (ks_os S) (kt_files t) (if_file fl) of
                Inl e \<Rightarrow> (t, Some (Akita (Plain (wrap (''Failed to read injection file '' @ if_file fl) e))))
              | Inr objects \<Rightarrow>
                  (case generate_secrets L (ks_creds S) secretOpts objects of
                     Inl e \<Rightarrow> (t, Some e)
                   | Inr secretBuf \<Rightarrow>
                       (case Filepath secretOpts of
                          None \<Rightarrow> inject_sidecars L S fl objects secretBuf t
                        | Some secretFilePath \<Rightarrow>
                            (case writeFile (ks_os S) secretBuf secretFilePath (kt_files t) of
                               (fs, Some e) \<Rightarrow> (t\<lparr>kt_files := fs\<rparr>, Some e)
                             | (fs, None) \<Rightarrow> inject_sidecars L S fl objects [] (t\<lparr>kt_files := fs\<rparr>))))))"

section \<open>What a run leaves\<close>

text \<open>
  Converting a Deployment to an object and back gives it again; the members of a set come in some order; where a
  path cannot be examined no file can be made either.
\<close>

definition converter_law :: "('o, 'j, 'c, 'r) kube_libs \<Rightarrow> bool" where
  "converter_law L \<longleftrightarrow> (\<forall>d obj. kl_ToUnstructured L d = Inr obj \<longrightarrow> kl_FromUnstructured L obj = Inr d)"

definition order_law :: "('o, 'j, 'c, 'r) kube_libs \<Rightarrow> bool" where
  "order_law L \<longleftrightarrow> (\<forall>xs. mset (kl_order L xs) = mset xs)"

definition stat_law :: "os_env \<Rightarrow> bool" where
  "stat_law env \<longleftrightarrow> (\<forall>p. os_stat_fails env p \<noteq> None \<longrightarrow> os_create_fails env p \<noteq> None)"

definition resolved :: "os_env \<Rightarrow> string \<Rightarrow> string option" where
  "resolved env path =
     (case filepath_Split path of
        (dir, name) \<Rightarrow> (case filepath_Abs (os_cwd env) dir of Inl _ \<Rightarrow> None | Inr d \<Rightarrow> Some (filepath_Join [d, name])))"

definition injected_into :: "('o, 'j, 'c, 'r) kube_libs \<Rightarrow> 'c \<Rightarrow> 'o \<Rightarrow> 'o \<Rightarrow> bool" where
  "injected_into L c obj obj' \<longleftrightarrow>
     (if isInjectable (kl_GroupVersionKind L obj)
      then \<exists>d. kl_FromUnstructured L obj = Inr d
        \<and> kl_FromUnstructured L obj' = Inr (d\<lparr>dp_Containers := dp_Containers d @ [c]\<rparr>)
      else obj' = obj)"

definition documents :: "('o, 'j, 'c, 'r) kube_libs \<Rightarrow> 'o list \<Rightarrow> string" where
  "documents L objs = concat (map (\<lambda>obj. line ''---'' @ projr (kl_Marshal L obj)) objs)"

definition namespace_of :: "('o, 'j, 'c, 'r) kube_libs \<Rightarrow> 'o \<Rightarrow> string" where
  "namespace_of L obj =
     (let ns = dp_Namespace (projr (kl_FromUnstructured L obj)) in if ns = [] then ''default'' else ns)"

lemma file_Write_cases:
  "file_Write env p data fs = (fs', False) \<longleftrightarrow> os_write_fails env p = None \<and> fs' = fmupd p data fs"
  "file_Write env p data fs = (fs', b) \<Longrightarrow> \<exists>d. fs' = fmupd p d fs"
  by (auto simp: file_Write_def split: option.splits)

lemma createFile_cases:
  assumes "createFile env path fs = (fs', r)" "stat_law env"
  shows "(\<exists>p. r = Inr p \<and> resolved env path = Some p \<and> fmlookup fs p = None \<and> fs' = fmupd p [] fs)
    \<or> (\<exists>e. r = Inl e \<and> fs' = fs)"
proof -
  have "fmlookup fs p = None" if "os_Stat env fs p \<noteq> FileThere" "os_create_fails env p = None" for p
    using that assms(2) stat_missing unfolding stat_law_def by blast
  with assms(1) show ?thesis
    unfolding createFile_def resolved_def os_Create_def
    by (auto simp: Let_def split: prod.splits sum.splits if_splits option.splits)
qed

lemma writeFile_cases:
  assumes "writeFile env data path fs = (fs', e)" "stat_law env"
  shows "(\<exists>p d. resolved env path = Some p \<and> fmlookup fs p = None \<and> fs' = fmupd p d fs \<and> (e = None \<longrightarrow> d = data))
    \<or> e \<noteq> None \<and> fs' = fs"
proof -
  obtain fs1 r where c: "createFile env path fs = (fs1, r)" by fastforce
  show ?thesis
  proof (cases r)
    case (Inl err)
    with createFile_cases [OF c assms(2)] assms(1) c show ?thesis by (auto simp: writeFile_def)
  next
    case (Inr f)
    with createFile_cases [OF c assms(2)]
    have f: "resolved env path = Some f" "fmlookup fs f = None" "fs1 = fmupd f [] fs" by auto
    have upd: "fmupd f d (fmupd f [] fs) = fmupd f d fs" for d by (simp add: fmap_ext)
    show ?thesis
    proof (cases "os_write_fails env f")
      case None
      with assms(1) c Inr f upd show ?thesis by (auto simp: writeFile_def file_Write_def)
    next
      case (Some n)
      with assms(1) c Inr f upd show ?thesis by (auto simp: writeFile_def file_Write_def)
    qed
  qed
qed

lemma writeFile_ok:
  assumes "writeFile env data path fs = (fs', None)" "stat_law env"
  obtains p where "resolved env path = Some p" "fmlookup fs p = None" "fs' = fmupd p data fs"
  using writeFile_cases [OF assms] by auto

lemma writeFile_new:
  "writeFile env data path fs = (fs', e) \<Longrightarrow> stat_law env \<Longrightarrow> only_new_files {p. resolved env path = Some p} fs fs'"
  by (auto dest!: writeFile_cases intro: only_new_upd)

lemma Inject_objects:
  assumes "converter_law L"
  shows "kube_Inject L c objs = Inr out \<Longrightarrow> list_all2 (injected_into L c) objs out"
  unfolding kube_Inject_def
proof (induction objs arbitrary: out)
  case (Cons obj objs)
  then obtain y ys where y: "inject_object L c obj = Inr y" and ys: "MapWithErr (inject_object L c) objs = Inr ys" "out = y # ys"
    by (auto split: sum.splits)
  from y have "injected_into L c obj y"
    using assms unfolding converter_law_def
    by (auto simp: inject_object_def injected_into_def toDeployment_def split: if_splits sum.splits)
  with Cons.IH ys show ?case by simp
qed simp

lemma write_objects_text: "write_objects L buf objs = Inr txt \<Longrightarrow> txt = buf @ documents L objs"
proof (induction objs arbitrary: buf)
  case (Cons obj objs)
  then obtain raw where raw: "kl_Marshal L obj = Inr raw" "write_objects L (buf @ line ''---'' @ raw) objs = Inr txt"
    by (auto split: sum.splits)
  from Cons.IH [OF raw(2)] raw(1) show ?case by (simp add: documents_def)
qed (simp add: documents_def)

lemma ToRawYAML_text:
  assumes "ToRawYAML L objs c = Inr txt" "converter_law L"
  obtains out where "list_all2 (injected_into L c) objs out" "txt = documents L out"
  using assms Inject_objects write_objects_text [of L "[]"]
  unfolding ToRawYAML_def by (fastforce split: sum.splits)

lemma collect_namespaces_set:
  "collect_namespaces L acc objs = Inr ns \<Longrightarrow> distinct acc \<Longrightarrow>
     distinct ns \<and> set ns = set acc \<union> namespace_of L ` set (filter (isInjectable \<circ> kl_GroupVersionKind L) objs)"
proof (induction L acc objs rule: collect_namespaces.induct)
  case (2 L acc obj objs)
  show ?case
  proof (cases "isInjectable (kl_GroupVersionKind L obj)")
    case True
    then obtain d where "kl_FromUnstructured L obj = Inr d"
      using "2.prems"(1) by (auto simp: toDeployment_def split: sum.splits)
    with 2 True show ?thesis
      by (auto simp: toDeployment_def set_Insert_def namespace_of_def Let_def split: if_splits)
  next
    case False
    with 2 show ?thesis by simp
  qed
qed simp

lemma generated_secrets:
  assumes "generate_secrets L creds opts objs = Inr s" "order_law L"
  shows "if ShouldInject opts
    then \<exists>ns. distinct ns \<and> set ns = namespace_of L ` set (filter (isInjectable \<circ> kl_GroupVersionKind L) objs)
      \<and> s = secrets_for (fst (PostmanAPIKeyAndEnvironment creds)) ns
    else s = []"
proof (cases "ShouldInject opts")
  case True
  with assms obtain ns0 where ns0: "collect_namespaces L [] objs = Inr ns0"
    and k: "s = secrets_for (fst (PostmanAPIKeyAndEnvironment creds)) (kl_order L ns0)"
    by (auto simp: generate_secrets_def InjectableNamespaces_def RequirePostmanAPICredentials_def
        split: sum.splits prod.splits if_splits)
  have "mset (kl_order L ns0) = mset ns0" using assms(2) by (simp add: order_law_def)
  with collect_namespaces_set [OF ns0] have "distinct (kl_order L ns0)"
    "set (kl_order L ns0) = namespace_of L ` set (filter (isInjectable \<circ> kl_GroupVersionKind L) objs)"
    by (auto dest: mset_eq_imp_distinct_iff mset_eq_setD)
  with k True show ?thesis by auto
next
  case False
  with assms(1) show ?thesis by (simp add: generate_secrets_def)
qed

definition delivered :: "os_env \<Rightarrow> inject_flags \<Rightarrow> string \<Rightarrow> ('c, 'w) kube_state \<Rightarrow> ('c, 'w) kube_state \<Rightarrow> bool" where
  "delivered os fl txt t t' \<longleftrightarrow>
     (if if_output fl = [] then kt_stdout t' = kt_stdout t @ txt \<and> kt_files t' = kt_files t
      else kt_stdout t' = kt_stdout t \<and>
        (\<exists>p. resolved os (if_output fl) = Some p \<and> fmlookup (kt_files t) p = None \<and> kt_files t' = fmupd p txt (kt_files t)))"

lemma delivered_same:
  "kt_files t1 = kt_files t \<Longrightarrow> kt_stdout t1 = kt_stdout t \<Longrightarrow> delivered os fl txt t1 t' = delivered os fl txt t t'"
  by (simp add: delivered_def)

text \<open>The container that a run injects.\<close>

definition run_sidecar :: "('c, 'w) kube_session \<Rightarrow> inject_flags \<Rightarrow> sidecar" where
  "run_sidecar S fl = createPostmanSidecar (ks_creds S) (ks_domain S) (if_collection fl)
     (snd (PostmanAPIKeyAndEnvironment (ks_creds S)))"

lemma inject_sidecars_ok:
  assumes "inject_sidecars L S fl objs out t = (t', None)" "converter_law L" "stat_law (ks_os S)"
  obtains objs' where "list_all2 (injected_into L (run_sidecar S fl)) objs objs'"
    "delivered (ks_os S) fl (out @ documents L objs') t t'"
proof -
  from assms(1) obtain raw where raw: "ToRawYAML L objs (run_sidecar S fl) = Inr raw"
    by (auto simp: inject_sidecars_def run_sidecar_def split: sum.splits)
  from ToRawYAML_text [OF this assms(2)] obtain objs' where
    objs': "list_all2 (injected_into L (run_sidecar S fl)) objs objs'" "raw = documents L objs'" .
  have "delivered (ks_os S) fl (out @ raw) t t'"
  proof (cases "if_output fl = []")
    case True
    with assms(1) raw show ?thesis
      by (auto simp: inject_sidecars_def delivered_def run_sidecar_def)
  next
    case False
    with assms(1) raw obtain fs where fs: "writeFile (ks_os S) (out @ raw) (if_output fl) (kt_files t) = (fs, None)"
      "t' = t\<lparr>kt_files := fs\<rparr>"
      by (auto simp: inject_sidecars_def run_sidecar_def split: prod.splits)
    from writeFile_ok [OF fs(1) assms(3)] False fs(2) show ?thesis
      by (metis delivered_def kube_state.select_convs(2,3) kube_state.surjective kube_state.update_convs(2))
  qed
  with objs' show thesis by (intro that) auto
qed

lemma inject_sidecars_files:
  assumes "inject_sidecars L S fl objs out t = (t', e)" "stat_law (ks_os S)"
  shows "only_new_files {p. resolved (ks_os S) (if_output fl) = Some p} (kt_files t) (kt_files t')"
    and "e = None \<or> kt_stdout t' = kt_stdout t"
  using assms by (auto simp: inject_sidecars_def Let_def split: sum.splits if_splits prod.splits intro: writeFile_new)

text \<open>The runs of the command that get as far as the injection.\<close>

lemma injectCmd_runs:
  assumes "injectCmd L S fl t = (t', e)"
  obtains (early) "kt_files t' = kt_files t" "kt_stdout t' = kt_stdout t" "e \<noteq> None"
  | (inline) t1 objs secrets where "kt_files t1 = kt_files t" "kt_stdout t1 = kt_stdout t"
      "FromYAML L (ks_os S) (kt_files t) (if_file fl) = Inr objs"
      "Filepath (resolveSecretGenerationOptions (if_secret fl)) = None"
      "generate_secrets L (ks_creds S) (resolveSecretGenerationOptions (if_secret fl)) objs = Inr secrets"
      "inject_sidecars L S fl objs secrets t1 = (t', e)"
  | (separate) t1 objs secrets f fs e1 where "kt_files t1 = kt_files t" "kt_stdout t1 = kt_stdout t"
      "FromYAML L (ks_os S) (kt_files t) (if_file fl) = Inr objs"
      "Filepath (resolveSecretGenerationOptions (if_secret fl)) = Some f" "if_output fl \<noteq> []"
      "generate_secrets L (ks_creds S) (resolveSecretGenerationOptions (if_secret fl)) objs = Inr secrets"
      "writeFile (ks_os S) secrets f (kt_files t) = (fs, e1)"
      "if e1 = None then inject_sidecars L S fl objs [] (t1\<lparr>kt_files := fs\<rparr>) = (t', e)
       else t' = t1\<lparr>kt_files := fs\<rparr> \<and> e = e1"
proof (cases "if_collection fl = []")
  case True
  with assms early show thesis by (auto simp: injectCmd_def)
next
  case False
  obtain t1 r where t1: "lookupService S (if_collection fl) t = (t1, r)" by fastforce
  then have k: "kt_files t1 = kt_files t" "kt_stdout t1 = kt_stdout t"
    by (auto simp: lookupService_def split: prod.splits)
  let ?o = "resolveSecretGenerationOptions (if_secret fl)"
  have sec: "Filepath ?o \<noteq> None \<Longrightarrow> ShouldInject ?o"
    by (simp add: resolveSecretGenerationOptions_def split: if_splits)
  show thesis
  proof (cases "r \<noteq> None \<or> (Filepath ?o \<noteq> None \<and> if_output fl = [])")
    case True
    with assms \<open>if_collection fl \<noteq> []\<close> t1 sec k early show thesis
      by (auto simp: injectCmd_def Let_def split: if_splits option.splits)
  next
    case ok: False
    show thesis
    proof (cases "FromYAML L (ks_os S) (kt_files t) (if_file fl)")
      case (Inl err)
      with assms \<open>if_collection fl \<noteq> []\<close> t1 k ok early show thesis
        by (auto simp: injectCmd_def Let_def split: if_splits)
    next
      case objs: (Inr objs)
      show thesis
      proof (cases "generate_secrets L (ks_creds S) ?o objs")
        case (Inl err)
        with assms \<open>if_collection fl \<noteq> []\<close> t1 k ok objs early show thesis
          by (auto simp: injectCmd_def Let_def split: if_splits)
      next
        case (Inr secrets)
        with assms \<open>if_collection fl \<noteq> []\<close> t1 k ok objs show thesis
          by (cases "Filepath ?o")
             (auto simp: injectCmd_def Let_def split: if_splits prod.splits option.splits intro: inline separate)
      qed
    qed
  qed
qed

text \<open>
  C20: what a successful run of \<open>kube inject\<close> leaves. Every object of the file comes out in its place: a
  Deployment of apps/v1 with the sidecar added once behind its containers, everything else as it was. When secrets
  are asked for, there is one for each namespace of such a Deployment (\<open>default\<close> for an empty one), with the API
  key in base64. The secrets stand before the documents, or alone in the new file named for them; the documents go
  to the new output file, or to the standard output when none is named.
\<close>

theorem kube_inject_output:
  assumes "converter_law L" "order_law L" "stat_law (ks_os S)" "injectCmd L S fl t = (t', None)"
  shows "\<exists>objs objs' secrets. FromYAML L (ks_os S) (kt_files t) (if_file fl) = Inr objs
    \<and> list_all2 (injected_into L (run_sidecar S fl)) objs objs'
    \<and> (if ShouldInject (resolveSecretGenerationOptions (if_secret fl))
       then \<exists>ns. distinct ns \<and> set ns = namespace_of L ` set (filter (isInjectable \<circ> kl_GroupVersionKind L) objs)
         \<and> secrets = secrets_for (fst (PostmanAPIKeyAndEnvironment (ks_creds S))) ns
       else secrets = [])
    \<and> (case Filepath (resolveSecretGenerationOptions (if_secret fl)) of
         None \<Rightarrow> delivered (ks_os S) fl (secrets @ documents L objs') t t'
       | Some f \<Rightarrow> \<exists>p. resolved (ks_os S) f = Some p \<and> fmlookup (kt_files t) p = None
           \<and> delivered (ks_os S) fl (documents L objs') (t\<lparr>kt_files := fmupd p secrets (kt_files t)\<rparr>) t')"
  using assms(4)
proof (cases rule: injectCmd_runs)
  case early
  then show ?thesis by simp
next
  case (inline t1 objs secrets)
  from inject_sidecars_ok [OF inline(6) assms(1,3)] obtain objs' where
    o: "list_all2 (injected_into L (run_sidecar S fl)) objs objs'" "delivered (ks_os S) fl (secrets @ documents L objs') t1 t'" .
  from o(2) have "delivered (ks_os S) fl (secrets @ documents L objs') t t'"
    by (simp only: delivered_same [OF inline(1,2)])
  with o(1) inline(3,4) generated_secrets [OF inline(5) assms(2)] show ?thesis
    by (intro exI [of _ objs] exI [of _ objs'] exI [of _ secrets] conjI) simp_all
next
  case (separate t1 objs secrets f fs e1)
  then have e1: "e1 = None" by (auto split: if_splits)
  with separate(7) have w: "writeFile (ks_os S) secrets f (kt_files t) = (fs, None)" by simp
  from writeFile_ok [OF w assms(3)] obtain p where
    p: "resolved (ks_os S) f = Some p" "fmlookup (kt_files t) p = None" "fs = fmupd p secrets (kt_files t)" .
  from separate(8) e1 have "inject_sidecars L S fl objs [] (t1\<lparr>kt_files := fs\<rparr>) = (t', None)" by simp
  from inject_sidecars_ok [OF this assms(1,3)] obtain objs' where
    o: "list_all2 (injected_into L (run_sidecar S fl)) objs objs'"
      "delivered (ks_os S) fl (documents L objs') (t1\<lparr>kt_files := fs\<rparr>) t'" by auto
  have "delivered (ks_os S) fl (documents L objs') (t\<lparr>kt_files := fmupd p secrets (kt_files t)\<rparr>) t'"
    by (rule iffD1 [OF delivered_same o(2)]) (simp_all add: p(3) separate(2))
  with o(1) separate(3,4) p(1,2) generated_secrets [OF separate(6) assms(2)] show ?thesis
    by (intro exI [of _ objs] exI [of _ objs'] exI [of _ secrets] conjI) simp_all
qed

text \<open>A file with one Deployment, whose secret and document are printed.\<close>

type_synonym demo_object = "bool \<times> (sidecar, string) deployment"

definition demo_libs :: "(demo_object, string, sidecar, string) kube_libs" where
  "demo_libs =
     \<lparr>kl_Read = (\<lambda>s. [Inr s]), kl_ToJSON = Inr,
      kl_Decode = (\<lambda>s. Inr (Some (True, \<lparr>dp_Namespace = [], dp_Containers = [], dp_rest = s\<rparr>))),
      kl_GroupVersionKind = (\<lambda>o'. \<lparr>gvk_Group = ''apps'', gvk_Version = ''v1'', gvk_Kind = (if fst o' then ''Deployment'' else ''Pod'')\<rparr>),
      kl_FromUnstructured = (\<lambda>o'. Inr (snd o')), kl_ToUnstructured = (\<lambda>d. Inr (True, d)),
      kl_Marshal = (\<lambda>o'. Inr (dp_rest (snd o'))), kl_order = (\<lambda>xs. xs)\<rparr>"

definition demo_session :: "(unit, unit) kube_session" where
  "demo_session =
     \<lparr>ks_cache = \<lparr>cache_Get = (\<lambda>_ _. Some ''svc''), cache_Set = (\<lambda>_ _ c. c)\<rparr>,
      ks_client = \<lparr>fc_GetServices = (\<lambda>w. (w, Inr [])), fc_GetService = (\<lambda>i w. (w, Inr \<lparr>is_ID = i, is_Name = i\<rparr>)),
                   fc_CreateService = (\<lambda>n c w. (w, Inr ''svc''))\<rparr>,
      ks_service_name = ''p'', ks_creds = (\<lambda>k. if k = ''default.postman_api_key'' then ''K'' else []), ks_domain = ''d'',
      ks_os = \<lparr>os_cwd = Inr ''/w'', os_dir = (\<lambda>d. d = ''/w''), os_stat_fails = (\<lambda>_. None), os_create_fails = (\<lambda>_. None),
               os_write_fails = (\<lambda>_. None), os_read_fails = (\<lambda>_. None)\<rparr>\<rparr>"

definition demo_inject_flags :: inject_flags where
  "demo_inject_flags = \<lparr>if_file = ''in'', if_output = [], if_secret = ''true'', if_collection = ''c''\<rparr>"

definition demo_kube_state :: "(unit, unit) kube_state" where
  "demo_kube_state = \<lparr>kt_lookup = ((), ()), kt_files = fmupd ''/w/in'' ''kind'' fmempty, kt_stdout = []\<rparr>"

lemma demo_libs_laws: "converter_law demo_libs" "order_law demo_libs" "stat_law (ks_os demo_session)"
  by (auto simp: converter_law_def order_law_def stat_law_def demo_libs_def demo_session_def)

lemma demo_inject_file: "getFile (ks_os demo_session) (kt_files demo_kube_state) ''in'' = Inr ''kind''"
  by code_simp

lemma demo_inject_lookup: "snd (lookupService demo_session ''c'' demo_kube_state) = None"
  by code_simp

lemma demo_inject_objects:
  "FromYAML demo_libs (ks_os demo_session) (kt_files demo_kube_state) (if_file demo_inject_flags)
     = Inr [(True, \<lparr>dp_Namespace = [], dp_Containers = [], dp_rest = ''kind''\<rparr>)]"
  by (simp add: FromYAML_def demo_inject_file demo_inject_flags_def demo_libs_def fromRawObject_def)

lemma demo_inject_key: "PostmanAPIKeyAndEnvironment (ks_creds demo_session) = (''K'', [])"
  by (simp add: PostmanAPIKeyAndEnvironment_def demo_session_def strings_ToUpper_def)

lemma demo_inject_flags_fields:
  "if_output demo_inject_flags = []"
  "resolveSecretGenerationOptions (if_secret demo_inject_flags) = \<lparr>ShouldInject = True, Filepath = None\<rparr>"
  by (simp_all add: demo_inject_flags_def resolveSecretGenerationOptions_def)

lemma demo_inject_runs: "snd (injectCmd demo_libs demo_session demo_inject_flags demo_kube_state) = None"
proof -
  have c: "if_collection demo_inject_flags = ''c''" by (simp add: demo_inject_flags_def)
  obtain t1 where l: "lookupService demo_session ''c'' demo_kube_state = (t1, None)"
    using demo_inject_lookup by (metis prod.collapse)
  then have "kt_files t1 = kt_files demo_kube_state" by (auto simp: lookupService_def split: prod.splits)
  then have o: "FromYAML demo_libs (ks_os demo_session) (kt_files t1) (if_file demo_inject_flags)
      = Inr [(True, \<lparr>dp_Namespace = [], dp_Containers = [], dp_rest = ''kind''\<rparr>)]"
    by (simp add: demo_inject_objects)
  have "generate_secrets demo_libs (ks_creds demo_session) \<lparr>ShouldInject = True, Filepath = None\<rparr>
      [(True, \<lparr>dp_Namespace = [], dp_Containers = [], dp_rest = ''kind''\<rparr>)] = Inr (secrets_for ''K'' [''default''])"
    by (simp add: generate_secrets_def InjectableNamespaces_def RequirePostmanAPICredentials_def demo_inject_key
        demo_libs_def isInjectable_def toDeployment_def set_Insert_def)
  with l o show ?thesis
    by (simp add: injectCmd_def c demo_inject_flags_fields inject_sidecars_def ToRawYAML_def kube_Inject_def
        inject_object_def toDeployment_def Let_def demo_libs_def isInjectable_def)
qed

lemma demo_namespace:
  "namespace_of demo_libs ` set (filter (isInjectable \<circ> kl_GroupVersionKind demo_libs)
     [(True, \<lparr>dp_Namespace = [], dp_Containers = [], dp_rest = ''kind''\<rparr>)]) = {''default''}"
  by (simp add: demo_libs_def isInjectable_def namespace_of_def)

lemma kube_inject_output_witness:
  "\<exists>obj' ns. injected_into demo_libs (run_sidecar demo_session demo_inject_flags)
       (True, \<lparr>dp_Namespace = [], dp_Containers = [], dp_rest = ''kind''\<rparr>) obj'
     \<and> set ns = {''default''} \<and> kt_stdout (fst (injectCmd demo_libs demo_session demo_inject_flags demo_kube_state))
       = kt_stdout demo_kube_state @ secrets_for ''K'' ns @ documents demo_libs [obj']"
proof -
  have run: "injectCmd demo_libs demo_session demo_inject_flags demo_kube_state
      = (fst (injectCmd demo_libs demo_session demo_inject_flags demo_kube_state), None)"
    using demo_inject_runs by (metis prod.collapse)
  let ?obj = "(True, \<lparr>dp_Namespace = [], dp_Containers = [], dp_rest = ''kind''\<rparr>)"
  let ?t' = "fst (injectCmd demo_libs demo_session demo_inject_flags demo_kube_state)"
  from kube_inject_output [OF demo_libs_laws run] obtain objs objs' secrets where
    objs: "objs = [?obj]" and
    objs': "list_all2 (injected_into demo_libs (run_sidecar demo_session demo_inject_flags)) objs objs'"
    and ns: "\<exists>ns. distinct ns \<and> set ns = namespace_of demo_libs ` set (filter (isInjectable \<circ> kl_GroupVersionKind demo_libs) objs)
      \<and> secrets = secrets_for ''K'' ns"
    and out: "delivered (ks_os demo_session) demo_inject_flags (secrets @ documents demo_libs objs') demo_kube_state ?t'"
    unfolding demo_inject_objects demo_inject_flags_fields demo_inject_key sum.inject
    by (elim exE conjE) (simp only: secretGenerationOptions.select_convs if_True option.case fst_conv)
  from ns obtain ns where ns: "set ns = {''default''}" "secrets = secrets_for ''K'' ns"
    unfolding objs demo_namespace by (elim exE conjE)
  from objs' [unfolded objs] obtain obj' where "objs' = [obj']"
    "injected_into demo_libs (run_sidecar demo_session demo_inject_flags) ?obj obj'"
    by (auto simp: list_all2_Cons1)
  with out ns show ?thesis
    by (intro exI [of _ obj'] exI [of _ ns]) (simp add: delivered_def demo_inject_flags_fields)
qed

text \<open>
  No run of \<open>kube inject\<close>, failed or not, changes a file that is there: it makes at most the output file and
  the file for the secrets, and a run that fails prints nothing to the standard output.
\<close>

theorem kube_inject_overwrites_nothing:
  assumes "stat_law (ks_os S)" "injectCmd L S fl t = (t', e)"
  shows "only_new_files ({p. resolved (ks_os S) (if_output fl) = Some p}
      \<union> {p. \<exists>f. Filepath (resolveSecretGenerationOptions (if_secret fl)) = Some f \<and> resolved (ks_os S) f = Some p})
    (kt_files t) (kt_files t')
    \<and> (e = None \<or> kt_stdout t' = kt_stdout t)"
  using assms(2)
proof (cases rule: injectCmd_runs)
  case early
  then show ?thesis by simp
next
  case (inline t1 objs secrets)
  with inject_sidecars_files [OF inline(6) assms(1)] show ?thesis by (auto elim: only_new_mono)
next
  case (separate t1 objs secrets f fs e1)
  let ?out = "{p. resolved (ks_os S) (if_output fl) = Some p}" and ?sec = "{p. resolved (ks_os S) f = Some p}"
  have fs: "only_new_files ?sec (kt_files t) fs" by (rule writeFile_new [OF separate(7) assms(1)])
  have "only_new_files (?sec \<union> ?out) (kt_files t) (kt_files t') \<and> (e = None \<or> kt_stdout t' = kt_stdout t)"
  proof (cases e1)
    case None
    with separate(8) have "inject_sidecars L S fl objs [] (t1\<lparr>kt_files := fs\<rparr>) = (t', e)" by simp
    from inject_sidecars_files [OF this assms(1)] fs separate(2) show ?thesis
      by (auto intro: only_new_trans)
  next
    case (Some x)
    with separate(2,8) fs show ?thesis by (auto elim: only_new_mono)
  qed
  with separate(4) show ?thesis by (auto elim!: only_new_mono)
qed

lemma kube_inject_overwrites_nothing_witness:
  "only_new_files {''/w''} (kt_files demo_kube_state)
     (kt_files (fst (injectCmd demo_libs demo_session demo_inject_flags demo_kube_state)))"
proof -
  have out: "resolved (ks_os demo_session) [] = Some ''/w''" by code_simp
  have run: "injectCmd demo_libs demo_session demo_inject_flags demo_kube_state
      = (fst (injectCmd demo_libs demo_session demo_inject_flags demo_kube_state), None)"
    using demo_inject_runs by (metis prod.collapse)
  from kube_inject_overwrites_nothing [OF demo_libs_laws(3) run] show ?thesis
    unfolding demo_inject_flags_fields out by (elim conjE only_new_mono) auto
qed

text \<open>
  A run whose output file is the file of the secrets never succeeds: it has made that file itself and finds it
  there. The secrets stay, and the next run fails on them.
\<close>

lemma secrets_block_output:
  assumes "injectCmd L S fl t = (t', e)" "stat_law (ks_os S)"
    "Filepath (resolveSecretGenerationOptions (if_secret fl)) = Some f" "resolved (ks_os S) f = resolved (ks_os S) (if_output fl)"
  shows "e \<noteq> None"
  using assms(1)
proof (cases rule: injectCmd_runs)
  case (separate t1 objs secrets f' fs e1)
  then have f': "f' = f" using assms(3) by simp
  show ?thesis
  proof
    assume "e = None"
    with separate(8) have e1: "e1 = None" "inject_sidecars L S fl objs [] (t1\<lparr>kt_files := fs\<rparr>) = (t', None)"
      by (auto split: if_splits)
    from separate(7) e1(1) have "writeFile (ks_os S) secrets f (kt_files t) = (fs, None)" by (simp add: f')
    then obtain p where p: "resolved (ks_os S) f = Some p" "fs = fmupd p secrets (kt_files t)"
      by (rule writeFile_ok [OF _ assms(2)]) auto
    from e1(2) separate(5) obtain raw fs' where
      "writeFile (ks_os S) raw (if_output fl) fs = (fs', None)"
      by (auto simp: inject_sidecars_def Let_def split: sum.splits prod.splits)
    then show False
      by (rule writeFile_ok [OF _ assms(2)]) (use p assms(4) in auto)
  qed
qed (use assms(3) in auto)

end
