(* ===== verification/Nginx_Install.thy ===== *)
theory Nginx_Install
  imports Files
begin

text \<open>
  integrations/nginx/install.go and github.go: finding the version of NGINX and the platform, and downloading and
  installing the precompiled module for them. The outputs of the commands, the files read and the answers of
  GitHub are arguments; regular expressions are written as the matchers that the syntax denotes.
\<close>

section \<open>Regular expressions\<close>

text \<open>A matcher gives its groups for a match at the start of its input, preferring what Go prefers.\<close>

definition lit :: "string \<Rightarrow> (string \<Rightarrow> 'a option) \<Rightarrow> string \<Rightarrow> 'a option" where
  "lit l rest s = (if take (length l) s = l then rest (drop (length l) s) else None)"

fun try_lengths :: "(string \<Rightarrow> 'a option) \<Rightarrow> string \<Rightarrow> nat list \<Rightarrow> (string \<times> 'a) option" where
  "try_lengths rest s [] = None"
| "try_lengths rest s (n # ns) =
     (case rest (drop n s) of Some r \<Rightarrow> Some (take n s, r) | None \<Rightarrow> try_lengths rest s ns)"

text \<open>At least \<open>lo\<close> characters of a class, as many as can be.\<close>

definition many :: "nat \<Rightarrow> (char \<Rightarrow> bool) \<Rightarrow> (string \<Rightarrow> 'a option) \<Rightarrow> string \<Rightarrow> (string \<times> 'a) option" where
  "many lo P rest s = try_lengths rest s (rev [lo..<Suc (length (takeWhile P s))])"

text \<open>The leftmost match.\<close>

fun FindSubmatch :: "(string \<Rightarrow> 'a option) \<Rightarrow> string \<Rightarrow> 'a option" where
  "FindSubmatch m [] = m []"
| "FindSubmatch m (c # cs) = (case m (c # cs) of Some r \<Rightarrow> Some r | None \<Rightarrow> FindSubmatch m cs)"

definition re_digit :: "char \<Rightarrow> bool" where
  "re_digit c \<longleftrightarrow> c \<in> set ''0123456789''"

definition re_space :: "char \<Rightarrow> bool" where
  "re_space c \<longleftrightarrow> c \<in> {CHR 0x09, CHR 0x0A, CHR 0x0C, CHR 0x0D, CHR '' ''}"

definition not_newline :: "char \<Rightarrow> bool" where
  "not_newline c \<longleftrightarrow> c \<noteq> CHR 0x0A"

definition matched :: "string \<Rightarrow> unit option" where
  "matched s = Some ()"

text \<open>\<open>nginx/(\d+\.\d+\.\d+)\s\<close>\<close>

definition versionRe :: "string \<Rightarrow> string option" where
  "versionRe = lit ''nginx/'' (\<lambda>s.
     case many 1 re_digit (lit ''.'' (many 1 re_digit (lit ''.'' (many 1 re_digit
            (\<lambda>s. case s of c # _ \<Rightarrow> if re_space c then Some () else None | [] \<Rightarrow> None))))) s of
       Some (a, b, c, _) \<Rightarrow> Some (a @ ''.'' @ b @ ''.'' @ c)
     | None \<Rightarrow> None)"

text \<open>\<open>Distributor ID:\s+(.*)\s+Release:\s+([^\n]*)\<close>\<close>

definition lsbReleaseRe :: "string \<Rightarrow> (string \<times> string) option" where
  "lsbReleaseRe = lit ''Distributor ID:'' (\<lambda>s.
     case many 1 re_space (many 0 not_newline (many 1 re_space (lit ''Release:''
            (many 1 re_space (many 0 not_newline matched))))) s of
       Some (_, distro, _, _, vers, _) \<Rightarrow> Some (distro, vers)
     | None \<Rightarrow> None)"

text \<open>\<open>ID="([^\n]*)"\<close> and \<open>VERSION="([^\n]*)"\<close>\<close>

definition quoted :: "string \<Rightarrow> string \<Rightarrow> string option" where
  "quoted key = lit (key @ ''=\"'') (\<lambda>s. case many 0 not_newline (lit ''\"'' matched) s of Some (v, _) \<Rightarrow> Some v | None \<Rightarrow> None)"

definition osReleaseIDRe :: "string \<Rightarrow> string option" where "osReleaseIDRe = quoted ''ID''"

definition osReleaseVersionRe :: "string \<Rightarrow> string option" where "osReleaseVersionRe = quoted ''VERSION''"

section \<open>Version and platform\<close>

datatype install_error =
    Uninstalled
  | Unsupported
  | DownloadFailed
  | NewCopyError string
  | NewSymlinkError string string
  | Failure string

record machine =
  ma_nginx_found :: bool
  ma_nginx_version :: "string + string"
  ma_lsb_release :: "string + string"
  ma_file :: "string \<Rightarrow> string + string"
  ma_GOOS :: string
  ma_GOARCH :: string

definition FindNginxVersion :: "machine \<Rightarrow> install_error + string" where
  "FindNginxVersion m =
     (if \<not> ma_nginx_found m then Inl Uninstalled
      else case ma_nginx_version m of
        Inl e \<Rightarrow> Inl (Failure e)
      | Inr output \<Rightarrow>
          (case FindSubmatch versionRe output of
             None \<Rightarrow> Inl (Failure (''Couldn't parse version in '' @ output))
           | Some v \<Rightarrow> Inr v))"

definition nginxModuleLocations :: "string list" where
  "nginxModuleLocations =
     [''/usr/local/nginx/modules'', ''/usr/lib/nginx/modules'', ''/usr/lib64/nginx/modules'', ''/usr/nginx/modules'']"

definition FindNginxModuleDir :: "(string \<Rightarrow> bool) \<Rightarrow> string option" where
  "FindNginxModuleDir readable = find readable nginxModuleLocations"

definition lcAndStripPeriods :: "string \<Rightarrow> string" where
  "lcAndStripPeriods b = filter (\<lambda>c. c \<noteq> CHR ''.'') (strings_ToLower b)"

text \<open>\<open>errors.Wrap\<close> of no error is no error: an output that cannot be parsed gives the empty name.\<close>

definition osIDFromLsbRelease :: "machine \<Rightarrow> string + string" where
  "osIDFromLsbRelease m =
     (case ma_lsb_release m of
        Inl e \<Rightarrow> Inl (''Can't execute lsb_release: '' @ e)
      | Inr output \<Rightarrow>
          (case FindSubmatch lsbReleaseRe output of
             Some (distro, vers) \<Rightarrow> Inr (lcAndStripPeriods distro @ ''_'' @ lcAndStripPeriods vers)
           | None \<Rightarrow> Inr []))"

text \<open>The first 2048 bytes of the file; an empty file is the error \<open>EOF\<close>.\<close>

definition osIDFromReleaseFile :: "machine \<Rightarrow> string \<Rightarrow> string + string" where
  "osIDFromReleaseFile m filename =
     (case ma_file m filename of
        Inl e \<Rightarrow> Inl e
      | Inr file \<Rightarrow>
          let buf = take 2048 file
          in if buf = [] then Inl ''EOF''
             else (case (FindSubmatch osReleaseIDRe buf, FindSubmatch osReleaseVersionRe buf) of
                     (Some i, Some v) \<Rightarrow> Inr (lcAndStripPeriods i @ ''_'' @ lcAndStripPeriods v)
                   | _ \<Rightarrow> Inr []))"

definition osReleaseFiles :: "string list" where
  "osReleaseFiles = [''/etc/os-release'', ''/etc/Eos-release'', ''/usr/lib/os-release'']"

fun first_release :: "machine \<Rightarrow> string list \<Rightarrow> string option" where
  "first_release m [] = None"
| "first_release m (f # fs) = (case osIDFromReleaseFile m f of Inr i \<Rightarrow> Some i | Inl _ \<Rightarrow> first_release m fs)"

definition FindPlatform :: "machine \<Rightarrow> string \<times> string \<times> install_error option" where
  "FindPlatform m =
     (if ma_GOOS m = ''linux'' then
        (case osIDFromLsbRelease m of
           Inr i \<Rightarrow> (ma_GOARCH m, i, None)
         | Inl _ \<Rightarrow>
             (case first_release m osReleaseFiles of
                Some i \<Rightarrow> (ma_GOARCH m, i, None)
              | None \<Rightarrow> (ma_GOARCH m, ma_GOOS m, Some (Failure ''Unrecognized Linux distribution''))))
      else (ma_GOARCH m, ma_GOOS m, None))"

section \<open>GitHub\<close>

record github_asset =
  ga_Name :: string
  ga_ID :: int

text \<open>An answer with its status and what its body decodes to, or the contents with the error that ends the copy.\<close>

record github =
  gh_latest :: "string + int \<times> (string + github_asset list)"
  gh_asset :: "int \<Rightarrow> string + int \<times> string \<times> string option"

definition GetLatestReleaseAssets :: "github \<Rightarrow> string + github_asset list" where
  "GetLatestReleaseAssets g =
     (case gh_latest g of
        Inl e \<Rightarrow> Inl e
      | Inr (status, r) \<Rightarrow> if status \<noteq> 200 then Inl (''Response code '' @ itoa status @ '' from Github'') else r)"

text \<open>Files by their path, symbolic links by their path; what the operating system refuses is an argument.\<close>

record disk =
  di_files :: files
  di_links :: "(string, string) fmap"
  di_telemetry :: "string list"

record install_os =
  io_MkdirTemp :: "string + string"
  io_Create_fails :: "string \<Rightarrow> string option"
  io_Rename_fails :: "string \<Rightarrow> string \<Rightarrow> string option"
  io_Remove_fails :: "string \<Rightarrow> string option"
  io_Symlink_fails :: "string \<Rightarrow> string option"
  io_readable :: "string \<Rightarrow> bool"

definition DownloadReleaseAsset :: "github \<Rightarrow> install_os \<Rightarrow> int \<Rightarrow> string \<Rightarrow> disk \<Rightarrow> disk \<times> string option" where
  "DownloadReleaseAsset g os i filename d =
     (case io_Create_fails os filename of
        Some e \<Rightarrow> (d, Some e)
      | None \<Rightarrow>
          let d = d\<lparr>di_files := fmupd filename [] (di_files d)\<rparr>
          in (case gh_asset g i of
                Inl e \<Rightarrow> (d, Some e)
              | Inr (status, data, copyErr) \<Rightarrow>
                  if status \<noteq> 200 then (d, Some (''Response code '' @ itoa status @ '' from Github''))
                  else (d\<lparr>di_files := fmupd filename data (di_files d)\<rparr>, copyErr)))"

section \<open>Installation\<close>

definition report :: "string \<Rightarrow> disk \<Rightarrow> disk" where
  "report ctx d = d\<lparr>di_telemetry := di_telemetry d @ [ctx]\<rparr>"

definition inside :: "string \<Rightarrow> string \<Rightarrow> bool" where
  "inside dir path \<longleftrightarrow> path = dir \<or> take (Suc (length dir)) path = dir @ ''/''"

definition os_RemoveAll :: "string \<Rightarrow> disk \<Rightarrow> disk" where
  "os_RemoveAll dir d = d\<lparr>di_files := fmfilter (\<lambda>p. \<not> inside dir p) (di_files d),
                          di_links := fmfilter (\<lambda>p. \<not> inside dir p) (di_links d)\<rparr>"

definition os_Rename :: "install_os \<Rightarrow> string \<Rightarrow> string \<Rightarrow> disk \<Rightarrow> disk \<times> string option" where
  "os_Rename os old new d =
     (case io_Rename_fails os old new of
        Some e \<Rightarrow> (d, Some e)
      | None \<Rightarrow>
          (case fmlookup (di_files d) old of
             None \<Rightarrow> (d, Some ''no such file or directory'')
           | Some c \<Rightarrow> (d\<lparr>di_files := fmupd new c (fmdrop old (di_files d)), di_links := fmdrop new (di_links d)\<rparr>, None)))"

text \<open>\<open>os.Remove\<close>: whether it fails other than for want of a file.\<close>

definition os_Remove :: "install_os \<Rightarrow> string \<Rightarrow> disk \<Rightarrow> disk \<times> bool" where
  "os_Remove os p d =
     (if \<not> has_key (di_files d) p \<and> \<not> has_key (di_links d) p then (d, False)
      else case io_Remove_fails os p of
        Some _ \<Rightarrow> (d, True)
      | None \<Rightarrow> (d\<lparr>di_files := fmdrop p (di_files d), di_links := fmdrop p (di_links d)\<rparr>, False))"

definition os_Symlink :: "install_os \<Rightarrow> string \<Rightarrow> string \<Rightarrow> disk \<Rightarrow> disk \<times> string option" where
  "os_Symlink os target p d =
     (if has_key (di_files d) p \<or> has_key (di_links d) p then (d, Some ''file exists'')
      else case io_Symlink_fails os p of
        Some e \<Rightarrow> (d, Some e)
      | None \<Rightarrow> (d\<lparr>di_links := fmupd p target (di_links d)\<rparr>, None))"

definition link_name :: string where "link_name = ''ngx_http_akita_module.so''"

text \<open>From the temporary directory on: the download, the move and the link. The result says whether the directory is kept.\<close>

definition move_module :: "install_os \<Rightarrow> string option \<Rightarrow> string \<Rightarrow> string \<Rightarrow> disk \<Rightarrow> (disk \<times> bool) \<times> install_error option" where
  "move_module os destDir shortName downloadFile d =
     (case destDir of
        None \<Rightarrow> ((d, True), Some (NewCopyError downloadFile))
      | Some dir \<Rightarrow>
          (case os_Rename os downloadFile (filepath_Join [dir, shortName]) d of
             (d, Some _) \<Rightarrow> ((report ''NGINX install module'' d, True), Some (NewCopyError downloadFile))
           | (d, None) \<Rightarrow>
               (case os_Remove os (filepath_Join [dir, link_name]) d of
                  (d, failed) \<Rightarrow>
                    let d = (if failed then report ''NGINX install module'' d else d)
                    in (case os_Symlink os shortName (filepath_Join [dir, link_name]) d of
                          (d, Some _) \<Rightarrow> ((report ''NGINX install module'' d, False), Some (NewSymlinkError dir shortName))
                        | (d, None) \<Rightarrow> ((d, False), None)))))"

definition install_asset ::
  "github \<Rightarrow> install_os \<Rightarrow> string option \<Rightarrow> string \<Rightarrow> github_asset \<Rightarrow> disk \<Rightarrow> disk \<times> install_error option" where
  "install_asset g os destDir version asset d =
     (case io_MkdirTemp os of
        Inl _ \<Rightarrow> (d, Some DownloadFailed)
      | Inr tmpDir \<Rightarrow>
          let shortName = ''ngx_http_akita_module_'' @ version @ ''.so'';
              downloadFile = filepath_Join [tmpDir, shortName];
              ((d, saveDir), r) =
                (case DownloadReleaseAsset g os (ga_ID asset) downloadFile d of
                   (d, Some _) \<Rightarrow> ((report ''NGINX download asset'' d, False), Some DownloadFailed)
                 | (d, None) \<Rightarrow> move_module os destDir shortName downloadFile d)
          in (if saveDir then d else os_RemoveAll tmpDir d, r))"

definition expected_filename :: "string \<Rightarrow> string \<Rightarrow> string \<Rightarrow> string" where
  "expected_filename arch platform version = ''ngx_http_akita_module_'' @ arch @ ''_'' @ platform @ ''_'' @ version @ ''.so''"

definition InstallModule ::
  "machine \<Rightarrow> github \<Rightarrow> install_os \<Rightarrow> bool \<Rightarrow> string option \<Rightarrow> disk \<Rightarrow> disk \<times> install_error option" where
  "InstallModule m g os dryRun argDir d =
     (case FindNginxVersion m of
        Inl e \<Rightarrow> (report ''NGINX find version'' d, Some e)
      | Inr version \<Rightarrow>
          (case FindPlatform m of
             (_, _, Some e) \<Rightarrow> (report ''NGINX find platform'' d, Some e)
           | (arch, platform, None) \<Rightarrow>
               let d = report (''version '' @ expected_filename arch platform version) d
               in (case GetLatestReleaseAssets g of
                     Inl _ \<Rightarrow> (report ''NGINX get release'' d, Some DownloadFailed)
                   | Inr assets \<Rightarrow>
                       (case find (\<lambda>a. ga_Name a = expected_filename arch platform version) assets of
                          None \<Rightarrow> (d, Some Unsupported)
                        | Some asset \<Rightarrow>
                            let destDir = (case argDir of None \<Rightarrow> FindNginxModuleDir (io_readable os) | Some _ \<Rightarrow> argDir)
                            in if dryRun then (d, None) else install_asset g os destDir version asset d))))"

section \<open>Platforms\<close>

definition nl :: "string list \<Rightarrow> string" where
  "nl ls = concat (map (\<lambda>l. l @ [CHR 0x0A]) ls)"

text \<open>
  The examples in the comments of the code; and the release file of Ubuntu, whose \<open>ID\<close> is not quoted, so that the
  expression finds the end of \<open>VERSION_ID\<close>.
\<close>

lemma platform_examples:
  "FindSubmatch versionRe (nl [''nginx version: nginx/1.18.0 (Ubuntu)'']) = Some ''1.18.0''"
  "FindSubmatch lsbReleaseRe (nl [''Distributor ID:'' @ [CHR 0x09] @ ''Ubuntu'', ''Release:'' @ [CHR 0x09] @ ''20.04''])
     = Some (''Ubuntu'', ''20.04'')"
  "FindSubmatch osReleaseIDRe (nl [''NAME=\"Amazon Linux\"'', ''VERSION=\"2\"'', ''ID=\"amzn\"'']) = Some ''amzn''"
  "FindSubmatch osReleaseIDRe (nl [''VERSION_ID=\"22.04\"'', ''VERSION=\"22.04.3 LTS\"'', ''ID=ubuntu'']) = Some ''22.04''"
  by code_simp+

lemma try_lengths_some:
  "try_lengths rest s ns = Some (a, r) \<Longrightarrow> \<exists>n \<in> set ns. a = take n s \<and> rest (drop n s) = Some r"
  by (induction ns) (auto split: option.splits)

lemma many_some:
  assumes "many lo P rest s = Some (a, r)"
  shows "(\<forall>c \<in> set a. P c) \<and> (\<exists>s'. rest s' = Some r)"
proof -
  from try_lengths_some [OF assms [unfolded many_def]]
  obtain n where n: "n \<in> set (rev [lo..<Suc (length (takeWhile P s))])" "a = take n s" "rest (drop n s) = Some r" by blast
  then have "n \<le> length (takeWhile P s)" by auto
  with n(2) have "a = take n (takeWhile P s)"
    by (metis append_take_drop_id min.absorb1 takeWhile_eq_take take_take)
  with n(3) show ?thesis by (meson in_set_takeD set_takeWhileD)
qed

lemma lit_some: "lit l rest s = Some r \<Longrightarrow> rest (drop (length l) s) = Some r"
  by (simp add: lit_def split: if_splits)

lemma versionRe_digits:
  assumes "versionRe s = Some v" "c \<in> set v"
  shows "re_digit c \<or> c = CHR ''.''"
proof -
  from lit_some [OF assms(1) [unfolded versionRe_def]] obtain a b d s' where v: "v = a @ ''.'' @ b @ ''.'' @ d"
    and m: "many 1 re_digit (lit ''.'' (many 1 re_digit (lit ''.'' (many 1 re_digit
      (\<lambda>s. case s of c # _ \<Rightarrow> if re_space c then Some () else None | [] \<Rightarrow> None))))) s' = Some (a, b, d, ())"
    by (auto split: option.splits)
  from many_some [OF m] obtain s1 where a: "\<forall>c \<in> set a. re_digit c" and
    "many 1 re_digit (lit ''.'' (many 1 re_digit (\<lambda>s. case s of c # _ \<Rightarrow> if re_space c then Some () else None | [] \<Rightarrow> None))) s1
      = Some (b, d, ())" by (blast dest: lit_some)
  from many_some [OF this(2)] obtain s2 where b: "\<forall>c \<in> set b. re_digit c" and
    "many 1 re_digit (\<lambda>s. case s of c # _ \<Rightarrow> if re_space c then Some () else None | [] \<Rightarrow> None) s2 = Some (d, ())"
    by (blast dest: lit_some)
  from many_some [OF this(2)] a b v assms(2) show ?thesis by auto
qed

lemma version_digits: "FindSubmatch versionRe s = Some v \<Longrightarrow> c \<in> set v \<Longrightarrow> re_digit c \<or> c = CHR ''.''"
  by (induction s) (auto dest: versionRe_digits split: option.splits)

lemma version_plain:
  assumes "FindNginxVersion m = Inr version"
  shows "plain_name (''ngx_http_akita_module_'' @ version @ ''.so'')"
proof -
  from assms obtain out where "FindSubmatch versionRe out = Some version"
    by (auto simp: FindNginxVersion_def split: if_splits sum.splits option.splits)
  from version_digits [OF this] have "CHR ''/'' \<notin> set version" by (auto simp: re_digit_def)
  then show ?thesis by (simp add: plain_name_def)
qed

text \<open>
  An output of \<open>lsb_release\<close> that is not understood gives the empty platform and no error: neither the release
  files are tried nor is the failure reported.
\<close>

lemma platform_of_unknown_output:
  assumes "ma_GOOS m = ''linux''" "ma_lsb_release m = Inr output" "FindSubmatch lsbReleaseRe output = None"
  shows "FindPlatform m = (ma_GOARCH m, [], None)"
  using assms by (simp add: FindPlatform_def osIDFromLsbRelease_def)

section \<open>What an installation leaves\<close>

text \<open>
  \<open>os.MkdirTemp\<close> gives the path of a new directory: absolute and clean, and no place where modules are kept.
\<close>

definition temp_law :: "install_os \<Rightarrow> string option \<Rightarrow> bool" where
  "temp_law os argDir \<longleftrightarrow> (\<forall>tmp. io_MkdirTemp os = Inr tmp \<longrightarrow>
     filepath_Clean tmp = tmp \<and> take 1 tmp = ''/'' \<and> tmp \<noteq> ''/'' \<and>
     (\<forall>dir n. plain_name n \<longrightarrow> argDir = Some dir \<or> dir \<in> set nginxModuleLocations \<longrightarrow> \<not> inside tmp (filepath_Join [dir, n])))"

text \<open>The module of a release, by the name the platform and version ask for, with its contents.\<close>

definition module_for :: "machine \<Rightarrow> github \<Rightarrow> string \<Rightarrow> string \<Rightarrow> bool" where
  "module_for m g version data \<longleftrightarrow>
     (\<exists>arch platform assets a. FindNginxVersion m = Inr version \<and> FindPlatform m = (arch, platform, None)
        \<and> GetLatestReleaseAssets g = Inr assets \<and> a \<in> set assets \<and> ga_Name a = expected_filename arch platform version
        \<and> gh_asset g (ga_ID a) = Inr (200, data, None))"

definition short_name :: "string \<Rightarrow> string" where
  "short_name version = ''ngx_http_akita_module_'' @ version @ ''.so''"

definition unchanged_outside :: "install_os \<Rightarrow> disk \<Rightarrow> disk \<Rightarrow> bool" where
  "unchanged_outside os d d' \<longleftrightarrow> (\<forall>p. (\<forall>tmp. io_MkdirTemp os = Inr tmp \<longrightarrow> \<not> inside tmp p) \<longrightarrow>
     fmlookup (di_files d') p = fmlookup (di_files d) p \<and> fmlookup (di_links d') p = fmlookup (di_links d) p)"

lemma report_fields [simp]: "di_files (report c d) = di_files d" "di_links (report c d) = di_links d"
  by (simp_all add: report_def)

definition link_target :: "string \<Rightarrow> string" where "link_target dir = filepath_Join [dir, link_name]"

lemma link_plain: "plain_name link_name"
  by (simp add: plain_name_def link_name_def)

lemma Remove_keeps:
  "os_Remove os p d = (d', b) \<Longrightarrow> q \<noteq> p \<Longrightarrow> fmlookup (di_files d') q = fmlookup (di_files d) q"
  by (auto simp: os_Remove_def split: if_splits option.splits)

lemma Symlink_keeps:
  "os_Symlink os t p d = (d', r) \<Longrightarrow> di_files d' = di_files d \<and> (r = None \<longrightarrow> fmlookup (di_links d') p = Some t)"
  by (cases r; cases "io_Symlink_fails os p") (auto simp: os_Symlink_def split: if_splits)

lemma move_module_outcome:
  assumes "fmlookup (di_files d) dl = Some data" "plain_name short" "short \<noteq> link_name"
    "move_module os destDir short dl d = ((d', kept), r)"
  shows "case r of
      None \<Rightarrow> \<not> kept \<and> (\<exists>dir. destDir = Some dir \<and> fmlookup (di_files d') (filepath_Join [dir, short]) = Some data
        \<and> fmlookup (di_links d') (link_target dir) = Some short)
    | Some (NewCopyError p) \<Rightarrow> kept \<and> p = dl \<and> fmlookup (di_files d') dl = Some data
    | Some (NewSymlinkError dir n) \<Rightarrow> \<not> kept \<and> destDir = Some dir \<and> n = short
        \<and> fmlookup (di_files d') (filepath_Join [dir, short]) = Some data
    | Some _ \<Rightarrow> False"
proof (cases destDir)
  case None
  with assms show ?thesis by (auto simp: move_module_def)
next
  case (Some dir)
  let ?dest = "filepath_Join [dir, short]"
  obtain d1 r1 where d1: "os_Rename os dl ?dest d = (d1, r1)" by fastforce
  show ?thesis
  proof (cases r1)
    case (Some e)
    with d1 assms(1) have "d1 = d" by (auto simp: os_Rename_def split: option.splits)
    with Some \<open>destDir = Some dir\<close> assms(1,4) d1 show ?thesis by (auto simp: move_module_def)
  next
    case None
    with d1 assms(1) have "fmlookup (di_files d1) ?dest = Some data"
      by (auto simp: os_Rename_def split: option.splits)
    moreover obtain d2 b where d2: "os_Remove os (link_target dir) d1 = (d2, b)" by fastforce
    moreover have "?dest \<noteq> link_target dir"
      using assms(2,3) by (simp add: link_target_def Join_inject link_plain)
    ultimately have data: "fmlookup (di_files d2) ?dest = Some data" by (simp add: Remove_keeps)
    let ?d2 = "if b then report ''NGINX install module'' d2 else d2"
    obtain d3 r3 where d3: "os_Symlink os short (link_target dir) ?d2 = (d3, r3)" by fastforce
    with data have "fmlookup (di_files d3) ?dest = Some data"
      by (cases b) (auto dest: Symlink_keeps)
    with d1 d2 d3 None \<open>destDir = Some dir\<close> assms(4) Symlink_keeps [OF d3] show ?thesis
      by (auto simp: move_module_def link_target_def Let_def split: option.splits)
  qed
qed

lemma RemoveAll_keeps:
  "\<not> inside dir p \<Longrightarrow> fmlookup (di_files (os_RemoveAll dir d)) p = fmlookup (di_files d) p"
  "\<not> inside dir p \<Longrightarrow> fmlookup (di_links (os_RemoveAll dir d)) p = fmlookup (di_links d) p"
  by (simp_all add: os_RemoveAll_def)

lemma Download_outcome:
  assumes "DownloadReleaseAsset g os i f d = (d', e)"
  shows "p \<noteq> f \<Longrightarrow> fmlookup (di_files d') p = fmlookup (di_files d) p" "di_links d' = di_links d"
    and "e = None \<Longrightarrow> \<exists>data. gh_asset g i = Inr (200, data, None) \<and> fmlookup (di_files d') f = Some data"
  using assms by (auto simp: DownloadReleaseAsset_def Let_def split: option.splits sum.splits if_splits)

text \<open>The four ways in which the installation of an asset ends.\<close>

definition asset_outcome ::
  "github \<Rightarrow> install_os \<Rightarrow> string option \<Rightarrow> string \<Rightarrow> int \<Rightarrow> disk \<Rightarrow> disk \<Rightarrow> install_error option \<Rightarrow> bool" where
  "asset_outcome g os destDir version i d d' r =
     (case r of
        None \<Rightarrow> \<exists>dir data. gh_asset g i = Inr (200, data, None) \<and> destDir = Some dir
          \<and> fmlookup (di_files d') (filepath_Join [dir, short_name version]) = Some data
          \<and> fmlookup (di_links d') (link_target dir) = Some (short_name version)
      | Some (NewCopyError p) \<Rightarrow> \<exists>data. gh_asset g i = Inr (200, data, None) \<and> fmlookup (di_files d') p = Some data
      | Some (NewSymlinkError dir n) \<Rightarrow> \<exists>data. gh_asset g i = Inr (200, data, None) \<and> destDir = Some dir
          \<and> fmlookup (di_files d') (filepath_Join [dir, n]) = Some data
      | Some _ \<Rightarrow> unchanged_outside os d d')"

lemma install_asset_outcome:
  assumes "install_asset g os destDir version asset d = (d', r)" "temp_law os argDir"
    and "\<And>dir. destDir = Some dir \<Longrightarrow> argDir = Some dir \<or> dir \<in> set nginxModuleLocations"
    and "plain_name (short_name version)" "short_name version \<noteq> link_name"
  shows "asset_outcome g os destDir version (ga_ID asset) d d' r"
proof (cases "io_MkdirTemp os")
  case (Inl e)
  with assms(1) show ?thesis by (auto simp: install_asset_def asset_outcome_def unchanged_outside_def)
next
  case (Inr tmp)
  let ?dl = "filepath_Join [tmp, short_name version]"
  from assms(2) Inr have tmp: "filepath_Clean tmp = tmp" "take 1 tmp = ''/''" "tmp \<noteq> ''/''"
    and away: "\<And>dir n. destDir = Some dir \<Longrightarrow> plain_name n \<Longrightarrow> \<not> inside tmp (filepath_Join [dir, n])"
    using assms(3) unfolding temp_law_def by blast+
  have dl: "inside tmp ?dl" by (simp add: Join_name [OF tmp assms(4)] inside_def)
  obtain d1 e1 where d1: "DownloadReleaseAsset g os (ga_ID asset) ?dl d = (d1, e1)" by fastforce
  show ?thesis
  proof (cases e1)
    case (Some e)
    with assms(1) Inr d1 have r: "r = Some DownloadFailed" "d' = os_RemoveAll tmp (report ''NGINX download asset'' d1)"
      by (auto simp: install_asset_def short_name_def)
    have "fmlookup (di_files d1) p = fmlookup (di_files d) p" if "\<not> inside tmp p" for p
      by (rule Download_outcome(1) [OF d1]) (use dl that in auto)
    then have "unchanged_outside os d d'"
      unfolding unchanged_outside_def r(2) using Inr Download_outcome(2) [OF d1]
      by (auto simp: RemoveAll_keeps)
    with r show ?thesis by (simp add: asset_outcome_def)
  next
    case None
    from Download_outcome(3) [OF d1 None] obtain data where
      data: "gh_asset g (ga_ID asset) = Inr (200, data, None)" "fmlookup (di_files d1) ?dl = Some data" by blast
    obtain d2 kept r2 where d2: "move_module os destDir (short_name version) ?dl d1 = ((d2, kept), r2)"
      by (metis prod.collapse)
    with assms(1) Inr d1 None have r: "r = r2" "d' = (if kept then d2 else os_RemoveAll tmp d2)"
      by (auto simp: install_asset_def short_name_def)
    from move_module_outcome [OF data(2) assms(4,5) d2] data(1) away [OF _ assms(4)] away [OF _ link_plain] show ?thesis
      unfolding asset_outcome_def r
      by (auto simp: RemoveAll_keeps link_target_def split: option.splits install_error.splits)
  qed
qed

text \<open>
  C21: what an installation leaves. One that succeeds without a dry run has put the module of the latest release
  that is named for the version of NGINX and the platform into the module directory, with the link to it. One that
  asks the user to copy it or to make the link has left the whole module where its remedy says. A dry run, and any
  other failure, changes nothing outside the temporary directory.
\<close>

theorem installed_or_untouched:
  assumes "temp_law os argDir" "InstallModule m g os dryRun argDir d = (d', r)"
  shows "unchanged_outside os d d' \<and> (r = None \<longrightarrow> dryRun) \<or>
    (\<exists>version data. module_for m g version data \<and> \<not> dryRun \<and>
       (case r of
          None \<Rightarrow> \<exists>dir. (argDir = Some dir \<or> argDir = None \<and> dir \<in> set nginxModuleLocations)
            \<and> fmlookup (di_files d') (filepath_Join [dir, short_name version]) = Some data
            \<and> fmlookup (di_links d') (link_target dir) = Some (short_name version)
        | Some (NewCopyError p) \<Rightarrow> fmlookup (di_files d') p = Some data
        | Some (NewSymlinkError dir n) \<Rightarrow> fmlookup (di_files d') (filepath_Join [dir, n]) = Some data
        | Some _ \<Rightarrow> False))"
proof -
  have found: "argDir = None \<and> dir \<in> set nginxModuleLocations"
    if "FindNginxModuleDir (io_readable os) = Some dir" "argDir = None" for dir
    using that by (auto simp: FindNginxModuleDir_def find_Some_iff)
  have same: "unchanged_outside os d (report c d)" "unchanged_outside os d (report c (report c' d))" for c c'
    by (simp_all add: unchanged_outside_def)
  have early: "unchanged_outside os d d' \<and> (r = None \<longrightarrow> dryRun)" if
    "\<not> (\<exists>version arch platform assets a. FindNginxVersion m = Inr version \<and> FindPlatform m = (arch, platform, None)
      \<and> GetLatestReleaseAssets g = Inr assets
      \<and> find (\<lambda>a. ga_Name a = expected_filename arch platform version) assets = Some a) \<or> dryRun"
    using assms(2) that same unfolding InstallModule_def Let_def
    by (auto split: sum.splits prod.splits option.splits)
  show ?thesis
  proof (cases "\<not> (\<exists>version arch platform assets a. FindNginxVersion m = Inr version \<and> FindPlatform m = (arch, platform, None)
      \<and> GetLatestReleaseAssets g = Inr assets
      \<and> find (\<lambda>a. ga_Name a = expected_filename arch platform version) assets = Some a) \<or> dryRun")
    case True
    with early show ?thesis by blast
  next
    case False
    then obtain version arch platform assets a where v: "FindNginxVersion m = Inr version"
      "FindPlatform m = (arch, platform, None)" "GetLatestReleaseAssets g = Inr assets"
      "find (\<lambda>a. ga_Name a = expected_filename arch platform version) assets = Some a" "\<not> dryRun" by blast
    define destDir where "destDir = (case argDir of None \<Rightarrow> FindNginxModuleDir (io_readable os) | Some _ \<Rightarrow> argDir)"
    let ?d = "report (''version '' @ expected_filename arch platform version) d"
    from assms(2) v have run: "install_asset g os destDir version a ?d = (d', r)"
      by (simp add: InstallModule_def destDir_def)
    have dest: "argDir = Some dir \<or> argDir = None \<and> dir \<in> set nginxModuleLocations" if "destDir = Some dir" for dir
      using that found by (auto simp: destDir_def split: option.splits)
    have names: "plain_name (short_name version)" "short_name version \<noteq> link_name"
      using version_plain [OF v(1)] by (auto simp: short_name_def link_name_def)
    have out: "asset_outcome g os destDir version (ga_ID a) ?d d' r"
      by (rule install_asset_outcome [OF run assms(1) _ names]) (use dest in blast)
    have a: "a \<in> set assets" "ga_Name a = expected_filename arch platform version"
      using v(4) by (auto simp: find_Some_iff)
    have mod: "module_for m g version data" if "gh_asset g (ga_ID a) = Inr (200, data, None)" for data
      using that v(1-3) a unfolding module_for_def by blast
    have un: "unchanged_outside os ?d d' = unchanged_outside os d d'" by (simp add: unchanged_outside_def)
    show ?thesis
    proof (cases r)
      case None
      with out dest mod v(5) show ?thesis by (fastforce simp: asset_outcome_def)
    next
      case (Some e)
      with out mod v(5) un show ?thesis by (cases e) (auto simp: asset_outcome_def)
    qed
  qed
qed

text \<open>An installation of version 1.18.0 on a Mac into a directory that is named.\<close>

definition demo_machine :: machine where
  "demo_machine =
     \<lparr>ma_nginx_found = True, ma_nginx_version = Inr (nl [''nginx version: nginx/1.18.0 (Ubuntu)'']),
      ma_lsb_release = Inl ''none'', ma_file = (\<lambda>_. Inl ''none''), ma_GOOS = ''darwin'', ma_GOARCH = ''arm64''\<rparr>"

definition demo_github :: github where
  "demo_github =
     \<lparr>gh_latest = Inr (200, Inr [\<lparr>ga_Name = ''ngx_http_akita_module_arm64_darwin_1.18.0.so'', ga_ID = 7\<rparr>]),
      gh_asset = (\<lambda>_. Inr (200, ''module'', None))\<rparr>"

definition demo_install_os :: install_os where
  "demo_install_os =
     \<lparr>io_MkdirTemp = Inr ''/tmp/x'', io_Create_fails = (\<lambda>_. None), io_Rename_fails = (\<lambda>_ _. None),
      io_Remove_fails = (\<lambda>_. None), io_Symlink_fails = (\<lambda>_. None), io_readable = (\<lambda>_. False)\<rparr>"

definition demo_disk :: disk where
  "demo_disk = \<lparr>di_files = fmempty, di_links = fmempty, di_telemetry = []\<rparr>"

lemma demo_prefixes:
  "join_prefix ''/m'' = ''/m/''" "join_prefix ''/usr/local/nginx/modules'' = ''/usr/local/nginx/modules/''"
  "join_prefix ''/usr/lib/nginx/modules'' = ''/usr/lib/nginx/modules/''"
  "join_prefix ''/usr/lib64/nginx/modules'' = ''/usr/lib64/nginx/modules/''"
  "join_prefix ''/usr/nginx/modules'' = ''/usr/nginx/modules/''" "filepath_Clean ''/tmp/x'' = ''/tmp/x''"
  by code_simp+

lemma demo_temp_law: "temp_law demo_install_os (Some ''/m'')"
  unfolding temp_law_def
  by (auto simp: demo_install_os_def Join_prefix demo_prefixes nginxModuleLocations_def inside_def)

lemma demo_version: "FindNginxVersion demo_machine = Inr ''1.18.0''"
  by (simp add: FindNginxVersion_def demo_machine_def platform_examples(1))

lemma demo_platform: "FindPlatform demo_machine = (''arm64'', ''darwin'', None)"
  by (simp add: FindPlatform_def demo_machine_def)

lemma demo_install_runs:
  "snd (InstallModule demo_machine demo_github demo_install_os False (Some ''/m'') demo_disk) = None"
  using link_plain version_plain [OF demo_version]
  by (simp add: InstallModule_def demo_version demo_platform GetLatestReleaseAssets_def demo_github_def expected_filename_def
      install_asset_def demo_install_os_def DownloadReleaseAsset_def move_module_def os_Rename_def os_Remove_def os_Symlink_def
      demo_disk_def Join_prefix demo_prefixes link_name_def Let_def)

lemma installed_or_untouched_witness:
  "\<exists>version data. module_for demo_machine demo_github version data
     \<and> fmlookup (di_files (fst (InstallModule demo_machine demo_github demo_install_os False (Some ''/m'') demo_disk)))
         (filepath_Join [''/m'', short_name version]) = Some data"
proof -
  have "InstallModule demo_machine demo_github demo_install_os False (Some ''/m'') demo_disk
      = (fst (InstallModule demo_machine demo_github demo_install_os False (Some ''/m'') demo_disk), None)"
    using demo_install_runs by (metis prod.collapse)
  from installed_or_untouched [OF demo_temp_law this] show ?thesis by auto
qed

end
