(* ===== verification/Agent_Command.thy ===== *)
theory Agent_Command
  imports Apidump Files
begin

text \<open>
  The command line of the agent: cmd/root.go (the end of the process), cmd/internal/apidump (flags and what the
  \<open>apidump\<close> command makes of them), cmd/internal/pluginloader, util/exit_error.go and apispec/defaults.go. The
  parsers of pflag, durations and tags are arguments.
\<close>

section \<open>Errors and the exit code\<close>

text \<open>
  Error values as they are nested: a text, \<open>errors.Wrap\<close>, \<open>exec.ExitError\<close>, \<open>util.ExitError\<close>, \<open>cmderr.AkitaErr\<close>,
  and the error of a capture or of a lookup.
\<close>

datatype go_err =
    Err string
  | Wrapped string go_err
  | ProcessExit int
  | ExitError int go_err
  | AkitaErr go_err
  | CaptureErr run_error
  | LookupErr lookup_error

text \<open>\<open>errors.Cause\<close> of pkg/errors goes on while there is a cause; \<open>util.ExitError\<close> has none.\<close>

fun errors_Cause :: "go_err \<Rightarrow> go_err" where
  "errors_Cause (Wrapped _ e) = errors_Cause e"
| "errors_Cause (AkitaErr e) = errors_Cause e"
| "errors_Cause e = e"

text \<open>\<open>errors.As\<close> with a target of type \<open>util.ExitError\<close>.\<close>

fun as_ExitError :: "go_err \<Rightarrow> int option" where
  "as_ExitError (ExitError c _) = Some c"
| "as_ExitError (Wrapped _ e) = as_ExitError e"
| "as_ExitError (AkitaErr e) = as_ExitError e"
| "as_ExitError _ = None"

text \<open>The error of a subcommand, as \<open>Run\<close> keeps it and as it returns it.\<close>

definition subcommand_error :: "go_err \<Rightarrow> go_err" where
  "subcommand_error cmdErr =
     (let subcmdErr = Wrapped ''failed to run subcommand'' cmdErr
      in case errors_Cause subcmdErr of ProcessExit c \<Rightarrow> ExitError c subcmdErr | _ \<Rightarrow> subcmdErr)"

definition capture_error :: "go_err option \<Rightarrow> run_error \<Rightarrow> go_err" where
  "capture_error cmdErr e =
     (case (e, cmdErr) of
        (SubcommandFailed _, Some c) \<Rightarrow> Wrapped ''trace collection failed'' (subcommand_error c)
      | _ \<Rightarrow> CaptureErr e)"

text \<open>\<open>Execute\<close>: the telemetry that is sent, whether the usage is printed, and the exit code.\<close>

datatype exit_act = PrintUsage | CommandLineUnknown | TelemetryError | TelemetryShutdown

definition Execute :: "go_err option \<Rightarrow> exit_act list \<times> int" where
  "Execute err =
     (case err of
        None \<Rightarrow> ([TelemetryShutdown], 0)
      | Some e \<Rightarrow>
          ((case e of AkitaErr _ \<Rightarrow> [] | _ \<Rightarrow> [PrintUsage, CommandLineUnknown]) @ [TelemetryError, TelemetryShutdown],
           case as_ExitError e of Some c \<Rightarrow> c | None \<Rightarrow> 1))"

section \<open>Plugins\<close>

text \<open>
  A loader that was looked up is its result. A symbol of another type is an error without a cause, and \<open>Wrapf\<close> of
  no error is no error: no plugin is loaded, and none is reported.
\<close>

record ('h, 's, 'q) plugin_host =
  ph_Precompiled :: "string \<Rightarrow> (string + 'q) option"
  ph_Open :: "string \<Rightarrow> string + 'h"
  ph_Lookup :: "'h \<Rightarrow> string + 's"
  ph_loader :: "'s \<Rightarrow> (string + 'q) option"
  ph_Official :: "'q option"

fun load_paths :: "('h, 's, 'q) plugin_host \<Rightarrow> 'q list \<Rightarrow> string list \<Rightarrow> go_err + 'q list" where
  "load_paths H loaded [] = Inr (loaded @ (case ph_Official H of Some q \<Rightarrow> [q] | None \<Rightarrow> []))"
| "load_paths H loaded (path # paths) =
     (case ph_Precompiled H path of
        Some (Inl e) \<Rightarrow> Inl (Wrapped (''failed to load '' @ path) (Err e))
      | Some (Inr q) \<Rightarrow> load_paths H (loaded @ [q]) paths
      | None \<Rightarrow>
          (case ph_Open H path of
             Inl e \<Rightarrow> Inl (Wrapped (''failed to open plugin '' @ path) (Err e))
           | Inr p \<Rightarrow>
               (case ph_Lookup H p of
                  Inl e \<Rightarrow> Inl (Wrapped (''failed to find the loader in '' @ path) (Err e))
                | Inr symb \<Rightarrow>
                    (case ph_loader H symb of
                       Some (Inl e) \<Rightarrow> Inl (Wrapped (''failed to load '' @ path) (Err e))
                     | Some (Inr q) \<Rightarrow> load_paths H (loaded @ [q]) paths
                     | None \<Rightarrow> Inr []))))"

definition Load :: "('h, 's, 'q) plugin_host \<Rightarrow> string list \<Rightarrow> go_err + 'q list" where
  "Load H paths = load_paths H [] paths"

section \<open>Flags of apidump\<close>

text \<open>apispec/defaults.go\<close>

definition DefaultCollectTCPAndTLSReports :: bool where "DefaultCollectTCPAndTLSReports = False"
definition DefaultMaxWitnessSize_bytes :: int where "DefaultMaxWitnessSize_bytes = 30000000"
definition DefaultParseTLSHandshakes :: bool where "DefaultParseTLSHandshakes = True"
definition DefaultRateLimit :: rat where "DefaultRateLimit = 1000"
definition DefaultStatsLogDelay_seconds :: int where "DefaultStatsLogDelay_seconds = 60"
definition DefaultTelemetryInterval_seconds :: int where "DefaultTelemetryInterval_seconds = 5 * 60"
definition DefaultProcFSPollingInterval_seconds :: int where "DefaultProcFSPollingInterval_seconds = 5 * 60"
definition DefaultTraceRotateInterval :: duration where "DefaultTraceRotateInterval = minutes 60"

record agent_flags =
  af_outFlag :: location
  af_projectID :: string
  af_postmanCollectionID :: string
  af_interfaces :: "string list"
  af_filter :: string
  af_sampleRate :: rat
  af_rateLimit :: rat
  af_tags :: "string list"
  af_appendByTag :: bool
  af_pathExclusions :: "string list"
  af_hostExclusions :: "string list"
  af_pathAllowlist :: "string list"
  af_hostAllowlist :: "string list"
  af_execCommand :: string
  af_execCommandUser :: string
  af_plugins :: "string list"
  af_traceRotate :: string
  af_statsLogDelay :: int
  af_telemetryInterval :: int
  af_procFSPollingInterval :: int
  af_collectTCPAndTLSReports :: bool
  af_parseTLSHandshakes :: bool
  af_maxWitnessSize_bytes :: int
  af_dockerExtensionMode :: bool
  af_healthCheckPort :: int

text \<open>The values before the command line is read; no flag is bound to \<open>outFlag\<close>.\<close>

definition flag_defaults :: agent_flags where
  "flag_defaults =
     \<lparr>af_outFlag = no_location, af_projectID = [], af_postmanCollectionID = [], af_interfaces = [], af_filter = [],
      af_sampleRate = 1, af_rateLimit = DefaultRateLimit, af_tags = [], af_appendByTag = False, af_pathExclusions = [],
      af_hostExclusions = [], af_pathAllowlist = [], af_hostAllowlist = [], af_execCommand = [], af_execCommandUser = [],
      af_plugins = [], af_traceRotate = [], af_statsLogDelay = DefaultStatsLogDelay_seconds,
      af_telemetryInterval = DefaultTelemetryInterval_seconds,
      af_procFSPollingInterval = DefaultProcFSPollingInterval_seconds,
      af_collectTCPAndTLSReports = DefaultCollectTCPAndTLSReports, af_parseTLSHandshakes = DefaultParseTLSHandshakes,
      af_maxWitnessSize_bytes = DefaultMaxWitnessSize_bytes, af_dockerExtensionMode = False, af_healthCheckPort = 50343\<rparr>"

record pflag =
  pf_Float :: "string \<Rightarrow> rat option"
  pf_Int :: "string \<Rightarrow> int option"
  pf_Bool :: "string \<Rightarrow> bool option"
  pf_csv :: "string \<Rightarrow> string list option"

text \<open>
  One flag with its value; a list flag that is given again adds to the list, whose default is empty. Unknown
  names and values that cannot be parsed are errors.
\<close>

definition flag_bindings :: "pflag \<Rightarrow> string \<Rightarrow> agent_flags \<Rightarrow> (string \<times> agent_flags option) list" where
  "flag_bindings P v f =
     [(''project'', Some (f\<lparr>af_projectID := v\<rparr>)),
      (''collection'', Some (f\<lparr>af_postmanCollectionID := v\<rparr>)),
      (''filter'', Some (f\<lparr>af_filter := v\<rparr>)),
      (''interfaces'', map_option (\<lambda>x. f\<lparr>af_interfaces := af_interfaces f @ x\<rparr>) (pf_csv P v)),
      (''sample-rate'', map_option (\<lambda>x. f\<lparr>af_sampleRate := x\<rparr>) (pf_Float P v)),
      (''rate-limit'', map_option (\<lambda>x. f\<lparr>af_rateLimit := x\<rparr>) (pf_Float P v)),
      (''tags'', map_option (\<lambda>x. f\<lparr>af_tags := af_tags f @ x\<rparr>) (pf_csv P v)),
      (''append-by-tag'', map_option (\<lambda>x. f\<lparr>af_appendByTag := x\<rparr>) (pf_Bool P v)),
      (''path-exclusions'', map_option (\<lambda>x. f\<lparr>af_pathExclusions := af_pathExclusions f @ x\<rparr>) (pf_csv P v)),
      (''host-exclusions'', map_option (\<lambda>x. f\<lparr>af_hostExclusions := af_hostExclusions f @ x\<rparr>) (pf_csv P v)),
      (''path-allow'', map_option (\<lambda>x. f\<lparr>af_pathAllowlist := af_pathAllowlist f @ x\<rparr>) (pf_csv P v)),
      (''host-allow'', map_option (\<lambda>x. f\<lparr>af_hostAllowlist := af_hostAllowlist f @ x\<rparr>) (pf_csv P v)),
      (''command'', Some (f\<lparr>af_execCommand := v\<rparr>)),
      (''c'', Some (f\<lparr>af_execCommand := v\<rparr>)),
      (''user'', Some (f\<lparr>af_execCommandUser := v\<rparr>)),
      (''u'', Some (f\<lparr>af_execCommandUser := v\<rparr>)),
      (''plugins'', map_option (\<lambda>x. f\<lparr>af_plugins := af_plugins f @ x\<rparr>) (pf_csv P v)),
      (''trace-rotate'', Some (f\<lparr>af_traceRotate := v\<rparr>)),
      (''stats-log-delay'', map_option (\<lambda>x. f\<lparr>af_statsLogDelay := x\<rparr>) (pf_Int P v)),
      (''telemetry-interval'', map_option (\<lambda>x. f\<lparr>af_telemetryInterval := x\<rparr>) (pf_Int P v)),
      (''proc-polling-interval'', map_option (\<lambda>x. f\<lparr>af_procFSPollingInterval := x\<rparr>) (pf_Int P v)),
      (''report-tcp-and-tls'', map_option (\<lambda>x. f\<lparr>af_collectTCPAndTLSReports := x\<rparr>) (pf_Bool P v)),
      (''parse-tls-handshakes'', map_option (\<lambda>x. f\<lparr>af_parseTLSHandshakes := x\<rparr>) (pf_Bool P v)),
      (''max-witness-size-bytes'', map_option (\<lambda>x. f\<lparr>af_maxWitnessSize_bytes := x\<rparr>) (pf_Int P v)),
      (''docker-ext-mode'', map_option (\<lambda>x. f\<lparr>af_dockerExtensionMode := x\<rparr>) (pf_Bool P v)),
      (''health-check-port'', map_option (\<lambda>x. f\<lparr>af_healthCheckPort := x\<rparr>) (pf_Int P v))]"

definition set_flag :: "pflag \<Rightarrow> string \<times> string \<Rightarrow> agent_flags \<Rightarrow> agent_flags option" where
  "set_flag P nv f = (case map_of (flag_bindings P (snd nv) f) (fst nv) of Some r \<Rightarrow> r | None \<Rightarrow> None)"

fun set_flags :: "pflag \<Rightarrow> (string \<times> string) list \<Rightarrow> agent_flags \<Rightarrow> agent_flags option" where
  "set_flags P [] f = Some f"
| "set_flags P (nv # nvs) f = (case set_flag P nv f of None \<Rightarrow> None | Some f \<Rightarrow> set_flags P nvs f)"

text \<open>\<open>MarkFlagsMutuallyExclusive\<close> looks at which flags were given.\<close>

definition parse_flags :: "pflag \<Rightarrow> (string \<times> string) list \<Rightarrow> go_err + agent_flags" where
  "parse_flags P nvs =
     (case set_flags P nvs flag_defaults of
        None \<Rightarrow> Inl (Err ''flag'')
      | Some f \<Rightarrow>
          if ''project'' \<in> set (map fst nvs) \<and> ''collection'' \<in> set (map fst nvs)
          then Inl (Err ''if any flags in the group [project collection] are set none of the others can be'')
          else Inr f)"

section \<open>The apidump command\<close>

record ('h, 's, 'q, 'c, 'w) command_env =
  ce_tags :: "string list \<Rightarrow> string + tags"
  ce_host :: "('h, 's, 'q) plugin_host"
  ce_ParseID :: "string \<Rightarrow> string + service_id"
  ce_cache :: "('c, service_id) cache_ops"
  ce_client :: "'w front_client"
  ce_sessions :: "service_id \<Rightarrow> 'w \<Rightarrow> 'w \<times> (rest_error + listed_session list)"
  ce_ParseDuration :: "string \<Rightarrow> string + duration"
  ce_capture :: apidump_env

definition ParseTagsAndWarn :: "(string list \<Rightarrow> string + tags) \<Rightarrow> string list \<Rightarrow> go_err + tags" where
  "ParseTagsAndWarn FromPairs tagsArg =
     (case FromPairs tagsArg of Inl e \<Rightarrow> Inl (Wrapped ''failed to parse tags'' (Err e)) | Inr t \<Rightarrow> Inr t)"

text \<open>Looking up an existing trace: the output to use.\<close>

definition append_by_tag ::
  "('h, 's, 'q, 'c, 'w) command_env \<Rightarrow> agent_flags \<Rightarrow> tags \<Rightarrow> 'c \<times> 'w \<Rightarrow> ('c \<times> 'w) \<times> (go_err + location)" where
  "append_by_tag env f traceTags st =
     (if \<not> af_appendByTag f then (st, Inr (af_outFlag f))
      else case lo_AkitaURI (af_outFlag f) of
        None \<Rightarrow> (st, Inl (Err ''append-by-tag can only be used with a cloud-based trace''))
      | Some u \<Rightarrow>
          if au_ObjectName u \<noteq> [] then (st, Inl (Err ''Cannot specify a trace name together with append-by-tag''))
          else (case GetTraceURIByTags (ce_cache env) (ce_client env) (ce_sessions env) (au_ServiceName u) (map_len traceTags) st of
                  (st, Inl e) \<Rightarrow> (st, Inl (LookupErr e))
                | (st, Inr destURI) \<Rightarrow>
                    (st, Inr (if tu_ObjectName destURI \<noteq> []
                       then (af_outFlag f)\<lparr>lo_AkitaURI := Some \<lparr>au_ServiceName = tu_ServiceName destURI,
                              au_ObjectName = tu_ObjectName destURI, au_ObjectType = Some TRACE\<rparr>\<rparr>
                       else af_outFlag f))))"

definition rotate_interval :: "(string \<Rightarrow> string + duration) \<Rightarrow> agent_flags \<Rightarrow> location \<Rightarrow> go_err + duration" where
  "rotate_interval ParseDuration f out =
     (if (case lo_AkitaURI out of Some u \<Rightarrow> au_ObjectName u = [] | None \<Rightarrow> False) \<or> af_projectID f \<noteq> []
         \<or> af_postmanCollectionID f \<noteq> []
      then (if af_traceRotate f \<noteq> [] then
              (case ParseDuration (af_traceRotate f) of
                 Inl e \<Rightarrow> Inl (Wrapped ''Failed to parse trace rotation interval.'' (Err e))
               | Inr d \<Rightarrow> Inr d)
            else Inr DefaultTraceRotateInterval)
      else Inr 0)"

definition agent_args ::
  "('h, 's, 'q, 'c, 'w) command_env \<Rightarrow> agent_flags \<Rightarrow> 'c \<times> 'w \<Rightarrow> ('c \<times> 'w) \<times> (go_err + apidump_args \<times> 'q list)" where
  "agent_args env f st =
     (case ParseTagsAndWarn (ce_tags env) (af_tags f) of
        Inl e \<Rightarrow> (st, Inl e)
      | Inr traceTags \<Rightarrow>
     (case Load (ce_host env) (af_plugins f) of
        Inl e \<Rightarrow> (st, Inl (Wrapped ''failed to load plugins'' e))
      | Inr plugins \<Rightarrow>
     if af_projectID f = [] \<and> af_postmanCollectionID f = []
     then (st, Inl (Err ''exactly one of --project or --collection must be specified''))
     else
     (case (if af_projectID f \<noteq> [] then ce_ParseID env (af_projectID f) else Inr []) of
        Inl e \<Rightarrow> (st, Inl (Wrapped ''failed to parse project ID'' (Err e)))
      | Inr serviceID \<Rightarrow>
     (case append_by_tag env f traceTags st of
        (st, Inl e) \<Rightarrow> (st, Inl e)
      | (st, Inr out) \<Rightarrow>
     (case rotate_interval (ce_ParseDuration env) f out of
        Inl e \<Rightarrow> (st, Inl e)
      | Inr traceRotateInterval \<Rightarrow>
     (let rateLimit = (if af_rateLimit f \<le> 0 then 1000 else af_rateLimit f);
          parseTLS = (if af_collectTCPAndTLSReports f then True else af_parseTLSHandshakes f)
      in (st, Inr (\<lparr>ar_Out = out, ar_PostmanCollectionID = af_postmanCollectionID f, ar_ServiceID = serviceID,
            ar_Interfaces = af_interfaces f, ar_Filter = af_filter f, ar_Tags = Some traceTags,
            ar_PathExclusions = af_pathExclusions f, ar_HostExclusions = af_hostExclusions f,
            ar_PathAllowlist = af_pathAllowlist f, ar_HostAllowlist = af_hostAllowlist f,
            ar_SampleRate = af_sampleRate f, ar_WitnessesPerMinute = rateLimit,
            ar_ExecCommand = af_execCommand f, ar_ExecCommandUser = af_execCommandUser f,
            ar_LearnSessionLifetime = traceRotateInterval, ar_StatsLogDelay = af_statsLogDelay f,
            ar_TelemetryInterval = af_telemetryInterval f,
            ar_CollectTCPAndTLSReports = af_collectTCPAndTLSReports f, ar_ParseTLSHandshakes = parseTLS,
            ar_MaxWitnessSize_bytes = af_maxWitnessSize_bytes f\<rparr>, plugins))))))))"

text \<open>
  The command: the error with which it ends, if it does; \<open>cmdErr\<close> is the error of the subcommand, and
  \<open>err_text\<close> what \<open>Error()\<close> makes of errors.
\<close>

definition agent_RunE ::
  "('h, 's, 'q, 'c, 'w) command_env \<Rightarrow> (go_err \<Rightarrow> string) \<Rightarrow> agent_flags \<Rightarrow> go_err option \<Rightarrow> happening \<Rightarrow> 'c \<times> 'w
     \<Rightarrow> ('c \<times> 'w) \<times> go_err option option" where
  "agent_RunE env err_text f cmdErr h st =
     (case agent_args env f st of
        (st, Inl e) \<Rightarrow> (st, Some (Some e))
      | (st, Inr (args, plugins)) \<Rightarrow>
          (st, case apidump_Run (ce_capture env) args (h\<lparr>hp_cmdErr := map_option err_text cmdErr\<rparr>) of
                 None \<Rightarrow> None
               | Some (_, None) \<Rightarrow> Some None
               | Some (_, Some e) \<Rightarrow> Some (Some (AkitaErr (capture_error cmdErr e)))))"

section \<open>What the command line can ask for\<close>

lemma bindings_keep:
  "list_all (\<lambda>(n, r). \<forall>f'. r = Some f' \<longrightarrow> af_outFlag f' = af_outFlag f
     \<and> (n = ''project'' \<or> af_projectID f' = af_projectID f)
     \<and> (n = ''collection'' \<or> af_postmanCollectionID f' = af_postmanCollectionID f)) (flag_bindings P v f)"
  unfolding flag_bindings_def by (simp add: map_option_case split: option.split)

lemma set_flag_keeps:
  assumes "set_flag P (n, v) f = Some f'"
  shows "af_outFlag f' = af_outFlag f \<and> (n = ''project'' \<or> af_projectID f' = af_projectID f)
    \<and> (n = ''collection'' \<or> af_postmanCollectionID f' = af_postmanCollectionID f)"
proof -
  from assms have "(n, Some f') \<in> set (flag_bindings P v f)"
    by (auto simp: set_flag_def dest: map_of_SomeD split: option.splits)
  with bindings_keep [of f P v] show ?thesis unfolding list_all_iff by blast
qed

lemma set_flags_keep:
  "set_flags P nvs f = Some f' \<Longrightarrow> af_outFlag f' = af_outFlag f
     \<and> (''project'' \<notin> set (map fst nvs) \<longrightarrow> af_projectID f' = af_projectID f)
     \<and> (''collection'' \<notin> set (map fst nvs) \<longrightarrow> af_postmanCollectionID f' = af_postmanCollectionID f)"
proof (induction nvs arbitrary: f)
  case (Cons nv nvs)
  obtain n v where nv: "nv = (n, v)" by fastforce
  from Cons.prems obtain g where g: "set_flag P (n, v) f = Some g" "set_flags P nvs g = Some f'"
    by (auto simp: nv split: option.splits)
  from Cons.IH [OF g(2)] set_flag_keeps [OF g(1)] show ?case by (auto simp: nv)
qed simp

lemma flag_defaults_fields:
  "af_outFlag flag_defaults = no_location" "af_projectID flag_defaults = []" "af_postmanCollectionID flag_defaults = []"
  by (simp_all add: flag_defaults_def)

lemma parse_flags_keep:
  assumes "parse_flags P nvs = Inr f"
  shows "af_outFlag f = no_location" "af_projectID f = [] \<or> af_postmanCollectionID f = []"
proof -
  from assms have "set_flags P nvs flag_defaults = Some f"
    and "\<not> (''project'' \<in> set (map fst nvs) \<and> ''collection'' \<in> set (map fst nvs))"
    by (auto simp only: parse_flags_def split: option.splits if_splits)
  with set_flags_keep [of P nvs flag_defaults f]
  show "af_outFlag f = no_location" "af_projectID f = [] \<or> af_postmanCollectionID f = []"
    unfolding flag_defaults_fields by blast+
qed


text \<open>
  C26: the exit code of a subcommand is the exit code of the agent. When the capture was prepared and the command
  that it runs ends with a code, however its error is wrapped, the \<open>apidump\<close> command ends with an error for which
  the process exits with that code, without printing the usage; a failure to run it exits with 1.
\<close>

theorem exit_code_preserved:
  assumes "agent_args env f st = (st', Inr (args, plugins))" "prepare (ce_capture env) (lint args) = Inr p"
    and "ar_ExecCommand args \<noteq> []" "cmdErr = Some e"
  shows "\<exists>err. agent_RunE env err_text f cmdErr h st = (st', Some (Some err))
    \<and> Execute (Some err) = ([TelemetryError, TelemetryShutdown], case errors_Cause e of ProcessExit c \<Rightarrow> c | _ \<Rightarrow>
        (case as_ExitError e of Some c \<Rightarrow> c | None \<Rightarrow> 1))"
proof -
  have cmd: "ar_ExecCommand (lint args) \<noteq> []" using assms(3) by (simp add: lint_def)
  let ?h = "h\<lparr>hp_cmdErr := Some (err_text e)\<rparr>"
  have "\<exists>reports. apidump_Run (ce_capture env) args ?h = Some (reports, Some (SubcommandFailed (err_text e)))"
    using cmd by (auto simp: apidump_Run_def session_Run_def assms(2) Let_def after_subcommand_def finish_capture_def)
  then obtain reports where
    run: "apidump_Run (ce_capture env) args ?h = Some (reports, Some (SubcommandFailed (err_text e)))" ..
  let ?err = "AkitaErr (Wrapped ''trace collection failed'' (subcommand_error e))"
  have "agent_RunE env err_text f cmdErr h st = (st', Some (Some ?err))"
    by (simp add: agent_RunE_def assms(1,4) run capture_error_def)
  moreover have "Execute (Some ?err) = ([TelemetryError, TelemetryShutdown], case errors_Cause e of ProcessExit c \<Rightarrow> c | _ \<Rightarrow>
        (case as_ExitError e of Some c \<Rightarrow> c | None \<Rightarrow> 1))"
    by (auto simp: Execute_def subcommand_error_def Let_def split: go_err.split)
  ultimately show ?thesis by blast
qed

text \<open>
  A plugin whose symbol has another type: nothing is loaded, not even the official plugin, and no error is given.
\<close>

lemma wrong_plugin_drops_all:
  assumes "ph_Precompiled H path = None" "ph_Open H path = Inr p" "ph_Lookup H p = Inr symb" "ph_loader H symb = None"
  shows "load_paths H loaded (path # paths) = Inr []"
  using assms by simp

text \<open>A command line that captures on one interface while a subcommand runs, which exits with 3.\<close>

definition demo_command_env :: "(unit, unit, unit, unit, unit) command_env" where
  "demo_command_env =
     \<lparr>ce_tags = (\<lambda>_. Inr fmempty),
      ce_host = \<lparr>ph_Precompiled = (\<lambda>_. None), ph_Open = (\<lambda>_. Inr ()), ph_Lookup = (\<lambda>_. Inr ()), ph_loader = (\<lambda>_. None),
                 ph_Official = None\<rparr>,
      ce_ParseID = (\<lambda>i. if i = [] then Inl ''empty'' else Inr i),
      ce_cache = \<lparr>cache_Get = (\<lambda>_ _. None), cache_Set = (\<lambda>_ _ c. c)\<rparr>,
      ce_client = \<lparr>fc_GetServices = (\<lambda>w. (w, Inr [])), fc_GetService = (\<lambda>i w. (w, Inr \<lparr>is_ID = i, is_Name = i\<rparr>)),
                   fc_CreateService = (\<lambda>n c w. (w, Inr ''svc''))\<rparr>,
      ce_sessions = (\<lambda>_ w. (w, Inr [])), ce_ParseDuration = (\<lambda>_. Inl ''none''), ce_capture = demo_apidump_env False\<rparr>"

definition demo_pflag :: pflag where
  "demo_pflag = \<lparr>pf_Float = (\<lambda>_. None), pf_Int = (\<lambda>_. None), pf_Bool = (\<lambda>_. None), pf_csv = (\<lambda>v. Some [v])\<rparr>"

definition demo_flags :: agent_flags where
  "demo_flags = flag_defaults\<lparr>af_projectID := ''svc'', af_interfaces := [''eth0''], af_filter := ''port 80'',
     af_hostExclusions := [''internal''], af_execCommand := ''test''\<rparr>"

lemma demo_flags_parsed:
  "parse_flags demo_pflag [(''project'', ''svc''), (''interfaces'', ''eth0''), (''filter'', ''port 80''),
     (''host-exclusions'', ''internal''), (''command'', ''test'')] = Inr demo_flags"
  by (simp add: parse_flags_def set_flag_def flag_bindings_def demo_pflag_def demo_flags_def flag_defaults_def)

lemma demo_agent_args:
  "agent_args demo_command_env demo_flags ((), ())
     = (((), ()), Inr (demo_apidump_args\<lparr>ar_Tags := Some fmempty, ar_ExecCommand := ''test''\<rparr>, []))"
  by (simp add: agent_args_def ParseTagsAndWarn_def demo_command_env_def demo_flags_def flag_defaults_def Load_def
      append_by_tag_def rotate_interval_def no_location_def DefaultRateLimit_def DefaultTraceRotateInterval_def
      DefaultStatsLogDelay_seconds_def DefaultTelemetryInterval_seconds_def DefaultCollectTCPAndTLSReports_def
      DefaultParseTLSHandshakes_def DefaultMaxWitnessSize_bytes_def demo_apidump_args_def)


lemma exit_code_preserved_witness:
  "\<exists>err. agent_RunE demo_command_env (\<lambda>_. ''exit status 3'') demo_flags (Some (ProcessExit 3)) demo_happening ((), ())
       = (((), ()), Some (Some err))
     \<and> snd (Execute (Some err)) = 3"
proof -
  let ?a = "demo_apidump_args\<lparr>ar_Tags := Some fmempty, ar_ExecCommand := ''test''\<rparr>"
  have lint: "lint ?a = ?a"
    by (simp add: demo_apidump_args_def lint_def removeEmptyStrings_def)
  obtain p where p: "prepare (demo_apidump_env False) ?a = Inr p" by (rule demo_prepared_any [OF refl])
  have "prepare (ce_capture demo_command_env) (lint ?a) = Inr p" using p lint by (simp add: demo_command_env_def)
  from exit_code_preserved [OF demo_agent_args this, of "Some (ProcessExit 3)" "ProcessExit 3"]
  show ?thesis by fastforce
qed

end
