(* ===== verification/Ec2_Setup.thy ===== *)
theory Ec2_Setup
  imports Kube_Inject Interfaces
begin

text \<open>
  cmd/internal/ec2: setting the agent up as a systemd service. Each command that is run, each file that is made
  and each step that is reported is recorded; what the commands, the prompt and the operating system answer is an
  argument, for the files by their path.
\<close>

section \<open>What the setup does\<close>

datatype ec2_act = Step string | Ran "string list" | Created string | Filled string string | Exited int

datatype command_outcome = Succeeded string | Exit int string | NotRun string

record ec2_env =
  ev_user :: "string + string"
  ev_systemctl :: bool
  ev_run :: "string list \<Rightarrow> command_outcome"
  ev_confirm :: "bool \<times> string option"
  ev_create_fails :: "string \<Rightarrow> string option"
  ev_fill_fails :: "string \<Rightarrow> string option"
  ev_Getenv :: "string \<Rightarrow> string"

text \<open>The result of a part of the setup: it goes on, the process exits, or an error is returned.\<close>

datatype ec2_result = Go | ExitProcess | Failed string

definition envFilePath :: string where "envFilePath = ''/etc/default/postman-insights-agent''"
definition serviceFileName :: string where "serviceFileName = ''postman-insights-agent.service''"
definition serviceFilePath :: string where "serviceFilePath = ''/usr/lib/systemd/system/postman-insights-agent.service''"
definition nonExisting :: string where
  "nonExisting = ''Failed to get unit file state for postman-insights-agent.service: No such file or directory''"

text \<open>The settings of postman-insights-agent.tmpl; its comments and the service file are left out.\<close>

definition envFileTemplate :: "string \<Rightarrow> string \<Rightarrow> string" where
  "envFileTemplate PostmanAPIKey CollectionId =
     concat (map line [''POSTMAN_API_KEY='' @ PostmanAPIKey, ''COLLECTION_ID='' @ CollectionId, ''INTERFACES='', ''FILTER='',
       ''EXTRA_APIDUMP_ARGS=''])"

definition checkUserPermissions :: "ec2_env \<Rightarrow> ec2_result" where
  "checkUserPermissions env =
     (case ev_user env of
        Inl e \<Rightarrow> Failed (''could not get current user: '' @ e)
      | Inr name \<Rightarrow> if EqualFold name ''root'' then Go else Failed ''Please run the command again with root user'')"

definition checkSystemdExists :: "ec2_env \<Rightarrow> ec2_act list \<Rightarrow> ec2_act list \<times> ec2_result" where
  "checkSystemdExists env acts =
     (acts @ [Step ''Checking if systemd exists''],
      if ev_systemctl env then Go else Failed ''Could not find systemd binary in your OS.'')"

text \<open>Whether the answer is no is looked at before the error of the prompt.\<close>

definition askToReconfigure :: "ec2_env \<Rightarrow> ec2_act list \<Rightarrow> ec2_act list \<times> ec2_result" where
  "askToReconfigure env acts =
     (case ev_confirm env of
        (isReconfigure, err) \<Rightarrow>
          if \<not> isReconfigure then (acts @ [Exited 0], ExitProcess)
          else (acts, case err of Some e \<Rightarrow> Failed (''failed to run reconfiguration prompt: '' @ e) | None \<Rightarrow> Go))"

definition checkReconfiguration :: "ec2_env \<Rightarrow> ec2_act list \<Rightarrow> ec2_act list \<times> ec2_result" where
  "checkReconfiguration env acts =
     (let cmd = [''systemctl'', ''is-enabled'', ''postman-insights-agent'']; acts = acts @ [Ran cmd]
      in case ev_run env cmd of
           Exit code out \<Rightarrow>
             if code \<noteq> 1 then (acts, Failed ''Received non 1 exitcode for systemctl is-enabled.'')
             else if str_Contains out ''disabled'' then askToReconfigure env acts
             else if str_Contains out nonExisting then (acts, Go)
             else (acts, Failed ''failed to run systemctl is-enabled postman-insights-agent'')
         | NotRun e \<Rightarrow> (acts, Failed ''failed to run systemctl is-enabled postman-insights-agent'')
         | Succeeded out \<Rightarrow>
             if str_Contains out ''enabled'' then askToReconfigure env acts
             else (acts, Failed ''The systemctl is-enabled command produced output this tool does not recognize''))"

definition run_command :: "ec2_env \<Rightarrow> string list \<Rightarrow> string \<Rightarrow> ec2_act list \<Rightarrow> ec2_act list \<times> ec2_result" where
  "run_command env cmd msg acts =
     (acts @ [Ran cmd], case ev_run env cmd of Succeeded _ \<Rightarrow> Go | _ \<Rightarrow> Failed msg)"

text \<open>Making a file and filling it are two operations, each of which can fail.\<close>

definition create_and_fill :: "ec2_env \<Rightarrow> string \<Rightarrow> string \<Rightarrow> ec2_act list \<Rightarrow> ec2_act list \<times> ec2_result" where
  "create_and_fill env path data acts =
     (case ev_create_fails env path of
        Some e \<Rightarrow> (acts, Failed e)
      | None \<Rightarrow>
          (case ev_fill_fails env path of
             Some e \<Rightarrow> (acts @ [Created path], Failed e)
           | None \<Rightarrow> (acts @ [Created path, Filled path data], Go)))"

definition and_then :: "ec2_act list \<times> ec2_result \<Rightarrow> (ec2_act list \<Rightarrow> ec2_act list \<times> ec2_result) \<Rightarrow> ec2_act list \<times> ec2_result" where
  "and_then r f = (case r of (acts, Go) \<Rightarrow> f acts | _ \<Rightarrow> r)"

definition configureSystemdFiles :: "ec2_env \<Rightarrow> string \<Rightarrow> string \<Rightarrow> ec2_act list \<Rightarrow> ec2_act list \<times> ec2_result" where
  "configureSystemdFiles env serviceFile collectionId acts =
     and_then (checkReconfiguration env (acts @ [Step ''Configuring systemd files''])) (\<lambda>acts.
     and_then (run_command env [''mkdir'', ''-p'', ''/etc/default/''] ''failed to create /etc/default/ directory'' acts) (\<lambda>acts.
     and_then (create_and_fill env envFilePath (envFileTemplate (ev_Getenv env ''POSTMAN_API_KEY'') collectionId) acts) (\<lambda>acts.
     and_then (run_command env [''mkdir'', ''-p'', ''/usr/lib/systemd/system/'']
         ''failed to create /usr/lib/systemd/system/ directory'' acts) (\<lambda>acts.
     create_and_fill env serviceFilePath serviceFile acts))))"

definition enablePostmanAgent :: "ec2_env \<Rightarrow> ec2_act list \<Rightarrow> ec2_act list \<times> ec2_result" where
  "enablePostmanAgent env acts =
     and_then (run_command env [''systemctl'', ''daemon-reload''] ''failed to run systemctl daemon-reload''
         (acts @ [Step ''Enabling postman-insights-agent as a service''])) (\<lambda>acts.
     run_command env [''systemctl'', ''enable'', ''--now'', serviceFileName] ''faild to run systemctl enable --now'' acts)"

definition setupAgentForServer :: "ec2_env \<Rightarrow> string \<Rightarrow> string \<Rightarrow> ec2_act list \<times> ec2_result" where
  "setupAgentForServer env serviceFile collectionId =
     and_then ([], checkUserPermissions env) (\<lambda>acts.
     and_then (checkSystemdExists env acts) (\<lambda>acts.
     and_then (configureSystemdFiles env serviceFile collectionId acts) (\<lambda>acts.
     enablePostmanAgent env acts)))"

text \<open>The command; the collection is looked up as \<open>kube inject\<close> does it.\<close>

definition addAgentToEC2 ::
  "('c, 'w) kube_session \<Rightarrow> ec2_env \<Rightarrow> string \<Rightarrow> string \<Rightarrow> ('c, 'w) kube_state
     \<Rightarrow> ('c, 'w) kube_state \<times> ec2_act list \<times> (kube_error + ec2_result)" where
  "addAgentToEC2 S env serviceFile collectionId t =
     (case RequirePostmanAPICredentials (ks_creds S) of
        Inl e \<Rightarrow> (t, [], Inl e)
      | Inr _ \<Rightarrow>
          if collectionId = [] then (t, [], Inl (Plain ''Must specify the ID of your collection with the --collection flag.''))
          else (case lookupService S collectionId t of
                  (t, Some e) \<Rightarrow> (t, [], Inl e)
                | (t, None) \<Rightarrow> (case setupAgentForServer env serviceFile collectionId of (acts, r) \<Rightarrow> (t, acts, Inr r))))"

section \<open>Consent, order and contents\<close>

lemma and_then_cases:
  "and_then (acts, r) f = (if r = Go then f acts else (acts, r))"
  by (cases r) (simp_all add: and_then_def)

definition consent :: "ec2_env \<Rightarrow> bool" where
  "consent env \<longleftrightarrow>
     (\<exists>out. ev_run env [''systemctl'', ''is-enabled'', ''postman-insights-agent''] = Exit 1 out \<and> str_Contains out nonExisting)
     \<or> ev_confirm env = (True, None)"

definition asked :: "ec2_act \<Rightarrow> bool" where
  "asked a \<longleftrightarrow> a = Ran [''systemctl'', ''is-enabled'', ''postman-insights-agent''] \<or> a = Exited 0 \<or> (\<exists>s. a = Step s)"

lemma ask_outcome:
  "askToReconfigure env acts = (acts', r) \<Longrightarrow> (set acts' \<subseteq> insert (Exited 0) (set acts)) \<and> (r = Go \<longrightarrow> ev_confirm env = (True, None))"
  by (auto simp: askToReconfigure_def split: prod.splits if_splits option.splits)

lemma reconfiguration_outcome:
  assumes "checkReconfiguration env acts = (acts', r)" "\<forall>a \<in> set acts. asked a"
  shows "(\<forall>a \<in> set acts'. asked a) \<and> (r = Go \<longrightarrow> consent env)"
proof -
  let ?acts = "acts @ [Ran [''systemctl'', ''is-enabled'', ''postman-insights-agent'']]"
  have a: "\<forall>a \<in> insert (Exited 0) (set ?acts). asked a" using assms(2) by (simp add: asked_def)
  have ask: "(\<forall>a \<in> set acts'. asked a) \<and> (r = Go \<longrightarrow> consent env)" if "askToReconfigure env ?acts = (acts', r)"
    using ask_outcome [OF that] a unfolding consent_def by blast
  show ?thesis
  proof (cases "ev_run env [''systemctl'', ''is-enabled'', ''postman-insights-agent'']")
    case (Succeeded out)
    with assms(1) a ask show ?thesis by (auto simp: checkReconfiguration_def Let_def split: if_splits)
  next
    case (Exit code out)
    then show ?thesis
    proof (cases "code = 1 \<and> str_Contains out ''disabled''")
      case True
      with Exit assms(1) ask show ?thesis by (simp add: checkReconfiguration_def Let_def)
    next
      case False
      with Exit assms(1) have "acts' = ?acts" "r = Go \<Longrightarrow> consent env"
        by (auto simp: checkReconfiguration_def consent_def Let_def split: if_splits)
      with a show ?thesis by auto
    qed
  next
    case (NotRun e)
    with assms(1) a show ?thesis by (auto simp: checkReconfiguration_def Let_def)
  qed
qed

text \<open>After the consent: the two files, then the service.\<close>

definition set_up :: "ec2_env \<Rightarrow> string \<Rightarrow> string \<Rightarrow> ec2_act list \<Rightarrow> ec2_act list \<times> ec2_result" where
  "set_up env serviceFile collectionId acts =
     and_then (and_then (run_command env [''mkdir'', ''-p'', ''/etc/default/''] ''failed to create /etc/default/ directory'' acts) (\<lambda>acts.
     and_then (create_and_fill env envFilePath (envFileTemplate (ev_Getenv env ''POSTMAN_API_KEY'') collectionId) acts) (\<lambda>acts.
     and_then (run_command env [''mkdir'', ''-p'', ''/usr/lib/systemd/system/'']
         ''failed to create /usr/lib/systemd/system/ directory'' acts) (\<lambda>acts.
     create_and_fill env serviceFilePath serviceFile acts)))) (enablePostmanAgent env)"

lemma set_up_outcome:
  assumes "set_up env serviceFile collectionId acts = (acts', r)"
    "Ran [''systemctl'', ''enable'', ''--now'', serviceFileName] \<notin> set acts"
  shows "Ran [''systemctl'', ''enable'', ''--now'', serviceFileName] \<in> set acts' \<or> r = Go \<Longrightarrow>
      Filled envFilePath (envFileTemplate (ev_Getenv env ''POSTMAN_API_KEY'') collectionId) \<in> set acts'
      \<and> Filled serviceFilePath serviceFile \<in> set acts'"
    and "r = Go \<Longrightarrow> last acts' = Ran [''systemctl'', ''enable'', ''--now'', serviceFileName]"
  using assms
  by (auto simp: set_up_def and_then_cases run_command_def create_and_fill_def enablePostmanAgent_def
      split: option.splits command_outcome.splits if_splits)

lemma setup_cases:
  assumes "setupAgentForServer env serviceFile collectionId = (acts, r)"
  obtains (refused) "\<forall>a \<in> set acts. asked a" "r \<noteq> Go"
  | (agreed) acts0 where "EqualFold (projr (ev_user env)) ''root''" "ev_systemctl env" "consent env" "\<forall>a \<in> set acts0. asked a"
      "set_up env serviceFile collectionId acts0 = (acts, r)"
proof (cases "checkUserPermissions env = Go \<and> ev_systemctl env")
  case False
  with assms refused show thesis
    by (auto simp: setupAgentForServer_def and_then_cases checkSystemdExists_def asked_def split: if_splits)
next
  case True
  then have user: "EqualFold (projr (ev_user env)) ''root''"
    by (auto simp: checkUserPermissions_def split: sum.splits if_splits)
  obtain acts0 r0 where c: "checkReconfiguration env [Step ''Checking if systemd exists'', Step ''Configuring systemd files''] = (acts0, r0)"
    by fastforce
  from reconfiguration_outcome [OF this] have a: "\<forall>a \<in> set acts0. asked a" "r0 = Go \<longrightarrow> consent env"
    by (auto simp: asked_def)
  show thesis
  proof (cases "r0 = Go")
    case False
    with assms True c a(1) refused show thesis
      by (auto simp: setupAgentForServer_def and_then_cases checkSystemdExists_def configureSystemdFiles_def)
  next
    case go: True
    with assms True c have "set_up env serviceFile collectionId acts0 = (acts, r)"
      by (simp add: setupAgentForServer_def and_then_cases checkSystemdExists_def configureSystemdFiles_def set_up_def)
    with user True a go agreed show thesis by blast
  qed
qed


definition demo_ec2_env :: ec2_env where
  "demo_ec2_env =
     \<lparr>ev_user = Inr ''root'', ev_systemctl = True,
      ev_run = (\<lambda>cmd. if cmd = [''systemctl'', ''is-enabled'', ''postman-insights-agent''] then Exit 1 nonExisting else Succeeded []),
      ev_confirm = (False, None), ev_create_fails = (\<lambda>_. None), ev_fill_fails = (\<lambda>_. None), ev_Getenv = (\<lambda>_. ''K'')\<rparr>"

lemma demo_setup_runs: "\<exists>acts. setupAgentForServer demo_ec2_env [] ''c'' = (acts, Go)"
proof -
  have "\<not> str_Contains nonExisting ''disabled''" "str_Contains nonExisting nonExisting" by code_simp+
  then show ?thesis
    by (simp add: setupAgentForServer_def and_then_cases checkUserPermissions_def checkSystemdExists_def
        configureSystemdFiles_def checkReconfiguration_def run_command_def create_and_fill_def enablePostmanAgent_def
        demo_ec2_env_def Let_def EqualFold_def)
qed


text \<open>
  The key that the service is given is that of the environment, not the one that was checked: with a key that is
  only in the configuration file, the setup succeeds and writes an empty key.
\<close>

lemma configured_key_not_written:
  assumes "addAgentToEC2 S env serviceFile collectionId t = (t', acts, Inr Go)" "ev_Getenv env ''POSTMAN_API_KEY'' = []"
  shows "fst (PostmanAPIKeyAndEnvironment (ks_creds S)) \<noteq> [] \<and> Filled envFilePath (envFileTemplate [] collectionId) \<in> set acts"
proof -
  from assms(1) have key: "fst (PostmanAPIKeyAndEnvironment (ks_creds S)) \<noteq> []"
    and run: "setupAgentForServer env serviceFile collectionId = (acts, Go)"
    by (auto simp: addAgentToEC2_def RequirePostmanAPICredentials_def split: sum.splits if_splits prod.splits option.splits)
  from run show ?thesis
  proof (cases rule: setup_cases)
    case (agreed acts0)
    then have "Ran [''systemctl'', ''enable'', ''--now'', serviceFileName] \<notin> set acts0" by (auto simp: asked_def)
    from set_up_outcome(1) [OF agreed(5) this] key assms(2) show ?thesis by simp
  qed simp
qed

text \<open>An answer that cannot be read ends the process with the code of success.\<close>

lemma failed_prompt_exits_0:
  "ev_confirm env = (False, Some e) \<Longrightarrow> askToReconfigure env acts = (acts @ [Exited 0], ExitProcess)"
  by (simp add: askToReconfigure_def)

end
