(* ===== verification/Legacy_Commands.thy ===== *)
theory Legacy_Commands
  imports Har Trace_Tags Service_Lookup Files
begin

text \<open>
  Two older commands: upload/run.go (specifications and HAR files are uploaded) and cmd/internal/legacy/specs.go
  (a specification is fetched, waiting until it is computed). The calls of the cloud and the files are arguments.
\<close>

section \<open>Upload\<close>

datatype upload_type = SpecObject | TraceObject | OtherType string

datatype upload_error =
    UploadResolve string lookup_error
  | UnknownObjectType string
  | UploadRead string string
  | UploadRefused rest_error
  | TraceCreationFailed string rest_error
  | TraceExists string
  | HarFailed string string
  | IndexOutOfRange

record upload_args =
  ua_ServiceName :: string
  ua_ObjectName :: string
  ua_ObjectType :: upload_type
  ua_FilePaths :: "string list"
  ua_Tags :: tags
  ua_Append :: bool
  ua_IncludeTrackers :: bool

text \<open>
  What the command uses: the caches and clients of the lookups, the calls of the learn client, the files, the
  conversions of HAR messages with the UUID of each file, and the parts of the collector.
\<close>

record ('c, 'd, 'w, 'q, 'r, 'p, 'id) upload_env =
  ue_services :: "('c, service_id) cache_ops"
  ue_sessions :: "('d, string) cache_ops"
  ue_client :: "'w front_client"
  ue_session_id :: "service_id \<Rightarrow> string \<Rightarrow> 'w \<Rightarrow> 'w \<times> (rest_error + string)"
  ue_CreateLearnSession :: "service_id \<Rightarrow> string \<Rightarrow> tags \<Rightarrow> 'w \<Rightarrow> 'w \<times> (rest_error + string)"
  ue_UploadSpec :: "service_id \<Rightarrow> string \<Rightarrow> string \<Rightarrow> tags \<Rightarrow> 'w \<Rightarrow> 'w \<times> rest_error option"
  ue_random_spec :: string
  ue_random_trace :: string
  ue_UploadedSource :: string
  ue_ReadFile :: "string \<Rightarrow> string + string"
  ue_LoadHAR :: "string \<Rightarrow> string + bool \<times> ('q, 'r) har_entry list"
  ue_har_uuid :: "string \<Rightarrow> uuid"
  ue_convertRequest :: "'q \<Rightarrow> string + http_request"
  ue_convertResponse :: "'r \<Rightarrow> string + http_response"
  ue_parse :: "('p, 'id) parser"
  ue_plugins :: "'p plugin list"
  ue_obfuscate :: "'p \<Rightarrow> 'p option"
  ue_domain :: string
  ue_dogfood :: bool
  ue_add :: adder
  ue_sha :: "string \<Rightarrow> 'id"
  ue_IsTrackerDomain :: "string \<Rightarrow> bool"
  ue_now :: instant
  ue_order :: "('p, 'id) backend \<Rightarrow> 'id list"

text \<open>The state: the caches and the world, and the backend collectors that were made and closed, each with its reports.\<close>

record ('c, 'd, 'w, 'p, 'id) upload_state =
  us_caches :: "'c \<times> 'd"
  us_world :: 'w
  us_ingested :: "('p, 'id) backend list"

text \<open>The collector: the backend under the packet counter, and the filter of trackers before them.\<close>

type_synonym ('p, 'id) upload_collector = "'id fset option \<times> packet_counter \<times> ('p, 'id) backend"

definition upload_process ::
  "('c, 'd, 'w, 'q, 'r, 'p, 'id) upload_env \<Rightarrow> bool \<Rightarrow> (('p, 'id) upload_collector, unit) downstream" where
  "upload_process env includeTrackers t s =
     (let counting = packet_count_process (ue_domain env) (ue_dogfood env) (Update (ue_add env))
            (backend_process (ue_parse env) (ue_plugins env) (ue_obfuscate env))
      in if includeTrackers then (case counting t (snd s) of (s', e) \<Rightarrow> ((fst s, s'), e))
         else New3PTrackerFilterCollector (ue_sha env) (ue_IsTrackerDomain env) counting t s)"

fun upload_files ::
  "('c, 'd, 'w, 'q, 'r, 'p, 'id) upload_env \<Rightarrow> bool \<Rightarrow> string list \<Rightarrow> ('p, 'id) upload_collector
     \<Rightarrow> ('p, 'id) upload_collector \<times> upload_error option" where
  "upload_files env includeTrackers [] col = (col, None)"
| "upload_files env includeTrackers (f # fs) col =
     (case ProcessHAR (upload_process env includeTrackers) (ue_convertRequest env) (ue_convertResponse env) (ue_har_uuid env f)
         (ue_LoadHAR env f) col of
        (col, Inl e) \<Rightarrow> (col, Some (HarFailed f e))
      | (col, Inr _) \<Rightarrow> upload_files env includeTrackers fs col)"

text \<open>The deferred \<open>Close\<close> of the backend collector runs on every return.\<close>

definition ingest ::
  "('c, 'd, 'w, 'q, 'r, 'p, 'id) upload_env \<Rightarrow> upload_args \<Rightarrow> string \<Rightarrow> ('c, 'd, 'w, 'p, 'id) upload_state
     \<Rightarrow> ('c, 'd, 'w, 'p, 'id) upload_state \<times> upload_error option" where
  "ingest env args traceID st =
     (case upload_files env (ua_IncludeTrackers args) (ua_FilePaths args) (None, NewPacketCounter, NewBackendCollector traceID) of
        ((_, _, b), e) \<Rightarrow>
          (st\<lparr>us_ingested := us_ingested st
              @ [fst (backend_close (ue_plugins env) (ue_obfuscate env) (ue_now env) (ue_order env b) b
                      :: ('p, 'id) backend \<times> unit option)]\<rparr>, e))"

definition uploadTraces ::
  "('c, 'd, 'w, 'q, 'r, 'p, 'id) upload_env \<Rightarrow> upload_args \<Rightarrow> service_id \<Rightarrow> string \<Rightarrow> ('c, 'd, 'w, 'p, 'id) upload_state
     \<Rightarrow> ('c, 'd, 'w, 'p, 'id) upload_state \<times> upload_error option" where
  "uploadTraces env args serviceID traceName st =
     (case GetLearnSessionIDByName (ue_sessions env) (ue_session_id env serviceID) traceName (snd (us_caches st), us_world st) of
        ((d, w), r) \<Rightarrow>
          let st = st\<lparr>us_caches := (fst (us_caches st), d), us_world := w\<rparr>
          in (case r of
                Inl _ \<Rightarrow>
                  (case ue_CreateLearnSession env serviceID traceName (ua_Tags args) (us_world st) of
                     (w, Inl e) \<Rightarrow> (st\<lparr>us_world := w\<rparr>, Some (TraceCreationFailed traceName e))
                   | (w, Inr traceID) \<Rightarrow> ingest env args traceID (st\<lparr>us_world := w\<rparr>))
              | Inr traceID \<Rightarrow>
                  if \<not> ua_Append args then (st, Some (TraceExists traceName)) else ingest env args traceID st))"

definition uploadSpec ::
  "('c, 'd, 'w, 'q, 'r, 'p, 'id) upload_env \<Rightarrow> upload_args \<Rightarrow> service_id \<Rightarrow> string \<Rightarrow> ('c, 'd, 'w, 'p, 'id) upload_state
     \<Rightarrow> ('c, 'd, 'w, 'p, 'id) upload_state \<times> upload_error option" where
  "uploadSpec env args serviceID specName st =
     (case ua_FilePaths args of
        [] \<Rightarrow> (st, Some IndexOutOfRange)
      | f # _ \<Rightarrow>
          (case ue_ReadFile env f of
             Inl e \<Rightarrow> (st, Some (UploadRead f e))
           | Inr fileContent \<Rightarrow>
               (case ue_UploadSpec env serviceID specName fileContent (ua_Tags args) (us_world st) of
                  (w, e) \<Rightarrow> (st\<lparr>us_world := w\<rparr>, map_option UploadRefused e))))"

definition upload_Run ::
  "('c, 'd, 'w, 'q, 'r, 'p, 'id) upload_env \<Rightarrow> upload_args \<Rightarrow> ('c, 'd, 'w, 'p, 'id) upload_state
     \<Rightarrow> ('c, 'd, 'w, 'p, 'id) upload_state \<times> upload_error option" where
  "upload_Run env args st =
     (case GetServiceIDByName (ue_services env) (ue_client env) (ua_ServiceName args) (fst (us_caches st), us_world st) of
        ((c, w), r) \<Rightarrow>
          let st = st\<lparr>us_caches := (c, snd (us_caches st)), us_world := w\<rparr>
          in (case r of
                Inl e \<Rightarrow> (st, Some (UploadResolve (ua_ServiceName args) e))
              | Inr svc \<Rightarrow>
                  let args = (if fmlookup (ua_Tags args) XAkitaSource = None
                              then args\<lparr>ua_Tags := fmupd XAkitaSource (ue_UploadedSource env) (ua_Tags args)\<rparr> else args)
                  in (case ua_ObjectType args of
                        SpecObject \<Rightarrow> uploadSpec env args svc (if ua_ObjectName args = [] then ue_random_spec env else ua_ObjectName args) st
                      | TraceObject \<Rightarrow> uploadTraces env args svc (if ua_ObjectName args = [] then ue_random_trace env else ua_ObjectName args) st
                      | OtherType t \<Rightarrow> (st, Some (UnknownObjectType t)))))"

lemma ingest_appends:
  "ingest env args traceID st = (st', e) \<Longrightarrow> us_world st' = us_world st \<and> (\<exists>b. us_ingested st' = us_ingested st @ [b])"
  by (auto simp: ingest_def split: prod.splits)

text \<open>
  A trace that is there is only added to when that was asked for: otherwise the upload ends with an error after the
  lookups, and has made no trace and no collector.
\<close>

lemma existing_trace_kept:
  assumes "GetLearnSessionIDByName (ue_sessions env) (ue_session_id env svc) traceName (snd (us_caches st), us_world st) = ((d, w), Inr i)"
    and "\<not> ua_Append args"
  shows "uploadTraces env args svc traceName st
    = (st\<lparr>us_caches := (fst (us_caches st), d), us_world := w\<rparr>, Some (TraceExists traceName))"
  using assms by (simp add: uploadTraces_def)

section \<open>Fetching a specification\<close>

datatype spec_error =
    OpenFailed string string
  | ServicesUnavailable rest_error
  | NoServiceID string
  | NoVersion string rest_error
  | GetSpecFailed rest_error
  | StillPending
  | WriteFailed

definition legacy_getServiceIDByName :: "rest_error + cloud_service list \<Rightarrow> string \<Rightarrow> spec_error + service_id" where
  "legacy_getServiceIDByName services name =
     (case services of
        Inl e \<Rightarrow> Inl (ServicesUnavailable e)
      | Inr svcs \<Rightarrow>
          let serviceID = (case find (\<lambda>svc. cs_Name svc = name) svcs of Some svc \<Rightarrow> cs_ID svc | None \<Rightarrow> [])
          in if serviceID = [] then Inl (NoServiceID name) else Inr serviceID)"

text \<open>
  The answers to the attempts, by their number: an error, or the specification, with whether it is done. The loop
  may never end, \<open>None\<close>.
\<close>

partial_function (option) get_spec_loop ::
  "bool \<Rightarrow> (nat \<Rightarrow> rest_error + bool \<times> string) \<Rightarrow> nat \<Rightarrow> (spec_error + string) option" where
  "get_spec_loop wait answers i =
     (case answers i of
        Inl e \<Rightarrow> Some (Inl (GetSpecFailed e))
      | Inr (isDone, spec) \<Rightarrow>
          if \<not> isDone then (if \<not> wait then Some (Inl StillPending) else get_spec_loop wait answers (Suc i))
          else Some (Inr spec))"

record spec_flags =
  sf_service :: string
  sf_output :: string
  sf_wait :: bool

text \<open>
  \<open>OpenFile\<close> without truncation: what is written replaces the start of what was there. The result is the
  files, what was printed, and the error; \<open>ParseID\<close> is \<open>akid.ParseIDAs\<close>.
\<close>

definition spec_output :: "os_env \<Rightarrow> spec_flags \<Rightarrow> string \<Rightarrow> files \<Rightarrow> files \<times> string \<times> spec_error option" where
  "spec_output os fl s fs =
     (if sf_output fl = [] then (fs, s, None)
      else let old = (case fmlookup fs (sf_output fl) of Some c \<Rightarrow> c | None \<Rightarrow> [])
           in (case os_write_fails os (sf_output fl) of
                 Some n \<Rightarrow> if s = [] then (fs, [], None)
                           else (fmupd (sf_output fl) (take n s @ drop (length (take n s)) old) fs, [], Some WriteFailed)
               | None \<Rightarrow> (fmupd (sf_output fl) (s @ drop (length s) old) fs, [], None)))"

definition runGetSpec ::
  "os_env \<Rightarrow> (rest_error + cloud_service list) \<Rightarrow> (string \<Rightarrow> string option) \<Rightarrow> (service_id \<Rightarrow> string \<Rightarrow> rest_error + string)
     \<Rightarrow> (service_id \<Rightarrow> string \<Rightarrow> nat \<Rightarrow> rest_error + bool \<times> string) \<Rightarrow> spec_flags \<Rightarrow> string \<Rightarrow> files
     \<Rightarrow> (files \<times> string \<times> spec_error option) option" where
  "runGetSpec os services ParseID GetSpecVersion GetSpec fl specIdentifier fs =
     (let opened = (if sf_output fl = [] then Inr fs
            else if has_key fs (sf_output fl) then (case os_create_fails os (sf_output fl) of Some e \<Rightarrow> Inl e | None \<Rightarrow> Inr fs)
            else (case os_Create os (sf_output fl) fs of (_, Some e) \<Rightarrow> Inl e | (fs, None) \<Rightarrow> Inr fs))
      in case opened of
           Inl e \<Rightarrow> Some (fs, [], Some (OpenFailed (sf_output fl) e))
         | Inr fs \<Rightarrow>
             (case legacy_getServiceIDByName services (sf_service fl) of
                Inl e \<Rightarrow> Some (fs, [], Some e)
              | Inr serviceID \<Rightarrow>
                  (case (case ParseID specIdentifier of
                           Some i \<Rightarrow> Inr i
                         | None \<Rightarrow> (case GetSpecVersion serviceID specIdentifier of
                                      Inl e \<Rightarrow> Inl (NoVersion specIdentifier e) | Inr i \<Rightarrow> Inr i)) of
                     Inl e \<Rightarrow> Some (fs, [], Some e)
                   | Inr specID \<Rightarrow>
                       (case get_spec_loop (sf_wait fl) (GetSpec serviceID specID) 0 of
                          None \<Rightarrow> None
                        | Some (Inl e) \<Rightarrow> Some (fs, [], Some e)
                        | Some (Inr spec) \<Rightarrow> Some (spec_output os fl spec fs)))))"

text \<open>An answer that ends the loop.\<close>

definition ends_wait :: "bool \<Rightarrow> rest_error + bool \<times> string \<Rightarrow> bool" where
  "ends_wait wait a \<longleftrightarrow> (case a of Inl _ \<Rightarrow> True | Inr (isDone, _) \<Rightarrow> isDone \<or> \<not> wait)"

definition answer_result :: "rest_error + bool \<times> string \<Rightarrow> spec_error + string" where
  "answer_result a =
     (case a of Inl e \<Rightarrow> Inl (GetSpecFailed e) | Inr (isDone, spec) \<Rightarrow> if isDone then Inr spec else Inl StillPending)"

lemma loop_step:
  "get_spec_loop wait answers i =
     (if ends_wait wait (answers i) then Some (answer_result (answers i)) else get_spec_loop wait answers (Suc i))"
  by (subst get_spec_loop.simps) (auto simp: ends_wait_def answer_result_def split: sum.split prod.split)

lemma loop_ends:
  assumes "ends_wait wait (answers n)" "\<And>m. i \<le> m \<Longrightarrow> m < n \<Longrightarrow> \<not> ends_wait wait (answers m)" "i \<le> n"
  shows "get_spec_loop wait answers i = Some (answer_result (answers n))"
  using assms(3,2)
proof (induction i rule: inc_induct)
  case base
  show ?case by (subst loop_step) (simp add: assms(1))
next
  case (step k)
  have "\<not> ends_wait wait (answers k)" using step.prems step.hyps by simp
  moreover have "get_spec_loop wait answers (Suc k) = Some (answer_result (answers n))"
    by (rule step.IH) (use step.prems in auto)
  ultimately show ?case by (subst loop_step) simp
qed

lemma loop_some:
  assumes "get_spec_loop wait answers i = Some res"
  shows "\<exists>n \<ge> i. ends_wait wait (answers n)"
proof (rule get_spec_loop.raw_induct [of "\<lambda>w a i r. \<exists>n \<ge> i. ends_wait w (a n)", OF _ assms])
  fix loop w and a :: "nat \<Rightarrow> rest_error + bool \<times> string" and i r
  assume IH: "\<And>w a i r. loop w a i = Some r \<Longrightarrow> \<exists>n \<ge> i. ends_wait w (a n)"
    and run: "(case a i of Inl e \<Rightarrow> Some (Inl (GetSpecFailed e))
      | Inr (isDone, spec) \<Rightarrow> if \<not> isDone then (if \<not> w then Some (Inl StillPending) else loop w a (Suc i))
          else Some (Inr spec)) = Some r"
  show "\<exists>n \<ge> i. ends_wait w (a n)"
  proof (cases "ends_wait w (a i)")
    case False
    with run have "loop w a (Suc i) = Some r" by (auto simp: ends_wait_def split: sum.splits prod.splits if_splits)
    from IH [OF this] show ?thesis by (meson Suc_leD)
  qed blast
qed

text \<open>
  C38: when fetching a specification ends. The loop returns exactly when one of the answers is an error, or the
  finished specification, or when it was not told to wait; and then with the first such answer: it never gives up
  on a specification that is finished later, and never returns an unfinished one.
\<close>

theorem spec_wait_ends:
  "(\<exists>res. get_spec_loop wait answers 0 = Some res) = (\<exists>n. ends_wait wait (answers n))
   \<and> (get_spec_loop wait answers 0 = (if \<exists>n. ends_wait wait (answers n)
        then Some (answer_result (answers (LEAST n. ends_wait wait (answers n)))) else None))"
proof (cases "\<exists>n. ends_wait wait (answers n)")
  case True
  have "get_spec_loop wait answers 0 = Some (answer_result (answers (LEAST n. ends_wait wait (answers n))))"
    by (rule loop_ends) (use True in \<open>auto dest: not_less_Least intro: LeastI_ex\<close>)
  with True show ?thesis by simp
next
  case False
  then have "get_spec_loop wait answers 0 = None"
    using loop_some [of wait answers 0] by (cases "get_spec_loop wait answers 0") auto
  with False show ?thesis by simp
qed

text \<open>What is left in an output file that was longer.\<close>

lemma longer_output_keeps_tail:
  assumes "sf_output fl \<noteq> []" "fmlookup fs (sf_output fl) = Some old" "os_write_fails os (sf_output fl) = None"
    "length s < length old"
  shows "fmlookup (fst (spec_output os fl s fs)) (sf_output fl) = Some (s @ drop (length s) old)"
    "s @ drop (length s) old \<noteq> s"
  using assms by (auto simp: spec_output_def Let_def)

end
