(* ===== verification/Spec2Isabelle.thy ===== *)
theory Spec2Isabelle
  imports Collectors Rate_Limit Tcp_Tracker Tls_Tracker Backend_Collector Report_Buffer
    Ecs_Workflow Cloud_Requests Tcp_Framing Packet_Capture
    Apidump_Summary Interfaces Har Apidump Telemetry Usage
    Nginx_Backend Daemon Kube_Inject Nginx_Install Agent_Command Ec2_Setup Legacy_Commands
begin

text \<open>
  A verification development of the Postman Insights agent (observability-cli, written in Go). The agent captures
  the HTTP traffic of a service, turns it into witnesses from which every value has been obfuscated, and uploads
  these to the Postman cloud. Around this pipeline are the ways of running it: the \<open>apidump\<close> command, a daemon
  that receives traces from language middleware, a server for the NGINX module, the upload of HAR files, and the
  commands that install the agent on ECS, Kubernetes, EC2 and beside NGINX.

  \<^bold>\<open>The pipeline and its theories\<close>

  Packets (pcap/) are read from an interface by \<open>Packet_Capture\<close> (net_parse.go, run.go, pcap.go); the bytes of a TCP
  connection become messages in \<open>Tcp_Flow\<close> (stream.go). Each message goes through a stack of collectors, built
  for one interface and one filter in \<open>Collector_Stack\<close>: the rate limit (\<open>Rate_Limit\<close>, trace/rate_limit.go), the
  trackers of TCP connections and TLS handshakes (\<open>Tcp_Tracker\<close>, \<open>Tls_Tracker\<close> over the common \<open>Tracker\<close>), the
  counting, sampling and filtering collectors (\<open>Collectors\<close>, trace/collector.go, filters.go, tee.go,
  har_collector.go) and, at the end, the backend collector (\<open>Backend_Collector\<close>, trace/backend_collector.go and
  obfuscate.go), which parses messages (\<open>Parse_Http\<close> and \<open>Learn_Text\<close>, learn/), pairs requests with responses,
  obfuscates and hands reports to the buffer that is uploaded (\<open>Report_Buffer\<close>, trace/report_buffer.go).
  \<open>Packet_Stats\<close> (trace/stats.go) counts what passes, \<open>Apidump_Summary\<close> (apidump/summary.go) tells the user.
  \<open>Apidump\<close> (apidump/apidump.go, exec.go, error.go, location/) runs a whole capture: the interfaces and BPF
  filters (\<open>Interfaces\<close>, apidump/net.go), the project and trace (\<open>Service_Lookup\<close>, util/util.go), the tags
  (\<open>Trace_Tags\<close>, ci/ and deployment/), the goroutines and the end. \<open>Agent_Command\<close> is its command line
  (cmd/internal/apidump, cmd/root.go, pluginloader). \<open>Telemetry\<close> and \<open>Usage\<close> are what the agent reports of itself.

  \<open>Rest_Client\<close> (rest/, cfg/, useragent/) makes the requests to the cloud. \<open>Cloud_Client\<close> (daemon/internal) is the
  state machine of the daemon, \<open>Daemon\<close> and \<open>Daemon_Http\<close> (daemon/run.go, http.go) its server; \<open>Nginx_Backend\<close>
  (integrations/nginx) feeds mirrored requests to the same backend collector, \<open>Har\<close> (apispec/har.go, har_loader/)
  the entries of HAR files, and \<open>Legacy_Commands\<close> (upload/, cmd/internal/legacy) the files of an upload.

  \<open>Ecs_Api\<close> and \<open>Ecs_Workflow\<close> (cmd/internal/ecs) add the agent to a service on ECS, \<open>Kube_Inject\<close>
  (cmd/internal/kube) to Kubernetes Deployments, \<open>Ec2_Setup\<close> (cmd/internal/ec2) to systemd and \<open>Nginx_Install\<close>
  (integrations/nginx/install.go, github.go) installs the NGINX module. \<open>Files\<close> has the paths and files they use.

  \<^bold>\<open>How the code is modelled\<close>

  Structs are records, enumerations and sums are datatypes, Go maps are finite maps (\<open>fmap\<close>), and a \<open>range\<close> over a
  map takes the order in which Go visits it as an argument (\<open>iter_order\<close> in \<open>Prelude\<close>). Bytes and the counters
  whose overflow matters are words, durations and instants are integers of nanoseconds; floating-point numbers are
  exact rationals. An error is the left side of a sum or a value of \<open>option\<close>, a panic is a value of its own
  (\<open>cc_panic\<close> in \<open>Cloud_Client\<close>, for instance). Operations take the state and give it back changed. Where
  goroutines share state, each of their atomic steps is a step of a relation or an event of a list, and the theorems
  hold for every interleaving: \<open>Rate_Limit\<close>, the trackers, \<open>Cloud_Client\<close>, \<open>Daemon\<close>. The model names follow
  the code; a prefix or suffix is added where a name is taken in the library.

  What is not in the repository is an argument of the definitions that use it: akita-libs (identifiers, URIs,
  the fields of witnesses), gopacket, AWS, Kubernetes and Segment clients, JSON, YAML and regular expressions, the
  retrying HTTP client, the operating system and the clock. The contracts that theorems need of them are named
  predicates (\<open>cache_law\<close>, \<open>converter_law\<close>, \<open>temp_law\<close>, \<open>stat_law\<close>, \<open>visits\<close>, the laws of a message parser and of the
  counters), and a witness shows that each can hold.

  \<^bold>\<open>Interfaces\<close>

  Locales state what a component promises to its user and are interpreted on the model's own definitions:
  \<open>gate\<close>, \<open>strict_gate\<close> and \<open>stateless_gate\<close> (a collector that hands on some packets; sampling, own traffic, request
  filters, counting), \<open>layer\<close> (a collector of a stack, to which gates and trackers are lifted), \<open>tracker\<close> and
  \<open>lossless_tracker\<close> (connections that are reported once), \<open>packet_count_consumer\<close>, \<open>message_parser\<close> (what the backend
  collector needs of parsing), \<open>aws_listing\<close> and \<open>exact_listing\<close> (paged listings). Rule induction over
  \<open>rl_step\<close>, \<open>cc_step\<close>, \<open>daemon_step\<close> and the workflow's reachable states gives the invariants.

  \<^bold>\<open>What the lemmas show\<close>

  For the pipeline: messages are cut out of TCP streams exactly once whatever the pieces (\<open>Tcp_Framing\<close>, a
  refinement of an abstract stream of messages); excluded requests and their responses never pass a stack, and the
  agent's own requests are recognised by the marker that \<open>Rest_Client\<close> sets; an exchange that passes is reported
  once, in either order of its halves, and only obfuscated; reports that fit are uploaded once and in order; the
  rate limit admits at most its budget per epoch and keeps the responses of what it admitted; connections are
  reported once with the right data. For the daemon: each service has one long poll, each request is answered once
  or held in one place, also through the HTTP server. For the installers: nothing is changed before the user agreed
  or in a dry run, changes come in the right order, and what is already installed is not installed twice. Round
  trips (user agent, flags of the ECS container), termination (the wait for a deployment, HTTP parsing, fetching a
  specification, the stream loops), and the exit code of a subcommand complete them. Where the code does not do
  what it means to, a theorem or lemma says what it does; the list of findings of the manifest names them.

  \<^bold>\<open>Bounds and fuel\<close>

  \<open>reassembledWithIgnore\<close> takes as fuel the number of bytes available, of which each round consumes at least one or
  ends. The multipart parser takes the size of the body, each part being shorter than it; more fuel does not change
  a result. The workflow of ECS runs with fuel because the user may go back for ever; its invariants hold for every
  fuel and the wait for the deployment ends after 21 ticks. The loop that fetches a specification is a partial
  function, \<open>None\<close> when it never returns.

  \<^bold>\<open>Not modelled\<close>

  Printing (printer/, ascii, usage texts), version and build numbers (version/, setversion/, architecture/), the
  registration of subcommands and profiling in cmd/root.go, deprecated flags that are ignored (akiflag/), the
  health check server and the development server of NGINX, which only answer or log; opening a capture device
  (pcap.go and packet_util.go, which is test support); the set-up of proxy and TLS of the HTTP client; type
  declarations without operations (aws_utils/, rest/models.go, rest/interface.go, plugin/). Time limits of single
  calls, debug output and the pauses between attempts are left out of the operations that are modelled. The
  protocol parsers themselves (HTTP, TLS, DNS) are akita-libs' and gopacket's.
\<close>

end
